(* ===== verification/Prelude.thy ===== *)
theory Prelude
  imports Main "HOL-Library.Word" "HOL-Library.Monad_Syntax"
begin

text \<open>
  Shared vocabulary of the development: the machine types of the kernel, C bit-fields and
  their algebra, the outcome type of code that can run into undefined behaviour, counted
  loops over such code, and byte-addressed memory with little-endian loads and stores.

  Conventions used by every component:
  \<^item> \<open>size_t\<close>, pointers used as numbers and frame numbers are natural numbers, with the
    wrap-around modulo \<open>2 ^ 64\<close> written out by \<open>add64\<close>, \<open>mul64\<close> and \<open>sub64\<close>; registers,
    descriptors and everything the code masks or shifts are words of the declared width;
  \<^item> an operation that the C++ language leaves undefined (an index past the end of an
    array, a null pointer dereference) or that never returns is the value \<open>None\<close>, so a
    theorem that an operation returns \<open>Some\<close> is a memory-safety and termination claim;
  \<^item> an \<open>Error\<close> the code returns is an ordinary value (theory \<open>KernelError\<close>).
\<close>

unbundle bit_operations_syntax

section \<open>Machine types\<close>

type_synonym u8 = "8 word"
type_synonym u16 = "16 word"
type_synonym u32 = "32 word"
type_synonym u64 = "64 word"
type_synonym size_t = nat

abbreviation size_max :: nat where
  "size_max \<equiv> 2 ^ 64 - 1"

definition add64 :: "size_t \<Rightarrow> size_t \<Rightarrow> size_t" where
  "add64 a b = (a + b) mod 2 ^ 64"

definition mul64 :: "size_t \<Rightarrow> size_t \<Rightarrow> size_t" where
  "mul64 a b = (a * b) mod 2 ^ 64"

definition sub64 :: "size_t \<Rightarrow> size_t \<Rightarrow> size_t" where
  "sub64 a b = nat ((int a - int b) mod 2 ^ 64)"

named_theorems wrap_simps \<open>wrap-around arithmetic on values that fit\<close>
named_theorems bf_simps \<open>reading back bit-fields\<close>
named_theorems ub_splits \<open>case splits for code that may be undefined\<close>

lemma add64_small [simp, wrap_simps]: "a + b < 2 ^ 64 \<Longrightarrow> add64 a b = a + b"
  by (simp add: add64_def)

lemma mul64_small [simp, wrap_simps]: "a * b < 2 ^ 64 \<Longrightarrow> mul64 a b = a * b"
  by (simp add: mul64_def)

lemma sub64_small [simp, wrap_simps]: "b \<le> a \<Longrightarrow> a < 2 ^ 64 \<Longrightarrow> sub64 a b = a - b"
  by (simp add: sub64_def flip: of_nat_diff)

lemma add64_less: "add64 a b < 2 ^ 64"
  by (simp add: add64_def)

lemma case_option_if:
  "(case (if P then Some a else None) of None \<Rightarrow> b | Some c \<Rightarrow> f c) = (if P then f a else b)"
  by simp

declare option.splits [ub_splits] if_splits [ub_splits]

section \<open>Bit-fields\<close>

text \<open>
  A C bit-field of \<open>n\<close> bits that starts at bit \<open>lo\<close> of its storage unit. Reading gives the
  field's value; assigning keeps the \<open>n\<close> low bits of the value and every other bit of the
  unit, as the System V ABI lays bit-fields out from the least significant bit.
\<close>

definition bf_get :: "nat \<Rightarrow> nat \<Rightarrow> 'a::len word \<Rightarrow> 'a word" where
  "bf_get lo n w = take_bit n (drop_bit lo w)"

definition bf_set :: "nat \<Rightarrow> nat \<Rightarrow> 'a::len word \<Rightarrow> 'a word \<Rightarrow> 'a word" where
  "bf_set lo n v w = (w AND NOT (push_bit lo (mask n))) OR push_bit lo (take_bit n v)"

lemma bit_bf_get [bit_simps]:
  "bit (bf_get lo n w) i \<longleftrightarrow> i < n \<and> bit w (lo + i)"
  by (simp add: bf_get_def bit_simps)

lemma bit_bf_set [bit_simps]:
  "bit (bf_set lo n v (w :: 'a::len word)) i \<longleftrightarrow>
     i < LENGTH('a) \<and> (if lo \<le> i \<and> i < lo + n then bit v (i - lo) else bit w i)"
  by (auto simp: bf_set_def bit_simps dest: bit_imp_le_length)

lemma bf_get_set_same [bf_simps]:
  assumes "lo + n \<le> LENGTH('a)"
  shows "bf_get lo n (bf_set lo n v (w :: 'a::len word)) = take_bit n v"
  using assms by (intro bit_word_eqI) (auto simp: bit_simps)

lemma bf_get_set_other [bf_simps]:
  assumes "lo + n \<le> lo' \<or> lo' + n' \<le> lo"
  shows "bf_get lo n (bf_set lo' n' v (w :: 'a::len word)) = bf_get lo n w"
  using assms by (intro bit_word_eqI) (auto simp: bit_simps dest: bit_imp_le_length)

lemma bf_get_zero [simp]: "bf_get lo n 0 = 0"
  by (simp add: bf_get_def)

lemma bf_set_overwrite:
  "bf_set lo n v (bf_set lo n v' w) = bf_set lo n v (w :: 'a::len word)"
  by (intro bit_word_eqI) (auto simp: bit_simps)

lemma bf_set_commute:
  assumes "lo + n \<le> lo' \<or> lo' + n' \<le> lo"
  shows "bf_set lo n v (bf_set lo' n' v' w) = bf_set lo' n' v' (bf_set lo n v (w :: 'a::len word))"
  using assms by (intro bit_word_eqI) (auto simp: bit_simps)

lemma bf_set_get: "bf_set lo n (bf_get lo n w) w = (w :: 'a::len word)"
  by (intro bit_word_eqI) (auto simp: bit_simps dest: bit_imp_le_length)

lemma unat_bf_get_less: "unat (bf_get lo n (w :: 'a::len word)) < 2 ^ n"
proof -
  have "unat (take_bit n (drop_bit lo w)) = take_bit n (unat (drop_bit lo w))"
    by (simp add: unsigned_take_bit_eq)
  then show ?thesis by (simp add: bf_get_def)
qed

lemma unat_take_bit: "unat (take_bit n (w :: 'a::len word)) = unat w mod 2 ^ n"
proof -
  have "unat (take_bit n w) = take_bit n (unat w)" by (rule unsigned_take_bit_eq)
  then show ?thesis by (simp only: take_bit_eq_mod)
qed

lemma unat_bf_get: "unat (bf_get lo n (w :: 'a::len word)) = unat w div 2 ^ lo mod 2 ^ n"
proof -
  have "take_bit LENGTH('a) (unat w) = unat w"
    by (rule take_bit_nat_eq_self) (rule unsigned_less)
  then show ?thesis
    unfolding bf_get_def unsigned_take_bit_eq unsigned_drop_bit_eq
    by (simp only: take_bit_eq_mod drop_bit_eq_div)
qed

lemma unat_two_power:
  assumes "n < LENGTH('a)"
  shows "unat (2 ^ n :: 'a::len word) = 2 ^ n"
proof -
  have "(2 ^ n :: 'a word) = word_of_nat (2 ^ n)" by simp
  moreover have "(2 :: nat) ^ n < 2 ^ LENGTH('a)" using assms by simp
  ultimately show ?thesis by (metis id_apply of_nat_eq_id take_bit_nat_eq_self unsigned_of_nat)
qed

text \<open>Narrowing conversions are ring homomorphisms.\<close>

lemma ucast_down_add:
  assumes "LENGTH('b) \<le> LENGTH('a)"
  shows "(ucast (a + b :: 'a::len word) :: 'b::len word) = ucast a + ucast b"
  using assms by (simp add: word_unat_eq_iff unsigned_ucast_eq take_bit_eq_mod unat_word_ariths mod_mod_cancel le_imp_power_dvd mod_add_eq)

lemma ucast_down_mult:
  assumes "LENGTH('b) \<le> LENGTH('a)"
  shows "(ucast (a * b :: 'a::len word) :: 'b::len word) = ucast a * ucast b"
  using assms by (simp add: word_unat_eq_iff unsigned_ucast_eq take_bit_eq_mod unat_word_ariths mod_mod_cancel le_imp_power_dvd mod_mult_eq)

section \<open>Counted loops\<close>

text \<open>
  \<open>foldM f xs s\<close> runs the body \<open>f x\<close> for the elements of \<open>xs\<close> in order and stops, undefined,
  at the first body that is undefined. A loop \<open>for (i = a; i < b; i++)\<close> whose body leaves the
  bounds alone is \<open>foldM\<close> over \<open>[a..<b]\<close>.
\<close>

fun foldM :: "('a \<Rightarrow> 's \<Rightarrow> 's option) \<Rightarrow> 'a list \<Rightarrow> 's \<Rightarrow> 's option" where
  "foldM f [] s = Some s"
| "foldM f (x # xs) s = (case f x s of None \<Rightarrow> None | Some s' \<Rightarrow> foldM f xs s')"

lemma foldM_append:
  "foldM f (xs @ ys) s = (case foldM f xs s of None \<Rightarrow> None | Some s' \<Rightarrow> foldM f ys s')"
  by (induction xs arbitrary: s) (auto split: option.split)

lemma foldM_Some_fold: "foldM (\<lambda>x s. Some (g x s)) xs s = Some (fold g xs s)"
  by (induction xs arbitrary: s) auto

lemma foldM_cong [fundef_cong]:
  "xs = ys \<Longrightarrow> s = t \<Longrightarrow> (\<And>x s. x \<in> set ys \<Longrightarrow> f x s = g x s) \<Longrightarrow> foldM f xs s = foldM g ys t"
  by (induction xs arbitrary: s t ys) (auto split: option.split)

text \<open>The loop rule: an invariant indexed by the elements already done, with progress.\<close>

lemma foldM_rule:
  assumes "I [] s"
    and step: "\<And>ys x zs t. xs = ys @ x # zs \<Longrightarrow> I ys t \<Longrightarrow> \<exists>t'. f x t = Some t' \<and> I (ys @ [x]) t'"
  shows "\<exists>t. foldM f xs s = Some t \<and> I xs t"
  using step
proof (induction xs rule: rev_induct)
  case Nil
  then show ?case using assms(1) by simp
next
  case (snoc x xs)
  have "\<exists>t. foldM f xs s = Some t \<and> I xs t"
    by (rule snoc.IH) (use snoc.prems in \<open>metis append_Cons append_assoc\<close>)
  then obtain t where t: "foldM f xs s = Some t" "I xs t" by blast
  from snoc.prems [of xs x "[]" t] t(2) obtain t' where "f x t = Some t'" "I (xs @ [x]) t'" by auto
  with t show ?case by (simp add: foldM_append)
qed

text \<open>The same for a property that every defined body keeps (partial correctness).\<close>

lemma foldM_invariant:
  assumes "foldM f xs s = Some t" and "P s"
    and "\<And>x s s'. x \<in> set xs \<Longrightarrow> P s \<Longrightarrow> f x s = Some s' \<Longrightarrow> P s'"
  shows "P t"
  using assms
proof (induction xs arbitrary: s)
  case Nil
  then show ?case by simp
next
  case (Cons x xs)
  then obtain s' where s': "f x s = Some s'" "foldM f xs s' = Some t"
    by (auto split: option.splits)
  have "P s'"
    by (rule Cons.prems(3) [OF _ Cons.prems(2) s'(1)]) simp
  with s'(2) Cons.IH Cons.prems(3) show ?case by (meson list.set_intros(2))
qed

text \<open>One body that is undefined in every state the loop can be in makes the loop undefined.\<close>

lemma foldM_None:
  assumes "x \<in> set xs" and "P s" and "\<And>t. P t \<Longrightarrow> f x t = None"
    and "\<And>y t t'. f y t = Some t' \<Longrightarrow> P t \<Longrightarrow> P t'"
  shows "foldM f xs s = None"
  using assms(1,2)
proof (induction xs arbitrary: s)
  case (Cons y ys)
  then show ?case using assms(3,4) by (auto split: option.split)
qed simp

section \<open>Byte-addressed memory\<close>

type_synonym mem = "u64 \<Rightarrow> u8"

definition load32 :: "mem \<Rightarrow> u64 \<Rightarrow> u32" where
  "load32 m a = ucast (m a) OR push_bit 8 (ucast (m (a + 1)))
     OR push_bit 16 (ucast (m (a + 2))) OR push_bit 24 (ucast (m (a + 3)))"

definition load64 :: "mem \<Rightarrow> u64 \<Rightarrow> u64" where
  "load64 m a = ucast (load32 m a) OR push_bit 32 (ucast (load32 m (a + 4)))"

definition store32 :: "u64 \<Rightarrow> u32 \<Rightarrow> mem \<Rightarrow> mem" where
  "store32 a v m = m(a := ucast v, a + 1 := ucast (drop_bit 8 v),
     a + 2 := ucast (drop_bit 16 v), a + 3 := ucast (drop_bit 24 v))"

lemma load32_store32: "load32 (store32 a v m) a = v"
proof (rule bit_word_eqI)
  fix n assume "n < LENGTH(32)"
  then have "n < 32" by simp
  then consider "n < 8" | "8 \<le> n" "n < 16" | "16 \<le> n" "n < 24" | "24 \<le> n" "n < 32"
    by linarith
  then show "bit (load32 (store32 a v m) a) n \<longleftrightarrow> bit v n"
    by cases (auto simp: load32_def store32_def bit_simps)
qed

end
