(* ===== verification/Registers.thy ===== *)
theory Registers
  imports Prelude
begin

text \<open>
  Memory-mapped registers (\<open>kernel/register.hpp\<close>, \<open>usb/xhci/registers.hpp\<close>,
  \<open>usb/xhci/registers.cpp\<close>). A bit-field struct is its \<open>layout\<close>: the names and widths of its
  fields in declaration order, unnamed ones with an empty name. A field is read and assigned
  by its name, at the position the widths before it add up to. A packed struct of registers is
  a layout as well, in bytes.

  The device behind the registers is a parameter: two functions that read and write a number of
  bytes at an address and may change the device's state.
\<close>

section \<open>Layouts\<close>

type_synonym layout = "(string \<times> nat) list"

fun offset_of :: "layout \<Rightarrow> string \<Rightarrow> nat" where
  "offset_of [] f = 0"
| "offset_of ((g, n) # L) f = (if g = f then 0 else n + offset_of L f)"

fun width_of :: "layout \<Rightarrow> string \<Rightarrow> nat" where
  "width_of [] f = 0"
| "width_of ((g, n) # L) f = (if g = f then n else width_of L f)"

definition rd :: "layout \<Rightarrow> string \<Rightarrow> 'a::len word \<Rightarrow> 'a word" where
  "rd L f w = bf_get (offset_of L f) (width_of L f) w"

definition wr :: "layout \<Rightarrow> string \<Rightarrow> 'a::len word \<Rightarrow> 'a word \<Rightarrow> 'a word" where
  "wr L f v w = bf_set (offset_of L f) (width_of L f) v w"

definition field_names :: "layout \<Rightarrow> string list" where
  "field_names L = filter (\<lambda>f. f \<noteq> []) (map fst L)"

definition total_width :: "layout \<Rightarrow> nat" where
  "total_width L = sum_list (map snd L)"

definition layout_wf :: "nat \<Rightarrow> layout \<Rightarrow> bool" where
  "layout_wf n L \<longleftrightarrow> total_width L \<le> n \<and> distinct (field_names L) \<and> list_all (\<lambda>(f, w). 0 < w) L"

lemma field_end: "f \<in> set (map fst L) \<Longrightarrow> offset_of L f + width_of L f \<le> total_width L"
  by (induction L f rule: offset_of.induct) (auto simp: total_width_def)

lemma fields_disjoint:
  "f \<in> set (map fst L) \<Longrightarrow> g \<in> set (map fst L) \<Longrightarrow> f \<noteq> g \<Longrightarrow>
    offset_of L f + width_of L f \<le> offset_of L g \<or> offset_of L g + width_of L g \<le> offset_of L f"
proof (induction L)
  case (Cons e L)
  obtain h n where "e = (h, n)" by fastforce
  with Cons show ?case by (auto split: if_splits)
qed simp

lemma mem_field_names: "f \<in> set (field_names L) \<longleftrightarrow> f \<noteq> [] \<and> f \<in> set (map fst L)"
  by (auto simp: field_names_def)

lemma rd_wr_same:
  "f \<in> set (field_names L) \<Longrightarrow> total_width L \<le> LENGTH('a) \<Longrightarrow>
    rd L f (wr L f v (w :: 'a::len word)) = take_bit (width_of L f) v"
  unfolding rd_def wr_def using field_end [of f L] by (intro bf_get_set_same) (auto simp: mem_field_names)

lemma rd_wr_other:
  "f \<in> set (field_names L) \<Longrightarrow> g \<in> set (field_names L) \<Longrightarrow> f \<noteq> g \<Longrightarrow>
    rd L f (wr L g v (w :: 'a::len word)) = rd L f w"
  unfolding rd_def wr_def using fields_disjoint [of f L g] by (intro bf_get_set_other) (auto simp: mem_field_names)

section \<open>Registers in memory\<close>

record 'hw Mmio =
  mm_read :: "nat \<Rightarrow> u64 \<Rightarrow> 'hw \<Rightarrow> u64 \<times> 'hw"
  mm_write :: "nat \<Rightarrow> u64 \<Rightarrow> u64 \<Rightarrow> 'hw \<Rightarrow> 'hw"

text \<open>\<open>MemMapRegister<T>::Read\<close> and \<open>Write\<close>, where \<open>T::data\<close> is an array of one element.\<close>

definition Read :: "'hw Mmio \<Rightarrow> u64 \<Rightarrow> 'hw \<Rightarrow> u32 \<times> 'hw" where
  "Read io reg hw = (let (v, hw) = mm_read io 4 reg hw in (ucast v, hw))"

definition Write :: "'hw Mmio \<Rightarrow> u64 \<Rightarrow> u32 \<Rightarrow> 'hw \<Rightarrow> 'hw" where
  "Write io reg v = mm_write io 4 reg (ucast v)"

definition Read64 :: "'hw Mmio \<Rightarrow> u64 \<Rightarrow> 'hw \<Rightarrow> u64 \<times> 'hw" where
  "Read64 io reg = mm_read io 8 reg"

definition Write64 :: "'hw Mmio \<Rightarrow> u64 \<Rightarrow> u64 \<Rightarrow> 'hw \<Rightarrow> 'hw" where
  "Write64 io reg v = mm_write io 8 reg v"

definition Read8 :: "'hw Mmio \<Rightarrow> u64 \<Rightarrow> 'hw \<Rightarrow> u8 \<times> 'hw" where
  "Read8 io reg hw = (let (v, hw) = mm_read io 1 reg hw in (ucast v, hw))"

text \<open>\<open>ArrayWrapper<T>\<close>: an address and a number of elements, with the size of \<open>T\<close>; an access is not checked.\<close>

record ArrayWrapper =
  aw_array :: u64
  aw_size :: u64

definition ArrayWrapper_at :: "u64 \<Rightarrow> ArrayWrapper \<Rightarrow> u64 \<Rightarrow> u64" where
  "ArrayWrapper_at sizeof_T a index = aw_array a + sizeof_T * index"

definition ArrayWrapper_end :: "u64 \<Rightarrow> ArrayWrapper \<Rightarrow> u64" where
  "ArrayWrapper_end sizeof_T a = aw_array a + sizeof_T * aw_size a"

text \<open>A loop that polls a register until a condition fails; a device may keep it spinning.\<close>

partial_function (option) spin_while :: "('hw \<Rightarrow> bool \<times> 'hw) \<Rightarrow> 'hw \<Rightarrow> 'hw option" where
  "spin_while poll hw = (let (again, hw) = poll hw in if again then spin_while poll hw else Some hw)"

section \<open>Capability registers\<close>

definition HCSPARAMS1_Bitmap :: layout where
  "HCSPARAMS1_Bitmap = [(''max_device_slots'', 8), (''max_interrupters'', 11), ('''', 5), (''max_ports'', 8)]"

definition HCSPARAMS2_Bitmap :: layout where
  "HCSPARAMS2_Bitmap = [(''isochronous_scheduling_threshold'', 4), (''event_ring_segment_table_max'', 4), ('''', 13),
     (''max_scratchpad_buffers_high'', 5), (''scratchpad_restore'', 1),
     (''max_scratchpad_buffers_low'', 5)]"

definition HCSPARAMS3_Bitmap :: layout where
  "HCSPARAMS3_Bitmap = [(''u1_device_eixt_latency'', 8), ('''', 8), (''u2_device_eixt_latency'', 16)]"

definition HCCPARAMS1_Bitmap :: layout where
  "HCCPARAMS1_Bitmap = [(''addressing_capability_64'', 1), (''bw_negotiation_capability'', 1), (''context_size'', 1),
     (''port_power_control'', 1), (''port_indicators'', 1), (''light_hc_reset_capability'', 1),
     (''latency_tolerance_messaging_capability'', 1), (''no_secondary_sid_support'', 1),
     (''parse_all_event_data'', 1), (''stopped_short_packet_capability'', 1),
     (''stopped_edtla_capability'', 1), (''contiguous_frame_id_capability'', 1),
     (''maximum_primary_stream_array_size'', 4), (''xhci_extended_capabilities_pointer'', 16)]"

definition DBOFF_Bitmap :: layout where
  "DBOFF_Bitmap = [('''', 2), (''doorbell_array_offset'', 30)]"

definition RTSOFF_Bitmap :: layout where
  "RTSOFF_Bitmap = [('''', 5), (''runtime_register_space_offset'', 27)]"

definition HCCPARAMS2_Bitmap :: layout where
  "HCCPARAMS2_Bitmap = [(''u3_entry_capability'', 1),
     (''configure_endpoint_command_max_exit_latency_too_large_capability'', 1),
     (''force_save_context_capability'', 1), (''compliance_transition_capability'', 1),
     (''large_esit_payload_capability'', 1), (''configuration_information_capability'', 1),
     ('''', 26)]"

definition DBOFF_Offset :: "u32 \<Rightarrow> u32" where
  "DBOFF_Offset w = push_bit 2 (rd DBOFF_Bitmap ''doorbell_array_offset'' w)"

definition RTSOFF_Offset :: "u32 \<Rightarrow> u32" where
  "RTSOFF_Offset w = push_bit 5 (rd RTSOFF_Bitmap ''runtime_register_space_offset'' w)"

definition CapabilityRegisters :: layout where
  "CapabilityRegisters = [(''CAPLENGTH'', 1), (''reserved1'', 1), (''HCIVERSION'', 2), (''HCSPARAMS1'', 4),
     (''HCSPARAMS2'', 4), (''HCSPARAMS3'', 4), (''HCCPARAMS1'', 4), (''DBOFF'', 4), (''RTSOFF'', 4),
     (''HCCPARAMS2'', 4)]"

section \<open>Operational registers\<close>

definition USBCMD_Bitmap :: layout where
  "USBCMD_Bitmap = [(''run_stop'', 1), (''host_controller_reset'', 1), (''interrupter_enable'', 1),
     (''host_system_error_enable'', 1), ('''', 3), (''lignt_host_controller_reset'', 1),
     (''controller_save_state'', 1), (''controller_restore_state'', 1),
     (''enable_wrap_event'', 1), (''enable_u3_mfindex_stop'', 1),
     (''stopped_short_packet_enable'', 1), (''cem_enable'', 1), ('''', 18)]"

definition USBSTS_Bitmap :: layout where
  "USBSTS_Bitmap = [(''host_controller_halted'', 1), ('''', 1), (''host_system_error'', 1),
     (''event_interrupt'', 1), (''port_change_detect'', 1), ('''', 3), (''save_state_status'', 1),
     (''restore_state_status'', 1), (''save_restore_error'', 1), (''controller_not_ready'', 1),
     (''host_controller_error'', 1), ('''', 19)]"

definition CRCR_Bitmap :: layout where
  "CRCR_Bitmap = [(''ring_cycle_state'', 1), (''command_stop'', 1), (''command_abort'', 1),
     (''command_ring_running'', 1), ('''', 2), (''command_ring_pointer'', 58)]"

definition DCBAAP_Bitmap :: layout where
  "DCBAAP_Bitmap = [('''', 6), (''device_context_base_address_array_pointer'', 26)]"

definition CONFIG_Bitmap :: layout where
  "CONFIG_Bitmap = [(''max_device_slots_enabled'', 8), (''u3_entry_enable'', 1),
     (''configuration_information_enable'', 1), ('''', 22)]"

definition CRCR_Pointer :: "u64 \<Rightarrow> u64" where
  "CRCR_Pointer w = push_bit 6 (rd CRCR_Bitmap ''command_ring_pointer'' w)"

definition CRCR_SetPointer :: "u64 \<Rightarrow> u64 \<Rightarrow> u64" where
  "CRCR_SetPointer p w = wr CRCR_Bitmap ''command_ring_pointer'' (drop_bit 6 p) w"

text \<open>
  The pointer field of DCBAAP is declared with 26 bits, so it is promoted to \<open>int\<close> before the
  shift and the result is converted to 64 bits with its sign.
\<close>

definition DCBAAP_Pointer :: "u64 \<Rightarrow> u64" where
  "DCBAAP_Pointer w =
     scast (push_bit 6 (ucast (rd DCBAAP_Bitmap ''device_context_base_address_array_pointer'' w) :: 32 word))"

definition DCBAAP_SetPointer :: "u64 \<Rightarrow> u64 \<Rightarrow> u64" where
  "DCBAAP_SetPointer p w =
     wr DCBAAP_Bitmap ''device_context_base_address_array_pointer'' (drop_bit 6 p) w"

definition OperationalRegisters :: layout where
  "OperationalRegisters = [(''USBCMD'', 4), (''USBSTS'', 4), (''PAGESIZE'', 4), (''reserved1'', 8), (''DNCTRL'', 4),
     (''CRCR'', 8), (''reserved2'', 16), (''DCBAAP'', 8), (''CONFIG'', 4)]"

section \<open>Port registers\<close>

definition PORTSC_Bitmap :: layout where
  "PORTSC_Bitmap = [(''current_connect_status'', 1), (''port_enabled_disabled'', 1), ('''', 1),
     (''over_current_active'', 1), (''port_reset'', 1), (''port_link_state'', 4),
     (''port_power'', 1), (''port_speed'', 4), (''port_indicator_control'', 2),
     (''port_link_state_write_strobe'', 1), (''connect_status_change'', 1),
     (''port_enabled_disabled_change'', 1), (''warm_port_reset_change'', 1),
     (''over_current_change'', 1), (''port_reset_change'', 1), (''port_link_state_change'', 1),
     (''port_config_error_change'', 1), (''cold_attach_status'', 1),
     (''wake_on_connect_enable'', 1), (''wake_on_disconnect_enable'', 1),
     (''wake_on_over_current_enable'', 1), ('''', 2), (''device_removable'', 1),
     (''warm_port_reset'', 1)]"

definition PORTPMSC_Bitmap :: layout where
  "PORTPMSC_Bitmap = [(''u1_timeout'', 8), (''u2_timeout'', 8), (''force_link_pm_accept'', 1), ('''', 15)]"

definition PORTLI_Bitmap :: layout where
  "PORTLI_Bitmap = [(''link_error_count'', 16), (''rx_lane_count'', 4), (''tx_lane_count'', 4), ('''', 8)]"

definition PORTHLPMC_Bitmap :: layout where
  "PORTHLPMC_Bitmap = [(''host_initiated_resume_duration_mode'', 2), (''l1_timeout'', 8),
     (''best_effort_service_latency_deep'', 4), ('''', 18)]"

definition PortRegisterSet :: layout where
  "PortRegisterSet = [(''PORTSC'', 4), (''PORTPMSC'', 4), (''PORTLI'', 4), (''PORTHLPMC'', 4)]"

section \<open>Runtime and doorbell registers\<close>

definition IMAN_Bitmap :: layout where
  "IMAN_Bitmap = [(''interrupt_pending'', 1), (''interrupt_enable'', 1), ('''', 30)]"

definition IMOD_Bitmap :: layout where
  "IMOD_Bitmap = [(''interrupt_moderation_interval'', 16), (''interrupt_moderation_counter'', 16)]"

definition ERSTSZ_Bitmap :: layout where
  "ERSTSZ_Bitmap = [(''event_ring_segment_table_size'', 16), ('''', 16)]"

definition ERSTBA_Bitmap :: layout where
  "ERSTBA_Bitmap = [('''', 6), (''event_ring_segment_table_base_address'', 58)]"

definition ERDP_Bitmap :: layout where
  "ERDP_Bitmap = [(''dequeue_erst_segment_index'', 3), (''event_handler_busy'', 1),
     (''event_ring_dequeue_pointer'', 60)]"

definition ERSTSZ_Size :: "u32 \<Rightarrow> u16" where
  "ERSTSZ_Size w = ucast (rd ERSTSZ_Bitmap ''event_ring_segment_table_size'' w)"

definition ERSTSZ_SetSize :: "u16 \<Rightarrow> u32 \<Rightarrow> u32" where
  "ERSTSZ_SetSize v w = wr ERSTSZ_Bitmap ''event_ring_segment_table_size'' (ucast v) w"

definition ERSTBA_Pointer :: "u64 \<Rightarrow> u64" where
  "ERSTBA_Pointer w = push_bit 6 (rd ERSTBA_Bitmap ''event_ring_segment_table_base_address'' w)"

definition ERSTBA_SetPointer :: "u64 \<Rightarrow> u64 \<Rightarrow> u64" where
  "ERSTBA_SetPointer p w = wr ERSTBA_Bitmap ''event_ring_segment_table_base_address'' (drop_bit 6 p) w"

definition ERDP_Pointer :: "u64 \<Rightarrow> u64" where
  "ERDP_Pointer w = push_bit 4 (rd ERDP_Bitmap ''event_ring_dequeue_pointer'' w)"

definition ERDP_SetPointer :: "u64 \<Rightarrow> u64 \<Rightarrow> u64" where
  "ERDP_SetPointer p w = wr ERDP_Bitmap ''event_ring_dequeue_pointer'' (drop_bit 4 p) w"

definition InterrupterRegisterSet :: layout where
  "InterrupterRegisterSet = [(''IMAN'', 4), (''IMOD'', 4), (''ERSTSZ'', 4), (''reserved'', 4), (''ERSTBA'', 8), (''ERDP'', 8)]"

definition Doorbell_Bitmap :: layout where
  "Doorbell_Bitmap = [(''db_target'', 8), ('''', 8), (''db_stream_id'', 16)]"

definition DoorbellRegister_Ring :: "'hw Mmio \<Rightarrow> u64 \<Rightarrow> u8 \<Rightarrow> u16 \<Rightarrow> 'hw \<Rightarrow> 'hw" where
  "DoorbellRegister_Ring io reg target stream_id =
     Write io reg (wr Doorbell_Bitmap ''db_stream_id'' (ucast stream_id)
       (wr Doorbell_Bitmap ''db_target'' (ucast target) 0))"

section \<open>Extended registers\<close>

definition ExtendedRegister_Bitmap :: layout where
  "ExtendedRegister_Bitmap = [(''capability_id'', 8), (''next_pointer'', 8), (''value'', 16)]"

definition USBLEGSUP_Bitmap :: layout where
  "USBLEGSUP_Bitmap = [(''capability_id'', 8), (''next_pointer'', 8), (''hc_bios_owned_semaphore'', 1), ('''', 7),
     (''hc_os_owned_semaphore'', 1), ('''', 7)]"

text \<open>An iterator is the address of a register, \<open>None\<close> the null pointer that \<open>end()\<close> gives; the step is in words.\<close>

definition AddOrNull :: "u64 \<Rightarrow> u32 \<Rightarrow> u64 option" where
  "AddOrNull p d = (if d = 0 then None else Some (p + 4 * ucast d))"

definition Iterator_next :: "'hw Mmio \<Rightarrow> u64 option \<Rightarrow> 'hw \<Rightarrow> u64 option \<times> 'hw" where
  "Iterator_next io reg hw =
     (case reg of None \<Rightarrow> (None, hw)
      | Some p \<Rightarrow> let (v, hw) = Read io p hw in (AddOrNull p (rd ExtendedRegister_Bitmap ''next_pointer'' v), hw))"

definition ExtendedRegisterList_begin :: "u64 \<Rightarrow> u32 \<Rightarrow> u64 option" where
  "ExtendedRegisterList_begin mmio_base hccp =
     AddOrNull mmio_base (rd HCCPARAMS1_Bitmap ''xhci_extended_capabilities_pointer'' hccp)"

text \<open>\<open>std::find_if\<close> over the list for the first register with the given capability.\<close>

partial_function (option) find_extended ::
  "'hw Mmio \<Rightarrow> u32 \<Rightarrow> u64 option \<Rightarrow> 'hw \<Rightarrow> (u64 option \<times> 'hw) option" where
  "find_extended io cap reg hw =
     (case reg of None \<Rightarrow> Some (None, hw)
      | Some p \<Rightarrow>
          let (v, hw) = Read io p hw in
          if rd ExtendedRegister_Bitmap ''capability_id'' v = cap then Some (Some p, hw)
          else let (next_reg, hw) = Iterator_next io reg hw in find_extended io cap next_reg hw)"

section \<open>The layouts are what the controller expects\<close>

definition register_bitmaps :: "(layout \<times> nat) list" where
  "register_bitmaps =
     [(HCSPARAMS1_Bitmap, 32), (HCSPARAMS2_Bitmap, 32), (HCSPARAMS3_Bitmap, 32), (HCCPARAMS1_Bitmap, 32),
      (DBOFF_Bitmap, 32), (RTSOFF_Bitmap, 32), (HCCPARAMS2_Bitmap, 32), (USBCMD_Bitmap, 32), (USBSTS_Bitmap, 32),
      (CRCR_Bitmap, 64), (CONFIG_Bitmap, 32), (PORTSC_Bitmap, 32), (PORTPMSC_Bitmap, 32), (PORTLI_Bitmap, 32),
      (PORTHLPMC_Bitmap, 32), (IMAN_Bitmap, 32), (IMOD_Bitmap, 32), (ERSTSZ_Bitmap, 32), (ERSTBA_Bitmap, 64),
      (ERDP_Bitmap, 64), (Doorbell_Bitmap, 32), (ExtendedRegister_Bitmap, 32), (USBLEGSUP_Bitmap, 32)]"

lemmas register_layouts = HCSPARAMS1_Bitmap_def HCSPARAMS2_Bitmap_def HCSPARAMS3_Bitmap_def HCCPARAMS1_Bitmap_def
  DBOFF_Bitmap_def RTSOFF_Bitmap_def HCCPARAMS2_Bitmap_def USBCMD_Bitmap_def USBSTS_Bitmap_def CRCR_Bitmap_def
  CONFIG_Bitmap_def PORTSC_Bitmap_def PORTPMSC_Bitmap_def PORTLI_Bitmap_def PORTHLPMC_Bitmap_def IMAN_Bitmap_def
  IMOD_Bitmap_def ERSTSZ_Bitmap_def ERSTBA_Bitmap_def ERDP_Bitmap_def Doorbell_Bitmap_def
  ExtendedRegister_Bitmap_def USBLEGSUP_Bitmap_def DCBAAP_Bitmap_def

text \<open>
  The bit-fields of every xHCI register fill its 32 or 64 bits exactly and have different
  names, so assigning one leaves every other as it was and reads back cut to its width; only
  the 64-bit DCBAAP declares 32 bits. The registers lie at the offsets the controller gives
  them: HCSPARAMS1 at 4, DBOFF at 0x14, RTSOFF at 0x18, CRCR at 0x18, DCBAAP at 0x30, CONFIG at
  0x38, port sets of 16 bytes, interrupter sets of 32 with ERSTBA at 0x10 and ERDP at 0x18.
\<close>

lemma register_layouts_correct:
  "(\<forall>(L, n)\<in>set register_bitmaps. layout_wf n L \<and> total_width L = n \<and>
      (\<forall>f\<in>set (field_names L). \<forall>g\<in>set (field_names L). \<forall>v w :: u64.
        rd L f (wr L g v w) = (if f = g then take_bit (width_of L f) v else rd L f w))) \<and>
    total_width DCBAAP_Bitmap = 32 \<and>
    map (offset_of CapabilityRegisters) [''HCSPARAMS1'', ''HCSPARAMS2'', ''HCCPARAMS1'', ''DBOFF'', ''RTSOFF''] = [4, 8, 16, 20, 24] \<and>
    map (offset_of OperationalRegisters) [''USBSTS'', ''CRCR'', ''DCBAAP'', ''CONFIG''] = [4, 24, 48, 56] \<and>
    total_width PortRegisterSet = 16 \<and> total_width InterrupterRegisterSet = 32 \<and>
    map (offset_of InterrupterRegisterSet) [''ERSTSZ'', ''ERSTBA'', ''ERDP''] = [8, 16, 24]"
proof (intro conjI ballI)
  have wf: "list_all (\<lambda>(L, n). layout_wf n L \<and> total_width L = n \<and> n \<le> 64) register_bitmaps"
    by code_simp
  fix e assume e: "e \<in> set register_bitmaps"
  obtain L n where Ln: "e = (L, n)" by fastforce
  with wf e have L: "layout_wf n L" "total_width L = n" "n \<le> 64" by (auto simp: list_all_iff)
  have "rd L f (wr L g v w) = (if f = g then take_bit (width_of L f) v else rd L f w)"
    if "f \<in> set (field_names L)" "g \<in> set (field_names L)" for f g and v w :: u64
    using that rd_wr_same [of f L v w] rd_wr_other [of f L g v w] L(2,3) by auto
  with L show "case e of (L, n) \<Rightarrow> layout_wf n L \<and> total_width L = n \<and>
      (\<forall>f\<in>set (field_names L). \<forall>g\<in>set (field_names L). \<forall>v w :: u64.
        rd L f (wr L g v w) = (if f = g then take_bit (width_of L f) v else rd L f w))"
    unfolding Ln by blast
qed (simp_all add: DCBAAP_Bitmap_def CapabilityRegisters_def OperationalRegisters_def PortRegisterSet_def
    InterrupterRegisterSet_def total_width_def)

text \<open>The position of a pointer field, and what a pointer of so many address bits keeps.\<close>

lemma pointer_positions:
  "rd CRCR_Bitmap ''command_ring_pointer'' w = bf_get 6 58 w"
  "wr CRCR_Bitmap ''command_ring_pointer'' v w = bf_set 6 58 v w"
  "rd ERSTBA_Bitmap ''event_ring_segment_table_base_address'' w = bf_get 6 58 w"
  "wr ERSTBA_Bitmap ''event_ring_segment_table_base_address'' v w = bf_set 6 58 v w"
  "rd ERDP_Bitmap ''event_ring_dequeue_pointer'' w = bf_get 4 60 w"
  "wr ERDP_Bitmap ''event_ring_dequeue_pointer'' v w = bf_set 4 60 v w"
  "rd DCBAAP_Bitmap ''device_context_base_address_array_pointer'' w = bf_get 6 26 w"
  "wr DCBAAP_Bitmap ''device_context_base_address_array_pointer'' v w = bf_set 6 26 v w"
  by (simp_all add: rd_def wr_def CRCR_Bitmap_def ERSTBA_Bitmap_def ERDP_Bitmap_def DCBAAP_Bitmap_def eval_nat_numeral)

lemma pointer_field:
  fixes w :: "'a::len word"
  assumes "lo + n = LENGTH('a)"
  shows "push_bit lo (bf_get lo n (bf_set lo n (drop_bit lo p) w)) = p AND NOT (mask lo)"
  using assms by (intro bit_word_eqI) (auto simp: bit_simps)

text \<open>
  C37. The pointer registers round trip: CRCR, ERSTBA and ERDP give back the address that was set,
  cut to its alignment, for all 64-bit addresses. DCBAAP gives it back only below 2 GiB: its
  field holds address bits 6 to 31, so an address of 4 GiB or more reaches the controller
  without its upper half, and bit 31 comes back as the sign.
\<close>

theorem pointer_registers_round_trip:
  "CRCR_Pointer (CRCR_SetPointer p w) = p AND NOT (mask 6) \<and>
    ERSTBA_Pointer (ERSTBA_SetPointer p w) = p AND NOT (mask 6) \<and>
    ERDP_Pointer (ERDP_SetPointer p w) = p AND NOT (mask 4) \<and>
    DCBAAP_Pointer (DCBAAP_SetPointer p w) = signed_take_bit 31 (p AND NOT (mask 6)) \<and>
    DCBAAP_SetPointer p 0 = take_bit 32 p AND NOT (mask 6)"
proof (intro conjI)
  show "CRCR_Pointer (CRCR_SetPointer p w) = p AND NOT (mask 6)"
    unfolding CRCR_Pointer_def CRCR_SetPointer_def pointer_positions by (rule pointer_field) simp
  show "ERSTBA_Pointer (ERSTBA_SetPointer p w) = p AND NOT (mask 6)"
    unfolding ERSTBA_Pointer_def ERSTBA_SetPointer_def pointer_positions by (rule pointer_field) simp
  show "ERDP_Pointer (ERDP_SetPointer p w) = p AND NOT (mask 4)"
    unfolding ERDP_Pointer_def ERDP_SetPointer_def pointer_positions by (rule pointer_field) simp
  show "DCBAAP_Pointer (DCBAAP_SetPointer p w) = signed_take_bit 31 (p AND NOT (mask 6))"
    unfolding DCBAAP_Pointer_def DCBAAP_SetPointer_def pointer_positions
    by (intro bit_word_eqI) (auto simp: bit_simps bit_signed_take_bit_iff min_def)
  show "DCBAAP_SetPointer p 0 = take_bit 32 p AND NOT (mask 6)"
    unfolding DCBAAP_SetPointer_def pointer_positions by (intro bit_word_eqI) (auto simp: bit_simps)
qed

end
