(* ===== verification/Trb.thy ===== *)
theory Trb
  imports Registers
begin

text \<open>
  Transfer request blocks and the contexts the controller reads (\<open>usb/xhci/trb.hpp\<close>,
  \<open>usb/xhci/trb.cpp\<close>, \<open>usb/xhci/context.hpp\<close>, \<open>usb/xhci/speed.hpp\<close>). A TRB is the 128 bits of its
  four words; every TRB type is a layout of those bits with its constructor and accessors. A
  slot or endpoint context is the 256 bits of its eight words.
\<close>

section \<open>Endpoint identifiers\<close>

text \<open>\<open>usb/endpoint.hpp\<close>: an \<open>int\<close> of twice the endpoint number plus the direction.\<close>

type_synonym EndpointID = int

definition EndpointID_of :: "int \<Rightarrow> bool \<Rightarrow> EndpointID" where
  "EndpointID_of ep_num dir_in = ep_num * 2 OR (if dir_in then 1 else 0)"

definition EndpointID_Address :: "EndpointID \<Rightarrow> int" where "EndpointID_Address ep = ep"
definition EndpointID_Number :: "EndpointID \<Rightarrow> int" where "EndpointID_Number ep = drop_bit 1 ep"
definition EndpointID_IsIn :: "EndpointID \<Rightarrow> bool" where "EndpointID_IsIn ep \<longleftrightarrow> ep AND 1 \<noteq> 0"

definition kDefaultControlPipeID :: EndpointID where
  "kDefaultControlPipeID = EndpointID_of 0 True"

datatype EndpointType = kControl | kIsochronous | kBulk | kInterrupt

record EndpointConfig =
  ec_ep_id :: EndpointID
  ec_ep_type :: EndpointType
  ec_max_packet_size :: int
  ec_interval :: int

section \<open>Contexts\<close>

definition kFullSpeed :: int where "kFullSpeed = 1"
definition kLowSpeed :: int where "kLowSpeed = 2"
definition kHighSpeed :: int where "kHighSpeed = 3"
definition kSuperSpeed :: int where "kSuperSpeed = 4"
definition kSuperSpeedPlus :: int where "kSuperSpeedPlus = 5"

type_synonym context_word = "256 word"

definition SlotContext :: layout where
  "SlotContext = [(''route_string'', 20), (''speed'', 4), ('''', 1), (''mtt'', 1), (''hub'', 1),
     (''context_entries'', 5), (''max_exit_latency'', 16), (''root_hub_port_num'', 8),
     (''num_ports'', 8), (''tt_hub_slot_id'', 8), (''tt_port_num'', 8), (''ttt'', 2), ('''', 4),
     (''interrupter_target'', 10), (''usb_device_address'', 8), ('''', 19), (''slot_state'', 5)]"

definition EndpointContext :: layout where
  "EndpointContext = [(''ep_state'', 3), ('''', 5), (''mult'', 2), (''max_primary_streams'', 5),
     (''linear_stream_array'', 1), (''interval'', 8), (''max_esit_payload_hi'', 8), ('''', 1),
     (''error_count'', 2), (''ep_type'', 3), ('''', 1), (''host_initiate_disable'', 1),
     (''max_burst_size'', 8), (''max_packet_size'', 16), (''dequeue_cycle_state'', 1), ('''', 3),
     (''tr_dequeue_pointer'', 60), (''average_trb_length'', 16), (''max_esit_payload_lo'', 16)]"

definition TransferRingBuffer :: "context_word \<Rightarrow> u64" where
  "TransferRingBuffer ctx = push_bit 4 (ucast (rd EndpointContext ''tr_dequeue_pointer'' ctx))"

definition SetTransferRingBuffer :: "u64 \<Rightarrow> context_word \<Rightarrow> context_word" where
  "SetTransferRingBuffer buffer ctx =
     wr EndpointContext ''tr_dequeue_pointer'' (ucast (drop_bit 4 buffer)) ctx"

type_synonym DeviceContextIndex = int

definition DeviceContextIndex_of_ep :: "EndpointID \<Rightarrow> DeviceContextIndex" where
  "DeviceContextIndex_of_ep ep_id = EndpointID_Address ep_id"

definition DeviceContextIndex_of_num :: "int \<Rightarrow> bool \<Rightarrow> DeviceContextIndex" where
  "DeviceContextIndex_of_num ep_num dir_in = 2 * ep_num + (if ep_num = 0 then 1 else if dir_in then 1 else 0)"

record DeviceContext =
  dc_slot_context :: context_word
  dc_ep_contexts :: "context_word list"

record InputControlContext =
  icc_drop_context_flags :: u32
  icc_add_context_flags :: u32
  icc_reserved1 :: "u32 list"
  icc_configuration_value :: u8
  icc_interface_number :: u8
  icc_alternate_setting :: u8
  icc_reserved2 :: u8

definition InputControlContext_zero :: InputControlContext where
  "InputControlContext_zero = \<lparr>icc_drop_context_flags = 0, icc_add_context_flags = 0, icc_reserved1 = replicate 5 0,
     icc_configuration_value = 0, icc_interface_number = 0, icc_alternate_setting = 0, icc_reserved2 = 0\<rparr>"

record InputContext =
  ic_input_control_context :: InputControlContext
  ic_slot_context :: context_word
  ic_ep_contexts :: "context_word list"

text \<open>The code returns a pointer to the context enabled; here the caller updates it by its index.\<close>

definition EnableSlotContext :: "InputContext \<Rightarrow> InputContext" where
  "EnableSlotContext ic = ic\<lparr>ic_input_control_context := (ic_input_control_context ic)
     \<lparr>icc_add_context_flags := icc_add_context_flags (ic_input_control_context ic) OR 1\<rparr>\<rparr>"

text \<open>The index of the endpoint context, \<open>None\<close> where the pointer would leave the array.\<close>

definition EnableEndpoint :: "DeviceContextIndex \<Rightarrow> InputContext \<Rightarrow> (nat \<times> InputContext) option" where
  "EnableEndpoint dci ic =
     (if 1 \<le> dci \<and> dci \<le> int (length (ic_ep_contexts ic))
      then Some (nat (dci - 1), ic\<lparr>ic_input_control_context := (ic_input_control_context ic)
        \<lparr>icc_add_context_flags := icc_add_context_flags (ic_input_control_context ic) OR push_bit (nat dci) 1\<rparr>\<rparr>)
      else None)"

section \<open>TRB types\<close>

type_synonym TRB = "128 word"

definition trb_data :: "TRB \<Rightarrow> nat \<Rightarrow> u32" where
  "trb_data trb i = ucast (drop_bit (32 * i) trb)"

definition TRB :: layout where
  "TRB = [(''parameter'', 64), (''status'', 32), (''cycle_bit'', 1), (''evaluate_next_trb'', 1),
     ('''', 8), (''trb_type'', 6), (''control'', 16)]"


definition NormalTRB :: layout where
  "NormalTRB = [(''data_buffer_pointer'', 64), (''trb_transfer_length'', 17), (''td_size'', 5),
     (''interrupter_target'', 10), (''cycle_bit'', 1), (''evaluate_next_trb'', 1),
     (''interrupt_on_short_packet'', 1), (''no_snoop'', 1), (''chain_bit'', 1),
     (''interrupt_on_completion'', 1), (''immediate_data'', 1), ('''', 2),
     (''block_event_interrupt'', 1), (''trb_type'', 6), ('''', 16)]"
definition NormalTRB_Type :: nat where "NormalTRB_Type = 1"

definition NormalTRB_new :: TRB where
  "NormalTRB_new = wr NormalTRB ''trb_type'' (of_nat NormalTRB_Type) 0"

definition NormalTRB_Pointer :: "TRB \<Rightarrow> u64" where
  "NormalTRB_Pointer trb = ucast (rd NormalTRB ''data_buffer_pointer'' trb)"

definition NormalTRB_SetPointer :: "u64 \<Rightarrow> TRB \<Rightarrow> TRB" where
  "NormalTRB_SetPointer p trb = wr NormalTRB ''data_buffer_pointer'' (ucast p) trb"

definition SetupStageTRB :: layout where
  "SetupStageTRB = [(''request_type'', 8), (''request'', 8), (''value'', 16), (''index'', 16), (''length'', 16),
     (''trb_transfer_length'', 17), ('''', 5), (''interrupter_target'', 10), (''cycle_bit'', 1),
     ('''', 4), (''interrupt_on_completion'', 1), (''immediate_data'', 1), ('''', 3),
     (''trb_type'', 6), (''transfer_type'', 2), ('''', 14)]"
definition SetupStageTRB_Type :: nat where "SetupStageTRB_Type = 2"

definition kNoDataStage :: nat where "kNoDataStage = 0"
definition kOutDataStage :: nat where "kOutDataStage = 2"
definition kInDataStage :: nat where "kInDataStage = 3"

definition SetupStageTRB_new :: TRB where
  "SetupStageTRB_new = wr SetupStageTRB ''trb_transfer_length'' 8
     (wr SetupStageTRB ''immediate_data'' 1 (wr SetupStageTRB ''trb_type'' (of_nat SetupStageTRB_Type) 0))"

definition DataStageTRB :: layout where
  "DataStageTRB = [(''data_buffer_pointer'', 64), (''trb_transfer_length'', 17), (''td_size'', 5),
     (''interrupter_target'', 10), (''cycle_bit'', 1), (''evaluate_next_trb'', 1),
     (''interrupt_on_short_packet'', 1), (''no_snoop'', 1), (''chain_bit'', 1),
     (''interrupt_on_completion'', 1), (''immediate_data'', 1), ('''', 3), (''trb_type'', 6),
     (''direction'', 1), ('''', 15)]"
definition DataStageTRB_Type :: nat where "DataStageTRB_Type = 3"

definition DataStageTRB_new :: TRB where
  "DataStageTRB_new = wr DataStageTRB ''trb_type'' (of_nat DataStageTRB_Type) 0"

definition DataStageTRB_Pointer :: "TRB \<Rightarrow> u64" where
  "DataStageTRB_Pointer trb = ucast (rd DataStageTRB ''data_buffer_pointer'' trb)"

definition DataStageTRB_SetPointer :: "u64 \<Rightarrow> TRB \<Rightarrow> TRB" where
  "DataStageTRB_SetPointer p trb = wr DataStageTRB ''data_buffer_pointer'' (ucast p) trb"

definition StatusStageTRB :: layout where
  "StatusStageTRB = [('''', 64), ('''', 22), (''interrupter_target'', 10), (''cycle_bit'', 1),
     (''evaluate_next_trb'', 1), ('''', 2), (''chain_bit'', 1), (''interrupt_on_completion'', 1),
     ('''', 4), (''trb_type'', 6), (''direction'', 1), ('''', 15)]"
definition StatusStageTRB_Type :: nat where "StatusStageTRB_Type = 4"

definition StatusStageTRB_new :: TRB where
  "StatusStageTRB_new = wr StatusStageTRB ''trb_type'' (of_nat StatusStageTRB_Type) 0"

definition LinkTRB :: layout where
  "LinkTRB = [('''', 4), (''ring_segment_pointer'', 60), ('''', 22), (''interrupter_target'', 10),
     (''cycle_bit'', 1), (''toggle_cycle'', 1), ('''', 2), (''chain_bit'', 1),
     (''interrupt_on_completion'', 1), ('''', 4), (''trb_type'', 6), ('''', 16)]"
definition LinkTRB_Type :: nat where "LinkTRB_Type = 6"

definition LinkTRB_Pointer :: "TRB \<Rightarrow> u64" where
  "LinkTRB_Pointer trb = push_bit 4 (ucast (rd LinkTRB ''ring_segment_pointer'' trb))"

definition LinkTRB_SetPointer :: "u64 \<Rightarrow> TRB \<Rightarrow> TRB" where
  "LinkTRB_SetPointer p trb = wr LinkTRB ''ring_segment_pointer'' (ucast (drop_bit 4 p)) trb"

definition LinkTRB_new :: "u64 \<Rightarrow> TRB" where
  "LinkTRB_new ring_segment_pointer =
     LinkTRB_SetPointer ring_segment_pointer (wr LinkTRB ''trb_type'' (of_nat LinkTRB_Type) 0)"

definition NoOpTRB :: layout where
  "NoOpTRB = [('''', 64), ('''', 22), (''interrupter_target'', 10), (''cycle_bit'', 1),
     (''evaluate_next_trb'', 1), ('''', 2), (''chain_bit'', 1), (''interrupt_on_completion'', 1),
     ('''', 4), (''trb_type'', 6), ('''', 16)]"
definition NoOpTRB_Type :: nat where "NoOpTRB_Type = 8"

definition NoOpTRB_new :: TRB where
  "NoOpTRB_new = wr NoOpTRB ''trb_type'' (of_nat NoOpTRB_Type) 0"

definition EnableSlotCommandTRB :: layout where
  "EnableSlotCommandTRB = [('''', 32), ('''', 32), ('''', 32), (''cycle_bit'', 1), ('''', 9), (''trb_type'', 6),
     (''slot_type'', 5), ('''', 11)]"
definition EnableSlotCommandTRB_Type :: nat where "EnableSlotCommandTRB_Type = 9"

definition EnableSlotCommandTRB_new :: TRB where
  "EnableSlotCommandTRB_new = wr EnableSlotCommandTRB ''trb_type'' (of_nat EnableSlotCommandTRB_Type) 0"

definition AddressDeviceCommandTRB :: layout where
  "AddressDeviceCommandTRB = [('''', 4), (''input_context_pointer'', 60), ('''', 32), (''cycle_bit'', 1), ('''', 8),
     (''block_set_address_request'', 1), (''trb_type'', 6), ('''', 8), (''slot_id'', 8)]"
definition AddressDeviceCommandTRB_Type :: nat where "AddressDeviceCommandTRB_Type = 11"

definition AddressDeviceCommandTRB_Pointer :: "TRB \<Rightarrow> u64" where
  "AddressDeviceCommandTRB_Pointer trb = push_bit 4 (ucast (rd AddressDeviceCommandTRB ''input_context_pointer'' trb))"

definition AddressDeviceCommandTRB_SetPointer :: "u64 \<Rightarrow> TRB \<Rightarrow> TRB" where
  "AddressDeviceCommandTRB_SetPointer p trb = wr AddressDeviceCommandTRB ''input_context_pointer'' (ucast (drop_bit 4 p)) trb"

definition AddressDeviceCommandTRB_new :: "u64 \<Rightarrow> u8 \<Rightarrow> TRB" where
  "AddressDeviceCommandTRB_new input_context slot_id =
     AddressDeviceCommandTRB_SetPointer input_context (wr AddressDeviceCommandTRB ''slot_id'' (ucast slot_id)
       (wr AddressDeviceCommandTRB ''trb_type'' (of_nat AddressDeviceCommandTRB_Type) 0))"

definition ConfigureEndpointCommandTRB :: layout where
  "ConfigureEndpointCommandTRB = [('''', 4), (''input_context_pointer'', 60), ('''', 32), (''cycle_bit'', 1), ('''', 8),
     (''deconfigure'', 1), (''trb_type'', 6), ('''', 8), (''slot_id'', 8)]"
definition ConfigureEndpointCommandTRB_Type :: nat where "ConfigureEndpointCommandTRB_Type = 12"

definition ConfigureEndpointCommandTRB_Pointer :: "TRB \<Rightarrow> u64" where
  "ConfigureEndpointCommandTRB_Pointer trb = push_bit 4 (ucast (rd ConfigureEndpointCommandTRB ''input_context_pointer'' trb))"

definition ConfigureEndpointCommandTRB_SetPointer :: "u64 \<Rightarrow> TRB \<Rightarrow> TRB" where
  "ConfigureEndpointCommandTRB_SetPointer p trb = wr ConfigureEndpointCommandTRB ''input_context_pointer'' (ucast (drop_bit 4 p)) trb"

definition ConfigureEndpointCommandTRB_new :: "u64 \<Rightarrow> u8 \<Rightarrow> TRB" where
  "ConfigureEndpointCommandTRB_new input_context slot_id =
     ConfigureEndpointCommandTRB_SetPointer input_context (wr ConfigureEndpointCommandTRB ''slot_id'' (ucast slot_id)
       (wr ConfigureEndpointCommandTRB ''trb_type'' (of_nat ConfigureEndpointCommandTRB_Type) 0))"

definition StopEndpointCommandTRB :: layout where
  "StopEndpointCommandTRB = [('''', 32), ('''', 32), ('''', 32), (''cycle_bit'', 1), ('''', 9), (''trb_type'', 6),
     (''endpoint_id'', 5), ('''', 2), (''suspend'', 1), (''slot_id'', 8)]"
definition StopEndpointCommandTRB_Type :: nat where "StopEndpointCommandTRB_Type = 15"

definition StopEndpointCommandTRB_new :: "EndpointID \<Rightarrow> u8 \<Rightarrow> TRB" where
  "StopEndpointCommandTRB_new endpoint_id slot_id =
     wr StopEndpointCommandTRB ''slot_id'' (ucast slot_id)
       (wr StopEndpointCommandTRB ''endpoint_id'' (of_int (EndpointID_Address endpoint_id))
         (wr StopEndpointCommandTRB ''trb_type'' (of_nat StopEndpointCommandTRB_Type) 0))"

definition StopEndpointCommandTRB_EndpointID :: "TRB \<Rightarrow> EndpointID" where
  "StopEndpointCommandTRB_EndpointID trb = uint (rd StopEndpointCommandTRB ''endpoint_id'' trb)"

definition NoOpCommandTRB :: layout where
  "NoOpCommandTRB = [('''', 32), ('''', 32), ('''', 32), (''cycle_bit'', 1), ('''', 9), (''trb_type'', 6),
     ('''', 16)]"
definition NoOpCommandTRB_Type :: nat where "NoOpCommandTRB_Type = 23"

definition NoOpCommandTRB_new :: TRB where
  "NoOpCommandTRB_new = wr NoOpCommandTRB ''trb_type'' (of_nat NoOpCommandTRB_Type) 0"

definition TransferEventTRB :: layout where
  "TransferEventTRB = [(''trb_pointer'', 64), (''trb_transfer_length'', 24), (''completion_code'', 8),
     (''cycle_bit'', 1), ('''', 1), (''event_data'', 1), ('''', 7), (''trb_type'', 6),
     (''endpoint_id'', 5), ('''', 3), (''slot_id'', 8)]"
definition TransferEventTRB_Type :: nat where "TransferEventTRB_Type = 32"

definition TransferEventTRB_new :: TRB where
  "TransferEventTRB_new = wr TransferEventTRB ''trb_type'' (of_nat TransferEventTRB_Type) 0"

definition TransferEventTRB_Pointer :: "TRB \<Rightarrow> u64" where
  "TransferEventTRB_Pointer trb = ucast (rd TransferEventTRB ''trb_pointer'' trb)"

definition TransferEventTRB_SetPointer :: "u64 \<Rightarrow> TRB \<Rightarrow> TRB" where
  "TransferEventTRB_SetPointer p trb = wr TransferEventTRB ''trb_pointer'' (ucast p) trb"

definition TransferEventTRB_EndpointID :: "TRB \<Rightarrow> EndpointID" where
  "TransferEventTRB_EndpointID trb = uint (rd TransferEventTRB ''endpoint_id'' trb)"

definition CommandCompletionEventTRB :: layout where
  "CommandCompletionEventTRB = [('''', 4), (''command_trb_pointer'', 60), (''command_completion_parameter'', 24),
     (''completion_code'', 8), (''cycle_bit'', 1), ('''', 9), (''trb_type'', 6), (''vf_id'', 8),
     (''slot_id'', 8)]"
definition CommandCompletionEventTRB_Type :: nat where "CommandCompletionEventTRB_Type = 33"

definition CommandCompletionEventTRB_new :: TRB where
  "CommandCompletionEventTRB_new = wr CommandCompletionEventTRB ''trb_type'' (of_nat CommandCompletionEventTRB_Type) 0"

definition CommandCompletionEventTRB_Pointer :: "TRB \<Rightarrow> u64" where
  "CommandCompletionEventTRB_Pointer trb = push_bit 4 (ucast (rd CommandCompletionEventTRB ''command_trb_pointer'' trb))"

definition CommandCompletionEventTRB_SetPointer :: "u64 \<Rightarrow> TRB \<Rightarrow> TRB" where
  "CommandCompletionEventTRB_SetPointer p trb = wr CommandCompletionEventTRB ''command_trb_pointer'' (ucast (drop_bit 4 p)) trb"

definition PortStatusChangeEventTRB :: layout where
  "PortStatusChangeEventTRB = [('''', 24), (''port_id'', 8), ('''', 32), ('''', 24), (''completion_code'', 8),
     (''cycle_bit'', 1), ('''', 9), (''trb_type'', 6)]"
definition PortStatusChangeEventTRB_Type :: nat where "PortStatusChangeEventTRB_Type = 34"

definition PortStatusChangeEventTRB_new :: TRB where
  "PortStatusChangeEventTRB_new = wr PortStatusChangeEventTRB ''trb_type'' (of_nat PortStatusChangeEventTRB_Type) 0"

text \<open>\<open>TRBDynamicCast<ToType>\<close>, with the type number of the target: the same TRB or a null pointer.\<close>

definition TRBDynamicCast :: "nat \<Rightarrow> TRB \<Rightarrow> TRB option" where
  "TRBDynamicCast to_type trb = (if of_nat to_type = rd TRB ''trb_type'' trb then Some trb else None)"

section \<open>Names\<close>

definition kTRBCompletionCodeToName :: "string list" where
  "kTRBCompletionCodeToName =
    [''Invalid'', ''Success'', ''Data Buffer Error'', ''Babble Detected Error'',
     ''USB Transaction Error'', ''TRB Error'', ''Stall Error'', ''Resource Error'',
     ''Bandwidth Error'', ''No Slots Available Error'', ''Invalid Stream Type Error'',
     ''Slot Not Enabled Error'', ''Endpoint Not Enabled Error'', ''Short Packet'',
     ''Ring Underrun'', ''Ring Overrun'', ''VF Event Ring Full Error'', ''Parameter Error'',
     ''Bandwidth Overrun Error'', ''Context State Error'', ''No ping Response Error'',
     ''Event Ring Full Error'', ''Incompatible Device Error'', ''Missed Service Error'',
     ''Command Ring Stopped'', ''Command Aborted'', ''Stopped'', ''Stopped - Length Invalid'',
     ''Stopped - Short Packet'', ''Max Exit Latency Too Large Error'', ''Reserved'',
     ''Isoch Buffer Overrun'', ''Event Lost Error'', ''Undefined Error'',
     ''Invalid Stream ID Error'', ''Secondary Bandwidth Error'', ''Split Transaction Error'']"

definition kTRBTypeToName :: "string list" where
  "kTRBTypeToName =
    [''Reserved'', ''Normal'', ''Setup Stage'', ''Data Stage'', ''Status Stage'', ''Isoch'',
     ''Link'', ''EventData'', ''No-Op'', ''Enable Slot Command'', ''Disable Slot Command'',
     ''Address Device Command'', ''Configure Endpoint Command'', ''Evaluate Context Command'',
     ''Reset Endpoint Command'', ''Stop Endpoint Command'',
     ''Set TR Dequeue Pointer Command'', ''Reset Device Command'', ''Force Event Command'',
     ''Negotiate Bandwidth Command'', ''Set Latency Tolerance Value Command'',
     ''Get Port Bandwidth Command'', ''Force Header Command'', ''No Op Command'',
     ''Reserved'', ''Reserved'', ''Reserved'', ''Reserved'', ''Reserved'', ''Reserved'',
     ''Reserved'', ''Reserved'', ''Transfer Event'', ''Command Completion Event'',
     ''Port Status Change Event'', ''Bandwidth Request Event'', ''Doorbell Event'',
     ''Host Controller Event'', ''Device Notification Event'', ''MFINDEX Wrap Event'',
     ''Reserved'', ''Reserved'', ''Reserved'', ''Reserved'', ''Reserved'', ''Reserved'',
     ''Reserved'', ''Reserved'', ''Vendor Defined'', ''Vendor Defined'', ''Vendor Defined'',
     ''Vendor Defined'', ''Vendor Defined'', ''Vendor Defined'', ''Vendor Defined'',
     ''Vendor Defined'', ''Vendor Defined'', ''Vendor Defined'', ''Vendor Defined'',
     ''Vendor Defined'', ''Vendor Defined'', ''Vendor Defined'', ''Vendor Defined'',
     ''Vendor Defined'']"

section \<open>What the types have in common\<close>

definition trb_types :: "(layout \<times> nat) list" where
  "trb_types = [(NormalTRB, NormalTRB_Type), (SetupStageTRB, SetupStageTRB_Type), (DataStageTRB, DataStageTRB_Type),
     (StatusStageTRB, StatusStageTRB_Type), (LinkTRB, LinkTRB_Type), (NoOpTRB, NoOpTRB_Type),
     (EnableSlotCommandTRB, EnableSlotCommandTRB_Type), (AddressDeviceCommandTRB, AddressDeviceCommandTRB_Type),
     (ConfigureEndpointCommandTRB, ConfigureEndpointCommandTRB_Type),
     (StopEndpointCommandTRB, StopEndpointCommandTRB_Type), (NoOpCommandTRB, NoOpCommandTRB_Type),
     (TransferEventTRB, TransferEventTRB_Type), (CommandCompletionEventTRB, CommandCompletionEventTRB_Type),
     (PortStatusChangeEventTRB, PortStatusChangeEventTRB_Type)]"

lemma trb_types_wf:
  "list_all (\<lambda>(L, n). layout_wf 128 L \<and> offset_of L ''cycle_bit'' = 96 \<and> width_of L ''cycle_bit'' = 1 \<and>
     offset_of L ''trb_type'' = 106 \<and> width_of L ''trb_type'' = 6 \<and> 0 < n \<and> n < 64) ((TRB, 1) # trb_types)"
  by code_simp

lemma distinct_trb_types: "distinct (map snd trb_types)"
  by code_simp

lemma trb_type_position:
  "rd TRB ''trb_type'' w = bf_get 106 6 w" "rd TRB ''cycle_bit'' w = bf_get 96 1 w"
  using trb_types_wf unfolding rd_def by simp_all

lemma of_nat_type_take_bit: "n < 64 \<Longrightarrow> take_bit 6 (of_nat n :: TRB) = of_nat n"
  by (simp add: word_unat_eq_iff unat_take_bit unsigned_of_nat take_bit_nat_eq_self)

lemma of_nat_type_inject:
  assumes "m < 64" and "n < 64"
  shows "(of_nat m :: TRB) = of_nat n \<longleftrightarrow> m = n"
proof -
  have "unat (of_nat k :: TRB) = k" if "k < 64" for k
    using that by (simp add: unsigned_of_nat take_bit_nat_eq_self)
  then show ?thesis using assms by metis
qed

lemma TRBDynamicCast_iff:
  "(L, n) \<in> set trb_types \<Longrightarrow> TRBDynamicCast n trb = Some t \<longleftrightarrow> t = trb \<and> rd L ''trb_type'' trb = of_nat n"
  using trb_types_wf by (auto simp: TRBDynamicCast_def trb_type_position rd_def list_all_iff)

text \<open>Where the pointer and slot fields of the constructors are.\<close>

lemma trb_field_positions:
  "rd NormalTRB ''data_buffer_pointer'' w = bf_get 0 64 w" "wr NormalTRB ''data_buffer_pointer'' v w = bf_set 0 64 v w"
  "rd DataStageTRB ''data_buffer_pointer'' w = bf_get 0 64 w" "wr DataStageTRB ''data_buffer_pointer'' v w = bf_set 0 64 v w"
  "rd TransferEventTRB ''trb_pointer'' w = bf_get 0 64 w" "wr TransferEventTRB ''trb_pointer'' v w = bf_set 0 64 v w"
  "rd LinkTRB ''ring_segment_pointer'' w = bf_get 4 60 w" "wr LinkTRB ''ring_segment_pointer'' v w = bf_set 4 60 v w"
  "rd AddressDeviceCommandTRB ''input_context_pointer'' w = bf_get 4 60 w"
  "wr AddressDeviceCommandTRB ''input_context_pointer'' v w = bf_set 4 60 v w"
  "rd ConfigureEndpointCommandTRB ''input_context_pointer'' w = bf_get 4 60 w"
  "wr ConfigureEndpointCommandTRB ''input_context_pointer'' v w = bf_set 4 60 v w"
  "rd CommandCompletionEventTRB ''command_trb_pointer'' w = bf_get 4 60 w"
  "wr CommandCompletionEventTRB ''command_trb_pointer'' v w = bf_set 4 60 v w"
  by (simp_all add: rd_def wr_def NormalTRB_def DataStageTRB_def TransferEventTRB_def LinkTRB_def
      AddressDeviceCommandTRB_def ConfigureEndpointCommandTRB_def CommandCompletionEventTRB_def)

lemma trb_slot_positions:
  "rd AddressDeviceCommandTRB ''slot_id'' w = bf_get 120 8 w" "wr AddressDeviceCommandTRB ''slot_id'' v w = bf_set 120 8 v w"
  "rd ConfigureEndpointCommandTRB ''slot_id'' w = bf_get 120 8 w"
  "wr ConfigureEndpointCommandTRB ''slot_id'' v w = bf_set 120 8 v w"
proof -
  have "offset_of AddressDeviceCommandTRB ''slot_id'' = 120" "width_of AddressDeviceCommandTRB ''slot_id'' = 8"
    "offset_of ConfigureEndpointCommandTRB ''slot_id'' = 120" "width_of ConfigureEndpointCommandTRB ''slot_id'' = 8"
    by code_simp+
  then show
    "rd AddressDeviceCommandTRB ''slot_id'' w = bf_get 120 8 w" "wr AddressDeviceCommandTRB ''slot_id'' v w = bf_set 120 8 v w"
    "rd ConfigureEndpointCommandTRB ''slot_id'' w = bf_get 120 8 w"
    "wr ConfigureEndpointCommandTRB ''slot_id'' v w = bf_set 120 8 v w"
    by (simp_all add: rd_def wr_def)
qed

lemma trb_type_rd:
  "(L, n) \<in> set trb_types \<Longrightarrow> rd L ''trb_type'' w = bf_get 106 6 w"
  "(L, n) \<in> set trb_types \<Longrightarrow> wr L ''trb_type'' v w = bf_set 106 6 v w"
  using trb_types_wf by (auto simp: rd_def wr_def list_all_iff)

lemma long_pointer_field: "ucast (take_bit 64 (ucast p :: TRB)) = (p :: u64)"
  by (intro bit_word_eqI) (auto simp: bit_simps)

lemma short_pointer_field:
  "push_bit 4 (ucast (take_bit 60 (ucast (drop_bit 4 p) :: TRB))) = (p AND NOT (mask 4) :: u64)"
  by (intro bit_word_eqI) (auto simp: bit_simps)

text \<open>
  C38. The TRB types agree with each other: every layout fits the 128 bits with fields of different
  names, has its cycle bit and its type where the generic \<open>TRB\<close> has them, and a type number of
  its own, so \<open>TRBDynamicCast\<close> succeeds exactly on the TRBs of its type and never for two types.
  The name table covers every value of the 6-bit type field and names these types.
\<close>

theorem trb_types_agree:
  "(\<forall>(L, n)\<in>set trb_types. layout_wf 128 L \<and> offset_of L ''cycle_bit'' = offset_of TRB ''cycle_bit'' \<and>
      (\<forall>trb. TRBDynamicCast n trb = (if rd L ''trb_type'' trb = of_nat n then Some trb else None)) \<and>
      (\<forall>(M, m)\<in>set trb_types. \<forall>trb. TRBDynamicCast n trb \<noteq> None \<longrightarrow> TRBDynamicCast m trb \<noteq> None \<longrightarrow> n = m)) \<and>
    (\<forall>trb :: TRB. unat (rd TRB ''trb_type'' trb) < length kTRBTypeToName) \<and>
    map (\<lambda>(L, n). kTRBTypeToName ! n) trb_types =
      [''Normal'', ''Setup Stage'', ''Data Stage'', ''Status Stage'', ''Link'', ''No-Op'', ''Enable Slot Command'',
       ''Address Device Command'', ''Configure Endpoint Command'', ''Stop Endpoint Command'', ''No Op Command'',
       ''Transfer Event'', ''Command Completion Event'', ''Port Status Change Event'']"
proof (intro conjI ballI allI)
  fix e assume e: "e \<in> set trb_types"
  obtain L n where Ln: "e = (L, n)" by fastforce
  with trb_types_wf e have L: "layout_wf 128 L" "offset_of L ''cycle_bit'' = offset_of TRB ''cycle_bit''" "n < 64"
    by (auto simp: list_all_iff)
  have cast: "TRBDynamicCast n trb = (if rd L ''trb_type'' trb = of_nat n then Some trb else None)" for trb
    using trb_type_rd(1) [OF e [unfolded Ln]] by (auto simp: TRBDynamicCast_def trb_type_position)
  have "n = m" if "(M, m) \<in> set trb_types" "TRBDynamicCast n trb \<noteq> None" "TRBDynamicCast m trb \<noteq> None" for M m trb
  proof -
    have "(of_nat n :: TRB) = of_nat m" using that(2,3) by (simp add: TRBDynamicCast_def split: if_splits)
    moreover have "m < 64" using that(1) trb_types_wf by (auto simp: list_all_iff)
    ultimately show ?thesis using L(3) by (simp add: of_nat_type_inject)
  qed
  with L cast show "case e of (L, n) \<Rightarrow> layout_wf 128 L \<and> offset_of L ''cycle_bit'' = offset_of TRB ''cycle_bit'' \<and>
      (\<forall>trb. TRBDynamicCast n trb = (if rd L ''trb_type'' trb = of_nat n then Some trb else None)) \<and>
      (\<forall>(M, m)\<in>set trb_types. \<forall>trb. TRBDynamicCast n trb \<noteq> None \<longrightarrow> TRBDynamicCast m trb \<noteq> None \<longrightarrow> n = m)"
    unfolding Ln by blast
next
  fix trb :: TRB
  have "length kTRBTypeToName = 64" by code_simp
  then show "unat (rd TRB ''trb_type'' trb) < length kTRBTypeToName"
    using unat_bf_get_less [of 106 6 trb] by (simp add: trb_type_position)
qed code_simp

theorem trb_types_agree_witness:
  "TRBDynamicCast TransferEventTRB_Type TransferEventTRB_new = Some TransferEventTRB_new \<and>
    TRBDynamicCast PortStatusChangeEventTRB_Type TransferEventTRB_new = None"
proof -
  have in_types: "(TransferEventTRB, TransferEventTRB_Type) \<in> set trb_types"
    "(PortStatusChangeEventTRB, PortStatusChangeEventTRB_Type) \<in> set trb_types" by (simp_all add: trb_types_def)
  have "rd TransferEventTRB ''trb_type'' TransferEventTRB_new = of_nat TransferEventTRB_Type"
    by (simp add: TransferEventTRB_new_def trb_type_rd [OF in_types(1)] bf_simps of_nat_type_take_bit TransferEventTRB_Type_def)
  then have "TRBDynamicCast TransferEventTRB_Type TransferEventTRB_new = Some TransferEventTRB_new"
    using bspec [OF trb_types_agree [THEN conjunct1] in_types(1), unfolded prod.case] by simp
  moreover have "TransferEventTRB_Type \<noteq> PortStatusChangeEventTRB_Type"
    by (simp add: TransferEventTRB_Type_def PortStatusChangeEventTRB_Type_def)
  ultimately show ?thesis
    using bspec [OF trb_types_agree [THEN conjunct1] in_types(1), unfolded prod.case] in_types(2) by fastforce
qed

text \<open>
  What the constructors and pointer accessors of the TRBs encode can be read back: the type
  number of each, all 64 bits of a data buffer or event TRB pointer, a ring, context or command
  TRB pointer cut to its 16-byte alignment, and the slot of a command.
\<close>

lemma trb_constructors_round_trip:
  "rd NormalTRB ''trb_type'' (NormalTRB_SetPointer p NormalTRB_new) = 1 \<and>
    rd DataStageTRB ''trb_type'' (DataStageTRB_SetPointer p DataStageTRB_new) = 3 \<and>
    rd LinkTRB ''trb_type'' (LinkTRB_new p) = 6 \<and>
    rd AddressDeviceCommandTRB ''trb_type'' (AddressDeviceCommandTRB_new p slot) = 11 \<and>
    rd ConfigureEndpointCommandTRB ''trb_type'' (ConfigureEndpointCommandTRB_new p slot) = 12 \<and>
    NormalTRB_Pointer (NormalTRB_SetPointer p t) = p \<and> DataStageTRB_Pointer (DataStageTRB_SetPointer p t) = p \<and>
    TransferEventTRB_Pointer (TransferEventTRB_SetPointer p t) = p \<and>
    CommandCompletionEventTRB_Pointer (CommandCompletionEventTRB_SetPointer p t) = p AND NOT (mask 4) \<and>
    LinkTRB_Pointer (LinkTRB_new p) = p AND NOT (mask 4) \<and>
    AddressDeviceCommandTRB_Pointer (AddressDeviceCommandTRB_new p slot) = p AND NOT (mask 4) \<and>
    ConfigureEndpointCommandTRB_Pointer (ConfigureEndpointCommandTRB_new p slot) = p AND NOT (mask 4) \<and>
    rd AddressDeviceCommandTRB ''slot_id'' (AddressDeviceCommandTRB_new p slot) = ucast slot \<and>
    rd ConfigureEndpointCommandTRB ''slot_id'' (ConfigureEndpointCommandTRB_new p slot) = ucast slot"
proof -
  have in_types: "(NormalTRB, NormalTRB_Type) \<in> set trb_types" "(DataStageTRB, DataStageTRB_Type) \<in> set trb_types"
    "(LinkTRB, LinkTRB_Type) \<in> set trb_types" "(AddressDeviceCommandTRB, AddressDeviceCommandTRB_Type) \<in> set trb_types"
    "(ConfigureEndpointCommandTRB, ConfigureEndpointCommandTRB_Type) \<in> set trb_types"
    by (simp_all add: trb_types_def)
  have t: "take_bit 6 (n :: TRB) = n" if "n \<in> {1, 3, 6, 11, 12}" for n
    using that of_nat_type_take_bit [of 1] of_nat_type_take_bit [of 3] of_nat_type_take_bit [of 6]
      of_nat_type_take_bit [of 11] of_nat_type_take_bit [of 12] by auto
  have s: "take_bit 8 (ucast slot :: TRB) = ucast slot"
    by (intro bit_word_eqI) (auto simp: bit_simps dest: bit_imp_le_length)
  show ?thesis
    by (intro conjI)
      (simp_all add: NormalTRB_Pointer_def NormalTRB_SetPointer_def DataStageTRB_Pointer_def DataStageTRB_SetPointer_def
        TransferEventTRB_Pointer_def TransferEventTRB_SetPointer_def CommandCompletionEventTRB_Pointer_def
        CommandCompletionEventTRB_SetPointer_def LinkTRB_Pointer_def LinkTRB_SetPointer_def LinkTRB_new_def
        AddressDeviceCommandTRB_Pointer_def AddressDeviceCommandTRB_SetPointer_def AddressDeviceCommandTRB_new_def
        ConfigureEndpointCommandTRB_Pointer_def ConfigureEndpointCommandTRB_SetPointer_def
        ConfigureEndpointCommandTRB_new_def NormalTRB_new_def DataStageTRB_new_def
        trb_field_positions trb_slot_positions trb_type_rd [OF in_types(1)] trb_type_rd [OF in_types(2)]
        trb_type_rd [OF in_types(3)] trb_type_rd [OF in_types(4)] trb_type_rd [OF in_types(5)]
        long_pointer_field short_pointer_field bf_simps s t NormalTRB_Type_def DataStageTRB_Type_def LinkTRB_Type_def
        AddressDeviceCommandTRB_Type_def ConfigureEndpointCommandTRB_Type_def)
qed

end
