(* ===== verification/KernelError.thy ===== *)
theory KernelError
  imports Prelude
begin

text \<open>
  The kernel's error values (\<open>kernel/error.hpp\<close>): the enumeration \<open>Error::Code\<close>, the class
  \<open>Error\<close> with its conversion to \<open>bool\<close> (true means failure) and its name table, and the
  pair \<open>Either<T>\<close>. Operations of the other theories return the \<open>Code\<close>; the file and line that
  \<open>MAKE_ERROR\<close> adds are diagnostics that no code branches on.
\<close>

datatype Code =
    kSuccess
  | kFull
  | kEmpty
  | kNoEnoughMemory
  | kIndexOutOfRange
  | kHostControllerNotHalted
  | kInvalidSlotID
  | kPortNotConnected
  | kInvalidEndpointNumber
  | kTransferRingNotSet
  | kAlreadyAllocated
  | kNotImplemented
  | kInvalidDescriptor
  | kBufferTooSmall
  | kUnknownDevice
  | kNoCorrespondingSetupStage
  | kTransferFailed
  | kInvalidPhase
  | kUnknownXHCISpeedID
  | kNoWaiter
  | kNoPCIMSI
  | kLastOfCode

text \<open>The enumerators in declaration order: the value of an enumerator is its position.\<close>

definition codes :: "Code list" where
  "codes = [kSuccess, kFull, kEmpty, kNoEnoughMemory, kIndexOutOfRange, kHostControllerNotHalted,
     kInvalidSlotID, kPortNotConnected, kInvalidEndpointNumber, kTransferRingNotSet,
     kAlreadyAllocated, kNotImplemented, kInvalidDescriptor, kBufferTooSmall, kUnknownDevice,
     kNoCorrespondingSetupStage, kTransferFailed, kInvalidPhase, kUnknownXHCISpeedID, kNoWaiter,
     kNoPCIMSI, kLastOfCode]"

fun index_of :: "'a list \<Rightarrow> 'a \<Rightarrow> nat" where
  "index_of [] y = 0"
| "index_of (x # xs) y = (if x = y then 0 else Suc (index_of xs y))"

definition code_to_int :: "Code \<Rightarrow> nat" where
  "code_to_int c = index_of codes c"

definition code_names :: "string list" where
  "code_names = [''kSuccess'', ''kFull'', ''kEmpty'', ''kNoEnoughMemory'', ''kIndexOutOfRange'',
     ''kHostControllerNotHalted'', ''kInvalidSlotID'', ''kPortNotConnected'',
     ''kInvalidEndpointNumber'', ''kTransferRingNotSet'', ''kAlreadyAllocated'',
     ''kNotImplemented'', ''kInvalidDescriptor'', ''kBufferTooSmall'', ''kUnknownDevice'',
     ''kNoCorrespondingSetupStage'', ''kTransferFailed'', ''kInvalidPhase'',
     ''kUnknownXHCISpeedID'', ''kNoWaiter'', ''kNoPCIMSI'']"

record Error =
  err_code :: Code
  err_line :: int
  err_file :: string

definition MAKE_ERROR :: "string \<Rightarrow> int \<Rightarrow> Code \<Rightarrow> Error" where
  "MAKE_ERROR file line c = \<lparr>err_code = c, err_line = line, err_file = file\<rparr>"

definition Error_operator_bool :: "Error \<Rightarrow> bool" where
  "Error_operator_bool e \<longleftrightarrow> err_code e \<noteq> kSuccess"

definition Error_Cause :: "Error \<Rightarrow> Code" where
  "Error_Cause e = err_code e"

text \<open>An index past the table is undefined, which only \<open>kLastOfCode\<close> would reach.\<close>

definition Error_Name :: "Error \<Rightarrow> string option" where
  "Error_Name e =
     (let i = code_to_int (err_code e) in if i < length code_names then Some (code_names ! i) else None)"

definition Error_File :: "Error \<Rightarrow> string" where
  "Error_File e = err_file e"

definition Error_Line :: "Error \<Rightarrow> int" where
  "Error_Line e = err_line e"

text \<open>\<open>Either<T>\<close>: the value is meaningful only where the code is \<open>kSuccess\<close>.\<close>

record 'a Either =
  either_value :: 'a
  either_error :: Code

lemma code_to_int_less: "c \<noteq> kLastOfCode \<Longrightarrow> code_to_int c < length code_names"
  by (cases c) (simp_all add: code_to_int_def codes_def code_names_def)

lemma static_assert_code_names: "code_to_int kLastOfCode = length code_names"
  by (simp add: code_to_int_def codes_def code_names_def)

lemma Error_Name_kLastOfCode: "Error_Name (MAKE_ERROR f l kLastOfCode) = None"
  by (simp add: Error_Name_def MAKE_ERROR_def static_assert_code_names)

lemma Error_Name_Some:
  "c \<noteq> kLastOfCode \<Longrightarrow> Error_Name (MAKE_ERROR f l c) = Some (code_names ! code_to_int c)"
  by (simp add: Error_Name_def MAKE_ERROR_def code_to_int_less Let_def)

lemma nth_index_of: "x \<in> set xs \<Longrightarrow> xs ! index_of xs x = x"
  by (induction xs) auto

lemma set_codes: "c \<in> set codes"
  by (cases c) (simp_all add: codes_def)

lemma distinct_code_names: "distinct code_names"
  by (simp add: code_names_def)

lemma code_to_int_inject: "code_to_int c = code_to_int d \<longleftrightarrow> c = d"
  unfolding code_to_int_def by (metis nth_index_of set_codes)

lemma Error_Name_inject:
  assumes "Error_Name (MAKE_ERROR f l c) = Some n" and "Error_Name (MAKE_ERROR f' l' d) = Some n"
  shows "c = d"
  using assms distinct_code_names
  by (auto simp: Error_Name_def MAKE_ERROR_def Let_def nth_eq_iff_index_eq code_to_int_inject
      split: if_splits)

section \<open>Early returns\<close>

text \<open>
  An operation that returns an \<open>Error\<close> is a function of the state to a code and a new state, or
  \<open>None\<close> where it is undefined or does not return. \<open>or_return m k\<close> is
  \<open>if (auto err = m) return err; k\<close>, and \<open>each_or_return\<close> a loop with that body.
\<close>

type_synonym 's fallible = "'s \<Rightarrow> (Code \<times> 's) option"

definition or_return :: "'s fallible \<Rightarrow> 's fallible \<Rightarrow> 's fallible" where
  "or_return m k s =
     (case m s of None \<Rightarrow> None | Some (c, s') \<Rightarrow> if c = kSuccess then k s' else Some (c, s'))"

fun each_or_return :: "('a \<Rightarrow> 's fallible) \<Rightarrow> 'a list \<Rightarrow> 's fallible" where
  "each_or_return f [] s = Some (kSuccess, s)"
| "each_or_return f (x # xs) s = or_return (f x) (each_or_return f xs) s"

lemma or_return_Some:
  "or_return m k s = Some (c, t) \<longleftrightarrow>
     (\<exists>d u. m s = Some (d, u) \<and> (if d = kSuccess then k u = Some (c, t) else c = d \<and> t = u))"
  by (auto simp: or_return_def split: option.splits if_splits)

text \<open>A property every body keeps, whatever code it returns, holds after the loop.\<close>

lemma each_or_return_inv:
  assumes "each_or_return f xs s = Some (c, t)" and "P s"
    and "\<And>x s d u. x \<in> set xs \<Longrightarrow> P s \<Longrightarrow> f x s = Some (d, u) \<Longrightarrow> P u"
  shows "P t"
  using assms
proof (induction xs arbitrary: s)
  case (Cons x xs)
  from Cons.prems(1) obtain d u where 1: "f x s = Some (d, u)"
    "if d = kSuccess then each_or_return f xs u = Some (c, t) else c = d \<and> t = u"
    by (auto simp: or_return_Some)
  have "P u" by (rule Cons.prems(3) [OF _ Cons.prems(2) 1(1)]) simp
  show ?case
  proof (cases "d = kSuccess")
    case True
    with 1(2) have "each_or_return f xs u = Some (c, t)" by simp
    then show ?thesis
      by (rule Cons.IH [OF _ \<open>P u\<close>]) (use Cons.prems(3) in \<open>meson list.set_intros(2)\<close>)
  next
    case False
    with 1(2) \<open>P u\<close> show ?thesis by simp
  qed
qed simp

text \<open>The loop returns if every body does from every state of an invariant.\<close>

lemma each_or_return_total:
  assumes "P s" and "\<And>x s. x \<in> set xs \<Longrightarrow> P s \<Longrightarrow> \<exists>d u. f x s = Some (d, u) \<and> P u"
  shows "\<exists>c t. each_or_return f xs s = Some (c, t) \<and> P t"
  using assms
proof (induction xs arbitrary: s)
  case (Cons x xs)
  from Cons.prems obtain d u where 1: "f x s = Some (d, u)" "P u" by (metis list.set_intros(1))
  show ?case
  proof (cases "d = kSuccess")
    case True
    from Cons.IH [OF 1(2)] Cons.prems(2) True 1 show ?thesis by (auto simp: or_return_Some)
  next
    case False
    with 1 show ?thesis by (auto simp: or_return_def)
  qed
qed simp

text \<open>A loop that succeeds ran every body successfully.\<close>

lemma each_or_return_success:
  assumes "each_or_return f xs s = Some (kSuccess, t)" and "x \<in> set xs" and "P s"
    and "\<And>y s d u. y \<in> set xs \<Longrightarrow> P s \<Longrightarrow> f y s = Some (d, u) \<Longrightarrow> P u"
    and "\<And>s u. P s \<Longrightarrow> f x s = Some (kSuccess, u) \<Longrightarrow> Q u"
    and "\<And>y s d u. y \<in> set xs \<Longrightarrow> P s \<Longrightarrow> Q s \<Longrightarrow> f y s = Some (d, u) \<Longrightarrow> Q u"
  shows "Q t"
  using assms
proof (induction xs arbitrary: s)
  case Nil
  from Nil.prems(2) show ?case by simp
next
  case (Cons y ys)
  from Cons.prems(1) obtain u where 1: "f y s = Some (kSuccess, u)" "each_or_return f ys u = Some (kSuccess, t)"
    by (auto simp: or_return_Some split: if_splits)
  have Pu: "P u" by (rule Cons.prems(4) [OF _ Cons.prems(3) 1(1)]) simp
  show ?case
  proof (cases "x \<in> set ys")
    case True
    show ?thesis
      by (rule Cons.IH [OF 1(2) True Pu]) (meson Cons.prems(4-6) list.set_intros(2))+
  next
    case False
    then have "Q u" using Cons.prems(2,3,5) 1(1) by auto
    then have "P u \<and> Q u" using Pu by simp
    have "P t \<and> Q t"
      by (rule each_or_return_inv [where P = "\<lambda>s. P s \<and> Q s", OF 1(2) \<open>P u \<and> Q u\<close>]) (meson Cons.prems(4,6) list.set_intros(2))
    then show ?thesis ..
  qed
qed

text \<open>Bodies that return more often make loops that return more often, with the same result.\<close>

lemma or_return_mono:
  assumes "\<And>s r. m s = Some r \<Longrightarrow> m' s = Some r" and "\<And>s r. k s = Some r \<Longrightarrow> k' s = Some r"
    and "or_return m k s = Some r"
  shows "or_return m' k' s = Some r"
  using assms by (cases r) (auto simp: or_return_Some split: if_splits)

lemma each_or_return_mono:
  assumes "\<And>x s r. f x s = Some r \<Longrightarrow> g x s = Some r"
  shows "each_or_return f xs s = Some r \<Longrightarrow> each_or_return g xs s = Some r"
proof (induction xs arbitrary: s r)
  case (Cons x xs)
  have "or_return (f x) (each_or_return f xs) s = Some r" using Cons.prems by simp
  then have "or_return (g x) (each_or_return g xs) s = Some r"
    by (rule or_return_mono [rotated 2]) (use assms Cons.IH in blast)+
  then show ?case by simp
qed simp

end
