(* ===== verification/UsbDescriptors.thy ===== *)
theory UsbDescriptors
  imports Trb KernelError
begin

text \<open>
  Setup packets, descriptors and the walk over a configuration descriptor
  (\<open>usb/setupdata.hpp\<close>, \<open>usb/descriptor.hpp\<close>, and the reader in \<open>usb/device.cpp\<close>). A buffer is the
  list of its bytes; a read past its end is undefined. A packed descriptor struct is a layout in
  bytes.
\<close>

section \<open>Setup packets\<close>

definition request_type_kDevice :: u8 where "request_type_kDevice = 0"
definition request_type_kInterface :: u8 where "request_type_kInterface = 1"
definition request_type_kEndpoint :: u8 where "request_type_kEndpoint = 2"
definition request_type_kOther :: u8 where "request_type_kOther = 3"
definition request_type_kStandard :: u8 where "request_type_kStandard = 0"
definition request_type_kClass :: u8 where "request_type_kClass = 1"
definition request_type_kVendor :: u8 where "request_type_kVendor = 2"
definition request_type_kOut :: u8 where "request_type_kOut = 0"
definition request_type_kIn :: u8 where "request_type_kIn = 1"
definition request_kGetDescriptor :: u8 where "request_kGetDescriptor = 6"
definition request_kSetConfiguration :: u8 where "request_kSetConfiguration = 9"
definition request_kSetProtocol :: u8 where "request_kSetProtocol = 11"

text \<open>The other requests and the types of descriptors, of which the kernel uses those its structures name.\<close>

definition request_kGetStatus :: u8 where "request_kGetStatus = 0"
definition request_kClearFeature :: u8 where "request_kClearFeature = 1"
definition request_kSetFeature :: u8 where "request_kSetFeature = 3"
definition request_kSetAddress :: u8 where "request_kSetAddress = 5"
definition request_kSetDescriptor :: u8 where "request_kSetDescriptor = 7"
definition request_kGetConfiguration :: u8 where "request_kGetConfiguration = 8"
definition request_kGetInterface :: u8 where "request_kGetInterface = 10"
definition request_kSetInterface :: u8 where "request_kSetInterface = 11"
definition request_kSynchFrame :: u8 where "request_kSynchFrame = 12"
definition request_kSetEncryption :: u8 where "request_kSetEncryption = 13"
definition request_kGetEncryption :: u8 where "request_kGetEncryption = 14"
definition request_kSetHandshake :: u8 where "request_kSetHandshake = 15"
definition request_kGetHandshake :: u8 where "request_kGetHandshake = 16"
definition request_kSetConnection :: u8 where "request_kSetConnection = 17"
definition request_kSetSecurityData :: u8 where "request_kSetSecurityData = 18"
definition request_kGetSecurityData :: u8 where "request_kGetSecurityData = 19"
definition request_kSetWUSBData :: u8 where "request_kSetWUSBData = 20"
definition request_kLoopbackDataWrite :: u8 where "request_kLoopbackDataWrite = 21"
definition request_kLoopbackDataRead :: u8 where "request_kLoopbackDataRead = 22"
definition request_kSetInterfaceDS :: u8 where "request_kSetInterfaceDS = 23"
definition request_kSetSel :: u8 where "request_kSetSel = 48"
definition request_kSetIsochDelay :: u8 where "request_kSetIsochDelay = 49"
definition request_kGetReport :: u8 where "request_kGetReport = 1"
definition descriptor_type_kDevice :: u8 where "descriptor_type_kDevice = 1"
definition descriptor_type_kConfiguration :: u8 where "descriptor_type_kConfiguration = 2"
definition descriptor_type_kString :: u8 where "descriptor_type_kString = 3"
definition descriptor_type_kInterface :: u8 where "descriptor_type_kInterface = 4"
definition descriptor_type_kEndpoint :: u8 where "descriptor_type_kEndpoint = 5"
definition descriptor_type_kInterfacePower :: u8 where "descriptor_type_kInterfacePower = 8"
definition descriptor_type_kOTG :: u8 where "descriptor_type_kOTG = 9"
definition descriptor_type_kDebug :: u8 where "descriptor_type_kDebug = 10"
definition descriptor_type_kInterfaceAssociation :: u8 where "descriptor_type_kInterfaceAssociation = 11"
definition descriptor_type_kBOS :: u8 where "descriptor_type_kBOS = 15"
definition descriptor_type_kDeviceCapability :: u8 where "descriptor_type_kDeviceCapability = 16"
definition descriptor_type_kHID :: u8 where "descriptor_type_kHID = 33"
definition descriptor_type_kSuperspeedUSBEndpointCompanion :: u8 where "descriptor_type_kSuperspeedUSBEndpointCompanion = 48"
definition descriptor_type_kSuperspeedPlusIsochronousEndpointCompanion :: u8 where "descriptor_type_kSuperspeedPlusIsochronousEndpointCompanion = 49"

definition request_type_bits :: layout where
  "request_type_bits = [(''recipient'', 5), (''type'', 2), (''direction'', 1)]"

record SetupData =
  su_request_type :: u8
  su_request :: u8
  su_value :: u16
  su_index :: u16
  su_length :: u16

definition SetupData_zero :: SetupData where
  "SetupData_zero = \<lparr>su_request_type = 0, su_request = 0, su_value = 0, su_index = 0, su_length = 0\<rparr>"

definition SetupData_eq :: "SetupData \<Rightarrow> SetupData \<Rightarrow> bool" where
  "SetupData_eq l r \<longleftrightarrow> su_request_type l = su_request_type r \<and> su_request l = su_request r \<and>
     su_value l = su_value r \<and> su_index l = su_index r \<and> su_length l = su_length r"

text \<open>The three assignments to the bit-fields of \<open>request_type\<close> that every request starts with.\<close>

definition make_request_type :: "u8 \<Rightarrow> u8 \<Rightarrow> u8 \<Rightarrow> u8" where
  "make_request_type direction ty recipient =
     wr request_type_bits ''recipient'' recipient (wr request_type_bits ''type'' ty
       (wr request_type_bits ''direction'' direction 0))"

section \<open>Descriptors\<close>

definition DeviceDescriptor :: layout where
  "DeviceDescriptor = [(''length'', 1), (''descriptor_type'', 1), (''usb_release'', 2), (''device_class'', 1),
     (''device_sub_class'', 1), (''device_protocol'', 1), (''max_packet_size'', 1), (''vendor_id'', 2),
     (''product_id'', 2), (''device_release'', 2), (''manufacturer'', 1), (''product'', 1),
     (''serial_number'', 1), (''num_configurations'', 1)]"
definition DeviceDescriptor_kType :: u8 where "DeviceDescriptor_kType = 1"

definition ConfigurationDescriptor :: layout where
  "ConfigurationDescriptor = [(''length'', 1), (''descriptor_type'', 1), (''total_length'', 2), (''num_interfaces'', 1),
     (''configuration_value'', 1), (''configuration_id'', 1), (''attributes'', 1), (''max_power'', 1)]"
definition ConfigurationDescriptor_kType :: u8 where "ConfigurationDescriptor_kType = 2"

definition InterfaceDescriptor :: layout where
  "InterfaceDescriptor = [(''length'', 1), (''descriptor_type'', 1), (''interface_number'', 1),
     (''alternate_setting'', 1), (''num_endpoints'', 1), (''interface_class'', 1),
     (''interface_sub_class'', 1), (''interface_protocol'', 1), (''interface_id'', 1)]"
definition InterfaceDescriptor_kType :: u8 where "InterfaceDescriptor_kType = 4"

definition EndpointDescriptor :: layout where
  "EndpointDescriptor = [(''length'', 1), (''descriptor_type'', 1), (''endpoint_address'', 1), (''attributes'', 1),
     (''max_packet_size'', 2), (''interval'', 1)]"
definition EndpointDescriptor_kType :: u8 where "EndpointDescriptor_kType = 5"

definition endpoint_address_bits :: layout where
  "endpoint_address_bits = [(''number'', 4), ('''', 3), (''dir_in'', 1)]"

definition attributes_bits :: layout where
  "attributes_bits = [(''transfer_type'', 2), (''sync_type'', 2), (''usage_type'', 2), ('''', 2)]"

definition HIDDescriptor :: layout where
  "HIDDescriptor = [(''length'', 1), (''descriptor_type'', 1), (''hid_release'', 2), (''country_code'', 1),
     (''num_descriptors'', 1)]"
definition HIDDescriptor_kType :: u8 where "HIDDescriptor_kType = 33"

definition ClassDescriptor :: layout where
  "ClassDescriptor = [(''descriptor_type'', 1), (''descriptor_length'', 2)]"

text \<open>The types of the structures are those of the list.\<close>

lemma descriptor_types_agree:
  "DeviceDescriptor_kType = descriptor_type_kDevice" "ConfigurationDescriptor_kType = descriptor_type_kConfiguration"
  "InterfaceDescriptor_kType = descriptor_type_kInterface" "EndpointDescriptor_kType = descriptor_type_kEndpoint"
  "HIDDescriptor_kType = descriptor_type_kHID"
  by code_simp+

type_synonym buffer = "u8 list"

definition byte_at :: "buffer \<Rightarrow> nat \<Rightarrow> u8 option" where
  "byte_at buf i = (if i < length buf then Some (buf ! i) else None)"

text \<open>A field of one byte of the descriptor at offset \<open>p\<close>, and one of two bytes.\<close>

definition field8 :: "layout \<Rightarrow> string \<Rightarrow> buffer \<Rightarrow> nat \<Rightarrow> u8 option" where
  "field8 L f buf p = byte_at buf (p + offset_of L f)"

definition field16 :: "layout \<Rightarrow> string \<Rightarrow> buffer \<Rightarrow> nat \<Rightarrow> u16 option" where
  "field16 L f buf p = do {
     lo \<leftarrow> byte_at buf (p + offset_of L f);
     hi \<leftarrow> byte_at buf (p + offset_of L f + 1);
     Some (ucast lo OR push_bit 8 (ucast hi))
   }"

text \<open>The position of the class descriptor, \<open>Some None\<close> for the null pointer.\<close>

definition GetClassDescriptor :: "nat \<Rightarrow> buffer \<Rightarrow> nat \<Rightarrow> nat option option" where
  "GetClassDescriptor index buf p = do {
     n \<leftarrow> field8 HIDDescriptor ''num_descriptors'' buf p;
     Some (if unat n \<le> index then None else Some (p + total_width HIDDescriptor + 3 * index))
   }"

text \<open>Whether the descriptor at \<open>p\<close> has the type; undefined for a null pointer or past the end.\<close>

definition DescriptorDynamicCast :: "u8 \<Rightarrow> buffer \<Rightarrow> nat option \<Rightarrow> bool option" where
  "DescriptorDynamicCast kType buf desc_data =
     (case desc_data of None \<Rightarrow> None | Some p \<Rightarrow> map_option (\<lambda>t. t = kType) (byte_at buf (p + 1)))"

section \<open>The reader\<close>

text \<open>
  \<open>ConfigurationDescriptorReader\<close>: the buffer, its length and the position. \<open>Next\<close> gives the
  position of the next descriptor, or \<open>None\<close> for a null pointer; its own result is \<open>None\<close> where
  the length byte lies past the buffer. \<open>Next<T>\<close> skips to a type, and never returns on a
  descriptor of length zero.
\<close>

record Reader =
  rdr_buf :: buffer
  rdr_len :: int
  rdr_p :: nat

definition Reader_new :: "buffer \<Rightarrow> int \<Rightarrow> Reader" where
  "Reader_new buf len = \<lparr>rdr_buf = buf, rdr_len = len, rdr_p = 0\<rparr>"

definition Next :: "Reader \<Rightarrow> (nat option \<times> Reader) option" where
  "Next r = do {
     n \<leftarrow> byte_at (rdr_buf r) (rdr_p r);
     let r = r\<lparr>rdr_p := rdr_p r + unat n\<rparr> in
     Some (if int (rdr_p r) < rdr_len r then Some (rdr_p r) else None, r)
   }"

partial_function (option) Next_of_type :: "u8 \<Rightarrow> Reader \<Rightarrow> (nat option \<times> Reader) option" where
  "Next_of_type kType r = do {
     (n, r) \<leftarrow> Next r;
     case n of
       None \<Rightarrow> Some (None, r)
     | Some p \<Rightarrow> do {
         d \<leftarrow> DescriptorDynamicCast kType (rdr_buf r) n;
         if d then Some (Some p, r) else Next_of_type kType r
       }
   }"

text \<open>\<open>MakeEPConfig\<close> for the endpoint descriptor at \<open>p\<close>.\<close>

definition EndpointType_of :: "u8 \<Rightarrow> EndpointType" where
  "EndpointType_of t = (if t = 0 then kControl else if t = 1 then kIsochronous else if t = 2 then kBulk else kInterrupt)"

definition MakeEPConfig :: "buffer \<Rightarrow> nat \<Rightarrow> EndpointConfig option" where
  "MakeEPConfig buf p = do {
     addr \<leftarrow> field8 EndpointDescriptor ''endpoint_address'' buf p;
     attr \<leftarrow> field8 EndpointDescriptor ''attributes'' buf p;
     mps \<leftarrow> field16 EndpointDescriptor ''max_packet_size'' buf p;
     interval \<leftarrow> field8 EndpointDescriptor ''interval'' buf p;
     Some \<lparr>ec_ep_id = EndpointID_of (uint (rd endpoint_address_bits ''number'' addr))
             (rd endpoint_address_bits ''dir_in'' addr = 1),
           ec_ep_type = EndpointType_of (rd attributes_bits ''transfer_type'' attr),
           ec_max_packet_size = uint mps, ec_interval = uint interval\<rparr>
   }"

section \<open>Walking a configuration\<close>

text \<open>A descriptor as the standard has it: its first byte is its length, its second its type.\<close>

definition descriptor :: "u8 list \<Rightarrow> bool" where
  "descriptor d \<longleftrightarrow> 2 \<le> length d \<and> unat (d ! 0) = length d"

text \<open>The first descriptor of a type in a list of them that starts at \<open>p\<close>.\<close>

fun first_of_type :: "u8 \<Rightarrow> nat \<Rightarrow> u8 list list \<Rightarrow> nat option" where
  "first_of_type kType p [] = None"
| "first_of_type kType p (d # ds) = (if d ! 1 = kType then Some p else first_of_type kType (p + length d) ds)"

lemma byte_at_append:
  "byte_at (xs @ ys) (length xs + i) = byte_at ys i"
  by (simp add: byte_at_def nth_append)

lemma descriptor_bytes:
  assumes "descriptor d"
  shows "byte_at (xs @ d @ ys) (length xs) = Some (d ! 0)" and "byte_at (xs @ d @ ys) (length xs + 1) = Some (d ! 1)"
  using assms byte_at_append [of xs "d @ ys" 0] byte_at_append [of xs "d @ ys" 1]
  by (auto simp: descriptor_def byte_at_def nth_append)

text \<open>
  C39. Over a buffer of well-formed descriptors, with anything behind them, the typed \<open>Next\<close> returns:
  its result is the first descriptor of the type after the current one, and the reader stands
  there, or it is the null pointer at the end of the length given and the reader stands at the end.
\<close>

theorem Next_of_type_finds_first:
  assumes "\<forall>d\<in>set (before @ current # ds). descriptor d"
    and "buf = concat (before @ current # ds) @ rest" and "n = length (concat (before @ current # ds))"
  shows "Next_of_type kType \<lparr>rdr_buf = buf, rdr_len = int n, rdr_p = length (concat before)\<rparr> =
    (case first_of_type kType (length (concat (before @ [current]))) ds of
       Some p \<Rightarrow> Some (Some p, \<lparr>rdr_buf = buf, rdr_len = int n, rdr_p = p\<rparr>)
     | None \<Rightarrow> Some (None, \<lparr>rdr_buf = buf, rdr_len = int n, rdr_p = n\<rparr>))"
  using assms(1) unfolding assms(2,3)
proof (induction ds arbitrary: before current)
  case Nil
  have "byte_at (concat before @ current @ rest) (length (concat before)) = Some (current ! 0)"
    by (rule descriptor_bytes) (use Nil in simp)
  with Nil show ?case by (subst Next_of_type.simps) (simp add: Next_def descriptor_def Let_def del: of_nat_unat)
next
  case (Cons d ds)
  let ?buf = "concat (before @ current # d # ds) @ rest"
  have d: "descriptor current" "descriptor d" using Cons.prems by simp_all
  have n: "Next \<lparr>rdr_buf = ?buf, rdr_len = int (length (concat (before @ current # d # ds))), rdr_p = length (concat before)\<rparr> =
      Some (Some (length (concat (before @ [current]))), \<lparr>rdr_buf = ?buf,
        rdr_len = int (length (concat (before @ current # d # ds))), rdr_p = length (concat (before @ [current]))\<rparr>)"
    using descriptor_bytes(1) [OF d(1), of "concat before" "concat (d # ds) @ rest"] d
    by (simp add: Next_def descriptor_def Let_def del: of_nat_unat)
  have t: "DescriptorDynamicCast kType ?buf (Some (length (concat (before @ [current])))) = Some (d ! 1 = kType)"
    using descriptor_bytes(2) [OF d(2), of "concat (before @ [current])" "concat ds @ rest"]
    by (simp add: DescriptorDynamicCast_def)
  show ?case
  proof (cases "d ! 1 = kType")
    case True
    then show ?thesis by (subst Next_of_type.simps, unfold n) (use t in simp)
  next
    case False
    have "Next_of_type kType \<lparr>rdr_buf = ?buf, rdr_len = int (length (concat (before @ current # d # ds))), rdr_p = length (concat before)\<rparr> =
        Next_of_type kType \<lparr>rdr_buf = ?buf, rdr_len = int (length (concat (before @ current # d # ds))),
          rdr_p = length (concat (before @ [current]))\<rparr>"
      by (subst Next_of_type.simps, unfold n) (use t False in simp)
    then show ?thesis using Cons.IH [of "before @ [current]" d] Cons.prems False
      by (simp add: add.assoc split: option.split)
  qed
qed

theorem Next_of_type_finds_first_witness:
  "Next_of_type 4 \<lparr>rdr_buf = [2, 2, 3, 33, 0, 3, 4, 9, 255], rdr_len = 8, rdr_p = 0\<rparr> =
    Some (Some 5, \<lparr>rdr_buf = [2, 2, 3, 33, 0, 3, 4, 9, 255], rdr_len = 8, rdr_p = 5\<rparr>)"
  using Next_of_type_finds_first [of "[]" "[2, 2]" "[[3, 33, 0], [3, 4, 9]]" "[2, 2, 3, 33, 0, 3, 4, 9, 255]" "[255]" 8 4]
  by (simp add: descriptor_def take_bit_nat_eq_self)

text \<open>
  C40. A descriptor of length zero stops the driver: from there the typed \<open>Next\<close> never returns if it
  looks for another type, since the reader stays where it is.
\<close>

theorem Next_of_type_loops_on_length_zero:
  assumes "p < length buf" and "int p < len" and "buf ! p = 0" and "p + 1 < length buf" and "buf ! (p + 1) \<noteq> kType"
  shows "Next_of_type kType \<lparr>rdr_buf = buf, rdr_len = len, rdr_p = p\<rparr> = None"
proof -
  have "kType \<noteq> buf ! (p + 1) \<longrightarrow> r \<noteq> \<lparr>rdr_buf = buf, rdr_len = len, rdr_p = p\<rparr>"
    if "Next_of_type kType r = Some y" for kType r y
    using that
  proof (induction rule: Next_of_type.raw_induct [rotated, consumes 1])
    case (1 search kType r y)
    then show ?case using assms(1-4)
      by (cases y) (auto simp: Next_def byte_at_def DescriptorDynamicCast_def split: bind_splits if_splits, blast)
  qed
  then show ?thesis using assms(5) by (cases "Next_of_type kType \<lparr>rdr_buf = buf, rdr_len = len, rdr_p = p\<rparr>") auto
qed

theorem Next_of_type_loops_on_length_zero_witness:
  "Next_of_type 4 \<lparr>rdr_buf = [0, 5], rdr_len = 2, rdr_p = 0\<rparr> = None"
  by (rule Next_of_type_loops_on_length_zero) simp_all

end
