(* ===== verification/UsbMemory.thy ===== *)
theory UsbMemory
  imports Prelude
begin

text \<open>
  The memory pool of the USB driver (\<open>usb/memory.hpp\<close>, \<open>usb/memory.cpp\<close>) and the fixed-size map
  built on an array (\<open>usb/arraymap.hpp\<close>). The pool is its start address and the allocation
  pointer, both 64-bit; memory is never given back.
\<close>

section \<open>The pool\<close>

definition kMemoryPoolSize :: u64 where
  "kMemoryPoolSize = 4096 * 32"

definition Ceil :: "u64 \<Rightarrow> u32 \<Rightarrow> u64" where
  "Ceil v alignment = (v + ucast alignment - 1) AND NOT (ucast (alignment - 1))"

definition MaskBits :: "u64 \<Rightarrow> u64 \<Rightarrow> u64" where
  "MaskBits v m = v AND NOT (m - 1)"

record Pool =
  memory_pool :: u64
  alloc_ptr :: u64

text \<open>The result is the address, or \<open>None\<close> for a null pointer.\<close>

definition AllocMem :: "u64 \<Rightarrow> u32 \<Rightarrow> u32 \<Rightarrow> Pool \<Rightarrow> u64 option \<times> Pool" where
  "AllocMem n alignment boundary pool =
     (let ptr = alloc_ptr pool;
          ptr = (if alignment > 0 then Ceil ptr alignment else ptr);
          ptr = (if boundary > 0
                 then let next_boundary = Ceil ptr boundary
                      in if next_boundary < ptr + n then next_boundary else ptr
                 else ptr)
      in if memory_pool pool + kMemoryPoolSize < ptr + n then (None, pool\<lparr>alloc_ptr := ptr\<rparr>)
         else (Some ptr, pool\<lparr>alloc_ptr := ptr + n\<rparr>))"

text \<open>\<open>AllocArray<T>\<close> for a type of the given size.\<close>

definition AllocArray :: "u64 \<Rightarrow> u64 \<Rightarrow> u32 \<Rightarrow> u32 \<Rightarrow> Pool \<Rightarrow> u64 option \<times> Pool" where
  "AllocArray sizeof_T num_obj alignment boundary = AllocMem (sizeof_T * num_obj) alignment boundary"

definition FreeMem :: "u64 \<Rightarrow> Pool \<Rightarrow> Pool" where
  "FreeMem p pool = pool"

text \<open>\<open>Allocator<T>\<close>, the allocator of standard containers, with its default parameters.\<close>

definition Allocator_allocate :: "u64 \<Rightarrow> u64 \<Rightarrow> Pool \<Rightarrow> u64 option \<times> Pool" where
  "Allocator_allocate sizeof_T n = AllocArray sizeof_T n 64 4096"

definition Allocator_deallocate :: "u64 \<Rightarrow> u64 \<Rightarrow> Pool \<Rightarrow> Pool" where
  "Allocator_deallocate p num = FreeMem p"

subsection \<open>Rounding up\<close>

text \<open>The least multiple of \<open>m\<close> that is not below \<open>x\<close>.\<close>

definition ceil_to :: "nat \<Rightarrow> nat \<Rightarrow> nat" where
  "ceil_to m x = (x + m - 1) div m * m"

lemma ceil_to_ge: "0 < m \<Longrightarrow> x \<le> ceil_to m x"
proof -
  assume "0 < m"
  then have "(x + m - 1) mod m < m" by simp
  moreover have "(x + m - 1) div m * m + (x + m - 1) mod m = x + m - 1" by simp
  ultimately show ?thesis unfolding ceil_to_def by linarith
qed

lemma ceil_to_less: "0 < m \<Longrightarrow> ceil_to m x < x + m"
proof -
  assume "0 < m"
  have "(x + m - 1) div m * m \<le> x + m - 1" by (rule div_times_less_eq_dividend)
  with \<open>0 < m\<close> show ?thesis unfolding ceil_to_def by linarith
qed

lemma dvd_ceil_to: "m dvd ceil_to m x"
  by (simp add: ceil_to_def)

lemma ceil_to_least: "0 < m \<Longrightarrow> m dvd y \<Longrightarrow> x \<le> y \<Longrightarrow> ceil_to m x \<le> y"
proof -
  assume a: "0 < m" "m dvd y" "x \<le> y"
  then have "ceil_to m x < y + m" using ceil_to_less [of m x] by linarith
  moreover obtain k j where "y = m * k" "ceil_to m x = m * j"
    using a(2) dvd_ceil_to by (metis dvdE)
  ultimately show ?thesis using a(1)
    by (metis add.commute less_Suc_eq_le mult_Suc_right mult_le_mono2 mult_less_cancel1)
qed

lemma and_not_mask_word: "w AND NOT (mask n) = push_bit n (drop_bit n (w :: 'a::len word))"
  by (intro bit_word_eqI) (auto simp: bit_simps)

lemma unat_Ceil:
  assumes "n < 32" and "unat v + 2 ^ n \<le> 2 ^ 64"
  shows "unat (Ceil v (2 ^ n)) = ceil_to (2 ^ n) (unat v)"
proof -
  have m: "ucast (2 ^ n - 1 :: u32) = (mask n :: u64)"
  proof (rule bit_word_eqI)
    fix i assume "i < LENGTH(64)"
    show "bit (ucast (2 ^ n - 1 :: u32) :: u64) i = bit (mask n :: u64) i"
      unfolding mask_eq_exp_minus_1 [symmetric] using assms(1) by (auto simp: bit_simps)
  qed
  have p: "unat (ucast (2 ^ n :: u32) :: u64) = 2 ^ n"
  proof -
    have "unat (2 ^ n :: u32) = 2 ^ n" using assms(1) by (intro unat_two_power) simp
    moreover have "(2 :: nat) ^ n < 2 ^ 64" using assms(1) by (intro power_strict_increasing) auto
    ultimately show ?thesis using assms(1) by (simp add: unsigned_ucast_eq take_bit_nat_eq_self)
  qed
  have s: "unat (v + ucast (2 ^ n :: u32) - 1) = unat v + 2 ^ n - 1"
  proof (cases "unat v + 2 ^ n = 2 ^ 64")
    case True
    then have "v + ucast (2 ^ n :: u32) = 0" by (simp add: word_unat_eq_iff unat_word_ariths p)
    then have "v + ucast (2 ^ n :: u32) - 1 = 18446744073709551615" by simp
    then show ?thesis unfolding True by simp
  next
    case False
    then have "unat (v + ucast (2 ^ n :: u32)) = unat v + 2 ^ n"
      using assms(2) by (simp add: unat_word_ariths p)
    moreover have "0 < (2::nat) ^ n" by simp
    ultimately have "1 \<le> unat (v + ucast (2 ^ n :: u32))" by linarith
    then have "1 \<le> v + ucast (2 ^ n :: u32)" by (simp add: word_le_nat_alt)
    then have "unat (v + ucast (2 ^ n :: u32) - 1) = unat (v + ucast (2 ^ n :: u32)) - 1"
      by (simp add: unat_sub)
    with \<open>unat (v + _) = _\<close> show ?thesis by simp
  qed
  have "unat (push_bit n (drop_bit n w)) = unat w div 2 ^ n * 2 ^ n" for w :: u64
  proof -
    have "take_bit LENGTH(64) (unat w) = unat w" by (rule take_bit_nat_eq_self) (rule unsigned_less)
    then have "unat (drop_bit n w) = unat w div 2 ^ n" unfolding unsigned_drop_bit_eq by (simp only: drop_bit_eq_div)
    moreover have "unat w div 2 ^ n * 2 ^ n < 2 ^ 64"
    proof -
      have "unat w < 2 ^ LENGTH(64)" by (rule unsigned_less)
      then have "unat w < 2 ^ 64" by simp
      then show ?thesis by (rule le_less_trans [OF div_times_less_eq_dividend])
    qed
    moreover have "unat (2 ^ n :: u64) = 2 ^ n" using assms(1) by (intro unat_two_power) simp
    ultimately show ?thesis
      by (simp add: push_bit_eq_mult unat_word_ariths mult.commute)
  qed
  then show ?thesis
    unfolding Ceil_def m and_not_mask_word ceil_to_def by (simp only: s)
qed

subsection \<open>First fit\<close>

text \<open>
  What an allocation promises of its address \<open>q\<close>: it is aligned, and its \<open>n\<close> bytes do not cross
  a multiple of \<open>boundary\<close>; zero stands for no constraint.
\<close>

definition fits :: "nat \<Rightarrow> nat \<Rightarrow> nat \<Rightarrow> nat \<Rightarrow> bool" where
  "fits n alignment boundary q \<longleftrightarrow> (alignment = 0 \<or> alignment dvd q) \<and>
     (boundary = 0 \<or> n = 0 \<or> q div boundary = (q + n - 1) div boundary)"

definition first_fit :: "nat \<Rightarrow> nat \<Rightarrow> nat \<Rightarrow> nat \<Rightarrow> nat" where
  "first_fit n alignment boundary ptr =
     (let p = (if alignment = 0 then ptr else ceil_to alignment ptr); b = ceil_to boundary p
      in if boundary \<noteq> 0 \<and> b < p + n then b else p)"

lemma div_eq_between: "k * b \<le> (x :: nat) \<Longrightarrow> x < k * b + b \<Longrightarrow> x div b = k"
  by (metis add.commute div_nat_eqI mult.commute mult_Suc_right)

lemma first_fit_ge: "ptr \<le> first_fit n alignment boundary ptr"
proof -
  let ?p = "if alignment = 0 then ptr else ceil_to alignment ptr"
  have "ptr \<le> ?p" using ceil_to_ge by simp
  moreover have "boundary \<noteq> 0 \<Longrightarrow> ?p \<le> ceil_to boundary ?p" using ceil_to_ge by blast
  ultimately show ?thesis unfolding first_fit_def Let_def by (auto intro: order_trans)
qed

lemma first_fit_fits:
  assumes "boundary = 0 \<or> alignment dvd boundary \<and> n \<le> boundary"
  shows "fits n alignment boundary (first_fit n alignment boundary ptr)"
proof -
  define p where "p = (if alignment = 0 then ptr else ceil_to alignment ptr)"
  have al: "alignment = 0 \<or> alignment dvd p" by (simp add: p_def dvd_ceil_to)
  consider "boundary = 0" | "boundary \<noteq> 0" "ceil_to boundary p < p + n" | "boundary \<noteq> 0" "p + n \<le> ceil_to boundary p"
    by linarith
  then show ?thesis
  proof cases
    case 1
    then show ?thesis using al by (simp add: first_fit_def fits_def flip: p_def)
  next
    case 2
    obtain k where k: "ceil_to boundary p = k * boundary" using dvd_ceil_to by (metis dvdE mult.commute)
    have "0 < n" using 2 ceil_to_ge [of boundary p] by linarith
    then have "(k * boundary + n - 1) div boundary = k" using 2 assms by (intro div_eq_between) auto
    moreover have "alignment = 0 \<or> alignment dvd k * boundary" using assms 2 by (simp add: dvd_mult)
    ultimately show ?thesis
      using 2 by (simp add: first_fit_def fits_def k flip: p_def)
  next
    case 3
    obtain k where k: "ceil_to boundary p = k * boundary" using dvd_ceil_to by (metis dvdE mult.commute)
    have lt: "k * boundary < p + boundary" using ceil_to_less [of boundary p] 3 k by simp
    have "fits n alignment boundary p"
    proof (cases "n = 0")
      case True
      then show ?thesis using al by (simp add: fits_def)
    next
      case False
      then have "0 < k" using 3 k by (cases k) auto
      then obtain j where j: "k = Suc j" by (cases k) auto
      have "p div boundary = j" "(p + n - 1) div boundary = j"
        using lt 3 k j False by (intro div_eq_between; simp)+
      then show ?thesis using al by (simp add: fits_def)
    qed
    then show ?thesis using 3 by (simp add: first_fit_def flip: p_def)
  qed
qed

lemma first_fit_least:
  assumes "fits n alignment boundary q" and "ptr \<le> q"
  shows "first_fit n alignment boundary ptr \<le> q"
proof -
  define p where "p = (if alignment = 0 then ptr else ceil_to alignment ptr)"
  have pq: "p \<le> q" using assms ceil_to_least by (auto simp: p_def fits_def)
  show ?thesis
  proof (cases "boundary \<noteq> 0 \<and> ceil_to boundary p < p + n")
    case True
    then have "0 < n" using ceil_to_ge [of boundary p] by linarith
    have "ceil_to boundary p \<le> q"
    proof (rule ccontr)
      assume "\<not> ceil_to boundary p \<le> q"
      then have lt: "q < ceil_to boundary p" by simp
      obtain k where k: "ceil_to boundary p = k * boundary" using dvd_ceil_to by (metis dvdE mult.commute)
      have "k * boundary \<le> q + n - 1" using True pq k by linarith
      then have "k \<le> (q + n - 1) div boundary" using True by (simp add: less_eq_div_iff_mult_less_eq)
      moreover have "q div boundary < k" using lt k True by (simp add: div_less_iff_less_mult)
      ultimately show False using assms(1) True \<open>0 < n\<close> by (simp add: fits_def)
    qed
    with True show ?thesis by (simp add: first_fit_def flip: p_def)
  next
    case False
    with pq show ?thesis by (auto simp: first_fit_def Let_def simp flip: p_def)
  qed
qed

definition pow2_or_zero :: "u32 \<Rightarrow> bool" where
  "pow2_or_zero w \<longleftrightarrow> w = 0 \<or> (\<exists>k<32. w = 2 ^ k)"

lemma unat_Ceil_pow2:
  assumes "pow2_or_zero w" and "w \<noteq> 0" and "unat v + unat w \<le> 2 ^ 64"
  shows "unat (Ceil v w) = ceil_to (unat w) (unat v)"
proof -
  obtain k where k: "k < 32" "w = 2 ^ k" using assms by (auto simp: pow2_or_zero_def)
  then have "unat w = 2 ^ k" by (simp add: unat_two_power)
  with assms(3) k show ?thesis by (simp add: unat_Ceil)
qed

lemma pow2_or_zero_unat: "pow2_or_zero w \<Longrightarrow> w \<noteq> 0 \<Longrightarrow> 0 < unat w \<and> unat w < 2 ^ 32"
  using unsigned_less [of w] by (simp add: unat_gt_0)

lemma AllocMem_first_fit:
  assumes "pow2_or_zero alignment" and "pow2_or_zero boundary"
    and "unat (memory_pool pool) + 2 ^ 17 < 2 ^ 63" and "unat (alloc_ptr pool) \<le> unat (memory_pool pool) + 2 ^ 17"
    and "unat n < 2 ^ 62"
  defines "p \<equiv> first_fit (unat n) (unat alignment) (unat boundary) (unat (alloc_ptr pool))"
  shows "AllocMem n alignment boundary pool =
    (if unat (memory_pool pool) + 2 ^ 17 < p + unat n then (None, pool\<lparr>alloc_ptr := word_of_nat p\<rparr>)
     else (Some (word_of_nat p), pool\<lparr>alloc_ptr := word_of_nat (p + unat n)\<rparr>))"
proof -
  let ?P = "unat (alloc_ptr pool)" and ?N = "unat n"
  define p1 where "p1 = (if alignment > 0 then Ceil (alloc_ptr pool) alignment else alloc_ptr pool)"
  define n1 where "n1 = (if unat alignment = 0 then ?P else ceil_to (unat alignment) ?P)"
  have P: "?P < 2 ^ 63" using assms(3,4) by linarith
  have u1: "unat p1 = n1" "n1 < ?P + 2 ^ 32"
  proof -
    have "unat p1 = n1 \<and> n1 < ?P + 2 ^ 32"
    proof (cases "alignment = 0")
      case False
      with assms(1) have a: "0 < unat alignment" "unat alignment < 2 ^ 32" using pow2_or_zero_unat by blast+
      then have "unat (Ceil (alloc_ptr pool) alignment) = ceil_to (unat alignment) ?P"
        using assms(1) False P by (intro unat_Ceil_pow2) auto
      moreover have "ceil_to (unat alignment) ?P < ?P + unat alignment" using a(1) by (rule ceil_to_less)
      ultimately show ?thesis using a False by (simp add: p1_def n1_def word_neq_0_conv)
    qed (simp add: p1_def n1_def)
    then show "unat p1 = n1" "n1 < ?P + 2 ^ 32" by auto
  qed
  define p2 where "p2 = (if boundary > 0 then (if Ceil p1 boundary < p1 + n then Ceil p1 boundary else p1) else p1)"
  have u2: "unat p2 = p \<and> p < ?P + 2 ^ 33"
  proof (cases "boundary = 0")
    case True
    then show ?thesis using u1 by (simp add: p2_def p_def first_fit_def n1_def)
  next
    case False
    with assms(2) have b: "0 < unat boundary" "unat boundary < 2 ^ 32" using pow2_or_zero_unat by blast+
    have c: "unat (Ceil p1 boundary) = ceil_to (unat boundary) n1"
      using assms(2) False b u1 P by (subst unat_Ceil_pow2) auto
    have "ceil_to (unat boundary) n1 < n1 + unat boundary" using b(1) by (rule ceil_to_less)
    moreover have "unat (p1 + n) = n1 + ?N"
      using u1 P assms(5) by (simp add: unat_word_ariths)
    ultimately show ?thesis
      using u1 b c False by (auto simp: p2_def p_def first_fit_def word_less_nat_alt word_neq_0_conv simp flip: n1_def)
  qed
  have pw: "word_of_nat p = p2" using u2 [THEN conjunct1, symmetric] by simp
  have "unat (p2 + n) = p + ?N" using u2 P assms(5) by (simp add: unat_word_ariths)
  moreover have "unat (memory_pool pool + kMemoryPoolSize) = unat (memory_pool pool) + 2 ^ 17"
    using assms(3) by (simp add: unat_word_ariths kMemoryPoolSize_def)
  ultimately have "memory_pool pool + kMemoryPoolSize < p2 + n \<longleftrightarrow> unat (memory_pool pool) + 2 ^ 17 < p + ?N"
    by (simp add: word_less_nat_alt)
  then show ?thesis
    using pw unfolding AllocMem_def Let_def p1_def [symmetric] p2_def [symmetric] by simp
qed

text \<open>
  C35. \<open>AllocMem\<close> is first fit above the allocation pointer: for alignments and boundaries that are
  powers of two (or 0, no constraint) and fit each other, it returns the least address from
  the pointer on that is aligned and whose \<open>n\<close> bytes cross no boundary, and moves the pointer
  behind it; it returns null exactly if that block would not end within the pool.
\<close>

theorem AllocMem_is_first_fit:
  assumes "pow2_or_zero alignment" and "pow2_or_zero boundary"
    and "boundary = 0 \<or> unat alignment dvd unat boundary \<and> n \<le> ucast boundary"
    and "unat (memory_pool pool) + 2 ^ 17 < 2 ^ 63" and "memory_pool pool \<le> alloc_ptr pool"
    and "unat (alloc_ptr pool) \<le> unat (memory_pool pool) + 2 ^ 17" and "unat n < 2 ^ 62"
  shows "case AllocMem n alignment boundary pool of
      (Some p, pool') \<Rightarrow> fits (unat n) (unat alignment) (unat boundary) (unat p) \<and> alloc_ptr pool \<le> p \<and>
        unat p + unat n \<le> unat (memory_pool pool) + 2 ^ 17 \<and> pool' = pool\<lparr>alloc_ptr := p + n\<rparr> \<and>
        (\<forall>q. unat (alloc_ptr pool) \<le> q \<longrightarrow> fits (unat n) (unat alignment) (unat boundary) q \<longrightarrow> unat p \<le> q)
    | (None, pool') \<Rightarrow> (\<forall>q. unat (alloc_ptr pool) \<le> q \<longrightarrow> fits (unat n) (unat alignment) (unat boundary) q \<longrightarrow>
        unat (memory_pool pool) + 2 ^ 17 < q + unat n)"
proof -
  let ?p = "first_fit (unat n) (unat alignment) (unat boundary) (unat (alloc_ptr pool))"
  note eq = AllocMem_first_fit [OF assms(1,2,4,6,7)]
  have "unat boundary < 2 ^ LENGTH(32)" by (rule unsigned_less)
  then have "unat (ucast boundary :: u64) = unat boundary"
    by (simp add: unsigned_ucast_eq take_bit_nat_eq_self)
  then have "unat boundary = 0 \<or> unat alignment dvd unat boundary \<and> unat n \<le> unat boundary"
    using assms(3) by (auto simp: word_le_nat_alt)
  then have fit: "fits (unat n) (unat alignment) (unat boundary) ?p" by (rule first_fit_fits)
  have least: "unat (alloc_ptr pool) \<le> q \<Longrightarrow> fits (unat n) (unat alignment) (unat boundary) q \<Longrightarrow> ?p \<le> q" for q
    by (rule first_fit_least)
  show ?thesis
  proof (cases "unat (memory_pool pool) + 2 ^ 17 < ?p + unat n")
    case True
    have "unat (memory_pool pool) + 2 ^ 17 < q + unat n"
      if "unat (alloc_ptr pool) \<le> q" "fits (unat n) (unat alignment) (unat boundary) q" for q
      using True least [OF that] by linarith
    with True show ?thesis by (simp add: eq)
  next
    case False
    then have "?p < 2 ^ 63" using assms(4) by linarith
    then have u: "unat (word_of_nat ?p :: u64) = ?p" by (simp add: unsigned_of_nat take_bit_nat_eq_self)
    have "alloc_ptr pool \<le> word_of_nat ?p" using first_fit_ge by (simp add: word_le_nat_alt u)
    moreover have "word_of_nat (?p + unat n) = word_of_nat ?p + n" by simp
    ultimately show ?thesis using False fit least by (simp add: eq u)
  qed
qed

definition sample_pool :: Pool where
  "sample_pool = \<lparr>memory_pool = 0x200000, alloc_ptr = 0x200fd0\<rparr>"

theorem AllocMem_is_first_fit_witness:
  "AllocMem 0x80 64 4096 sample_pool = (Some 0x201000, sample_pool\<lparr>alloc_ptr := 0x201080\<rparr>) \<and>
    fits 0x80 64 4096 0x201000"
proof -
  have e: "AllocMem 0x80 64 4096 sample_pool = (Some 0x201000, sample_pool\<lparr>alloc_ptr := 0x201080\<rparr>)"
    by (simp add: AllocMem_def sample_pool_def kMemoryPoolSize_def Ceil_def)
  have "(64 :: u32) = 2 ^ 6" "(4096 :: u32) = 2 ^ 12" by simp_all
  then have "pow2_or_zero 64" "pow2_or_zero 4096" unfolding pow2_or_zero_def by (metis numeral_less_iff semiring_norm(76,78,81))+
  then show ?thesis
    using AllocMem_is_first_fit [of 64 4096 "0x80" sample_pool] e by (simp add: sample_pool_def)
qed

section \<open>The array map\<close>

text \<open>The table: an entry is free if it has no key.\<close>

type_synonym ('k, 'v) ArrayMap = "('k option \<times> 'v) list"

definition ArrayMap_new :: "nat \<Rightarrow> 'v \<Rightarrow> ('k, 'v) ArrayMap" where
  "ArrayMap_new n v = replicate n (None, v)"

fun ArrayMap_Get :: "('k, 'v) ArrayMap \<Rightarrow> 'k \<Rightarrow> 'v option" where
  "ArrayMap_Get [] key = None"
| "ArrayMap_Get ((opt_k, v) # es) key = (if opt_k = Some key then Some v else ArrayMap_Get es key)"

fun ArrayMap_Put :: "'k \<Rightarrow> 'v \<Rightarrow> ('k, 'v) ArrayMap \<Rightarrow> ('k, 'v) ArrayMap" where
  "ArrayMap_Put key v [] = []"
| "ArrayMap_Put key v ((opt_k, w) # es) =
     (if opt_k = None then (Some key, v) # es else (opt_k, w) # ArrayMap_Put key v es)"

fun ArrayMap_Delete :: "'k \<Rightarrow> ('k, 'v) ArrayMap \<Rightarrow> ('k, 'v) ArrayMap" where
  "ArrayMap_Delete key [] = []"
| "ArrayMap_Delete key ((opt_k, v) # es) =
     (if opt_k = Some key then (None, v) # es else (opt_k, v) # ArrayMap_Delete key es)"

text \<open>
  What the drivers rely on: requests in flight have different keys, so a request is put under a
  new key, looked up when it completes and deleted.
\<close>

locale request_map =
  fixes get :: "'m \<Rightarrow> 'k \<Rightarrow> 'v option" and put :: "'k \<Rightarrow> 'v \<Rightarrow> 'm \<Rightarrow> 'm" and del :: "'k \<Rightarrow> 'm \<Rightarrow> 'm"
    and ok :: "'m \<Rightarrow> bool" and room :: "'m \<Rightarrow> bool"
  assumes get_put: "ok m \<Longrightarrow> room m \<Longrightarrow> get m k = None \<Longrightarrow> get (put k v m) = (get m)(k := Some v)"
    and put_full: "\<not> room m \<Longrightarrow> put k v m = m"
    and ok_put: "ok m \<Longrightarrow> get m k = None \<Longrightarrow> ok (put k v m)"
    and get_del: "ok m \<Longrightarrow> get (del k m) = (get m)(k := None)"
    and ok_del: "ok m \<Longrightarrow> ok (del k m)"
begin

lemma served_in_any_order:
  assumes "ok m" and "room m" and "get m k = None"
  shows "get (put k v m) k = Some v" and "get (del k (put k v m)) = get m"
    and "k' \<noteq> k \<Longrightarrow> get (del k' (put k v m)) k = Some v"
  using assms by (auto simp: get_put get_del ok_put fun_eq_iff)

lemma lost_when_full: "\<not> room m \<Longrightarrow> get m k = None \<Longrightarrow> get (put k v m) k = None"
  by (simp add: put_full)

end

definition keys_distinct :: "('k, 'v) ArrayMap \<Rightarrow> bool" where
  "keys_distinct m \<longleftrightarrow> distinct (filter (\<lambda>k. k \<noteq> None) (map fst m))"

definition has_room :: "('k, 'v) ArrayMap \<Rightarrow> bool" where
  "has_room m \<longleftrightarrow> None \<in> fst ` set m"

lemma ArrayMap_Get_None_iff: "ArrayMap_Get m key = None \<longleftrightarrow> Some key \<notin> fst ` set m"
  by (induction m key rule: ArrayMap_Get.induct) auto

lemma has_room_simps [simp]:
  "\<not> has_room []" "has_room ((k, v) # es) \<longleftrightarrow> k = None \<or> has_room es"
  by (auto simp: has_room_def)

lemma ArrayMap_Put_full: "\<not> has_room m \<Longrightarrow> ArrayMap_Put key v m = m"
  by (induction key v m rule: ArrayMap_Put.induct) auto

lemma ArrayMap_Get_Put:
  "has_room m \<Longrightarrow> ArrayMap_Get m key = None \<Longrightarrow> ArrayMap_Get (ArrayMap_Put key v m) = (ArrayMap_Get m)(key := Some v)"
proof (induction key v m rule: ArrayMap_Put.induct)
  case (2 key v opt_k w es)
  show ?case
  proof (cases "opt_k = None")
    case False
    with 2(2,3) have "has_room es" "ArrayMap_Get es key = None" by (auto split: if_splits)
    then have IH: "ArrayMap_Get (ArrayMap_Put key v es) = (ArrayMap_Get es)(key := Some v)"
      by (rule 2(1) [OF False])
    have "opt_k \<noteq> Some key" using 2(3) by auto
    with False show ?thesis by (intro ext) (auto simp: IH)
  qed (simp add: fun_eq_iff)
qed simp

lemma keys_after_Put: "fst ` set (ArrayMap_Put key v m) \<subseteq> insert (Some key) (fst ` set m)"
  by (induction key v m rule: ArrayMap_Put.induct) auto

lemma keys_distinct_Put:
  "keys_distinct m \<Longrightarrow> ArrayMap_Get m key = None \<Longrightarrow> keys_distinct (ArrayMap_Put key v m)"
proof (induction key v m rule: ArrayMap_Put.induct)
  case (2 key v opt_k w es)
  then show ?case
    using keys_after_Put [of key v es]
    by (auto simp: keys_distinct_def ArrayMap_Get_None_iff split: if_splits)
qed simp

lemma keys_after_Delete: "fst ` set (ArrayMap_Delete key m) \<subseteq> insert None (fst ` set m)"
  by (induction key m rule: ArrayMap_Delete.induct) (auto split: if_splits, force+)

lemma keys_distinct_Delete: "keys_distinct m \<Longrightarrow> keys_distinct (ArrayMap_Delete key m)"
proof (induction key m rule: ArrayMap_Delete.induct)
  case (2 key opt_k v es)
  then show ?case
    using keys_after_Delete [of key es] by (auto simp: keys_distinct_def split: if_splits)
qed simp

lemma ArrayMap_Get_Delete:
  "keys_distinct m \<Longrightarrow> ArrayMap_Get (ArrayMap_Delete key m) = (ArrayMap_Get m)(key := None)"
proof (induction key m rule: ArrayMap_Delete.induct)
  case (2 key opt_k v es)
  show ?case
  proof (cases "opt_k = Some key")
    case True
    then have "Some key \<notin> fst ` set es" using 2(2) by (auto simp: keys_distinct_def)
    then have "ArrayMap_Get es key = None" by (simp add: ArrayMap_Get_None_iff)
    with True show ?thesis by (auto simp: fun_eq_iff)
  next
    case False
    with 2 show ?thesis by (auto simp: fun_eq_iff keys_distinct_def split: if_splits)
  qed
qed (simp add: fun_eq_iff)

interpretation requests: request_map ArrayMap_Get ArrayMap_Put ArrayMap_Delete keys_distinct has_room
  by unfold_locales
    (simp_all add: ArrayMap_Get_Put ArrayMap_Put_full keys_distinct_Put ArrayMap_Get_Delete keys_distinct_Delete)

text \<open>
  A value put under a new key is found until that key is deleted, and deleting it leaves the map as
  it was; \<open>Put\<close> into a full table is lost without a sign.
\<close>

lemma ArrayMap_serves_requests:
  assumes "keys_distinct m" and "ArrayMap_Get m key = None"
  shows "if has_room m
    then ArrayMap_Get (ArrayMap_Put key v m) key = Some v \<and>
      ArrayMap_Get (ArrayMap_Delete key (ArrayMap_Put key v m)) = ArrayMap_Get m \<and>
      (\<forall>key'. key' \<noteq> key \<longrightarrow> ArrayMap_Get (ArrayMap_Delete key' (ArrayMap_Put key v m)) key = Some v) \<and>
      keys_distinct (ArrayMap_Put key v m)
    else ArrayMap_Put key v m = m \<and> ArrayMap_Get (ArrayMap_Put key v m) key = None"
proof (cases "has_room m")
  case True
  show ?thesis
    unfolding if_P [OF True]
    by (intro conjI allI impI requests.served_in_any_order [OF assms(1) True assms(2)] keys_distinct_Put assms)
next
  case False
  then show ?thesis using requests.put_full [OF False] requests.lost_when_full [OF False assms(2)] by simp
qed

text \<open>
  \<open>Put\<close> does not look for its key: for a key that is in the table already, before the first
  free entry, \<open>Get\<close> keeps returning the old value, and the new one appears when the key is
  deleted.
\<close>

lemma ArrayMap_Put_does_not_replace:
  assumes "ArrayMap_Get before key = Some v" and "keys_distinct before" and "\<not> has_room before"
  shows "ArrayMap_Get (ArrayMap_Put key w (before @ (None, u) # after)) key = Some v \<and>
    ArrayMap_Get (ArrayMap_Delete key (ArrayMap_Put key w (before @ (None, u) # after))) key = Some w"
  using assms
proof (induction before)
  case (Cons e es)
  obtain opt_k x where e: "e = (opt_k, x)" by fastforce
  with Cons.prems(3) obtain k0 where k: "opt_k = Some k0" "\<not> has_room es" by auto
  show ?case
  proof (cases "opt_k = Some key")
    case True
    then have "Some key \<notin> fst ` set es" using Cons.prems(2) e by (auto simp: keys_distinct_def)
    then have "ArrayMap_Get (ArrayMap_Put key w (es @ (None, u) # after)) key = Some w"
      using k(2)
    proof (induction es)
      case (Cons e' es')
      obtain k' x' where e': "e' = (k', x')" by fastforce
      with Cons.prems have "k' \<noteq> None" "\<not> has_room es'" "k' \<noteq> Some key" "Some key \<notin> fst ` set es'"
        by auto
      with Cons.IH e' show ?case by simp
    qed simp
    with True Cons.prems e show ?thesis by simp
  next
    case False
    with Cons.prems e k have "keys_distinct es" "ArrayMap_Get es key = Some v"
      by (auto simp: keys_distinct_def split: if_splits)
    with Cons.IH k False e show ?thesis by simp
  qed
qed simp

lemma ArrayMap_Put_does_not_replace_witness:
  "ArrayMap_Get (ArrayMap_Put (3 :: nat) ''new'' [(Some 3, ''old''), (None, [])]) 3 = Some ''old''"
  using ArrayMap_Put_does_not_replace [of "[(Some (3 :: nat), ''old'')]" 3 "''old''" "''new''" "[]" "[]"]
  by (simp add: keys_distinct_def has_room_def)

end
