(* ===== verification/Ring.thy ===== *)
theory Ring
  imports Trb UsbMemory KernelError
begin

text \<open>
  The rings that driver and controller share (\<open>usb/xhci/ring.hpp\<close>, \<open>usb/xhci/ring.cpp\<close>). Memory is
  a function from addresses to words of 32 bits, and what a ring writes is the sequence of its
  word stores, because the controller may look between any two of them.

  The specification of a command or transfer ring is a queue of bounded length between the
  driver's \<open>Push\<close> and the controller's fetch, which follows the cycle bit and the link TRB.
\<close>

section \<open>Memory of words\<close>

type_synonym dmem = "u64 \<Rightarrow> u32"
type_synonym stores = "(u64 \<times> u32) list"

definition apply_stores :: "stores \<Rightarrow> dmem \<Rightarrow> dmem" where
  "apply_stores ss m = fold (\<lambda>(a, v) m. m(a := v)) ss m"

definition trb_at :: "dmem \<Rightarrow> u64 \<Rightarrow> TRB" where
  "trb_at m p = ucast (m p) OR push_bit 32 (ucast (m (p + 4))) OR push_bit 64 (ucast (m (p + 8))) OR
     push_bit 96 (ucast (m (p + 12)))"

section \<open>Command and transfer rings\<close>

definition sizeof_TRB :: u64 where "sizeof_TRB = 16"

record Ring =
  ring_buf :: "u64 option"
  ring_buf_size :: u64
  ring_cycle_bit :: bool
  ring_write_index :: u64

text \<open>\<open>memset(p, 0, n)\<close> for \<open>n\<close> a multiple of four.\<close>

definition memset_zero :: "u64 \<Rightarrow> nat \<Rightarrow> dmem \<Rightarrow> dmem" where
  "memset_zero p n m = apply_stores (map (\<lambda>i. (p + 4 * of_nat i, 0)) [0..<n div 4]) m"

definition Ring_Initialize :: "u64 \<Rightarrow> Ring \<times> Pool \<times> dmem \<Rightarrow> Code \<times> Ring \<times> Pool \<times> dmem" where
  "Ring_Initialize buf_size = (\<lambda>(r, pool, m).
     let r = r\<lparr>ring_cycle_bit := True, ring_write_index := 0, ring_buf_size := buf_size\<rparr>;
         (buf, pool) = AllocArray sizeof_TRB (ring_buf_size r) 64 (64 * 1024) pool;
         r = r\<lparr>ring_buf := buf\<rparr>
     in case buf of
          None \<Rightarrow> (kNoEnoughMemory, r, pool, m)
        | Some p \<Rightarrow> (kSuccess, r, pool, memset_zero p (unat (ring_buf_size r * sizeof_TRB)) m))"

text \<open>The address of an element of \<open>buf_\<close>, and the stores of \<open>CopyToLast\<close> in program order.\<close>

definition slot :: "u64 \<Rightarrow> u64 \<Rightarrow> u64" where
  "slot buf i = buf + sizeof_TRB * i"

definition CopyToLast :: "u64 \<Rightarrow> TRB \<Rightarrow> Ring \<Rightarrow> stores" where
  "CopyToLast buf data r =
     (let p = slot buf (ring_write_index r)
      in map (\<lambda>i. (p + 4 * of_nat i, trb_data data i)) [0..<3] @
         [(p + 12, (trb_data data 3 AND 0xfffffffe) OR of_bool (ring_cycle_bit r))])"

text \<open>
  \<open>Push\<close>: the address of the TRB, the stores, and the ring; undefined without a buffer and for a
  write index outside it.
\<close>

definition Push :: "TRB \<Rightarrow> Ring \<Rightarrow> (u64 \<times> stores \<times> Ring) option" where
  "Push data r =
     (case ring_buf r of
        None \<Rightarrow> None
      | Some buf \<Rightarrow>
          if ring_write_index r < ring_buf_size r then
            let trb_ptr = slot buf (ring_write_index r);
                ss = CopyToLast buf data r;
                r = r\<lparr>ring_write_index := ring_write_index r + 1\<rparr>
            in if ring_write_index r = ring_buf_size r - 1 then
                 let link = wr LinkTRB ''toggle_cycle'' 1 (LinkTRB_new buf);
                     ss = ss @ CopyToLast buf link r
                 in Some (trb_ptr, ss, r\<lparr>ring_write_index := 0, ring_cycle_bit := \<not> ring_cycle_bit r\<rparr>)
               else Some (trb_ptr, ss, r)
          else None)"

definition Ring_Buffer :: "Ring \<Rightarrow> u64 option" where
  "Ring_Buffer r = ring_buf r"

section \<open>Event rings\<close>

definition EventRingSegmentTableEntry :: layout where
  "EventRingSegmentTableEntry = [(''ring_segment_base_address'', 64), (''ring_segment_size'', 16), ('''', 16), ('''', 32)]"

record EventRing =
  er_buf :: u64
  er_buf_size :: u64
  er_cycle_bit :: bool
  er_erst :: u64
  er_interrupter :: u64

text \<open>The registers of an interrupter and the first entry of the segment table.\<close>

definition interrupter_reg :: "EventRing \<Rightarrow> string \<Rightarrow> u64" where
  "interrupter_reg er f = er_interrupter er + of_nat (offset_of InterrupterRegisterSet f)"

definition erst_base :: "EventRing \<Rightarrow> dmem \<Rightarrow> u64" where
  "erst_base er m = ucast (rd EventRingSegmentTableEntry ''ring_segment_base_address'' (trb_at m (er_erst er)))"

definition erst_size :: "EventRing \<Rightarrow> dmem \<Rightarrow> u64" where
  "erst_size er m = ucast (rd EventRingSegmentTableEntry ''ring_segment_size'' (trb_at m (er_erst er)))"

definition ReadDequeuePointer :: "'hw Mmio \<Rightarrow> EventRing \<Rightarrow> 'hw \<Rightarrow> u64 \<times> 'hw" where
  "ReadDequeuePointer io er hw =
     (let (v, hw) = Read64 io (interrupter_reg er ''ERDP'') hw in (ERDP_Pointer v, hw))"

definition WriteDequeuePointer :: "'hw Mmio \<Rightarrow> EventRing \<Rightarrow> u64 \<Rightarrow> 'hw \<Rightarrow> 'hw" where
  "WriteDequeuePointer io er p hw =
     (let (erdp, hw) = Read64 io (interrupter_reg er ''ERDP'') hw
      in Write64 io (interrupter_reg er ''ERDP'') (ERDP_SetPointer p erdp) hw)"

text \<open>\<open>Front\<close> is the address; \<open>HasFront\<close> reads the TRB there.\<close>

definition Front :: "'hw Mmio \<Rightarrow> EventRing \<Rightarrow> 'hw \<Rightarrow> u64 \<times> 'hw" where
  "Front io er = ReadDequeuePointer io er"

definition HasFront :: "'hw Mmio \<Rightarrow> EventRing \<Rightarrow> dmem \<Rightarrow> 'hw \<Rightarrow> bool \<times> 'hw" where
  "HasFront io er m hw =
     (let (p, hw) = Front io er hw in (rd TRB ''cycle_bit'' (trb_at m p) = of_bool (er_cycle_bit er), hw))"

definition EventRing_Pop :: "'hw Mmio \<Rightarrow> dmem \<Rightarrow> EventRing \<Rightarrow> 'hw \<Rightarrow> EventRing \<times> 'hw" where
  "EventRing_Pop io m er hw =
     (let (p, hw) = ReadDequeuePointer io er hw; p = p + sizeof_TRB;
          segment_begin = erst_base er m;
          segment_end = segment_begin + sizeof_TRB * erst_size er m
      in if p = segment_end
         then let p = segment_begin; er = er\<lparr>er_cycle_bit := \<not> er_cycle_bit er\<rparr>
              in (er, WriteDequeuePointer io er p hw)
         else (er, WriteDequeuePointer io er p hw))"

definition EventRing_Initialize ::
  "'hw Mmio \<Rightarrow> u64 \<Rightarrow> u64 \<Rightarrow> EventRing \<times> Pool \<times> dmem \<times> 'hw \<Rightarrow> Code \<times> EventRing \<times> Pool \<times> dmem \<times> 'hw" where
  "EventRing_Initialize io buf_size interrupter = (\<lambda>(er, pool, m, hw).
     let er = er\<lparr>er_cycle_bit := True, er_buf_size := buf_size, er_interrupter := interrupter\<rparr>;
         (buf, pool) = AllocArray sizeof_TRB (er_buf_size er) 64 (64 * 1024) pool
     in case buf of
          None \<Rightarrow> (kNoEnoughMemory, er\<lparr>er_buf := 0\<rparr>, pool, m, hw)
        | Some p \<Rightarrow>
            let er = er\<lparr>er_buf := p\<rparr>;
                m = memset_zero p (unat (er_buf_size er * sizeof_TRB)) m;
                (erst, pool) = AllocArray 16 1 64 (64 * 1024) pool
            in case erst of
                 None \<Rightarrow> (kNoEnoughMemory, er\<lparr>er_erst := 0\<rparr>, pool, m, hw)
               | Some e \<Rightarrow>
                   let er = er\<lparr>er_erst := e\<rparr>;
                       m = memset_zero e 16 m;
                       m = apply_stores [(e, ucast p), (e + 4, ucast (drop_bit 32 p)),
                             (e + 8, bf_set 0 16 (ucast (er_buf_size er)) (m (e + 8)))] m;
                       (erstsz, hw) = Read io (interrupter_reg er ''ERSTSZ'') hw;
                       hw = Write io (interrupter_reg er ''ERSTSZ'') (ERSTSZ_SetSize 1 erstsz) hw;
                       hw = WriteDequeuePointer io er p hw;
                       (erstba, hw) = Read64 io (interrupter_reg er ''ERSTBA'') hw;
                       hw = Write64 io (interrupter_reg er ''ERSTBA'') (ERSTBA_SetPointer e erstba) hw
                   in (kSuccess, er, pool, m, hw))"

section \<open>Slots\<close>

lemma apply_stores_append: "apply_stores (ss @ ts) m = apply_stores ts (apply_stores ss m)"
  by (simp add: apply_stores_def)

lemma of_nat_less_64:
  assumes "a < 2 ^ 64" and "b < 2 ^ 64"
  shows "(of_nat a :: u64) = of_nat b \<longleftrightarrow> a = b"
proof -
  have "unat (of_nat k :: u64) = k" if "k < 2 ^ 64" for k
    using that by (simp add: unsigned_of_nat take_bit_nat_eq_self)
  then show ?thesis using assms by metis
qed

lemma slot_word_eq:
  assumes "16 * i + k < 2 ^ 64" and "16 * j + l < 2 ^ 64" and "k < 16" and "l < 16"
  shows "slot b (of_nat i) + of_nat k = slot b (of_nat j) + of_nat l \<longleftrightarrow> i = j \<and> k = l"
proof -
  have e: "slot b (of_nat n) + of_nat k = b + of_nat (16 * n + k)" for n k
    by (simp add: slot_def sizeof_TRB_def)
  have "slot b (of_nat i) + of_nat k = slot b (of_nat j) + of_nat l \<longleftrightarrow> 16 * i + k = 16 * j + l"
    unfolding e using of_nat_less_64 [OF assms(1,2)] by simp
  also have "\<dots> \<longleftrightarrow> i = j \<and> k = l" using assms(3,4) by presburger
  finally show ?thesis .
qed

text \<open>Putting the four words of a TRB back together, with the cycle bit set.\<close>

definition with_cycle :: "bool \<Rightarrow> TRB \<Rightarrow> TRB" where
  "with_cycle c t = bf_set 96 1 (of_bool c) t"

lemma bit_fffffffe: "bit (0xfffffffe :: u32) n \<longleftrightarrow> 1 \<le> n \<and> n < 32"
proof -
  have "bit (NOT 1 :: u32) n \<longleftrightarrow> 1 \<le> n \<and> n < 32" by (auto simp: bit_simps)
  moreover have "(0xfffffffe :: u32) = NOT 1" by simp
  ultimately show ?thesis by (simp only:)
qed

lemma bit_trb_at:
  "bit (trb_at m p) n \<longleftrightarrow> (if n < 32 then bit (m p) n else if n < 64 then bit (m (p + 4)) (n - 32)
     else if n < 96 then bit (m (p + 8)) (n - 64) else bit (m (p + 12)) (n - 96))"
  unfolding trb_at_def by (auto simp: bit_simps dest: bit_imp_le_length)

lemma bit_trb_data: "bit (trb_data t i) n \<longleftrightarrow> n < 32 \<and> bit t (32 * i + n)"
  by (auto simp: trb_data_def bit_simps)

lemma trb_words:
  assumes "m p = trb_data t 0" and "m (p + 4) = trb_data t 1" and "m (p + 8) = trb_data t 2"
    and "m (p + 12) = (trb_data t 3 AND 0xfffffffe) OR of_bool c"
  shows "trb_at m p = with_cycle c t"
proof (rule bit_word_eqI)
  fix n assume "n < LENGTH(128)"
  then have "n < 128" by simp
  have c: "bit (of_bool c :: u32) k \<longleftrightarrow> k = 0 \<and> c" for k by (cases c) (simp_all add: bit_1_iff)
  have c': "bit (of_bool c :: TRB) k \<longleftrightarrow> k = 0 \<and> c" for k by (cases c) (simp_all add: bit_1_iff)
  have r: "bit (with_cycle c t) n \<longleftrightarrow> (if n = 96 then c else bit t n)"
    using \<open>n < 128\<close> by (auto simp: with_cycle_def bit_bf_set c')
  consider "n < 32" | "32 \<le> n" "n < 64" | "64 \<le> n" "n < 96" | "n = 96" | "97 \<le> n" using \<open>n < 128\<close> by linarith
  then show "bit (trb_at m p) n \<longleftrightarrow> bit (with_cycle c t) n"
    unfolding r bit_trb_at assms bit_or_iff bit_and_iff bit_trb_data bit_fffffffe c
    by cases (use \<open>n < 128\<close> in auto)
qed

lemma trb_at_cong:
  assumes "\<And>k. k \<in> {0, 4, 8, 12} \<Longrightarrow> m (p + of_nat k) = m' (p + of_nat k)"
  shows "trb_at m p = trb_at m' p"
proof -
  have "m p = m' p" "m (p + 4) = m' (p + 4)" "m (p + 8) = m' (p + 8)" "m (p + 12) = m' (p + 12)"
    using assms [of 0] assms [of 4] assms [of 8] assms [of 12] by simp_all
  then show ?thesis by (simp add: trb_at_def)
qed

text \<open>\<open>CopyToLast\<close> fills the slot at the write index and leaves the others.\<close>

lemma CopyToLast_expand:
  "CopyToLast b d r = (let p = slot b (ring_write_index r) in
     [(p, trb_data d 0), (p + 4, trb_data d 1), (p + 8, trb_data d 2),
      (p + 12, (trb_data d 3 AND 0xfffffffe) OR of_bool (ring_cycle_bit r))])"
  by (simp add: CopyToLast_def Let_def upt_rec numeral_2_eq_2)

lemma trb_at_CopyToLast:
  assumes "ring_write_index r = of_nat i" and "16 * i + 16 < 2 ^ 64" and "16 * j + 16 < 2 ^ 64"
  shows "trb_at (apply_stores (CopyToLast b d r) m) (slot b (of_nat j)) =
    (if j = i then with_cycle (ring_cycle_bit r) d else trb_at m (slot b (of_nat j)))"
proof -
  let ?p = "slot b (of_nat i)"
  have ne: "?p + 4 \<noteq> ?p" "?p + 8 \<noteq> ?p" "?p + 12 \<noteq> ?p" "?p + 8 \<noteq> ?p + 4" "?p + 12 \<noteq> ?p + 4" "?p + 12 \<noteq> ?p + 8"
    by simp_all
  let ?m = "apply_stores (CopyToLast b d r) m"
  have m: "?m = m(?p := trb_data d 0, ?p + 4 := trb_data d 1, ?p + 8 := trb_data d 2,
      ?p + 12 := (trb_data d 3 AND 0xfffffffe) OR of_bool (ring_cycle_bit r))"
    by (simp add: apply_stores_def CopyToLast_expand assms(1) Let_def)
  show ?thesis
  proof (cases "j = i")
    case True
    have "trb_at ?m ?p = with_cycle (ring_cycle_bit r) d"
      by (rule trb_words) (use ne in \<open>simp_all add: m\<close>)
    with True show ?thesis by simp
  next
    case False
    have "?m (slot b (of_nat j) + of_nat k) = m (slot b (of_nat j) + of_nat k)" if "k \<in> {0, 4, 8, 12}" for k
    proof -
      have "slot b (of_nat j) + of_nat k \<noteq> ?p + of_nat l" if "l \<in> {0, 4, 8, 12}" for l
        using slot_word_eq [of j k i l b] False that \<open>k \<in> _\<close> assms(2,3) by auto
      from this [of 0] this [of 4] this [of 8] this [of 12] show ?thesis unfolding m by simp
    qed
    then have "trb_at ?m (slot b (of_nat j)) = trb_at m (slot b (of_nat j))" by (rule trb_at_cong)
    with False show ?thesis by simp
  qed
qed

lemma rd_with_cycle: "rd TRB ''cycle_bit'' (with_cycle c t) = of_bool c"
proof -
  have "take_bit 1 (of_bool c :: TRB) = of_bool c" by (cases c) (simp_all add: take_bit_eq_mod)
  then show ?thesis unfolding with_cycle_def trb_type_position by (simp add: bf_simps)
qed

section \<open>A ring is a bounded queue\<close>

text \<open>
  The other end of a ring, as the controller's documentation describes it: it fetches the TRB at
  its dequeue address if that TRB's cycle bit equals its cycle state, and goes on behind it; a
  link TRB takes it to another address, and flips its state if it says so.
\<close>

definition is_link :: "TRB \<Rightarrow> bool" where
  "is_link t \<longleftrightarrow> TRBDynamicCast LinkTRB_Type t \<noteq> None"

definition valid_trb :: "dmem \<Rightarrow> u64 \<times> bool \<Rightarrow> bool" where
  "valid_trb m = (\<lambda>(p, ccs). rd TRB ''cycle_bit'' (trb_at m p) = of_bool ccs)"

definition follow_link :: "dmem \<Rightarrow> u64 \<times> bool \<Rightarrow> u64 \<times> bool" where
  "follow_link m = (\<lambda>(p, ccs). let t = trb_at m p in
     if valid_trb m (p, ccs) \<and> is_link t
     then (LinkTRB_Pointer t, ccs \<noteq> (rd LinkTRB ''toggle_cycle'' t \<noteq> 0)) else (p, ccs))"

definition fetch :: "dmem \<Rightarrow> u64 \<times> bool \<Rightarrow> TRB option \<times> (u64 \<times> bool)" where
  "fetch m c = (let c = follow_link m c in
     if valid_trb m c then (Some (trb_at m (fst c)), (fst c + sizeof_TRB, snd c)) else (None, c))"

text \<open>The link TRB that \<open>Push\<close> writes.\<close>

definition ring_link :: "u64 \<Rightarrow> TRB" where
  "ring_link b = wr LinkTRB ''toggle_cycle'' 1 (LinkTRB_new b)"

lemma toggle_position:
  "rd LinkTRB ''toggle_cycle'' w = bf_get 97 1 w" "wr LinkTRB ''toggle_cycle'' v w = bf_set 97 1 v w"
proof -
  have "offset_of LinkTRB ''toggle_cycle'' = 97" "width_of LinkTRB ''toggle_cycle'' = 1" by code_simp+
  then show "rd LinkTRB ''toggle_cycle'' w = bf_get 97 1 w" "wr LinkTRB ''toggle_cycle'' v w = bf_set 97 1 v w"
    by (simp_all add: rd_def wr_def)
qed

lemma ring_link_fields:
  assumes "b AND NOT (mask 4) = b"
  shows "is_link (with_cycle c (ring_link b))" and "LinkTRB_Pointer (with_cycle c (ring_link b)) = b"
    and "rd LinkTRB ''toggle_cycle'' (with_cycle c (ring_link b)) = 1"
proof -
  have in_types: "(LinkTRB, LinkTRB_Type) \<in> set trb_types" by (simp add: trb_types_def)
  have "take_bit 6 (6 :: TRB) = 6" using of_nat_type_take_bit [of 6] by simp
  then show "is_link (with_cycle c (ring_link b))"
    by (simp add: is_link_def TRBDynamicCast_def trb_type_position with_cycle_def ring_link_def toggle_position
        LinkTRB_new_def LinkTRB_SetPointer_def trb_field_positions trb_type_rd [OF in_types] bf_simps LinkTRB_Type_def)
  show "LinkTRB_Pointer (with_cycle c (ring_link b)) = b"
    using assms by (simp add: LinkTRB_Pointer_def with_cycle_def ring_link_def toggle_position LinkTRB_new_def
        LinkTRB_SetPointer_def trb_field_positions bf_simps short_pointer_field)
  have "take_bit 1 (1 :: TRB) = 1" by (simp add: take_bit_eq_mod)
  then show "rd LinkTRB ''toggle_cycle'' (with_cycle c (ring_link b)) = 1"
    by (simp add: with_cycle_def ring_link_def toggle_position bf_simps)
qed

lemma is_link_with_cycle [simp]: "is_link (with_cycle c t) = is_link t"
  by (simp add: is_link_def TRBDynamicCast_def trb_type_position with_cycle_def bf_simps)

text \<open>
  The state of a ring after the TRBs \<open>hist\<close> have been pushed: \<open>l\<close> is the number of slots before
  the link, the last \<open>l\<close> TRBs are in their slots with the cycle bit of their lap, slots not used
  yet have it clear, and the link is the one of the last wrap.
\<close>

definition ring_inv :: "nat \<Rightarrow> u64 \<Rightarrow> TRB list \<Rightarrow> Ring \<Rightarrow> dmem \<Rightarrow> bool" where
  "ring_inv l b hist r m \<longleftrightarrow> (let n = length hist in
     0 < l \<and> 16 * (l + 2) < 2 ^ 64 \<and> b AND NOT (mask 4) = b \<and>
     ring_buf r = Some b \<and> ring_buf_size r = of_nat (l + 1) \<and>
     ring_write_index r = of_nat (n mod l) \<and> ring_cycle_bit r = even (n div l) \<and>
     (\<forall>j<n. n \<le> j + l \<longrightarrow> trb_at m (slot b (of_nat (j mod l))) = with_cycle (even (j div l)) (hist ! j)) \<and>
     (\<forall>i<l. n \<le> i \<longrightarrow> rd TRB ''cycle_bit'' (trb_at m (slot b (of_nat i))) = 0) \<and>
     (if n div l = 0 then rd TRB ''cycle_bit'' (trb_at m (slot b (of_nat l))) = 0
      else trb_at m (slot b (of_nat l)) = with_cycle (odd (n div l)) (ring_link b)))"

text \<open>The controller has fetched \<open>k\<close> TRBs; it may still be at the link.\<close>

definition fetched :: "nat \<Rightarrow> u64 \<Rightarrow> nat \<Rightarrow> u64 \<times> bool \<Rightarrow> bool" where
  "fetched l b k c \<longleftrightarrow> c = (slot b (of_nat (k mod l)), even (k div l)) \<or>
     0 < k \<and> k mod l = 0 \<and> c = (slot b (of_nat l), odd (k div l))"

lemma mod_neq_near:
  assumes "j < n" and "n < j + l"
  shows "j mod l \<noteq> n mod (l :: nat)"
proof
  assume "j mod l = n mod l"
  then have "n mod l = j mod l" by simp
  then have "l dvd n - j" using assms(1) by (simp add: mod_eq_dvd_iff_nat)
  moreover have "0 < n - j" "n - j < l" using assms by auto
  ultimately show False by (meson nat_dvd_not_less)
qed

lemma div_mod_Suc:
  assumes "0 < (l :: nat)"
  shows "n mod l + 1 < l \<Longrightarrow> Suc n mod l = n mod l + 1 \<and> Suc n div l = n div l"
    and "n mod l + 1 = l \<Longrightarrow> Suc n mod l = 0 \<and> Suc n div l = n div l + 1"
  using assms by (auto simp: mod_Suc div_Suc)

lemma Push_ring_inv:
  assumes "ring_inv l b hist r m"
  shows "\<exists>p ss r'. Push d r = Some (p, ss, r') \<and> p = slot b (of_nat (length hist mod l)) \<and>
    ring_inv l b (hist @ [d]) r' (apply_stores ss m)"
proof -
  let ?n = "length hist" and ?w = "length hist mod l" and ?c = "even (length hist div l)"
  have inv: "0 < l" "16 * (l + 2) < 2 ^ 64" "b AND NOT (mask 4) = b" "ring_buf r = Some b" "ring_buf_size r = of_nat (l + 1)"
    "ring_write_index r = of_nat ?w" "ring_cycle_bit r = ?c"
    and old: "\<And>j. j < ?n \<Longrightarrow> ?n \<le> j + l \<Longrightarrow> trb_at m (slot b (of_nat (j mod l))) = with_cycle (even (j div l)) (hist ! j)"
    and fresh: "\<And>i. i < l \<Longrightarrow> ?n \<le> i \<Longrightarrow> rd TRB ''cycle_bit'' (trb_at m (slot b (of_nat i))) = 0"
    and link: "if ?n div l = 0 then rd TRB ''cycle_bit'' (trb_at m (slot b (of_nat l))) = 0
      else trb_at m (slot b (of_nat l)) = with_cycle (odd (?n div l)) (ring_link b)"
    using assms by (simp_all add: ring_inv_def Let_def)
  have w: "?w < l" using inv(1) by simp
  have u: "unat (of_nat k :: u64) = k" if "k \<le> l + 1" for k
    using that inv(2) by (simp add: unsigned_of_nat take_bit_nat_eq_self)
  have bound: "ring_write_index r < ring_buf_size r"
    unfolding inv(5,6) word_less_nat_alt using w u [of ?w] u [of "l + 1"] by simp
  have wrap: "ring_write_index r + 1 = ring_buf_size r - 1 \<longleftrightarrow> ?w + 1 = l"
  proof -
    have "ring_write_index r + 1 = ring_buf_size r - 1 \<longleftrightarrow> (of_nat (?w + 1) :: u64) = of_nat l"
      by (simp add: inv add.commute)
    also have "\<dots> \<longleftrightarrow> ?w + 1 = l" by (rule of_nat_less_64) (use w inv(2) in auto)
    finally show ?thesis .
  qed
  define m1 where "m1 = apply_stores (CopyToLast b d r) m"
  have at: "trb_at m1 (slot b (of_nat j)) = (if j = ?w then with_cycle ?c d else trb_at m (slot b (of_nat j)))"
    if "j \<le> l" for j
  proof -
    have b1: "16 * ?w + 16 < 2 ^ 64" and b2: "16 * j + 16 < 2 ^ 64" using w inv(2) that by simp_all
    show ?thesis unfolding m1_def by (simp only: trb_at_CopyToLast [OF inv(6) b1 b2] inv(7))
  qed
  have seen: "trb_at m1 (slot b (of_nat (j mod l))) = with_cycle (even (j div l)) ((hist @ [d]) ! j)"
    if "j < Suc ?n" "Suc ?n \<le> j + l" for j
  proof (cases "j = ?n")
    case True
    then show ?thesis using w by (simp add: at)
  next
    case False
    with that have "j < ?n" "?n < j + l" by auto
    then have "j mod l \<noteq> ?w" by (rule mod_neq_near)
    moreover have "j mod l \<le> l" using inv(1) by (simp add: less_imp_le)
    ultimately show ?thesis using old [of j] \<open>j < ?n\<close> \<open>?n < j + l\<close> by (simp add: at nth_append)
  qed
  have fresh1: "rd TRB ''cycle_bit'' (trb_at m1 (slot b (of_nat i))) = 0" if "i < l" "Suc ?n \<le> i" for i
    using that fresh [of i] by (auto simp: at)
  have link1: "trb_at m1 (slot b (of_nat l)) = trb_at m (slot b (of_nat l))"
    using w by (simp add: at)
  show ?thesis
  proof (cases "?w + 1 = l")
    case False
    then have "?w + 1 < l" using w by simp
    note step = div_mod_Suc(1) [OF inv(1) this]
    have "ring_inv l b (hist @ [d]) (r\<lparr>ring_write_index := ring_write_index r + 1\<rparr>) m1"
      using inv seen fresh1 link step unfolding ring_inv_def Let_def by (simp add: link1)
    moreover have "Push d r = Some (slot b (of_nat ?w), CopyToLast b d r, r\<lparr>ring_write_index := ring_write_index r + 1\<rparr>)"
      using False bound wrap inv(4,6) by (simp add: Push_def Let_def)
    ultimately show ?thesis unfolding m1_def by blast
  next
    case True
    note step = div_mod_Suc(2) [OF inv(1) this]
    define r1 where "r1 = r\<lparr>ring_write_index := ring_write_index r + 1\<rparr>"
    define m2 where "m2 = apply_stores (CopyToLast b (ring_link b) r1) m1"
    have "(of_nat l :: u64) = of_nat ?w + 1" using True by (metis of_nat_1 of_nat_add)
    then have wl: "ring_write_index r1 = of_nat l" using inv(6) by (simp add: r1_def)
    have at2: "trb_at m2 (slot b (of_nat j)) = (if j = l then with_cycle ?c (ring_link b) else trb_at m1 (slot b (of_nat j)))"
      if "j \<le> l" for j
    proof -
      have b1: "16 * l + 16 < 2 ^ 64" and b2: "16 * j + 16 < 2 ^ 64" using inv(2) that by simp_all
      have "ring_cycle_bit r1 = ?c" using inv(7) by (simp add: r1_def)
      then show ?thesis unfolding m2_def by (simp only: trb_at_CopyToLast [OF wl b1 b2])
    qed
    have ml: "j mod l \<le> l" "j mod l \<noteq> l" for j using inv(1) by (simp_all add: less_imp_le less_imp_neq)
    have "ring_inv l b (hist @ [d]) (r1\<lparr>ring_write_index := 0, ring_cycle_bit := \<not> ring_cycle_bit r1\<rparr>) m2"
      using inv seen fresh1 step unfolding ring_inv_def Let_def by (simp add: at2 ml r1_def)
    moreover have "Push d r = Some (slot b (of_nat ?w), CopyToLast b d r @ CopyToLast b (ring_link b) r1,
        r1\<lparr>ring_write_index := 0, ring_cycle_bit := \<not> ring_cycle_bit r1\<rparr>)"
      using True bound wrap inv(4,6) by (simp add: Push_def r1_def ring_link_def Let_def)
    ultimately show ?thesis unfolding m1_def m2_def by (auto simp: apply_stores_append)
  qed
qed

lemma fetch_fetched:
  assumes "ring_inv l b hist r m" and "fetched l b k c" and "k \<le> length hist" and "length hist < k + l"
    and "\<forall>t\<in>set hist. \<not> is_link t"
  shows "\<exists>c'. if k < length hist
    then fetch m c = (Some (with_cycle (even (k div l)) (hist ! k)), c') \<and> fetched l b (Suc k) c'
    else fetch m c = (None, c') \<and> fetched l b k c'"
proof -
  let ?n = "length hist" and ?s = "slot b (of_nat (k mod l))" and ?e = "even (k div l)"
  have inv: "0 < l" "b AND NOT (mask 4) = b"
    and old: "\<And>j. j < ?n \<Longrightarrow> ?n \<le> j + l \<Longrightarrow> trb_at m (slot b (of_nat (j mod l))) = with_cycle (even (j div l)) (hist ! j)"
    and fresh: "\<And>i. i < l \<Longrightarrow> ?n \<le> i \<Longrightarrow> rd TRB ''cycle_bit'' (trb_at m (slot b (of_nat i))) = 0"
    and link: "if ?n div l = 0 then rd TRB ''cycle_bit'' (trb_at m (slot b (of_nat l))) = 0
      else trb_at m (slot b (of_nat l)) = with_cycle (odd (?n div l)) (ring_link b)"
    using assms(1) by (simp_all add: ring_inv_def Let_def)
  have b0: "slot b 0 = b" by (simp add: slot_def)
  have no_link: "\<not> (valid_trb m (?s, ?e) \<and> is_link (trb_at m ?s))"
    and valid: "valid_trb m (?s, ?e) \<longleftrightarrow> k < ?n"
  proof -
    have "(valid_trb m (?s, ?e) \<longleftrightarrow> k < ?n) \<and> (k < ?n \<longrightarrow> \<not> is_link (trb_at m ?s))"
    proof (cases "k < ?n")
      case True
      then have "trb_at m ?s = with_cycle ?e (hist ! k)" using assms(4) by (intro old) auto
      moreover have "\<not> is_link (hist ! k)" using True assms(5) by simp
      ultimately show ?thesis using True by (simp add: valid_trb_def rd_with_cycle)
    next
      case False
      then have k: "k = ?n" using assms(3) by simp
      show ?thesis
      proof (cases "k < l")
        case True
        then have "rd TRB ''cycle_bit'' (trb_at m ?s) = 0" using k by (simp add: fresh)
        then show ?thesis using True False by (simp add: valid_trb_def)
      next
        case False
        then have "(k - l) mod l = k mod l" "k div l = Suc ((k - l) div l)" using inv(1)
          by (simp_all add: le_mod_geq le_div_geq)
        moreover have "trb_at m (slot b (of_nat ((k - l) mod l))) = with_cycle (even ((k - l) div l)) (hist ! (k - l))"
          using False k inv(1) by (intro old) auto
        ultimately have "trb_at m ?s = with_cycle (\<not> ?e) (hist ! (k - l))" by simp
        then show ?thesis using \<open>\<not> k < ?n\<close> by (cases ?e) (simp_all add: valid_trb_def rd_with_cycle)
      qed
    qed
    then show "\<not> (valid_trb m (?s, ?e) \<and> is_link (trb_at m ?s))" "valid_trb m (?s, ?e) \<longleftrightarrow> k < ?n" by auto
  qed
  have "follow_link m c = (?s, ?e)"
    using assms(2) unfolding fetched_def
  proof
    assume "c = (?s, ?e)"
    then show ?thesis using no_link by (auto simp: follow_link_def Let_def)
  next
    assume a: "0 < k \<and> k mod l = 0 \<and> c = (slot b (of_nat l), odd (k div l))"
    then have "k = (k div l) * l" by (metis add.right_neutral div_mult_mod_eq)
    moreover have "?n = (?n div l) * l + ?n mod l" by simp
    moreover have "?n mod l < l" using inv(1) by simp
    ultimately have "?n div l = k div l"
      using assms(3,4) inv(1) by (metis add.commute div_nat_eqI le_add1 mult.commute mult_Suc_right)
    moreover have "k div l \<noteq> 0" using a inv(1) by (auto simp: div_eq_0_iff)
    ultimately have "trb_at m (slot b (of_nat l)) = with_cycle (odd (k div l)) (ring_link b)" using link by simp
    with a show ?thesis
      by (simp add: follow_link_def valid_trb_def rd_with_cycle ring_link_fields [OF inv(2), simplified] b0 Let_def)
  qed
  then have f: "fetch m c = (if k < ?n then (Some (trb_at m ?s), (?s + sizeof_TRB, ?e)) else (None, (?s, ?e)))"
    unfolding fetch_def Let_def by (simp add: valid)
  show ?thesis
  proof (cases "k < ?n")
    case True
    then have "trb_at m ?s = with_cycle ?e (hist ! k)" using assms(4) by (intro old) auto
    moreover have "?s + sizeof_TRB = slot b (of_nat (k mod l + 1))" by (simp add: slot_def algebra_simps)
    moreover have "k mod l < l" using inv(1) by simp
    then consider "k mod l + 1 < l" | "k mod l + 1 = l" by linarith
    then have "fetched l b (Suc k) (slot b (of_nat (k mod l + 1)), ?e)"
      by cases (use div_mod_Suc [OF inv(1), of k] in \<open>auto simp: fetched_def\<close>)
    ultimately show ?thesis using True f by simp
  next
    case False
    then show ?thesis using f by (simp add: fetched_def)
  qed
qed

text \<open>Any interleaving of the two ends, and the queue it stands for.\<close>

datatype ring_op = Produce TRB | Consume

fun run_ring :: "ring_op list \<Rightarrow> Ring \<Rightarrow> dmem \<Rightarrow> u64 \<times> bool \<Rightarrow> TRB option list option" where
  "run_ring [] r m c = Some []"
| "run_ring (Produce d # ops) r m c =
     (case Push d r of None \<Rightarrow> None | Some (p, ss, r') \<Rightarrow> run_ring ops r' (apply_stores ss m) c)"
| "run_ring (Consume # ops) r m c =
     (let (t, c') = fetch m c in map_option ((#) (map_option (with_cycle False) t)) (run_ring ops r m c'))"

fun run_fifo :: "ring_op list \<Rightarrow> TRB list \<Rightarrow> TRB option list" where
  "run_fifo [] q = []"
| "run_fifo (Produce d # ops) q = run_fifo ops (q @ [d])"
| "run_fifo (Consume # ops) [] = None # run_fifo ops []"
| "run_fifo (Consume # ops) (d # q) = Some (with_cycle False d) # run_fifo ops q"

text \<open>At most \<open>n\<close> TRBs wait at any time, and none of them is a link.\<close>

fun never_more_than :: "nat \<Rightarrow> ring_op list \<Rightarrow> TRB list \<Rightarrow> bool" where
  "never_more_than n [] q = True"
| "never_more_than n (Produce d # ops) q \<longleftrightarrow> length q < n \<and> \<not> is_link d \<and> never_more_than n ops (q @ [d])"
| "never_more_than n (Consume # ops) q \<longleftrightarrow> never_more_than n ops (tl q)"

lemma with_cycle_overwrite [simp]: "with_cycle c (with_cycle c' t) = with_cycle c t"
  by (simp add: with_cycle_def bf_set_overwrite)

lemma run_ring_fifo:
  assumes "ring_inv l b hist r m" and "fetched l b k c" and "k \<le> length hist" and "length (drop k hist) < l"
    and "\<forall>t\<in>set hist. \<not> is_link t" and "never_more_than (l - 1) ops (drop k hist)"
  shows "run_ring ops r m c = Some (run_fifo ops (drop k hist))"
  using assms
proof (induction ops arbitrary: hist r m k c)
  case (Cons op ops)
  show ?case
  proof (cases op)
    case (Produce d)
    obtain p ss r' where push: "Push d r = Some (p, ss, r')" "ring_inv l b (hist @ [d]) r' (apply_stores ss m)"
      using Push_ring_inv [OF Cons.prems(1)] by blast
    have "run_ring ops r' (apply_stores ss m) c = Some (run_fifo ops (drop k (hist @ [d])))"
      by (rule Cons.IH [OF push(2) Cons.prems(2)]) (use Cons.prems Produce in auto)
    with Produce push(1) Cons.prems(3) show ?thesis by simp
  next
    case Consume
    have lt: "length hist < k + l" using Cons.prems(3,4) by simp
    show ?thesis
    proof (cases "k < length hist")
      case True
      with fetch_fetched [OF Cons.prems(1,2,3) lt Cons.prems(5)] obtain c' where
        f: "fetch m c = (Some (with_cycle (even (k div l)) (hist ! k)), c')" "fetched l b (Suc k) c'" by auto
      have q: "drop k hist = hist ! k # drop (Suc k) hist" using True by (simp add: Cons_nth_drop_Suc)
      have "run_ring ops r m c' = Some (run_fifo ops (drop (Suc k) hist))"
        by (rule Cons.IH [OF Cons.prems(1) f(2)]) (use Cons.prems True Consume q in auto)
      with Consume f(1) q show ?thesis by simp
    next
      case False
      with fetch_fetched [OF Cons.prems(1,2,3) lt Cons.prems(5)] obtain c' where
        f: "fetch m c = (None, c')" "fetched l b k c'" by auto
      have q: "drop k hist = []" using False by simp
      have "run_ring ops r m c' = Some (run_fifo ops (drop k hist))"
        by (rule Cons.IH [OF Cons.prems(1) f(2)]) (use Cons.prems Consume q in auto)
      with Consume f(1) q show ?thesis by simp
    qed
  qed
qed simp

text \<open>
  C9. A ring as \<open>Initialize\<close> leaves it refines a bounded first-in first-out queue: for every
  interleaving of \<open>Push\<close> with the fetches of a controller that follows cycle bits and link TRBs,
  in which at most two fewer TRBs than the ring has slots wait at a time, every push is within
  the buffer and the controller fetches the TRBs pushed, each once and in order, and nothing
  when none waits, over any number of laps.
\<close>

theorem Ring_refines_queue:
  assumes "ring_buf r = Some b" and "b AND NOT (mask 4) = b" and "2 \<le> n" and "n < 2 ^ 32" and "ring_buf_size r = of_nat n"
    and "ring_write_index r = 0" and "ring_cycle_bit r" and "\<forall>i<n. trb_at m (slot b (of_nat i)) = 0"
    and "never_more_than (n - 2) ops []"
  shows "run_ring ops r m (b, True) = Some (run_fifo ops [])"
proof -
  have z: "rd TRB ''cycle_bit'' (0 :: TRB) = 0" by (simp add: trb_type_position)
  obtain l where n: "n = Suc l" "0 < l" using assms(3) by (cases n) auto
  have slots: "trb_at m (slot b (of_nat i)) = 0" if "i \<le> l" for i using assms(8) that n by simp
  have "ring_inv l b [] r m"
    unfolding ring_inv_def Let_def using assms(1,2,4-7) n z by (simp add: slots)
  moreover have "fetched l b 0 (b, True)" by (simp add: fetched_def slot_def)
  moreover have "never_more_than (l - 1) ops []" using assms(9) n by (simp add: numeral_2_eq_2)
  ultimately show ?thesis using run_ring_fifo [of l b "[]" r m 0 "(b, True)" ops] n(2) by simp
qed

theorem Ring_refines_queue_witness:
  "run_ring [Produce 8, Produce 9, Consume, Produce 10, Consume, Consume, Consume]
     \<lparr>ring_buf = Some 0x200000, ring_buf_size = 4, ring_cycle_bit = True, ring_write_index = 0\<rparr> (\<lambda>_. 0) (0x200000, True) =
   Some [Some 8, Some 9, Some 10, None]"
proof -
  have "\<not> is_link 8" "\<not> is_link 9" "\<not> is_link 10"
    by (simp_all add: is_link_def TRBDynamicCast_def trb_type_position LinkTRB_Type_def bf_get_def)
  moreover have "with_cycle False 8 = 8" "with_cycle False 9 = 9" "with_cycle False 10 = 10"
    by (simp_all add: with_cycle_def bf_set_def)
  moreover have "(0x200000 :: u64) AND NOT (mask 4) = 0x200000" by (simp add: mask_eq_exp_minus_1)
  moreover have "trb_at (\<lambda>_. 0) p = 0" for p by (simp add: trb_at_def)
  ultimately show ?thesis
    using Ring_refines_queue [of "\<lparr>ring_buf = Some 0x200000, ring_buf_size = 4, ring_cycle_bit = True, ring_write_index = 0\<rparr>"
        "0x200000" 4 "\<lambda>_. 0" "[Produce 8, Produce 9, Consume, Produce 10, Consume, Consume, Consume]"]
    by simp
qed

text \<open>
  The controller never sees half a TRB: of the four stores of \<open>CopyToLast\<close>, the word that holds
  the cycle bit is the last, so up to the last store the slot has its old cycle bit, and with
  the last one the whole TRB is there.
\<close>

lemma CopyToLast_publishes_last:
  "length (CopyToLast b d r) = 4 \<and>
    (\<forall>i<4. apply_stores (take i (CopyToLast b d r)) m (slot b (ring_write_index r) + 12) = m (slot b (ring_write_index r) + 12)) \<and>
    trb_at (apply_stores (CopyToLast b d r) m) (slot b (ring_write_index r)) = with_cycle (ring_cycle_bit r) d"
proof (intro conjI allI impI)
  let ?p = "slot b (ring_write_index r)"
  show "length (CopyToLast b d r) = 4" by (simp add: CopyToLast_expand Let_def)
  have ne: "?p + 12 \<noteq> ?p" "?p + 12 \<noteq> ?p + 4" "?p + 12 \<noteq> ?p + 8" by simp_all
  fix i :: nat assume "i < 4"
  then consider "i = 0" | "i = 1" | "i = 2" | "i = 3" by linarith
  then show "apply_stores (take i (CopyToLast b d r)) m (?p + 12) = m (?p + 12)"
    by cases (use ne in \<open>simp_all add: CopyToLast_expand apply_stores_def Let_def numeral_2_eq_2 numeral_3_eq_3\<close>)
next
  show "trb_at (apply_stores (CopyToLast b d r) m) (slot b (ring_write_index r)) = with_cycle (ring_cycle_bit r) d"
    by (rule trb_words) (simp_all add: CopyToLast_expand apply_stores_def Let_def)
qed

lemma CopyToLast_publishes_last_witness:
  "apply_stores (take 3 (CopyToLast 0x1000 7 \<lparr>ring_buf = Some 0x1000, ring_buf_size = 4, ring_cycle_bit = True,
     ring_write_index = 2\<rparr>)) (\<lambda>_. 0) (slot 0x1000 2 + 12) = 0"
  using CopyToLast_publishes_last [of "0x1000" 7 "\<lparr>ring_buf = Some 0x1000, ring_buf_size = 4, ring_cycle_bit = True,
     ring_write_index = 2\<rparr>" "\<lambda>_. 0"] by simp

section \<open>The event ring delivers the events\<close>

text \<open>
  The dequeue register keeps the pointer that is written, and reading it changes nothing.
\<close>

definition erdp_of :: "'hw Mmio \<Rightarrow> EventRing \<Rightarrow> 'hw \<Rightarrow> u64" where
  "erdp_of io er hw = ERDP_Pointer (fst (Read64 io (interrupter_reg er ''ERDP'') hw))"

definition keeps_erdp :: "'hw Mmio \<Rightarrow> EventRing \<Rightarrow> bool" where
  "keeps_erdp io er \<longleftrightarrow>
     (\<forall>hw. erdp_of io er (snd (Read64 io (interrupter_reg er ''ERDP'') hw)) = erdp_of io er hw) \<and>
     (\<forall>hw v. erdp_of io er (Write64 io (interrupter_reg er ''ERDP'') v hw) = ERDP_Pointer v)"

lemma erdp_of_cycle [simp]: "erdp_of io (er\<lparr>er_cycle_bit := c\<rparr>) = erdp_of io er"
  by (simp add: erdp_of_def interrupter_reg_def fun_eq_iff)

lemma erdp_round_trip: "ERDP_Pointer (ERDP_SetPointer p w) = p AND NOT (mask 4)"
  unfolding ERDP_Pointer_def ERDP_SetPointer_def pointer_positions by (rule pointer_field) simp

lemma erdp_WriteDequeuePointer:
  assumes "keeps_erdp io er" and "p AND NOT (mask 4) = p"
  shows "erdp_of io er (WriteDequeuePointer io er p hw) = p"
proof -
  obtain v hw' where "Read64 io (interrupter_reg er ''ERDP'') hw = (v, hw')" by fastforce
  then show ?thesis using assms by (simp add: WriteDequeuePointer_def keeps_erdp_def erdp_round_trip)
qed

text \<open>
  The state after the controller has written the events \<open>hist\<close> and the driver has taken \<open>k\<close>: the
  segment table names the buffer of \<open>n\<close> slots, each of the last \<open>n\<close> events has its cycle bit.
\<close>

definition event_inv :: "nat \<Rightarrow> u64 \<Rightarrow> TRB list \<Rightarrow> EventRing \<Rightarrow> dmem \<Rightarrow> bool" where
  "event_inv n b hist er m \<longleftrightarrow> 0 < n \<and> n < 2 ^ 16 \<and> b AND NOT (mask 4) = b \<and>
     erst_base er m = b \<and> erst_size er m = of_nat n \<and>
     (\<forall>j<length hist. length hist \<le> j + n \<longrightarrow>
        trb_at m (slot b (of_nat (j mod n))) = with_cycle (even (j div n)) (hist ! j)) \<and>
     (\<forall>i<n. length hist \<le> i \<longrightarrow> rd TRB ''cycle_bit'' (trb_at m (slot b (of_nat i))) = 0)"

definition taken :: "'hw Mmio \<Rightarrow> nat \<Rightarrow> u64 \<Rightarrow> nat \<Rightarrow> EventRing \<Rightarrow> 'hw \<Rightarrow> bool" where
  "taken io n b k er hw \<longleftrightarrow> erdp_of io er hw = slot b (of_nat (k mod n)) \<and> er_cycle_bit er = even (k div n)"

lemma slot_aligned:
  assumes "b AND NOT (mask 4) = b"
  shows "slot b i AND NOT (mask 4) = slot b i"
proof -
  have "b = push_bit 4 (drop_bit 4 b)" using assms by (simp add: and_not_mask_word)
  then have "slot b i = push_bit 4 (drop_bit 4 b) + 16 * i" by (simp add: slot_def sizeof_TRB_def)
  also have "\<dots> = push_bit 4 (drop_bit 4 b + i)" by (simp add: push_bit_eq_mult algebra_simps)
  finally have e: "slot b i = push_bit 4 (drop_bit 4 b + i)" .
  show ?thesis unfolding e by (intro bit_word_eqI) (auto simp: bit_simps)
qed

lemma event_invD:
  assumes "event_inv n b hist er m"
  shows "0 < n" "n < 2 ^ 16" "b AND NOT (mask 4) = b" "erst_base er m = b" "erst_size er m = of_nat n"
    and "\<And>j. j < length hist \<Longrightarrow> length hist \<le> j + n \<Longrightarrow>
      trb_at m (slot b (of_nat (j mod n))) = with_cycle (even (j div n)) (hist ! j)"
    and "\<And>i. i < n \<Longrightarrow> length hist \<le> i \<Longrightarrow> rd TRB ''cycle_bit'' (trb_at m (slot b (of_nat i))) = 0"
  using assms by (simp_all add: event_inv_def)

lemma taken_dequeue_pointer:
  assumes "keeps_erdp io er" and "taken io n b k er hw"
  obtains v hw1 where "Read64 io (interrupter_reg er ''ERDP'') hw = (v, hw1)" and "ERDP_Pointer v = slot b (of_nat (k mod n))"
    and "erdp_of io er hw1 = slot b (of_nat (k mod n))" and "Front io er hw = (slot b (of_nat (k mod n)), hw1)"
proof -
  obtain v hw1 where rd: "Read64 io (interrupter_reg er ''ERDP'') hw = (v, hw1)" by fastforce
  have v: "ERDP_Pointer v = slot b (of_nat (k mod n))" "erdp_of io er hw1 = slot b (of_nat (k mod n))"
    using assms rd unfolding taken_def keeps_erdp_def by (metis erdp_of_def fst_conv, metis snd_conv)
  then show ?thesis by (intro that [OF rd]) (simp_all add: Front_def ReadDequeuePointer_def rd)
qed

text \<open>The cycle bit in the slot of the next event tells whether that is written.\<close>

lemma next_cycle_bit:
  assumes "event_inv n b hist er m" and "k \<le> length hist" and "length hist \<le> k + n"
  shows "rd TRB ''cycle_bit'' (trb_at m (slot b (of_nat (k mod n)))) = of_bool (even (k div n)) \<longleftrightarrow> k < length hist"
proof (cases "k < length hist")
  case True
  then show ?thesis using event_invD(6) [OF assms(1) True assms(3)] by (simp add: rd_with_cycle)
next
  case not_written: False
  then have k: "k = length hist" using assms(2) by simp
  show ?thesis
  proof (cases "k < n")
    case True
    then show ?thesis using k event_invD(7) [OF assms(1), of k] by simp
  next
    case False
    then have "(k - n) mod n = k mod n" "k div n = Suc ((k - n) div n)" using event_invD(1) [OF assms(1)]
      by (simp_all add: le_mod_geq le_div_geq)
    moreover have "trb_at m (slot b (of_nat ((k - n) mod n))) = with_cycle (even ((k - n) div n)) (hist ! (k - n))"
      using False k event_invD(1) [OF assms(1)] by (intro event_invD(6) [OF assms(1)]) auto
    ultimately show ?thesis using not_written by (cases "even (k div n)") (simp_all add: rd_with_cycle)
  qed
qed

lemma EventRing_Pop_advances:
  assumes "keeps_erdp io er" and "event_inv n b hist er m" and "taken io n b k er hw"
  shows "case EventRing_Pop io m er hw of (er', hw') \<Rightarrow>
    event_inv n b hist er' m \<and> taken io n b (Suc k) er' hw' \<and> keeps_erdp io er'"
proof -
  note inv = event_invD(1-5) [OF assms(2)]
  obtain v hw1 where rd: "Read64 io (interrupter_reg er ''ERDP'') hw = (v, hw1)" and v: "ERDP_Pointer v = slot b (of_nat (k mod n))"
    by (rule taken_dequeue_pointer [OF assms(1,3)])
  have "slot b (of_nat (k mod n)) + sizeof_TRB = slot b (of_nat (k mod n + 1))"
    by (simp add: slot_def algebra_simps)
  moreover have "slot b (of_nat (k mod n + 1)) = b + sizeof_TRB * of_nat n \<longleftrightarrow> k mod n + 1 = n"
  proof -
    have "k mod n < n" using inv(1) by simp
    then show ?thesis using slot_word_eq [of "k mod n + 1" 0 n 0 b] inv(2) by (simp add: slot_def)
  qed
  ultimately have pop: "EventRing_Pop io m er hw = (if k mod n + 1 = n
      then (er\<lparr>er_cycle_bit := \<not> er_cycle_bit er\<rparr>, WriteDequeuePointer io (er\<lparr>er_cycle_bit := \<not> er_cycle_bit er\<rparr>) b hw1)
      else (er, WriteDequeuePointer io er (slot b (of_nat (k mod n + 1))) hw1))"
    unfolding EventRing_Pop_def ReadDequeuePointer_def Let_def rd prod.case v inv(4,5) by simp
  have wr: "erdp_of io er (WriteDequeuePointer io er (slot b i) hw1) = slot b i" for i
    by (rule erdp_WriteDequeuePointer [OF assms(1) slot_aligned [OF inv(3)]])
  have wdp: "WriteDequeuePointer io (er\<lparr>er_cycle_bit := c\<rparr>) = WriteDequeuePointer io er" for c
    by (simp add: WriteDequeuePointer_def interrupter_reg_def fun_eq_iff)
  have b0: "slot b 0 = b" by (simp add: slot_def)
  have keep: "keeps_erdp io (er\<lparr>er_cycle_bit := c\<rparr>)" "event_inv n b hist (er\<lparr>er_cycle_bit := c\<rparr>) m" for c
    using assms(1,2) by (simp_all add: keeps_erdp_def interrupter_reg_def event_inv_def erst_base_def erst_size_def)
  show ?thesis
  proof (cases "k mod n + 1 = n")
    case True
    from div_mod_Suc(2) [OF inv(1) True] show ?thesis
      using assms(3) wr [of 0] True by (simp add: pop wdp keep taken_def b0)
  next
    case False
    then have "k mod n + 1 < n" using inv(1) by (metis Suc_eq_plus1 Suc_lessI mod_less_divisor)
    from div_mod_Suc(1) [OF inv(1) this] show ?thesis
      using assms wr [of "of_nat (k mod n + 1)"] False by (simp add: pop taken_def)
  qed
qed

text \<open>
  C13. The driver takes the events in the order in which the controller wrote them, over any number
  of laps: with \<open>k\<close> events taken and at most a full ring ahead, \<open>HasFront\<close> is true exactly if an
  event is waiting, \<open>Front\<close> is then the address of the next one, and \<open>Pop\<close> moves on to the one
  after it, at the end of the segment back to its start with the cycle state flipped.
\<close>

theorem EventRing_delivers_events:
  assumes "keeps_erdp io er" and "event_inv n b hist er m" and "taken io n b k er hw"
    and "k \<le> length hist" and "length hist \<le> k + n"
  shows "(case HasFront io er m hw of (has, hw') \<Rightarrow> (has \<longleftrightarrow> k < length hist) \<and> taken io n b k er hw') \<and>
    (k < length hist \<longrightarrow> trb_at m (fst (Front io er hw)) = with_cycle (even (k div n)) (hist ! k)) \<and>
    (case EventRing_Pop io m er hw of (er', hw') \<Rightarrow> event_inv n b hist er' m \<and> taken io n b (Suc k) er' hw' \<and> keeps_erdp io er')"
proof -
  obtain v hw1 where v: "erdp_of io er hw1 = slot b (of_nat (k mod n))" and front: "Front io er hw = (slot b (of_nat (k mod n)), hw1)"
    by (rule taken_dequeue_pointer [OF assms(1,3)])
  have "k < length hist \<Longrightarrow> trb_at m (fst (Front io er hw)) = with_cycle (even (k div n)) (hist ! k)"
    using event_invD(6) [OF assms(2) _ assms(5)] by (simp add: front)
  moreover have "case HasFront io er m hw of (has, hw') \<Rightarrow> (has \<longleftrightarrow> k < length hist) \<and> taken io n b k er hw'"
    using next_cycle_bit [OF assms(2,4,5)] v assms(3) by (simp add: HasFront_def front taken_def)
  ultimately show ?thesis using EventRing_Pop_advances [OF assms(1-3)] by blast
qed

text \<open>A controller of one register, and an event ring of two slots with one event.\<close>

definition erdp_io :: "u64 Mmio" where
  "erdp_io = \<lparr>mm_read = (\<lambda>n a hw. (hw, hw)), mm_write = (\<lambda>n a v hw. v)\<rparr>"

definition sample_er :: EventRing where
  "sample_er = \<lparr>er_buf = 0x200000, er_buf_size = 2, er_cycle_bit = True, er_erst = 0x3000, er_interrupter = 0xf0000020\<rparr>"

definition sample_er_mem :: dmem where
  "sample_er_mem = (\<lambda>_. 0)(0x200000 := 8, 0x20000c := 1, 0x3000 := 0x200000, 0x3008 := 2)"

theorem EventRing_delivers_events_witness:
  "fst (HasFront erdp_io sample_er sample_er_mem 0x200000) \<and>
    fst (EventRing_Pop erdp_io sample_er_mem sample_er 0x200000) = sample_er \<and>
    taken erdp_io 2 0x200000 1 sample_er (snd (EventRing_Pop erdp_io sample_er_mem sample_er 0x200000))"
proof -
  have keep: "keeps_erdp erdp_io sample_er"
    by (simp add: keeps_erdp_def erdp_of_def erdp_io_def Read64_def Write64_def)
  have erst: "trb_at sample_er_mem 0x3000 = 0x20000000000200000"
    and ev: "trb_at sample_er_mem 0x200000 = with_cycle True 8" and free: "trb_at sample_er_mem 0x200010 = 0"
    by (simp_all add: trb_at_def sample_er_mem_def with_cycle_def bf_set_def)
  have "rd EventRingSegmentTableEntry ''ring_segment_base_address'' w = bf_get 0 64 w"
    "rd EventRingSegmentTableEntry ''ring_segment_size'' w = bf_get 64 16 w" for w :: TRB
    by (simp_all add: rd_def EventRingSegmentTableEntry_def)
  then have "erst_base sample_er sample_er_mem = 0x200000" "erst_size sample_er sample_er_mem = 2"
    by (simp_all add: erst_base_def erst_size_def sample_er_def erst bf_get_def take_bit_eq_mask mask_eq_exp_minus_1)
  moreover have "(0x200000 :: u64) AND NOT (mask 4) = 0x200000" by (simp add: mask_eq_exp_minus_1)
  moreover have "slot 0x200000 0 = 0x200000" "slot 0x200000 1 = 0x200010" by (simp_all add: slot_def sizeof_TRB_def)
  ultimately have inv: "event_inv 2 0x200000 [8] sample_er sample_er_mem"
    unfolding event_inv_def using ev free by (auto simp: less_2_cases_iff trb_type_position)
  have tk: "taken erdp_io 2 0x200000 0 sample_er 0x200000"
    by (simp add: taken_def erdp_of_def erdp_io_def Read64_def slot_def ERDP_Pointer_def pointer_positions
        sample_er_def bf_get_def take_bit_eq_mask mask_eq_exp_minus_1)
  have "fst (EventRing_Pop erdp_io sample_er_mem sample_er 0x200000) = sample_er"
    if "taken erdp_io 2 0x200000 1 (fst (EventRing_Pop erdp_io sample_er_mem sample_er 0x200000))
      (snd (EventRing_Pop erdp_io sample_er_mem sample_er 0x200000))"
    using that by (auto simp: taken_def EventRing_Pop_def sample_er_def Let_def split: prod.splits if_splits)
  then show ?thesis
    using EventRing_delivers_events [OF keep inv tk] by (auto simp: split: prod.splits)
qed

end
