(* ===== verification/UsbDevice.thy ===== *)
theory UsbDevice
  imports UsbDescriptors Ring
begin

text \<open>
  A USB device of the xHCI driver: \<open>usb::Device\<close> with its initialisation phases
  (\<open>usb/device.hpp\<close>, \<open>usb/device.cpp\<close>), the class drivers (\<open>usb/classdriver\<close>) and
  \<open>usb::xhci::Device\<close>, which implements the transfers (\<open>usb/xhci/device.hpp\<close>,
  \<open>usb/xhci/device.cpp\<close>). The only subclass of \<open>usb::Device\<close> is the last, so one record holds the
  members of both, and a virtual call of a transfer is the one of \<open>usb::xhci::Device\<close>. A class
  driver is an entry of the device's list of drivers, a \<open>ClassDriver*\<close> its position.
\<close>

section \<open>State\<close>

datatype HIDKind = HIDKeyboard | HIDMouse

text \<open>\<open>HIDBaseDriver\<close> with the members of its two subclasses; \<open>hid_addr\<close> is the address of \<open>buf_\<close>.\<close>

record HIDDriver =
  hid_kind :: HIDKind
  hid_addr :: u64
  hid_ep_interrupt_in :: EndpointID
  hid_ep_interrupt_out :: EndpointID
  hid_interface_index :: int
  hid_in_packet_size :: int
  hid_initialize_phase :: int
  hid_previous_buf :: buffer
  hid_observers :: "nat list"

text \<open>\<open>enum class State\<close>; a new device is in the state of zeroed memory.\<close>

datatype DeviceState = kInvalid | kBlank | kSlotAssigning | kSlotAssigned

text \<open>\<open>usb::Device\<close> and \<open>usb::xhci::Device\<close>, which extends it.\<close>

record usb_Device =
  dev_class_drivers :: "nat option list"
  dev_drivers :: "HIDDriver list"
  dev_buf_addr :: u64
  dev_num_configurations :: u8
  dev_config_index :: u8
  dev_is_initialized :: bool
  dev_initialize_phase :: int
  dev_ep_configs :: "EndpointConfig list"
  dev_num_ep_configs :: int
  dev_event_waiters :: "(SetupData, nat) ArrayMap"

record Device_usb = usb_Device +
  dev_ctx :: DeviceContext
  dev_input_ctx :: InputContext
  dev_slot_id :: u8
  dev_dbreg :: u64
  dev_state :: DeviceState
  dev_transfer_rings :: "Ring option list"
  dev_setup_stage_map :: "(u64, u64) ArrayMap"

text \<open>What a driver tells its observers, observers being numbers.\<close>

datatype Notification = KeyPush nat u8 | MouseMove nat "8 word" "8 word"

text \<open>
  Everything outside a device that its operations touch: the word memory of the rings, the
  contents of the byte buffers as the controller has filled them, the controller's registers,
  the memory pool and the notifications sent so far. The default observers are set or not; the
  size of a driver object and the offset of its buffer are those of the compiled classes.
\<close>

record 'hw World =
  w_mem :: dmem
  w_bytes :: "u64 \<Rightarrow> buffer"
  w_hw :: 'hw
  w_pool :: Pool
  w_notified :: "Notification list"
  w_keyboard_observer :: "nat option"
  w_mouse_observer :: "nat option"
  w_sizeof_driver :: u64
  w_hid_buf_offset :: u64

type_synonym 'hw dstate = "Device_usb \<times> 'hw World"

definition kHIDBufferSize :: nat where "kHIDBufferSize = 1024"

section \<open>Transfers of the xHCI device\<close>

definition MakeSetupStageTRB :: "SetupData \<Rightarrow> nat \<Rightarrow> TRB" where
  "MakeSetupStageTRB setup_data transfer_type =
     wr SetupStageTRB ''transfer_type'' (of_nat transfer_type)
       (wr SetupStageTRB ''length'' (ucast (su_length setup_data))
         (wr SetupStageTRB ''index'' (ucast (su_index setup_data))
           (wr SetupStageTRB ''value'' (ucast (su_value setup_data))
             (wr SetupStageTRB ''request'' (ucast (su_request setup_data))
               (wr SetupStageTRB ''request_type'' (ucast (su_request_type setup_data)) SetupStageTRB_new)))))"

definition MakeDataStageTRB :: "u64 \<Rightarrow> int \<Rightarrow> bool \<Rightarrow> TRB" where
  "MakeDataStageTRB buf len dir_in =
     wr DataStageTRB ''direction'' (of_bool dir_in)
       (wr DataStageTRB ''td_size'' 0
         (wr DataStageTRB ''trb_transfer_length'' (of_int len) (DataStageTRB_SetPointer buf DataStageTRB_new)))"

text \<open>\<open>tr->Push(trb)\<close> for the transfer ring of \<open>dci\<close>: the address of the TRB on the ring.\<close>

definition push_transfer :: "nat \<Rightarrow> TRB \<Rightarrow> 'hw dstate \<Rightarrow> (u64 \<times> 'hw dstate) option" where
  "push_transfer i trb = (\<lambda>(dev, w). do {
     tr \<leftarrow> dev_transfer_rings dev ! i;
     (p, ss, tr) \<leftarrow> Push trb tr;
     Some (p, dev\<lparr>dev_transfer_rings := (dev_transfer_rings dev)[i := Some tr]\<rparr>, w\<lparr>w_mem := apply_stores ss (w_mem w)\<rparr>)
   })"

definition put_setup_stage :: "u64 \<Rightarrow> u64 \<Rightarrow> Device_usb \<Rightarrow> Device_usb" where
  "put_setup_stage issuer setup dev =
     dev\<lparr>dev_setup_stage_map := ArrayMap_Put issuer setup (dev_setup_stage_map dev)\<rparr>"

definition ring_doorbell :: "'hw Mmio \<Rightarrow> int \<Rightarrow> 'hw dstate \<Rightarrow> 'hw dstate" where
  "ring_doorbell io dci = (\<lambda>(dev, w).
     (dev, w\<lparr>w_hw := DoorbellRegister_Ring io (dev_dbreg dev) (of_int dci) 0 (w_hw w)\<rparr>))"

text \<open>\<open>usb::Device::ControlIn\<close> and \<open>ControlOut\<close>, which the xHCI versions call first.\<close>

definition wait_for :: "SetupData \<Rightarrow> nat option \<Rightarrow> Device_usb \<Rightarrow> Device_usb" where
  "wait_for setup_data issuer dev =
     (case issuer of None \<Rightarrow> dev
      | Some d \<Rightarrow> dev\<lparr>dev_event_waiters := ArrayMap_Put setup_data d (dev_event_waiters dev)\<rparr>)"

text \<open>
  \<open>ControlIn\<close> with \<open>dir_in\<close>, \<open>ControlOut\<close> without; a buffer is \<open>None\<close> for a null pointer. The status
  stage has the direction the code gives it on each path.
\<close>

definition control_transfer ::
  "'hw Mmio \<Rightarrow> bool \<Rightarrow> EndpointID \<Rightarrow> SetupData \<Rightarrow> u64 option \<Rightarrow> int \<Rightarrow> 'hw dstate fallible" where
  "control_transfer io dir_in ep_id setup_data buf len = (\<lambda>(dev, w).
     if EndpointID_Number ep_id < 0 \<or> 15 < EndpointID_Number ep_id then Some (kInvalidEndpointNumber, dev, w)
     else
       let dci = DeviceContextIndex_of_ep ep_id; i = nat (dci - 1) in
       if dci < 1 \<or> length (dev_transfer_rings dev) < nat dci then None
       else if dev_transfer_rings dev ! i = None then Some (kTransferRingNotSet, dev, w)
       else do {
         (dev, w) \<leftarrow>
           (case buf of
              Some p \<Rightarrow> do {
                (setup_pos, dev, w) \<leftarrow> push_transfer i
                   (MakeSetupStageTRB setup_data (if dir_in then kInDataStage else kOutDataStage)) (dev, w);
                let data = wr DataStageTRB ''interrupt_on_completion'' 1 (MakeDataStageTRB p len dir_in) in
                do {
                  (data_pos, dev, w) \<leftarrow> push_transfer i data (dev, w);
                  (status_pos, dev, w) \<leftarrow> push_transfer i
                     (if dir_in then StatusStageTRB_new else wr StatusStageTRB ''direction'' 1 StatusStageTRB_new) (dev, w);
                  Some (put_setup_stage data_pos setup_pos dev, w)
                }
              }
            | None \<Rightarrow> do {
                (setup_pos, dev, w) \<leftarrow> push_transfer i (MakeSetupStageTRB setup_data kNoDataStage) (dev, w);
                (status_pos, dev, w) \<leftarrow> push_transfer i
                   (wr StatusStageTRB ''interrupt_on_completion'' 1 (wr StatusStageTRB ''direction'' 1 StatusStageTRB_new)) (dev, w);
                Some (put_setup_stage status_pos setup_pos dev, w)
              });
         Some (kSuccess, ring_doorbell io dci (dev, w))
       })"

definition ControlIn ::
  "'hw Mmio \<Rightarrow> EndpointID \<Rightarrow> SetupData \<Rightarrow> u64 option \<Rightarrow> int \<Rightarrow> nat option \<Rightarrow> 'hw dstate fallible" where
  "ControlIn io ep_id setup_data buf len issuer = (\<lambda>(dev, w).
     control_transfer io True ep_id setup_data buf len (wait_for setup_data issuer dev, w))"

definition ControlOut ::
  "'hw Mmio \<Rightarrow> EndpointID \<Rightarrow> SetupData \<Rightarrow> u64 option \<Rightarrow> int \<Rightarrow> nat option \<Rightarrow> 'hw dstate fallible" where
  "ControlOut io ep_id setup_data buf len issuer = (\<lambda>(dev, w).
     control_transfer io False ep_id setup_data buf len (wait_for setup_data issuer dev, w))"

definition InterruptIn :: "'hw Mmio \<Rightarrow> EndpointID \<Rightarrow> u64 \<Rightarrow> int \<Rightarrow> 'hw dstate fallible" where
  "InterruptIn io ep_id buf len = (\<lambda>(dev, w).
     let dci = DeviceContextIndex_of_ep ep_id; i = nat (dci - 1) in
     if dci < 1 \<or> length (dev_transfer_rings dev) < nat dci then None
     else if dev_transfer_rings dev ! i = None then Some (kTransferRingNotSet, dev, w)
     else
       let normal = wr NormalTRB ''interrupt_on_completion'' 1 (wr NormalTRB ''interrupt_on_short_packet'' 1
              (wr NormalTRB ''trb_transfer_length'' (of_int len) (NormalTRB_SetPointer buf NormalTRB_new)))
       in do {
         (p, dev, w) \<leftarrow> push_transfer i normal (dev, w);
         Some (kSuccess, ring_doorbell io dci (dev, w))
       })"

definition InterruptOut :: "EndpointID \<Rightarrow> u64 \<Rightarrow> int \<Rightarrow> 'hw dstate fallible" where
  "InterruptOut ep_id buf len s = Some (kNotImplemented, s)"

section \<open>Class drivers\<close>

definition update_driver :: "nat \<Rightarrow> (HIDDriver \<Rightarrow> HIDDriver) \<Rightarrow> Device_usb \<Rightarrow> Device_usb" where
  "update_driver d f dev = dev\<lparr>dev_drivers := (dev_drivers dev)[d := f (dev_drivers dev ! d)]\<rparr>"

definition HID_Initialize :: "nat \<Rightarrow> 'hw dstate fallible" where
  "HID_Initialize d s = Some (kNotImplemented, s)"

definition HID_SetEndpoint :: "nat \<Rightarrow> EndpointConfig \<Rightarrow> Device_usb \<Rightarrow> Device_usb" where
  "HID_SetEndpoint d config = update_driver d (\<lambda>h.
     if ec_ep_type config = kInterrupt \<and> EndpointID_IsIn (ec_ep_id config) then h\<lparr>hid_ep_interrupt_in := ec_ep_id config\<rparr>
     else if ec_ep_type config = kInterrupt \<and> \<not> EndpointID_IsIn (ec_ep_id config)
     then h\<lparr>hid_ep_interrupt_out := ec_ep_id config\<rparr>
     else h)"

definition HID_OnEndpointsConfigured :: "'hw Mmio \<Rightarrow> nat \<Rightarrow> 'hw dstate fallible" where
  "HID_OnEndpointsConfigured io d = (\<lambda>(dev, w).
     let setup_data = SetupData_zero
           \<lparr>su_request_type := make_request_type request_type_kOut request_type_kClass request_type_kInterface,
            su_request := request_kSetProtocol, su_value := 0,
            su_index := of_int (hid_interface_index (dev_drivers dev ! d)), su_length := 0\<rparr>;
         dev = update_driver d (\<lambda>h. h\<lparr>hid_initialize_phase := 1\<rparr>) dev
     in ControlOut io kDefaultControlPipeID setup_data None 0 (Some d) (dev, w))"

definition HID_OnControlCompleted :: "'hw Mmio \<Rightarrow> nat \<Rightarrow> 'hw dstate fallible" where
  "HID_OnControlCompleted io d = (\<lambda>(dev, w).
     let h = dev_drivers dev ! d in
     if hid_initialize_phase h = 1
     then InterruptIn io (hid_ep_interrupt_in h) (hid_addr h) (hid_in_packet_size h)
            (update_driver d (\<lambda>h. h\<lparr>hid_initialize_phase := 2\<rparr>) dev, w)
     else Some (kNotImplemented, dev, w))"

text \<open>\<open>NotifyKeyPush\<close> and \<open>NotifyMouseMove\<close>.\<close>

definition Notify :: "(nat \<Rightarrow> Notification) \<Rightarrow> HIDDriver \<Rightarrow> 'hw World \<Rightarrow> 'hw World" where
  "Notify message h w = w\<lparr>w_notified := w_notified w @ map message (hid_observers h)\<rparr>"

text \<open>The keys of a report that the previous buffer does not contain; a read past the buffer is undefined.\<close>

definition pushed_keys :: "buffer \<Rightarrow> buffer \<Rightarrow> u8 list" where
  "pushed_keys buf prev_buf = filter (\<lambda>key. key \<noteq> 0 \<and> key \<notin> set prev_buf) (map ((!) buf) [2..<8])"

definition HID_OnDataReceived :: "nat \<Rightarrow> 'hw dstate \<Rightarrow> 'hw dstate" where
  "HID_OnDataReceived d = (\<lambda>(dev, w).
     let h = dev_drivers dev ! d; buf = w_bytes w (hid_addr h) in
     case hid_kind h of
       HIDKeyboard \<Rightarrow> (dev, fold (\<lambda>key. Notify (\<lambda>ob. KeyPush ob key) h) (pushed_keys buf (hid_previous_buf h)) w)
     | HIDMouse \<Rightarrow> (dev, Notify (\<lambda>ob. MouseMove ob (buf ! 1) (buf ! 2)) h w))"

text \<open>\<open>copy_n\<close> past the two arrays of 1024 bytes is undefined; a negative count copies nothing.\<close>

definition HID_OnInterruptCompleted :: "'hw Mmio \<Rightarrow> nat \<Rightarrow> EndpointID \<Rightarrow> int \<Rightarrow> 'hw dstate fallible" where
  "HID_OnInterruptCompleted io d ep_id len s =
     (if EndpointID_IsIn ep_id then
        let (dev, w) = HID_OnDataReceived d s; n = nat len; buf = w_bytes w (hid_addr (dev_drivers dev ! d)) in
        if kHIDBufferSize < n \<or> length buf \<noteq> kHIDBufferSize then None
        else
          let dev = update_driver d (\<lambda>h. h\<lparr>hid_previous_buf := take n buf @ drop n (hid_previous_buf h)\<rparr>) dev;
              h = dev_drivers dev ! d
          in InterruptIn io (hid_ep_interrupt_in h) (hid_addr h) (hid_in_packet_size h) (dev, w)
      else Some (kNotImplemented, s))"

text \<open>\<open>SubscribeKeyPush\<close> and \<open>SubscribeMouseMove\<close>: room for four observers.\<close>

definition Subscribe :: "nat \<Rightarrow> HIDDriver \<Rightarrow> HIDDriver option" where
  "Subscribe observer h =
     (if length (hid_observers h) < 4 then Some (h\<lparr>hid_observers := hid_observers h @ [observer]\<rparr>) else None)"

definition HIDDriver_new :: "HIDKind \<Rightarrow> u64 \<Rightarrow> int \<Rightarrow> HIDDriver" where
  "HIDDriver_new kind addr interface_index =
     \<lparr>hid_kind = kind, hid_addr = addr, hid_ep_interrupt_in = 0, hid_ep_interrupt_out = 0,
      hid_interface_index = interface_index,
      hid_in_packet_size = (case kind of HIDKeyboard \<Rightarrow> 8 | HIDMouse \<Rightarrow> 3),
      hid_initialize_phase = 0, hid_previous_buf = replicate kHIDBufferSize 0, hid_observers = []\<rparr>"

text \<open>
  \<open>NewClassDriver\<close> for the interface descriptor at \<open>p\<close>: the position of the new driver, or \<open>None\<close>
  for a null pointer. Constructing a driver where \<open>operator new\<close> found no memory is undefined.
\<close>

definition new_driver :: "HIDKind \<Rightarrow> u8 \<Rightarrow> nat option \<Rightarrow> 'hw dstate \<Rightarrow> (nat option \<times> 'hw dstate) option" where
  "new_driver kind interface_number observer = (\<lambda>(dev, w).
     let (addr, pool) = AllocMem (w_sizeof_driver w) 0 0 (w_pool w); w = w\<lparr>w_pool := pool\<rparr> in do {
       a \<leftarrow> addr;
       let h = HIDDriver_new kind (a + w_hid_buf_offset w) (uint interface_number) in do {
         h \<leftarrow> (case observer of None \<Rightarrow> Some h | Some ob \<Rightarrow> Subscribe ob h);
         Some (Some (length (dev_drivers dev)), dev\<lparr>dev_drivers := dev_drivers dev @ [h]\<rparr>, w)
       }
     })"

definition NewClassDriver :: "buffer \<Rightarrow> nat \<Rightarrow> 'hw dstate \<Rightarrow> (nat option \<times> 'hw dstate) option" where
  "NewClassDriver buf p s = do {
     cls \<leftarrow> field8 InterfaceDescriptor ''interface_class'' buf p;
     sub \<leftarrow> field8 InterfaceDescriptor ''interface_sub_class'' buf p;
     protocol \<leftarrow> field8 InterfaceDescriptor ''interface_protocol'' buf p;
     number \<leftarrow> field8 InterfaceDescriptor ''interface_number'' buf p;
     if cls = 3 \<and> sub = 1 then
       if protocol = 1 then new_driver HIDKeyboard number (w_keyboard_observer (snd s)) s
       else if protocol = 2 then new_driver HIDMouse number (w_mouse_observer (snd s)) s
       else Some (None, s)
     else Some (None, s)
   }"

section \<open>Initialisation of a device\<close>

definition GetDescriptor ::
  "'hw Mmio \<Rightarrow> EndpointID \<Rightarrow> u8 \<Rightarrow> u8 \<Rightarrow> u64 \<Rightarrow> int \<Rightarrow> 'hw dstate fallible" where
  "GetDescriptor io ep_id desc_type desc_index buf len =
     ControlIn io ep_id (SetupData_zero
       \<lparr>su_request_type := make_request_type request_type_kIn request_type_kStandard request_type_kDevice,
        su_request := request_kGetDescriptor, su_value := push_bit 8 (ucast desc_type) OR ucast desc_index,
        su_index := 0, su_length := of_int len\<rparr>) (Some buf) len None"

definition SetConfiguration :: "'hw Mmio \<Rightarrow> EndpointID \<Rightarrow> u8 \<Rightarrow> 'hw dstate fallible" where
  "SetConfiguration io ep_id config_value =
     ControlOut io ep_id (SetupData_zero
       \<lparr>su_request_type := make_request_type request_type_kOut request_type_kStandard request_type_kDevice,
        su_request := request_kSetConfiguration, su_value := ucast config_value, su_index := 0, su_length := 0\<rparr>)
       None 0 None"

definition StartInitialize :: "'hw Mmio \<Rightarrow> 'hw dstate fallible" where
  "StartInitialize io = (\<lambda>(dev, w).
     let dev = dev\<lparr>dev_is_initialized := False, dev_initialize_phase := 1\<rparr>
     in GetDescriptor io kDefaultControlPipeID DeviceDescriptor_kType 0 (dev_buf_addr dev) 256 (dev, w))"

definition OnEndpointsConfigured :: "'hw Mmio \<Rightarrow> 'hw dstate fallible" where
  "OnEndpointsConfigured io s =
     each_or_return (\<lambda>class_driver s. case class_driver of None \<Rightarrow> Some (kSuccess, s)
         | Some d \<Rightarrow> HID_OnEndpointsConfigured io d s)
       (dev_class_drivers (fst s)) s"

definition InitializePhase1 :: "'hw Mmio \<Rightarrow> buffer \<Rightarrow> 'hw dstate fallible" where
  "InitializePhase1 io buf = (\<lambda>(dev, w). do {
     n \<leftarrow> field8 DeviceDescriptor ''num_configurations'' buf 0;
     let dev = dev\<lparr>dev_num_configurations := n, dev_config_index := 0, dev_initialize_phase := 2\<rparr> in
     GetDescriptor io kDefaultControlPipeID ConfigurationDescriptor_kType (dev_config_index dev)
       (dev_buf_addr dev) 256 (dev, w)
   })"

text \<open>
  What \<open>Log\<close> reads of a HID descriptor at \<open>p\<close>: its class descriptors, as many as it says it has. The
  message is written or not, the reads happen; past the buffer they are undefined.
\<close>

definition log_hid_descriptor :: "buffer \<Rightarrow> nat \<Rightarrow> unit option" where
  "log_hid_descriptor buf p = do {
     release \<leftarrow> field16 HIDDescriptor ''hid_release'' buf p;
     n \<leftarrow> field8 HIDDescriptor ''num_descriptors'' buf p;
     foldM (\<lambda>i u. do {
         class_desc \<leftarrow> GetClassDescriptor i buf p;
         c \<leftarrow> class_desc;
         desc_type \<leftarrow> field8 ClassDescriptor ''descriptor_type'' buf c;
         len \<leftarrow> field16 ClassDescriptor ''descriptor_length'' buf c;
         Some ()
       }) [0..<unat n] ()
   }"

text \<open>The number of class descriptors is the device's word; they are read whether they are in the buffer or not.\<close>

lemma log_hid_descriptor_defined:
  assumes "p + 6 \<le> length buf"
  shows "log_hid_descriptor buf p = Some () \<longleftrightarrow> unat (buf ! (p + 5)) = 0 \<or> p + 6 + 3 * unat (buf ! (p + 5)) \<le> length buf"
proof -
  let ?N = "unat (buf ! (p + 5))"
  have pos: "offset_of HIDDescriptor ''hid_release'' = 2" "offset_of HIDDescriptor ''num_descriptors'' = 5"
    "offset_of ClassDescriptor ''descriptor_type'' = 0" "offset_of ClassDescriptor ''descriptor_length'' = 1"
    "total_width HIDDescriptor = 6" by code_simp+
  let ?f = "\<lambda>i u. do {
      class_desc \<leftarrow> GetClassDescriptor i buf p;
      c \<leftarrow> class_desc;
      desc_type \<leftarrow> field8 ClassDescriptor ''descriptor_type'' buf c;
      len \<leftarrow> field16 ClassDescriptor ''descriptor_length'' buf c;
      Some ()
    }"
  have num: "field8 HIDDescriptor ''num_descriptors'' buf p = Some (buf ! (p + 5))"
    using assms by (simp add: field8_def byte_at_def pos)
  have round: "?f i u = (if p + 6 + 3 * (i + 1) \<le> length buf then Some () else None)" if "i < ?N" for i u
    using that num by (auto simp: GetClassDescriptor_def pos field8_def field16_def byte_at_def)
  have rounds: "foldM ?f [0..<k] () = Some () \<longleftrightarrow> k = 0 \<or> p + 6 + 3 * k \<le> length buf" if "k \<le> ?N" for k
    using that
  proof (induction k)
    case (Suc k)
    then show ?case using round [of k] by (cases "foldM ?f [0..<k] ()") (auto simp: foldM_append)
  qed simp
  have "log_hid_descriptor buf p = foldM ?f [0..<?N] ()"
    using assms num by (simp add: log_hid_descriptor_def field16_def byte_at_def pos)
  with rounds [of ?N] show ?thesis by simp
qed

text \<open>
  The inner loop of \<open>InitializePhase2\<close>: endpoint descriptors until \<open>n\<close> are found. The table has 16
  entries; a null pointer from \<open>Next\<close> is dereferenced by the cast.
\<close>

partial_function (option) read_endpoints ::
  "nat \<Rightarrow> nat \<Rightarrow> Reader \<times> Device_usb \<Rightarrow> (Reader \<times> Device_usb) option" where
  "read_endpoints n d s = (let (r, dev) = s in
     if dev_num_ep_configs dev < int n then do {
       (desc, r) \<leftarrow> Next r;
       is_ep \<leftarrow> DescriptorDynamicCast EndpointDescriptor_kType (rdr_buf r) desc;
       if is_ep then do {
         conf \<leftarrow> MakeEPConfig (rdr_buf r) (the desc);
         let i = nat (dev_num_ep_configs dev) in
         if i < length (dev_ep_configs dev) then
           read_endpoints n d (r, dev\<lparr>dev_ep_configs := (dev_ep_configs dev)[i := conf],
             dev_num_ep_configs := dev_num_ep_configs dev + 1,
             dev_class_drivers := (dev_class_drivers dev)[nat (EndpointID_Number (ec_ep_id conf)) := Some d]\<rparr>)
         else None
       } else do {
         is_hid \<leftarrow> DescriptorDynamicCast HIDDescriptor_kType (rdr_buf r) desc;
         ignored \<leftarrow> (if is_hid then log_hid_descriptor (rdr_buf r) (the desc) else Some ());
         read_endpoints n d (r, dev)
       }
     } else Some (r, dev))"

text \<open>The outer loop: interfaces until one has a driver; the result is the driver.\<close>

partial_function (option) find_interface ::
  "Reader \<Rightarrow> 'hw dstate \<Rightarrow> (nat option \<times> 'hw dstate) option" where
  "find_interface r s = do {
     (if_desc, r) \<leftarrow> Next_of_type InterfaceDescriptor_kType r;
     case if_desc of
       None \<Rightarrow> Some (None, s)
     | Some p \<Rightarrow> do {
         (class_driver, s) \<leftarrow> NewClassDriver (rdr_buf r) p s;
         case class_driver of
           None \<Rightarrow> find_interface r s
         | Some d \<Rightarrow> do {
             n \<leftarrow> field8 InterfaceDescriptor ''num_endpoints'' (rdr_buf r) p;
             (r, dev) \<leftarrow> read_endpoints (unat n) d (r, (fst s)\<lparr>dev_num_ep_configs := 0\<rparr>);
             Some (Some d, dev, snd s)
           }
       }
   }"

definition InitializePhase2 :: "'hw Mmio \<Rightarrow> buffer \<Rightarrow> int \<Rightarrow> 'hw dstate fallible" where
  "InitializePhase2 io buf len s = do {
     is_conf \<leftarrow> DescriptorDynamicCast ConfigurationDescriptor_kType buf (Some 0);
     if \<not> is_conf then Some (kInvalidDescriptor, s)
     else do {
       (class_driver, dev, w) \<leftarrow> find_interface (Reader_new buf len) s;
       if class_driver = None then Some (kSuccess, dev, w)
       else do {
         v \<leftarrow> field8 ConfigurationDescriptor ''configuration_value'' buf 0;
         SetConfiguration io kDefaultControlPipeID v (dev\<lparr>dev_initialize_phase := 3\<rparr>, w)
       }
     }
   }"

definition InitializePhase3 :: "'hw dstate fallible" where
  "InitializePhase3 = (\<lambda>(dev, w). do {
     dev \<leftarrow> foldM (\<lambda>i dev. do {
         config \<leftarrow> (if i < length (dev_ep_configs dev) then Some (dev_ep_configs dev ! i) else None);
         d \<leftarrow> dev_class_drivers dev ! nat (EndpointID_Number (ec_ep_id config));
         Some (HID_SetEndpoint d config dev)
       }) [0..<nat (dev_num_ep_configs dev)] dev;
     Some (kSuccess, dev\<lparr>dev_initialize_phase := 4, dev_is_initialized := True\<rparr>, w)
   })"

text \<open>\<open>OnControlCompleted\<close>: the class driver that waits for an initialised device, or the next phase.\<close>

definition OnControlCompleted ::
  "'hw Mmio \<Rightarrow> SetupData \<Rightarrow> u64 option \<Rightarrow> int \<Rightarrow> 'hw dstate fallible" where
  "OnControlCompleted io setup_data buf len = (\<lambda>(dev, w).
     let buf8 = map_option (w_bytes w) buf;
         is_descriptor = (\<lambda>kType. if su_request setup_data = request_kGetDescriptor
           then (case buf8 of None \<Rightarrow> None | Some bs \<Rightarrow> DescriptorDynamicCast kType bs (Some 0)) else Some False)
     in
     if dev_is_initialized dev then
       (case ArrayMap_Get (dev_event_waiters dev) setup_data of
          Some d \<Rightarrow> HID_OnControlCompleted io d (dev, w)
        | None \<Rightarrow> Some (kNoWaiter, dev, w))
     else if dev_initialize_phase dev = 1 then do {
       ok \<leftarrow> is_descriptor DeviceDescriptor_kType;
       if ok then InitializePhase1 io (the buf8) (dev, w) else Some (kInvalidPhase, dev, w)
     }
     else if dev_initialize_phase dev = 2 then do {
       ok \<leftarrow> is_descriptor ConfigurationDescriptor_kType;
       if ok then InitializePhase2 io (the buf8) len (dev, w) else Some (kInvalidPhase, dev, w)
     }
     else if dev_initialize_phase dev = 3 then
       (if su_request setup_data = request_kSetConfiguration then InitializePhase3 (dev, w)
        else Some (kInvalidPhase, dev, w))
     else Some (kNotImplemented, dev, w))"

definition OnInterruptCompleted :: "'hw Mmio \<Rightarrow> EndpointID \<Rightarrow> int \<Rightarrow> 'hw dstate fallible" where
  "OnInterruptCompleted io ep_id len s =
     (let i = nat (EndpointID_Number ep_id) in
      if length (dev_class_drivers (fst s)) \<le> i then None
      else case dev_class_drivers (fst s) ! i of
        Some d \<Rightarrow> HID_OnInterruptCompleted io d ep_id len s
      | None \<Rightarrow> Some (kNoWaiter, s))"

text \<open>
  \<open>OnTransferEventReceived\<close>. Writing the log message looks the completion code up in a table, which
  is undefined past its end; the length is an unsigned difference read as an \<open>int\<close>. The issuer is read
  wherever the event points; that includes address 0, which the kernel's page table maps, so there the
  model says what the machine does, although a null pointer is not for C++ to read.
\<close>

definition OnTransferEventReceived :: "'hw Mmio \<Rightarrow> TRB \<Rightarrow> 'hw dstate fallible" where
  "OnTransferEventReceived io trb = (\<lambda>(dev, w).
     let residual_length = ucast (rd TransferEventTRB ''trb_transfer_length'' trb) :: u32;
         code = unat (rd TransferEventTRB ''completion_code'' trb);
         issuer = TransferEventTRB_Pointer trb; issuer_trb = trb_at (w_mem w) issuer
     in
     if length kTRBCompletionCodeToName \<le> code then None
     else if code \<noteq> 1 \<and> code \<noteq> 13 then Some (kTransferFailed, dev, w)
     else case TRBDynamicCast NormalTRB_Type issuer_trb of
       Some normal \<Rightarrow>
         OnInterruptCompleted io (TransferEventTRB_EndpointID trb)
           (sint (ucast (rd NormalTRB ''trb_transfer_length'' normal) - residual_length)) (dev, w)
     | None \<Rightarrow>
         (case ArrayMap_Get (dev_setup_stage_map dev) issuer of
            None \<Rightarrow> Some (kNoCorrespondingSetupStage, dev, w)
          | Some setup_pos \<Rightarrow>
              let dev = dev\<lparr>dev_setup_stage_map := ArrayMap_Delete issuer (dev_setup_stage_map dev)\<rparr>;
                  setup = trb_at (w_mem w) setup_pos;
                  setup_data = \<lparr>su_request_type = ucast (rd SetupStageTRB ''request_type'' setup),
                    su_request = ucast (rd SetupStageTRB ''request'' setup),
                    su_value = ucast (rd SetupStageTRB ''value'' setup),
                    su_index = ucast (rd SetupStageTRB ''index'' setup),
                    su_length = ucast (rd SetupStageTRB ''length'' setup)\<rparr>
              in case TRBDynamicCast DataStageTRB_Type issuer_trb of
                Some data \<Rightarrow>
                  OnControlCompleted io setup_data
                    (if DataStageTRB_Pointer data = 0 then None else Some (DataStageTRB_Pointer data))
                    (sint (ucast (rd DataStageTRB ''trb_transfer_length'' data) - residual_length)) (dev, w)
              | None \<Rightarrow>
                  if TRBDynamicCast StatusStageTRB_Type issuer_trb \<noteq> None
                  then OnControlCompleted io setup_data None 0 (dev, w)
                  else Some (kNotImplemented, dev, w)))"

text \<open>The constructor, \<open>Initialize\<close> and the other members of \<open>usb::xhci::Device\<close> over fresh memory.\<close>

definition Device_new :: "u64 \<Rightarrow> u8 \<Rightarrow> u64 \<Rightarrow> Device_usb" where
  "Device_new buf_addr slot_id dbreg =
     \<lparr>dev_class_drivers = replicate 16 None, dev_drivers = [], dev_buf_addr = buf_addr, dev_num_configurations = 0,
      dev_config_index = 0, dev_is_initialized = False, dev_initialize_phase = 0,
      dev_ep_configs = replicate 16 \<lparr>ec_ep_id = 0, ec_ep_type = kControl, ec_max_packet_size = 0, ec_interval = 0\<rparr>,
      dev_num_ep_configs = 0, dev_event_waiters = replicate 4 (None, 0),
      dev_ctx = \<lparr>dc_slot_context = 0, dc_ep_contexts = replicate 31 0\<rparr>,
      dev_input_ctx = \<lparr>ic_input_control_context = InputControlContext_zero, ic_slot_context = 0,
        ic_ep_contexts = replicate 31 0\<rparr>,
      dev_slot_id = slot_id, dev_dbreg = dbreg, dev_state = kInvalid, dev_transfer_rings = replicate 31 None,
      dev_setup_stage_map = replicate 16 (None, 0)\<rparr>"

definition Device_Initialize :: "Device_usb \<Rightarrow> Code \<times> Device_usb" where
  "Device_Initialize dev = (kSuccess, dev\<lparr>dev_state := kBlank\<rparr>)"

definition SelectForSlotAssignment :: "Device_usb \<Rightarrow> Device_usb" where
  "SelectForSlotAssignment dev = dev\<lparr>dev_state := kSlotAssigning\<rparr>"

text \<open>\<open>AllocTransferRing\<close>: the ring object and its buffer; \<open>sizeof_ring\<close> is the size of the object.\<close>

definition AllocTransferRing ::
  "u64 \<Rightarrow> DeviceContextIndex \<Rightarrow> u64 \<Rightarrow> 'hw dstate \<Rightarrow> (Ring option \<times> 'hw dstate) option" where
  "AllocTransferRing sizeof_ring index buf_size = (\<lambda>(dev, w).
     let (tr, pool) = AllocArray sizeof_ring 1 64 4096 (w_pool w); w = w\<lparr>w_pool := pool\<rparr> in
     if index < 1 \<or> length (dev_transfer_rings dev) < nat index then None
     else case tr of
       None \<Rightarrow> Some (None, dev\<lparr>dev_transfer_rings := (dev_transfer_rings dev)[nat (index - 1) := None]\<rparr>, w)
     | Some a \<Rightarrow>
         let (c, ring, pool, m) = Ring_Initialize buf_size
               (\<lparr>ring_buf = None, ring_buf_size = 0, ring_cycle_bit = False, ring_write_index = 0\<rparr>, w_pool w, w_mem w)
         in Some (Some ring, dev\<lparr>dev_transfer_rings := (dev_transfer_rings dev)[nat (index - 1) := Some ring]\<rparr>,
              w\<lparr>w_pool := pool, w_mem := m\<rparr>))"

section \<open>A completed transfer is matched with its request\<close>

lemma setup_positions:
  "rd SetupStageTRB ''request_type'' w = bf_get 0 8 w" "wr SetupStageTRB ''request_type'' v w = bf_set 0 8 v w"
  "rd SetupStageTRB ''request'' w = bf_get 8 8 w" "wr SetupStageTRB ''request'' v w = bf_set 8 8 v w"
  "rd SetupStageTRB ''value'' w = bf_get 16 16 w" "wr SetupStageTRB ''value'' v w = bf_set 16 16 v w"
  "rd SetupStageTRB ''index'' w = bf_get 32 16 w" "wr SetupStageTRB ''index'' v w = bf_set 32 16 v w"
  "rd SetupStageTRB ''length'' w = bf_get 48 16 w" "wr SetupStageTRB ''length'' v w = bf_set 48 16 v w"
  "wr SetupStageTRB ''transfer_type'' v w = bf_set 112 2 v w"
  "rd DataStageTRB ''trb_transfer_length'' w = bf_get 64 17 w" "wr DataStageTRB ''trb_transfer_length'' v w = bf_set 64 17 v w"
  "wr DataStageTRB ''td_size'' v w = bf_set 81 5 v w" "wr DataStageTRB ''direction'' v w = bf_set 112 1 v w"
  "wr DataStageTRB ''interrupt_on_completion'' v w = bf_set 101 1 v w"
proof -
  have "map (\<lambda>f. (offset_of SetupStageTRB f, width_of SetupStageTRB f))
      [''request_type'', ''request'', ''value'', ''index'', ''length'', ''transfer_type''] =
      [(0, 8), (8, 8), (16, 16), (32, 16), (48, 16), (112, 2)]"
    "map (\<lambda>f. (offset_of DataStageTRB f, width_of DataStageTRB f))
      [''trb_transfer_length'', ''td_size'', ''direction'', ''interrupt_on_completion''] = [(64, 17), (81, 5), (112, 1), (101, 1)]"
    by code_simp+
  then show
    "rd SetupStageTRB ''request_type'' w = bf_get 0 8 w" "wr SetupStageTRB ''request_type'' v w = bf_set 0 8 v w"
    "rd SetupStageTRB ''request'' w = bf_get 8 8 w" "wr SetupStageTRB ''request'' v w = bf_set 8 8 v w"
    "rd SetupStageTRB ''value'' w = bf_get 16 16 w" "wr SetupStageTRB ''value'' v w = bf_set 16 16 v w"
    "rd SetupStageTRB ''index'' w = bf_get 32 16 w" "wr SetupStageTRB ''index'' v w = bf_set 32 16 v w"
    "rd SetupStageTRB ''length'' w = bf_get 48 16 w" "wr SetupStageTRB ''length'' v w = bf_set 48 16 v w"
    "wr SetupStageTRB ''transfer_type'' v w = bf_set 112 2 v w"
    "rd DataStageTRB ''trb_transfer_length'' w = bf_get 64 17 w" "wr DataStageTRB ''trb_transfer_length'' v w = bf_set 64 17 v w"
    "wr DataStageTRB ''td_size'' v w = bf_set 81 5 v w" "wr DataStageTRB ''direction'' v w = bf_set 112 1 v w"
    "wr DataStageTRB ''interrupt_on_completion'' v w = bf_set 101 1 v w"
    by (simp_all add: rd_def wr_def)
qed

lemma bf_get_with_cycle: "96 < lo \<or> lo + n \<le> 96 \<Longrightarrow> bf_get lo n (with_cycle c t) = bf_get lo n t"
  unfolding with_cycle_def by (rule bf_get_set_other) auto

lemma ucast_narrow_TRB:
  "ucast (take_bit 8 (ucast (x :: u8) :: TRB)) = x" "ucast (take_bit 16 (ucast (y :: u16) :: TRB)) = y"
  by (intro bit_word_eqI; auto simp: bit_simps dest: bit_imp_le_length)+

lemma setup_data_of_TRB:
  "\<lparr>su_request_type = ucast (rd SetupStageTRB ''request_type'' (with_cycle c (MakeSetupStageTRB sd ty))),
    su_request = ucast (rd SetupStageTRB ''request'' (with_cycle c (MakeSetupStageTRB sd ty))),
    su_value = ucast (rd SetupStageTRB ''value'' (with_cycle c (MakeSetupStageTRB sd ty))),
    su_index = ucast (rd SetupStageTRB ''index'' (with_cycle c (MakeSetupStageTRB sd ty))),
    su_length = ucast (rd SetupStageTRB ''length'' (with_cycle c (MakeSetupStageTRB sd ty)))\<rparr> = sd"
  by (simp add: MakeSetupStageTRB_def setup_positions bf_get_with_cycle bf_simps ucast_narrow_TRB)

lemma take_bit_length_field:
  assumes "0 \<le> len" and "len < 2 ^ 17"
  shows "take_bit 17 (of_int len :: TRB) = of_int len"
proof -
  have "of_int len = (of_nat (nat len) :: TRB)" using assms(1) by simp
  moreover have "nat len < 2 ^ 17" using assms by (simp add: nat_less_iff)
  ultimately show ?thesis by (simp add: word_unat_eq_iff unat_take_bit unsigned_of_nat take_bit_nat_eq_self)
qed

lemma data_TRB_fields:
  fixes c :: bool and p :: u64 and dir_in :: bool and len :: int
  assumes "0 \<le> len" and "len < 2 ^ 17"
  defines "t \<equiv> with_cycle c (wr DataStageTRB ''interrupt_on_completion'' 1 (MakeDataStageTRB p len dir_in))"
  shows "TRBDynamicCast NormalTRB_Type t = None" and "TRBDynamicCast DataStageTRB_Type t = Some t"
    and "DataStageTRB_Pointer t = p" and "rd DataStageTRB ''trb_transfer_length'' t = of_int len"
proof -
  have in_types: "(DataStageTRB, DataStageTRB_Type) \<in> set trb_types" by (simp add: trb_types_def)
  have t3: "take_bit 6 (3 :: TRB) = 3" using of_nat_type_take_bit [of 3] by simp
  have ty: "rd TRB ''trb_type'' t = 3"
    unfolding t_def trb_type_position MakeDataStageTRB_def DataStageTRB_SetPointer_def DataStageTRB_new_def
    by (simp add: setup_positions trb_field_positions trb_type_rd [OF in_types] bf_get_with_cycle bf_simps t3 DataStageTRB_Type_def)
  show "TRBDynamicCast NormalTRB_Type t = None" "TRBDynamicCast DataStageTRB_Type t = Some t"
    by (simp_all add: TRBDynamicCast_def ty NormalTRB_Type_def DataStageTRB_Type_def)
  show "DataStageTRB_Pointer t = p"
    unfolding t_def DataStageTRB_Pointer_def MakeDataStageTRB_def DataStageTRB_SetPointer_def
    by (simp add: setup_positions trb_field_positions bf_get_with_cycle bf_simps long_pointer_field)
  show "rd DataStageTRB ''trb_transfer_length'' t = of_int len"
    unfolding t_def MakeDataStageTRB_def DataStageTRB_SetPointer_def
    by (simp add: setup_positions trb_field_positions bf_get_with_cycle bf_simps take_bit_length_field [OF assms(1,2)])
qed

lemma status_TRB_fields:
  fixes c :: bool
  defines "t \<equiv> with_cycle c (wr StatusStageTRB ''interrupt_on_completion'' 1 (wr StatusStageTRB ''direction'' 1 StatusStageTRB_new))"
  shows "TRBDynamicCast NormalTRB_Type t = None" and "TRBDynamicCast DataStageTRB_Type t = None"
    and "TRBDynamicCast StatusStageTRB_Type t = Some t"
proof -
  have in_types: "(StatusStageTRB, StatusStageTRB_Type) \<in> set trb_types" by (simp add: trb_types_def)
  have t4: "take_bit 6 (4 :: TRB) = 4" using of_nat_type_take_bit [of 4] by simp
  have "map (\<lambda>f. (offset_of StatusStageTRB f, width_of StatusStageTRB f)) [''interrupt_on_completion'', ''direction''] =
      [(101, 1), (112, 1)]"
    by code_simp
  then have pos: "wr StatusStageTRB ''interrupt_on_completion'' = bf_set 101 1" "wr StatusStageTRB ''direction'' = bf_set 112 1"
    by (simp_all add: wr_def fun_eq_iff)
  have ty: "rd TRB ''trb_type'' t = 4"
    unfolding t_def trb_type_position StatusStageTRB_new_def pos
    by (simp add: trb_type_rd [OF in_types] bf_get_with_cycle bf_simps t4 StatusStageTRB_Type_def)
  show "TRBDynamicCast NormalTRB_Type t = None" "TRBDynamicCast DataStageTRB_Type t = None"
    "TRBDynamicCast StatusStageTRB_Type t = Some t"
    by (simp_all add: TRBDynamicCast_def ty NormalTRB_Type_def DataStageTRB_Type_def StatusStageTRB_Type_def)
qed

lemma ring_inv_trb:
  assumes "ring_inv l b hist r m" and "j < length hist" and "length hist \<le> j + l"
  shows "trb_at m (slot b (of_nat (j mod l))) = with_cycle (even (j div l)) (hist ! j)"
  using assms by (simp add: ring_inv_def Let_def)

text \<open>The transfer ring \<open>i\<close> of a device holds the TRBs \<open>hist\<close>.\<close>

definition transfer_ring_inv :: "nat \<Rightarrow> nat \<Rightarrow> u64 \<Rightarrow> TRB list \<Rightarrow> 'hw dstate \<Rightarrow> bool" where
  "transfer_ring_inv i l b hist = (\<lambda>(dev, w). i < length (dev_transfer_rings dev) \<and>
     (case dev_transfer_rings dev ! i of None \<Rightarrow> False | Some r \<Rightarrow> ring_inv l b hist r (w_mem w)))"

lemma push_transfer_ring:
  assumes "transfer_ring_inv i l b hist (dev, w)"
  obtains rs m where
    "push_transfer i d (dev, w) =
       Some (slot b (of_nat (length hist mod l)), dev\<lparr>dev_transfer_rings := rs\<rparr>, w\<lparr>w_mem := m\<rparr>)"
    "transfer_ring_inv i l b (hist @ [d]) (dev\<lparr>dev_transfer_rings := rs\<rparr>, w\<lparr>w_mem := m\<rparr>)"
proof -
  obtain r where r: "i < length (dev_transfer_rings dev)" "dev_transfer_rings dev ! i = Some r" "ring_inv l b hist r (w_mem w)"
    using assms by (auto simp: transfer_ring_inv_def split: option.splits)
  from Push_ring_inv [OF r(3)] obtain ss r' where
    "Push d r = Some (slot b (of_nat (length hist mod l)), ss, r')" "ring_inv l b (hist @ [d]) r' (apply_stores ss (w_mem w))"
    by blast
  then show thesis
    using r(1,2) that [of "(dev_transfer_rings dev)[i := Some r']" "apply_stores ss (w_mem w)"]
    by (simp add: push_transfer_def transfer_ring_inv_def)
qed

text \<open>The TRB of a control transfer whose completion is signalled.\<close>

definition signalling_stage :: "bool \<Rightarrow> u64 option \<Rightarrow> int \<Rightarrow> TRB" where
  "signalling_stage dir_in buf len =
     (case buf of None \<Rightarrow> wr StatusStageTRB ''interrupt_on_completion'' 1 (wr StatusStageTRB ''direction'' 1 StatusStageTRB_new)
      | Some p \<Rightarrow> wr DataStageTRB ''interrupt_on_completion'' 1 (MakeDataStageTRB p len dir_in))"

lemma control_transfer_pushes:
  fixes dir_in :: bool and buf :: "u64 option" and len :: int
  assumes "0 \<le> EndpointID_Number ep" and "EndpointID_Number ep \<le> 15" and "1 \<le> DeviceContextIndex_of_ep ep"
    and "transfer_ring_inv (nat (DeviceContextIndex_of_ep ep - 1)) l b hist (dev, w)"
  defines "pos \<equiv> slot b (of_nat ((length hist + 1) mod l))"
    and "stage \<equiv> signalling_stage dir_in buf len"
  obtains rs m hw ty trbs where
    "control_transfer io dir_in ep sd buf len (dev, w) =
       Some (kSuccess, dev\<lparr>dev_transfer_rings := rs, dev_setup_stage_map := ArrayMap_Put pos
           (slot b (of_nat (length hist mod l))) (dev_setup_stage_map dev)\<rparr>,
         w\<lparr>w_mem := m, w_hw := hw\<rparr>)"
    "transfer_ring_inv (nat (DeviceContextIndex_of_ep ep - 1)) l b (hist @ MakeSetupStageTRB sd ty # stage # trbs)
       (dev\<lparr>dev_transfer_rings := rs, dev_setup_stage_map := ArrayMap_Put pos
           (slot b (of_nat (length hist mod l))) (dev_setup_stage_map dev)\<rparr>, w\<lparr>w_mem := m, w_hw := hw\<rparr>)"
    "length trbs = (if buf = None then 0 else 1)"
proof -
  define i where "i = nat (DeviceContextIndex_of_ep ep - 1)"
  let ?s = "MakeSetupStageTRB sd"
  have ring: "i < length (dev_transfer_rings dev)" "dev_transfer_rings dev ! i \<noteq> None"
    using assms(4) by (auto simp: transfer_ring_inv_def i_def split: option.splits)
  have go: "\<not> (EndpointID_Number ep < 0 \<or> 15 < EndpointID_Number ep)"
    "\<not> (DeviceContextIndex_of_ep ep < 1 \<or> length (dev_transfer_rings dev) < nat (DeviceContextIndex_of_ep ep))"
    using assms(1-3) ring(1) by (auto simp: i_def)
  note start = control_transfer_def Let_def i_def [symmetric] prod.case if_not_P [OF go(1)] if_not_P [OF go(2)] if_not_P [OF ring(2)]
  have inv: "transfer_ring_inv i l b hist (dev, w)" using assms(4) by (simp add: i_def)
  show thesis
  proof (cases buf)
    case None
    from push_transfer_ring [OF inv, of "?s kNoDataStage"] obtain rs1 m1 where
      1: "push_transfer i (?s kNoDataStage) (dev, w) =
        Some (slot b (of_nat (length hist mod l)), dev\<lparr>dev_transfer_rings := rs1\<rparr>, w\<lparr>w_mem := m1\<rparr>)"
      "transfer_ring_inv i l b (hist @ [?s kNoDataStage]) (dev\<lparr>dev_transfer_rings := rs1\<rparr>, w\<lparr>w_mem := m1\<rparr>)"
      by blast
    from push_transfer_ring [OF 1(2), of stage] obtain rs2 m2 where
      2: "push_transfer i stage (dev\<lparr>dev_transfer_rings := rs1\<rparr>, w\<lparr>w_mem := m1\<rparr>) =
        Some (pos, dev\<lparr>dev_transfer_rings := rs2\<rparr>, w\<lparr>w_mem := m2\<rparr>)"
      "transfer_ring_inv i l b ((hist @ [?s kNoDataStage]) @ [stage]) (dev\<lparr>dev_transfer_rings := rs2\<rparr>, w\<lparr>w_mem := m2\<rparr>)"
      by (simp add: pos_def) blast
    show thesis
    proof (rule that [where trbs = "[]"])
      show "control_transfer io dir_in ep sd buf len (dev, w) =
          Some (kSuccess, dev\<lparr>dev_transfer_rings := rs2, dev_setup_stage_map := ArrayMap_Put pos
              (slot b (of_nat (length hist mod l))) (dev_setup_stage_map dev)\<rparr>,
            w\<lparr>w_mem := m2, w_hw := DoorbellRegister_Ring io (dev_dbreg dev) (of_int (DeviceContextIndex_of_ep ep)) 0 (w_hw w)\<rparr>)"
        unfolding start using 1(1) 2(1)
        by (simp add: None stage_def signalling_stage_def put_setup_stage_def ring_doorbell_def)
      show "transfer_ring_inv (nat (DeviceContextIndex_of_ep ep - 1)) l b (hist @ ?s kNoDataStage # stage # [])
          (dev\<lparr>dev_transfer_rings := rs2, dev_setup_stage_map := ArrayMap_Put pos
              (slot b (of_nat (length hist mod l))) (dev_setup_stage_map dev)\<rparr>,
            w\<lparr>w_mem := m2, w_hw := DoorbellRegister_Ring io (dev_dbreg dev) (of_int (DeviceContextIndex_of_ep ep)) 0 (w_hw w)\<rparr>)"
        using 2(2) by (simp add: transfer_ring_inv_def cong: option.case_cong flip: i_def)
    qed (simp add: None)
  next
    case (Some p)
    let ?k = "if dir_in then kInDataStage else kOutDataStage"
    let ?u = "if dir_in then StatusStageTRB_new else wr StatusStageTRB ''direction'' 1 StatusStageTRB_new"
    from push_transfer_ring [OF inv, of "?s ?k"] obtain rs1 m1 where
      1: "push_transfer i (?s ?k) (dev, w) =
        Some (slot b (of_nat (length hist mod l)), dev\<lparr>dev_transfer_rings := rs1\<rparr>, w\<lparr>w_mem := m1\<rparr>)"
      "transfer_ring_inv i l b (hist @ [?s ?k]) (dev\<lparr>dev_transfer_rings := rs1\<rparr>, w\<lparr>w_mem := m1\<rparr>)"
      by blast
    from push_transfer_ring [OF 1(2), of stage] obtain rs2 m2 where
      2: "push_transfer i stage (dev\<lparr>dev_transfer_rings := rs1\<rparr>, w\<lparr>w_mem := m1\<rparr>) =
        Some (pos, dev\<lparr>dev_transfer_rings := rs2\<rparr>, w\<lparr>w_mem := m2\<rparr>)"
      "transfer_ring_inv i l b ((hist @ [?s ?k]) @ [stage]) (dev\<lparr>dev_transfer_rings := rs2\<rparr>, w\<lparr>w_mem := m2\<rparr>)"
      by (simp add: pos_def) blast
    from push_transfer_ring [OF 2(2), of ?u] obtain rs3 m3 where
      3: "push_transfer i ?u (dev\<lparr>dev_transfer_rings := rs2\<rparr>, w\<lparr>w_mem := m2\<rparr>) =
        Some (slot b (of_nat ((length hist + 2) mod l)), dev\<lparr>dev_transfer_rings := rs3\<rparr>, w\<lparr>w_mem := m3\<rparr>)"
      "transfer_ring_inv i l b (hist @ [?s ?k, stage, ?u]) (dev\<lparr>dev_transfer_rings := rs3\<rparr>, w\<lparr>w_mem := m3\<rparr>)"
      by (simp add: numeral_2_eq_2) blast
    show thesis
    proof (rule that [where trbs = "[?u]"])
      show "control_transfer io dir_in ep sd buf len (dev, w) =
          Some (kSuccess, dev\<lparr>dev_transfer_rings := rs3, dev_setup_stage_map := ArrayMap_Put pos
              (slot b (of_nat (length hist mod l))) (dev_setup_stage_map dev)\<rparr>,
            w\<lparr>w_mem := m3, w_hw := DoorbellRegister_Ring io (dev_dbreg dev) (of_int (DeviceContextIndex_of_ep ep)) 0 (w_hw w)\<rparr>)"
        unfolding start using 1(1) 2(1) 3(1)
        by (simp add: Some stage_def signalling_stage_def put_setup_stage_def ring_doorbell_def)
      show "transfer_ring_inv (nat (DeviceContextIndex_of_ep ep - 1)) l b (hist @ ?s ?k # stage # [?u])
          (dev\<lparr>dev_transfer_rings := rs3, dev_setup_stage_map := ArrayMap_Put pos
              (slot b (of_nat (length hist mod l))) (dev_setup_stage_map dev)\<rparr>,
            w\<lparr>w_mem := m3, w_hw := DoorbellRegister_Ring io (dev_dbreg dev) (of_int (DeviceContextIndex_of_ep ep)) 0 (w_hw w)\<rparr>)"
        using 3(2) by (simp add: transfer_ring_inv_def cong: option.case_cong flip: i_def)
    qed (simp add: Some)
  qed
qed

lemma sint_of_int_32: "- (2 ^ 31) \<le> k \<Longrightarrow> k < 2 ^ 31 \<Longrightarrow> sint (of_int k :: u32) = k"
  using signed_take_bit_int_eq_self [of 31 k] by (simp add: signed_of_int)

lemma transferred_length:
  fixes ev :: TRB
  assumes "0 \<le> len" and "len < 2 ^ 17"
  shows "sint (ucast (of_int len :: TRB) - ucast (rd TransferEventTRB ''trb_transfer_length'' ev) :: u32) =
    len - uint (rd TransferEventTRB ''trb_transfer_length'' ev)"
proof -
  let ?r = "rd TransferEventTRB ''trb_transfer_length'' ev"
  have "width_of TransferEventTRB ''trb_transfer_length'' = 24" by code_simp
  then have r: "uint ?r < 2 ^ 24" by (simp add: rd_def bf_get_def unsigned_take_bit_eq take_bit_int_less_exp [of 24, simplified])
  have n: "ucast (of_int len :: TRB) = (of_int len :: u32)"
    unfolding ucast_eq using assms by (simp only: unsigned_of_int) (simp add: take_bit_int_eq_self)
  have "len - uint ?r \<le> len" by simp
  then have "- (2 ^ 31) \<le> len - uint ?r" "len - uint ?r < 2 ^ 31" using assms r by (simp_all, linarith)
  from sint_of_int_32 [OF this] show ?thesis unfolding n ucast_eq [of ?r] of_int_diff .
qed

lemma completion_codes_named: "length kTRBCompletionCodeToName = 37"
  by code_simp

lemma signalling_stage_dispatch:
  fixes c :: bool and dir_in :: bool and buf :: "u64 option" and len :: int and ev :: TRB
  assumes "0 \<le> len" and "len < 2 ^ 17" and "buf \<noteq> Some 0"
  defines "t \<equiv> with_cycle c (signalling_stage dir_in buf len)"
  shows "TRBDynamicCast NormalTRB_Type t = None"
    and "(case TRBDynamicCast DataStageTRB_Type t of
           Some data \<Rightarrow> f (if DataStageTRB_Pointer data = 0 then None else Some (DataStageTRB_Pointer data))
             (sint (ucast (rd DataStageTRB ''trb_transfer_length'' data) - ucast (rd TransferEventTRB ''trb_transfer_length'' ev) :: u32))
         | None \<Rightarrow> if TRBDynamicCast StatusStageTRB_Type t \<noteq> None then f None 0 else g) =
      f buf (if buf = None then 0 else len - uint (rd TransferEventTRB ''trb_transfer_length'' ev))"
  using assms(3) transferred_length [OF assms(1,2), of ev]
  by (auto simp: t_def signalling_stage_def data_TRB_fields [OF assms(1,2)] status_TRB_fields split: option.split)

lemma OnTransferEventReceived_control:
  assumes "unat (rd TransferEventTRB ''completion_code'' ev) \<in> {1, 13}"
    and "trb_at (w_mem w) (TransferEventTRB_Pointer ev) = with_cycle c' (signalling_stage dir_in buf len)"
    and "ArrayMap_Get (dev_setup_stage_map dev) (TransferEventTRB_Pointer ev) = Some sp"
    and "trb_at (w_mem w) sp = with_cycle c (MakeSetupStageTRB sd ty)"
    and "0 \<le> len" and "len < 2 ^ 17" and "buf \<noteq> Some 0"
  shows "OnTransferEventReceived io ev (dev, w) =
    OnControlCompleted io sd buf (if buf = None then 0 else len - uint (rd TransferEventTRB ''trb_transfer_length'' ev))
      (dev\<lparr>dev_setup_stage_map := ArrayMap_Delete (TransferEventTRB_Pointer ev) (dev_setup_stage_map dev)\<rparr>, w)"
proof -
  have codes: "\<not> length kTRBCompletionCodeToName \<le> unat (rd TransferEventTRB ''completion_code'' ev)"
    "\<not> (unat (rd TransferEventTRB ''completion_code'' ev) \<noteq> 1 \<and> unat (rd TransferEventTRB ''completion_code'' ev) \<noteq> 13)"
    using assms(1) by (auto simp: completion_codes_named)
  show ?thesis
    unfolding OnTransferEventReceived_def Let_def prod.case if_not_P [OF codes(1)] if_not_P [OF codes(2)] assms(2-4)
      signalling_stage_dispatch(1) [OF assms(5-7)] option.case setup_data_of_TRB
    by (rule signalling_stage_dispatch(2) [OF assms(5-7)])
qed

text \<open>
  A TRB stays in its slot while at most a lap of the ring is pushed; the two stages of a transfer are
  read from there when its event comes.
\<close>

lemma transfer_trb:
  assumes "transfer_ring_inv i l b (hist @ trbs) (dev, w)" and "j < length trbs" and "length trbs \<le> l"
  shows "trb_at (w_mem w) (slot b (of_nat ((length hist + j) mod l))) = with_cycle (even ((length hist + j) div l)) (trbs ! j)"
proof -
  from assms(1) obtain r where "ring_inv l b (hist @ trbs) r (w_mem w)"
    by (auto simp: transfer_ring_inv_def split: option.splits)
  from ring_inv_trb [OF this, of "length hist + j"] assms(2,3) show ?thesis by simp
qed

lemma control_transfer_answered:
  assumes "transfer_ring_inv i l b (hist @ MakeSetupStageTRB sd ty # signalling_stage dir_in buf len # trbs) (dev, w)"
    and "length trbs + 2 \<le> l" and "0 \<le> len" and "len < 2 ^ 17" and "buf \<noteq> Some 0"
    and "ArrayMap_Get (dev_setup_stage_map dev) (slot b (of_nat ((length hist + 1) mod l))) =
      Some (slot b (of_nat (length hist mod l)))"
    and "TransferEventTRB_Pointer ev = slot b (of_nat ((length hist + 1) mod l))"
    and "unat (rd TransferEventTRB ''completion_code'' ev) \<in> {1, 13}"
  shows "OnTransferEventReceived io ev (dev, w) =
    OnControlCompleted io sd buf (if buf = None then 0 else len - uint (rd TransferEventTRB ''trb_transfer_length'' ev))
      (dev\<lparr>dev_setup_stage_map := ArrayMap_Delete (slot b (of_nat ((length hist + 1) mod l))) (dev_setup_stage_map dev)\<rparr>, w)"
proof -
  have "trb_at (w_mem w) (slot b (of_nat (length hist mod l))) = with_cycle (even (length hist div l)) (MakeSetupStageTRB sd ty)"
    "trb_at (w_mem w) (slot b (of_nat ((length hist + 1) mod l))) =
      with_cycle (even ((length hist + 1) div l)) (signalling_stage dir_in buf len)"
    using transfer_trb [OF assms(1), of 0] transfer_trb [OF assms(1), of 1] assms(2) by simp_all
  from OnTransferEventReceived_control [OF assms(8), of w _ dir_in buf len dev] this assms(3-6) show ?thesis
    unfolding assms(7) by blast
qed


definition sample_dev :: Device_usb where
  "sample_dev = (Device_new 0x9000 1 0xf0000104)\<lparr>dev_transfer_rings := (replicate 31 None)
     [0 := Some \<lparr>ring_buf = Some 0x200000, ring_buf_size = 4, ring_cycle_bit = True, ring_write_index = 0\<rparr>]\<rparr>"

definition sample_world :: "u64 World" where
  "sample_world = \<lparr>w_mem = (\<lambda>_. 0), w_bytes = (\<lambda>_. replicate 1024 0), w_hw = 0,
     w_pool = \<lparr>memory_pool = 0x100000, alloc_ptr = 0x100000\<rparr>, w_notified = [],
     w_keyboard_observer = None, w_mouse_observer = None, w_sizeof_driver = 2120, w_hid_buf_offset = 24\<rparr>"

lemma sample_ring_inv: "transfer_ring_inv 0 3 0x200000 [] (sample_dev, sample_world)"
proof -
  have "(0x200000 :: u64) AND NOT (mask 4) = 0x200000" by (simp add: mask_eq_exp_minus_1)
  then show ?thesis
    by (simp add: transfer_ring_inv_def sample_dev_def sample_world_def Device_new_def ring_inv_def trb_type_position
      trb_at_def)
qed

text \<open>
  A device in its last phase, with a ring of seven slots: the request that ends the phase is sent, another
  one after it, and then the event for the first comes.
\<close>

definition sample_busy :: Device_usb where
  "sample_busy = sample_dev\<lparr>dev_initialize_phase := 3, dev_transfer_rings := (replicate 31 None)
     [0 := Some \<lparr>ring_buf = Some 0x200000, ring_buf_size = 8, ring_cycle_bit = True, ring_write_index = 0\<rparr>]\<rparr>"

definition sample_completion :: TRB where
  "sample_completion = 0x010000000000000000200010"

lemma sample_busy_ring: "transfer_ring_inv 0 7 0x200000 [] (sample_busy, sample_world)"
proof -
  have "(0x200000 :: u64) AND NOT (mask 4) = 0x200000" by (simp add: mask_eq_exp_minus_1)
  then show ?thesis
    by (simp add: transfer_ring_inv_def sample_busy_def sample_dev_def sample_world_def Device_new_def ring_inv_def
      trb_type_position trb_at_def)
qed

lemma sample_completion_fields:
  "TransferEventTRB_Pointer sample_completion = 0x200010"
  "rd TransferEventTRB ''completion_code'' sample_completion = 1"
  "slot 0x200000 0 = 0x200000" "slot 0x200000 1 = 0x200010" "slot 0x200000 2 = 0x200020" "slot 0x200000 3 = 0x200030"
proof -
  have "map (\<lambda>f. (offset_of TransferEventTRB f, width_of TransferEventTRB f)) [''trb_pointer'', ''completion_code''] =
      [(0, 64), (88, 8)]"
    by code_simp
  then show "TransferEventTRB_Pointer sample_completion = 0x200010"
    "rd TransferEventTRB ''completion_code'' sample_completion = 1"
    "slot 0x200000 0 = 0x200000" "slot 0x200000 1 = 0x200010" "slot 0x200000 2 = 0x200020" "slot 0x200000 3 = 0x200030"
    by (simp_all add: sample_completion_def TransferEventTRB_Pointer_def rd_def bf_get_def slot_def sizeof_TRB_def)
qed

section \<open>The initialisation protocol\<close>

text \<open>What a transfer leaves alone: everything but the rings and the table of requests under way.\<close>

definition only_transfers :: "Device_usb \<Rightarrow> Device_usb \<Rightarrow> bool" where
  "only_transfers dev dev' \<longleftrightarrow> (\<exists>rs m. length rs = length (dev_transfer_rings dev) \<and>
     dev' = dev\<lparr>dev_transfer_rings := rs, dev_setup_stage_map := m\<rparr>)"

lemma only_transfersI:
  "length rs = length (dev_transfer_rings dev) \<Longrightarrow> only_transfers dev (dev\<lparr>dev_transfer_rings := rs\<rparr>)"
  unfolding only_transfers_def by (rule exI [of _ rs], rule exI [of _ "dev_setup_stage_map dev"]) simp

lemma only_transfers_refl [simp]: "only_transfers dev dev"
  using only_transfersI [of "dev_transfer_rings dev" dev] by simp

lemma only_transfers_trans [trans]:
  assumes "only_transfers dev dev'" and "only_transfers dev' dev''"
  shows "only_transfers dev dev''"
proof -
  obtain rs m where 1: "length rs = length (dev_transfer_rings dev)"
    "dev' = dev\<lparr>dev_transfer_rings := rs, dev_setup_stage_map := m\<rparr>"
    using assms(1) unfolding only_transfers_def by blast
  obtain rs' m' where 2: "length rs' = length (dev_transfer_rings dev')"
    "dev'' = dev'\<lparr>dev_transfer_rings := rs', dev_setup_stage_map := m'\<rparr>"
    using assms(2) unfolding only_transfers_def by blast
  have "length rs' = length (dev_transfer_rings dev)" "dev'' = dev\<lparr>dev_transfer_rings := rs', dev_setup_stage_map := m'\<rparr>"
    using 1 2 by simp_all
  then show ?thesis unfolding only_transfers_def by blast
qed

lemma only_transfers_put_setup_stage:
  assumes "only_transfers dev dev'"
  shows "only_transfers dev (put_setup_stage p q dev')"
proof -
  have "only_transfers dev' (put_setup_stage p q dev')"
    unfolding only_transfers_def put_setup_stage_def
    by (intro exI [of _ "dev_transfer_rings dev'"] exI [of _ "ArrayMap_Put p q (dev_setup_stage_map dev')"]) simp
  with assms show ?thesis by (rule only_transfers_trans)
qed

lemma push_transfer_frame: "push_transfer i t (dev, w) = Some (p, dev', w') \<Longrightarrow> only_transfers dev dev'"
  by (auto simp: push_transfer_def split: bind_splits intro: only_transfersI)

lemma control_transfer_frame:
  assumes "control_transfer io dir_in ep sd buf len (dev, w) = Some (c, dev', w')"
  shows "only_transfers dev dev'"
  using assms
  by (cases buf; auto simp: control_transfer_def Let_def ring_doorbell_def split: if_splits bind_splits
    dest!: push_transfer_frame intro!: only_transfers_put_setup_stage; meson only_transfers_trans)

lemma InterruptIn_frame:
  "InterruptIn io ep buf len (dev, w) = Some (c, dev', w') \<Longrightarrow> only_transfers dev dev'"
  by (auto simp: InterruptIn_def Let_def ring_doorbell_def split: if_splits bind_splits dest!: push_transfer_frame)

lemma control_frame:
  "ControlIn io ep sd buf len issuer (dev, w) = Some (c, dev', w') \<Longrightarrow> only_transfers (wait_for sd issuer dev) dev'"
  "ControlOut io ep sd buf len issuer (dev, w) = Some (c, dev', w') \<Longrightarrow> only_transfers (wait_for sd issuer dev) dev'"
  by (auto simp: ControlIn_def ControlOut_def dest: control_transfer_frame)


text \<open>
  What the code relies on: an array has the length it was declared with, a class driver pointer
  points to one of the drivers of the device, the endpoint count is not negative, and a device is
  initialised exactly in phase 4. That the count is within the table is not part of it: the code does
  not check it, and the model is undefined where the table overflows (\<open>read_endpoints\<close>).
\<close>

definition device_ok :: "Device_usb \<Rightarrow> bool" where
  "device_ok dev \<longleftrightarrow>
     length (dev_class_drivers dev) = 16 \<and> length (dev_ep_configs dev) = 16 \<and> length (dev_transfer_rings dev) = 31 \<and>
     (\<forall>d. Some d \<in> set (dev_class_drivers dev) \<longrightarrow> d < length (dev_drivers dev)) \<and>
     (\<forall>k d. ArrayMap_Get (dev_event_waiters dev) k = Some d \<longrightarrow> d < length (dev_drivers dev)) \<and>
     0 \<le> dev_num_ep_configs dev \<and>
     dev_initialize_phase dev \<in> {0..4} \<and> (dev_is_initialized dev \<longleftrightarrow> dev_initialize_phase dev = 4)"

text \<open>The part of a device its phase is made of.\<close>

definition phase :: "Device_usb \<Rightarrow> int \<times> bool" where
  "phase dev = (dev_initialize_phase dev, dev_is_initialized dev)"

lemma only_transfers_keeps:
  assumes "only_transfers dev dev'"
  shows "phase dev' = phase dev" and "device_ok dev' = device_ok dev" and "dev_drivers dev' = dev_drivers dev"
  using assms by (auto simp: only_transfers_def phase_def device_ok_def)

lemma ArrayMap_Get_after_Put:
  "ArrayMap_Get (ArrayMap_Put k v m) k' = Some d \<Longrightarrow> ArrayMap_Get m k' = Some d \<or> d = v"
  by (induction k v m rule: ArrayMap_Put.induct) (auto split: if_splits)

lemma wait_for_keeps [simp]:
  "phase (wait_for sd issuer dev) = phase dev" "dev_drivers (wait_for sd issuer dev) = dev_drivers dev"
  "(\<And>d. issuer = Some d \<Longrightarrow> d < length (dev_drivers dev)) \<Longrightarrow> device_ok dev \<Longrightarrow> device_ok (wait_for sd issuer dev)"
  by (auto simp: wait_for_def phase_def device_ok_def dest: ArrayMap_Get_after_Put split: option.split)

lemma update_driver_keeps [simp]:
  "phase (update_driver d f dev) = phase dev" "length (dev_drivers (update_driver d f dev)) = length (dev_drivers dev)"
  "device_ok (update_driver d f dev) = device_ok dev"
  by (simp_all add: update_driver_def phase_def device_ok_def)

lemma driver_operations_keep:
  "HID_OnEndpointsConfigured io d (dev, w) = Some (c, dev', w') \<Longrightarrow> d < length (dev_drivers dev) \<Longrightarrow> device_ok dev \<Longrightarrow>
     device_ok dev' \<and> phase dev' = phase dev"
  "HID_OnControlCompleted io d (dev, w) = Some (c, dev', w') \<Longrightarrow> device_ok dev \<Longrightarrow> device_ok dev' \<and> phase dev' = phase dev"
  "HID_OnInterruptCompleted io d ep len (dev, w) = Some (c, dev', w') \<Longrightarrow> device_ok dev \<Longrightarrow> device_ok dev' \<and> phase dev' = phase dev"
  subgoal
    by (auto simp: HID_OnEndpointsConfigured_def Let_def dest!: control_frame(2) simp: only_transfers_keeps intro!: wait_for_keeps(3))
  subgoal
    by (auto simp: HID_OnControlCompleted_def Let_def split: if_splits dest!: InterruptIn_frame simp: only_transfers_keeps)
  subgoal
    by (auto simp: HID_OnInterruptCompleted_def HID_OnDataReceived_def Let_def split: if_splits prod.splits HIDKind.splits
      dest!: InterruptIn_frame simp: only_transfers_keeps)
  done

lemma new_driver_keeps:
  assumes "new_driver kind n ob (dev, w) = Some (r, dev', w')" and "device_ok dev"
  shows "device_ok dev' \<and> phase dev' = phase dev \<and> (\<forall>d. r = Some d \<longrightarrow> d < length (dev_drivers dev'))"
  using assms
  by (auto simp: new_driver_def Let_def device_ok_def phase_def less_Suc_eq split: prod.splits bind_splits option.splits)

lemma NewClassDriver_keeps:
  assumes "NewClassDriver buf p (dev, w) = Some (r, dev', w')" and "device_ok dev"
  shows "device_ok dev' \<and> phase dev' = phase dev \<and> (\<forall>d. r = Some d \<longrightarrow> d < length (dev_drivers dev'))"
  using assms by (auto simp: NewClassDriver_def split: bind_splits if_splits dest: new_driver_keeps)

lemma add_endpoint_keeps:
  assumes "device_ok dev" and "d < length (dev_drivers dev)"
    and "nat (dev_num_ep_configs dev) < length (dev_ep_configs dev)"
  shows "device_ok (dev\<lparr>dev_ep_configs := (dev_ep_configs dev)[nat (dev_num_ep_configs dev) := conf],
      dev_num_ep_configs := dev_num_ep_configs dev + 1, dev_class_drivers := (dev_class_drivers dev)[j := Some d]\<rparr>)"
  using assms by (auto simp: device_ok_def dest!: set_update_subset_insert [THEN subsetD])

lemma read_endpoints_keeps:
  assumes "read_endpoints n d (r, dev) = Some (r', dev')" and "device_ok dev" and "d < length (dev_drivers dev)"
  shows "device_ok dev' \<and> phase dev' = phase dev \<and> dev_drivers dev' = dev_drivers dev"
proof -
  have "case s of (r, dev) \<Rightarrow> device_ok dev \<longrightarrow> d < length (dev_drivers dev) \<longrightarrow>
      (case t of (r', dev') \<Rightarrow> device_ok dev' \<and> phase dev' = phase dev \<and> dev_drivers dev' = dev_drivers dev)"
    if "read_endpoints n d s = Some t" for s t
    using that
  proof (induction rule: read_endpoints.raw_induct [rotated, consumes 1])
    case (1 read n d s t)
    obtain r dev where s: "s = (r, dev)" by fastforce
    show ?case
    proof (cases "dev_num_ep_configs dev < int n")
      case False
      with 1(2) show ?thesis by (auto simp: s)
    next
      case True
      with 1(2) obtain desc r1 is_ep where 2: "Next r = Some (desc, r1)"
        "DescriptorDynamicCast EndpointDescriptor_kType (rdr_buf r1) desc = Some is_ep"
        by (auto simp: s split: bind_splits)
      show ?thesis
      proof (cases is_ep)
        case False
        with 1(2) 2 True have "read n d (r1, dev) = Some t" by (auto simp: s split: bind_splits if_splits)
        from 1(1) [OF this] show ?thesis by (simp add: s)
      next
        case is_ep: True
        with 1(2) 2 True obtain conf where 3: "nat (dev_num_ep_configs dev) < length (dev_ep_configs dev)"
          "read n d (r1, dev\<lparr>dev_ep_configs := (dev_ep_configs dev)[nat (dev_num_ep_configs dev) := conf],
             dev_num_ep_configs := dev_num_ep_configs dev + 1,
             dev_class_drivers := (dev_class_drivers dev)[nat (EndpointID_Number (ec_ep_id conf)) := Some d]\<rparr>) = Some t"
          by (auto simp: s Let_def split: bind_splits if_splits)
        from 1(1) [OF 3(2)] show ?thesis
          using add_endpoint_keeps [OF _ _ 3(1), of d] by (auto simp: s phase_def)
      qed
    qed
  qed
  from this [OF assms(1)] assms(2,3) show ?thesis by simp
qed

lemma find_interface_keeps:
  assumes "find_interface r (dev, w) = Some (k, dev', w')" and "device_ok dev"
  shows "device_ok dev' \<and> phase dev' = phase dev"
proof -
  have "device_ok (fst s) \<longrightarrow> device_ok (fst (snd t)) \<and> phase (fst (snd t)) = phase (fst s)"
    if "find_interface r s = Some t" for r t and s :: "Device_usb \<times> 'a World"
    using that
  proof (induction rule: find_interface.raw_induct [rotated, consumes 1])
    case (1 find r s t)
    obtain if_desc r1 where n: "Next_of_type InterfaceDescriptor_kType r = Some (if_desc, r1)"
      using 1(2) by (auto split: bind_splits)
    show ?case
    proof (cases if_desc)
      case None
      with 1(2) n show ?thesis by auto
    next
      case (Some p)
      with 1(2) n obtain cd s1 where c: "NewClassDriver (rdr_buf r1) p s = Some (cd, s1)"
        by (auto split: bind_splits)
      then have keep: "device_ok (fst s) \<Longrightarrow>
          device_ok (fst s1) \<and> phase (fst s1) = phase (fst s) \<and> (\<forall>d. cd = Some d \<longrightarrow> d < length (dev_drivers (fst s1)))"
        using NewClassDriver_keeps [of "rdr_buf r1" p "fst s" "snd s" cd "fst s1" "snd s1"] by simp
      show ?thesis
      proof (cases cd)
        case None
        with 1(2) n Some c have "find r1 s1 = Some t" by simp
        from 1(1) [OF this] keep show ?thesis by auto
      next
        case (Some d)
        with 1(2) n c \<open>if_desc = Some p\<close> obtain k r2 dev where
          e: "read_endpoints k d (r1, (fst s1)\<lparr>dev_num_ep_configs := 0\<rparr>) = Some (r2, dev)" "t = (Some d, dev, snd s1)"
          by (auto split: bind_splits)
        have "device_ok ((fst s1)\<lparr>dev_num_ep_configs := 0\<rparr>)" "d < length (dev_drivers ((fst s1)\<lparr>dev_num_ep_configs := 0\<rparr>))"
          if "device_ok (fst s)"
          using keep [OF that] Some by (auto simp: device_ok_def)
        from read_endpoints_keeps [OF e(1) this] keep show ?thesis
          by (auto simp: e(2) phase_def)
      qed
    qed
  qed
  from this [OF assms(1)] assms(2) show ?thesis by simp
qed

text \<open>A search that finds no driver changes nothing, and one that finds it adds it to the device's.\<close>

lemma NewClassDriver_None: "NewClassDriver buf p s = Some (None, s') \<Longrightarrow> s' = s"
  by (auto simp: NewClassDriver_def new_driver_def Let_def split: bind_splits if_splits prod.splits option.splits)

lemma find_interface_None:
  assumes "find_interface r s = Some (None, s')"
  shows "s' = s"
proof -
  have "fst t = None \<longrightarrow> snd t = s" if "find_interface r s = Some t" for r t and s :: "'a dstate"
    using that
  proof (induction rule: find_interface.raw_induct [rotated, consumes 1])
    case (1 find r s t)
    obtain if_desc r1 where n: "Next_of_type InterfaceDescriptor_kType r = Some (if_desc, r1)"
      using 1(2) by (auto split: bind_splits)
    show ?case
    proof (cases if_desc)
      case None
      with 1(2) n show ?thesis by auto
    next
      case (Some p)
      with 1(2) n obtain cd s1 where c: "NewClassDriver (rdr_buf r1) p s = Some (cd, s1)"
        by (auto split: bind_splits)
      show ?thesis
      proof (cases cd)
        case None
        with 1(2) n Some c have "find r1 s1 = Some t" by simp
        from 1(1) [OF this] NewClassDriver_None c None show ?thesis by blast
      next
        case (Some d)
        with 1(2) n c \<open>if_desc = Some p\<close> show ?thesis by (auto split: bind_splits)
      qed
    qed
  qed
  from this [OF assms] show ?thesis by simp
qed

text \<open>The codes a control transfer to endpoint 0 can return.\<close>

lemma control_transfer_codes:
  "control_transfer io dir_in kDefaultControlPipeID sd buf len s = Some (c, s') \<Longrightarrow> c \<in> {kSuccess, kTransferRingNotSet}"
proof -
  have "EndpointID_Number kDefaultControlPipeID = 0" by code_simp
  then show "control_transfer io dir_in kDefaultControlPipeID sd buf len s = Some (c, s') \<Longrightarrow> c \<in> {kSuccess, kTransferRingNotSet}"
    by (cases s; cases buf; auto simp: control_transfer_def Let_def split: if_splits bind_splits)
qed

lemma phases_code:
  "GetDescriptor io kDefaultControlPipeID ty i buf len s = Some (c, s') \<Longrightarrow> c \<in> {kSuccess, kTransferRingNotSet}"
  "SetConfiguration io kDefaultControlPipeID v s = Some (c, s') \<Longrightarrow> c \<in> {kSuccess, kTransferRingNotSet}"
  by (cases s; auto simp: GetDescriptor_def SetConfiguration_def ControlIn_def ControlOut_def dest!: control_transfer_codes)+

lemma phases_keep:
  "GetDescriptor io ep ty i buf len (dev, w) = Some (c, dev', w') \<Longrightarrow>
     device_ok dev' = device_ok dev \<and> phase dev' = phase dev"
  "SetConfiguration io ep v (dev, w) = Some (c, dev', w') \<Longrightarrow> device_ok dev' = device_ok dev \<and> phase dev' = phase dev"
  by (auto simp: GetDescriptor_def SetConfiguration_def wait_for_def dest!: control_frame simp: only_transfers_keeps)

lemma InitializePhase1_keeps:
  "InitializePhase1 io buf (dev, w) = Some (c, dev', w') \<Longrightarrow> device_ok dev \<Longrightarrow> \<not> dev_is_initialized dev \<Longrightarrow>
     device_ok dev' \<and> phase dev' = (2, False)"
  by (auto simp: InitializePhase1_def Let_def split: bind_splits dest!: phases_keep) (auto simp: device_ok_def phase_def)

lemma InitializePhase2_keeps:
  "InitializePhase2 io buf len (dev, w) = Some (c, dev', w') \<Longrightarrow> device_ok dev \<Longrightarrow> \<not> dev_is_initialized dev \<Longrightarrow>
     device_ok dev' \<and> (phase dev' = phase dev \<or> phase dev' = (3, False))"
  by (auto simp: InitializePhase2_def split: bind_splits if_splits dest!: phases_keep find_interface_keeps)
    (auto simp: device_ok_def phase_def)

lemma InitializePhase3_keeps:
  assumes "InitializePhase3 (dev, w) = Some (c, dev', w')" and "device_ok dev"
  shows "device_ok dev' \<and> phase dev' = (4, True)"
proof -
  have fold: "device_ok dev'" if "foldM (\<lambda>i dev. do {
         config \<leftarrow> (if i < length (dev_ep_configs dev) then Some (dev_ep_configs dev ! i) else None);
         d \<leftarrow> dev_class_drivers dev ! nat (EndpointID_Number (ec_ep_id config));
         Some (HID_SetEndpoint d config dev)
       }) is dev = Some dev'" "device_ok dev" for "is" dev dev'
    using that by (induction "is" arbitrary: dev) (auto simp: HID_SetEndpoint_def split: bind_splits if_splits)
  from assms show ?thesis
    by (auto simp: InitializePhase3_def split: bind_splits dest!: fold) (auto simp: device_ok_def phase_def)
qed

text \<open>A completion that an initialising device waits for: the request of its phase.\<close>

definition awaited :: "Device_usb \<Rightarrow> 'hw World \<Rightarrow> SetupData \<Rightarrow> u64 option \<Rightarrow> bool" where
  "awaited dev w setup_data buf \<longleftrightarrow>
     (let of_type = (\<lambda>t. case buf of None \<Rightarrow> False | Some p \<Rightarrow> DescriptorDynamicCast t (w_bytes w p) (Some 0) = Some True) in
      if dev_initialize_phase dev = 1 then su_request setup_data = request_kGetDescriptor \<and> of_type DeviceDescriptor_kType
      else if dev_initialize_phase dev = 2
      then su_request setup_data = request_kGetDescriptor \<and> of_type ConfigurationDescriptor_kType
      else dev_initialize_phase dev = 3 \<and> su_request setup_data = request_kSetConfiguration)"

lemma awaited_phase:
  assumes "awaited dev w sd buf"
  shows "dev_initialize_phase dev = 1 \<or> dev_initialize_phase dev = 2 \<or> dev_initialize_phase dev = 3"
  using assms by (cases "dev_initialize_phase dev = 1"; cases "dev_initialize_phase dev = 2") (simp_all add: awaited_def)

text \<open>The phases one by one: what is awaited, the phase after it, and the code returned.\<close>

lemma OnControlCompleted_phase1:
  assumes "dev_initialize_phase dev = 1" and "\<not> dev_is_initialized dev" and "device_ok dev" and "awaited dev w sd buf"
    and "OnControlCompleted io sd buf len (dev, w) = Some (c, dev', w')"
  shows "phase dev' = (2, False) \<and> c \<in> {kSuccess, kTransferRingNotSet}"
proof -
  from assms obtain buf8 where 1: "InitializePhase1 io buf8 (dev, w) = Some (c, dev', w')"
    by (auto simp: OnControlCompleted_def awaited_def Let_def split: bind_splits if_splits option.splits)
  then have "c \<in> {kSuccess, kTransferRingNotSet}"
    by (auto simp: InitializePhase1_def Let_def split: bind_splits dest!: phases_code(1))
  with InitializePhase1_keeps [OF 1 assms(3,2)] show ?thesis by simp
qed

lemma InitializePhase2_cases:
  assumes "InitializePhase2 io bs len (dev, w) = Some (c, dev', w')" and "\<not> dev_is_initialized dev" and "device_ok dev"
    and "DescriptorDynamicCast ConfigurationDescriptor_kType bs (Some 0) = Some True"
  shows "(find_interface (Reader_new bs len) (dev, w) = Some (None, dev, w) \<and> dev' = dev \<and> w' = w \<and> c = kSuccess) \<or>
    (\<exists>d s. find_interface (Reader_new bs len) (dev, w) = Some (Some d, s) \<and> phase dev' = (3, False) \<and>
       c \<in> {kSuccess, kTransferRingNotSet})"
proof -
  from assms(1,4) obtain k dev1 w1 where f: "find_interface (Reader_new bs len) (dev, w) = Some (k, dev1, w1)"
    by (auto simp: InitializePhase2_def split: bind_splits)
  show ?thesis
  proof (cases k)
    case None
    from find_interface_None [OF f [unfolded None]] f None assms(1,4) show ?thesis by (auto simp: InitializePhase2_def)
  next
    case (Some d)
    with f assms(1,4) obtain v where v: "SetConfiguration io kDefaultControlPipeID v (dev1\<lparr>dev_initialize_phase := 3\<rparr>, w1) =
        Some (c, dev', w')"
      by (auto simp: InitializePhase2_def split: bind_splits)
    have "phase dev1 = phase dev" using find_interface_keeps [OF f assms(3)] by simp
    then have "phase dev' = (3, False)" using phases_keep(2) [OF v] assms(2) by (simp add: phase_def)
    with phases_code(2) [OF v] f Some show ?thesis by blast
  qed
qed


lemma OnControlCompleted_ok:
  assumes "OnControlCompleted io setup_data buf len (dev, w) = Some (c, dev', w')" and "device_ok dev"
  shows "device_ok dev'"
proof (cases "dev_is_initialized dev")
  case True
  with assms show ?thesis
    by (auto simp: OnControlCompleted_def Let_def split: option.splits dest: driver_operations_keep(2))
next
  case False
  with assms show ?thesis
    by (auto simp: OnControlCompleted_def Let_def split: bind_splits if_splits option.splits
      dest: InitializePhase1_keeps InitializePhase2_keeps InitializePhase3_keeps)
qed


text \<open>
  Everything that happens to a device after its construction; the controller writes its device
  context, the buffers and the registers at any time.
\<close>

inductive device_run :: "'hw Mmio \<Rightarrow> 'hw dstate \<Rightarrow> bool" for io where
  created: "device_run io (Device_new buf_addr slot_id dbreg, w)"
| initialized: "device_run io (dev, w) \<Longrightarrow> device_run io (snd (Device_Initialize dev), w)"
| selected: "device_run io (dev, w) \<Longrightarrow> device_run io (SelectForSlotAssignment dev, w)"
| ring_allocated: "device_run io s \<Longrightarrow> AllocTransferRing sz index n s = Some (ring, s') \<Longrightarrow> device_run io s'"
| started: "device_run io s \<Longrightarrow> StartInitialize io s = Some (c, s') \<Longrightarrow> device_run io s'"
| event: "device_run io s \<Longrightarrow> OnTransferEventReceived io trb s = Some (c, s') \<Longrightarrow> device_run io s'"
| configured: "device_run io s \<Longrightarrow> OnEndpointsConfigured io s = Some (c, s') \<Longrightarrow> device_run io s'"
| controller: "device_run io (dev, w) \<Longrightarrow> device_run io (dev\<lparr>dev_ctx := ctx\<rparr>, w')"

lemma OnEndpointsConfigured_ok:
  assumes "OnEndpointsConfigured io s = Some (c, s')" and "device_ok (fst s)"
  shows "device_ok (fst s')"
proof -
  let ?P = "\<lambda>u. device_ok (fst u) \<and> length (dev_drivers (fst u)) = length (dev_drivers (fst s))"
  have "?P s'"
  proof (rule each_or_return_inv [OF assms(1) [unfolded OnEndpointsConfigured_def]])
    show "?P s" using assms(2) by simp
  next
    fix class_driver u e v
    assume 1: "class_driver \<in> set (dev_class_drivers (fst s))" "?P u"
      "(case class_driver of None \<Rightarrow> Some (kSuccess, u) | Some d \<Rightarrow> HID_OnEndpointsConfigured io d u) = Some (e, v)"
    obtain dev w dev' w' where u: "u = (dev, w)" "v = (dev', w')" by fastforce
    show "?P v"
    proof (cases class_driver)
      case None
      with 1 show ?thesis by auto
    next
      case (Some d)
      with 1 assms(2) have "d < length (dev_drivers dev)" by (auto simp: device_ok_def u)
      moreover have "length (dev_drivers dev') = length (dev_drivers dev)"
        using 1(3) by (auto simp: u Some HID_OnEndpointsConfigured_def Let_def dest!: control_frame(2)
          simp: only_transfers_keeps)
      ultimately show ?thesis using 1(2,3) by (auto simp: u Some dest: driver_operations_keep(1))
    qed
  qed
  then show ?thesis ..
qed

lemma OnTransferEventReceived_ok:
  assumes "OnTransferEventReceived io trb (dev, w) = Some (c, dev', w')" and "device_ok dev"
  shows "device_ok dev'"
proof -
  have m: "device_ok (dev\<lparr>dev_setup_stage_map := m\<rparr>)" for m using assms(2) by (simp add: device_ok_def)
  have i: "device_ok dev'" if "OnInterruptCompleted io ep n (dev, w) = Some (c, dev', w')" for ep n
    using that assms(2) by (auto simp: OnInterruptCompleted_def Let_def split: if_splits option.splits
      dest: driver_operations_keep(3))
  show ?thesis
    using assms(1,2) unfolding OnTransferEventReceived_def Let_def
    by (auto split: if_splits option.splits dest: i OnControlCompleted_ok [OF _ m] intro: m)
qed

lemma StartInitialize_ok:
  assumes "StartInitialize io (dev, w) = Some (c, dev', w')" and "device_ok dev"
  shows "device_ok dev'"
  using assms by (auto simp: StartInitialize_def dest!: phases_keep(1)) (auto simp: device_ok_def)

lemma AllocTransferRing_ok:
  assumes "AllocTransferRing sz index n (dev, w) = Some (ring, dev', w')" and "device_ok dev"
  shows "device_ok dev'"
  using assms by (auto simp: AllocTransferRing_def Let_def device_ok_def split: prod.splits if_splits option.splits)

text \<open>
  As long as the table of endpoints does not overflow, whatever happens to a device, every class driver it
  will call and every driver that waits for a control transfer is one of its drivers, and it is
  initialised exactly when it is in phase 4.
\<close>

lemma device_run_ok:
  assumes "device_run io s"
  shows "device_ok (fst s)"
  using assms
proof induction
  case (created buf_addr slot_id dbreg w)
  show ?case by (auto simp: device_ok_def Device_new_def ArrayMap_Get_None_iff [THEN iffD2])
next
  case (event s trb c s')
  then show ?case by (cases s; cases s') (auto dest: OnTransferEventReceived_ok)
next
  case (started s c s')
  then show ?case by (cases s; cases s') (auto dest: StartInitialize_ok)
next
  case (ring_allocated s sz index n ring s')
  then show ?case by (cases s; cases s') (auto dest: AllocTransferRing_ok)
next
  case (configured s c s')
  then show ?case by (auto dest: OnEndpointsConfigured_ok)
qed (simp_all add: device_ok_def Device_Initialize_def SelectForSlotAssignment_def)

lemma device_run_ok_witness: "device_ok (snd (Device_Initialize (Device_new 0x9000 1 0xf0000104)))"
  using device_run_ok [OF device_run.initialized [OF device_run.created, of erdp_io "0x9000" 1 "0xf0000104" sample_world]]
  by simp

end
