(* ===== verification/DevMgr.thy ===== *)
theory DevMgr
  imports UsbDevice
begin

text \<open>
  Root hub ports and the table of devices (\<open>usb/xhci/port.hpp\<close>, \<open>usb/xhci/port.cpp\<close>,
  \<open>usb/xhci/devmgr.hpp\<close>, \<open>usb/xhci/devmgr.cpp\<close>). A port is its number and the address of its
  register set; the devices are kept with their addresses, and a pointer to one is its slot.
\<close>

section \<open>Ports\<close>

record Port =
  port_num :: u8
  port_reg_set :: u64

definition PORTSC :: "Port \<Rightarrow> u64" where
  "PORTSC port = port_reg_set port + of_nat (offset_of PortRegisterSet ''PORTSC'')"

definition portsc_bit :: "'hw Mmio \<Rightarrow> string \<Rightarrow> Port \<Rightarrow> 'hw \<Rightarrow> bool \<times> 'hw" where
  "portsc_bit io f port hw = (let (portsc, hw) = Read io (PORTSC port) hw in (rd PORTSC_Bitmap f portsc \<noteq> 0, hw))"

definition Port_Number :: "Port \<Rightarrow> u8" where
  "Port_Number port = port_num port"

definition IsConnected :: "'hw Mmio \<Rightarrow> Port \<Rightarrow> 'hw \<Rightarrow> bool \<times> 'hw" where
  "IsConnected io = portsc_bit io ''current_connect_status''"

definition IsEnabled :: "'hw Mmio \<Rightarrow> Port \<Rightarrow> 'hw \<Rightarrow> bool \<times> 'hw" where
  "IsEnabled io = portsc_bit io ''port_enabled_disabled''"

definition IsConnectStatusChanged :: "'hw Mmio \<Rightarrow> Port \<Rightarrow> 'hw \<Rightarrow> bool \<times> 'hw" where
  "IsConnectStatusChanged io = portsc_bit io ''connect_status_change''"

definition IsPortResetChanged :: "'hw Mmio \<Rightarrow> Port \<Rightarrow> 'hw \<Rightarrow> bool \<times> 'hw" where
  "IsPortResetChanged io = portsc_bit io ''port_reset_change''"

definition Port_Speed :: "'hw Mmio \<Rightarrow> Port \<Rightarrow> 'hw \<Rightarrow> int \<times> 'hw" where
  "Port_Speed io port hw =
     (let (portsc, hw) = Read io (PORTSC port) hw in (uint (rd PORTSC_Bitmap ''port_speed'' portsc), hw))"

text \<open>The words that \<open>Reset\<close> and \<open>CLEAR_STATUS_BIT\<close> write for the value read.\<close>

definition reset_word :: "u32 \<Rightarrow> u32" where
  "reset_word portsc = (portsc AND 0x0e00c3e0) OR 0x00020010"

definition clear_status_word :: "string \<Rightarrow> u32 \<Rightarrow> u32" where
  "clear_status_word f portsc = wr PORTSC_Bitmap f 1 (portsc AND 0x0e01c3e0)"

definition Port_Reset :: "'hw Mmio \<Rightarrow> Port \<Rightarrow> 'hw \<Rightarrow> (Code \<times> 'hw) option" where
  "Port_Reset io port hw =
     (let (portsc, hw) = Read io (PORTSC port) hw; hw = Write io (PORTSC port) (reset_word portsc) hw in do {
        hw \<leftarrow> spin_while (portsc_bit io ''port_reset'' port) hw;
        Some (kSuccess, hw)
      })"

definition CLEAR_STATUS_BIT :: "'hw Mmio \<Rightarrow> string \<Rightarrow> Port \<Rightarrow> 'hw \<Rightarrow> 'hw" where
  "CLEAR_STATUS_BIT io f port hw =
     (let (portsc, hw) = Read io (PORTSC port) hw in Write io (PORTSC port) (clear_status_word f portsc) hw)"

definition ClearConnectStatusChanged :: "'hw Mmio \<Rightarrow> Port \<Rightarrow> 'hw \<Rightarrow> 'hw" where
  "ClearConnectStatusChanged io = CLEAR_STATUS_BIT io ''connect_status_change''"

definition ClearPortResetChange :: "'hw Mmio \<Rightarrow> Port \<Rightarrow> 'hw \<Rightarrow> 'hw" where
  "ClearPortResetChange io = CLEAR_STATUS_BIT io ''port_reset_change''"

definition Port_Initialize :: "Port \<Rightarrow> nat option" where
  "Port_Initialize port = None"

section \<open>What the operations of a port do to its register\<close>

text \<open>
  PORTSC as the xHCI specification has it. A write takes power, indicator and wake bits, the link state only
  together with its strobe, clears the changes and the enable bit it has a 1 for, starts a reset with a 1
  for the reset or warm reset bit, and leaves the rest. The strobe reads as 0. A reset that is over clears
  its bit, enables the port and sets the reset change; it ends after some number of looks at the register.
\<close>

definition portsc_written :: "u32 \<Rightarrow> u32 \<Rightarrow> u32" where
  "portsc_written v w =
     (let taken = 0x0e00c200 OR (if bit w 16 then 0x1e0 else 0)
      in (v AND NOT (taken OR (w AND 0x00fe0002))) OR (w AND (taken OR 0x10)) OR (if bit w 31 then 0x10 else 0))"

definition reset_finished :: "u32 \<Rightarrow> u32" where
  "reset_finished v = (if bit v 4 then set_bit 21 (set_bit 1 (unset_bit 4 v)) else v)"

definition port_register :: "'hw Mmio \<Rightarrow> Port \<Rightarrow> ('hw \<Rightarrow> u32) \<Rightarrow> bool" where
  "port_register io port portsc \<longleftrightarrow>
     (\<forall>hw. \<not> bit (portsc hw) 16 \<and> fst (Read io (PORTSC port) hw) = portsc hw \<and>
        portsc (snd (Read io (PORTSC port) hw)) \<in> {portsc hw, reset_finished (portsc hw)} \<and>
        (\<forall>w. portsc (Write io (PORTSC port) w hw) = portsc_written (portsc hw) w)) \<and>
     (\<forall>hw. \<exists>n. \<not> bit (portsc (((\<lambda>hw. snd (Read io (PORTSC port) hw)) ^^ n) hw)) 4)"

lemma port_registerD:
  assumes "port_register io port portsc"
  shows "\<not> bit (portsc hw) 16" and "fst (Read io (PORTSC port) hw) = portsc hw"
    and "portsc (snd (Read io (PORTSC port) hw)) = portsc hw \<or> portsc (snd (Read io (PORTSC port) hw)) = reset_finished (portsc hw)"
    and "portsc (Write io (PORTSC port) w hw) = portsc_written (portsc hw) w"
    and "\<exists>n. \<not> bit (portsc (((\<lambda>hw. snd (Read io (PORTSC port) hw)) ^^ n) hw)) 4"
  using assms by (auto simp: port_register_def)

lemma port_register_quiet:
  "port_register io port portsc \<Longrightarrow> \<not> bit (portsc hw) 4 \<Longrightarrow> portsc (snd (Read io (PORTSC port) hw)) = portsc hw"
  using port_registerD(3) [of io port portsc hw] by (auto simp: reset_finished_def)

text \<open>Equality of words bit by bit.\<close>

lemma u32_eqI:
  fixes v w :: u32
  assumes "list_all (\<lambda>n. bit v n = bit w n) [0..<32]"
  shows "v = w"
  by (rule bit_word_eqI) (use assms in \<open>simp add: list_all_iff\<close>)

lemma portsc_written_reset: "\<not> bit v 16 \<Longrightarrow> portsc_written v (reset_word v) = set_bit 4 (unset_bit 17 v)"
  by (rule u32_eqI) (simp add: portsc_written_def reset_word_def bit_simps Let_def upt_rec)

lemma portsc_positions:
  "offset_of PORTSC_Bitmap ''connect_status_change'' = 17" "offset_of PORTSC_Bitmap ''port_reset_change'' = 21"
  "offset_of PORTSC_Bitmap ''current_connect_status'' = 0" "offset_of PORTSC_Bitmap ''port_enabled_disabled'' = 1"
  "offset_of PORTSC_Bitmap ''port_reset'' = 4" "offset_of PORTSC_Bitmap ''port_speed'' = 10"
  "width_of PORTSC_Bitmap ''connect_status_change'' = 1" "width_of PORTSC_Bitmap ''port_reset_change'' = 1"
  "width_of PORTSC_Bitmap ''current_connect_status'' = 1" "width_of PORTSC_Bitmap ''port_enabled_disabled'' = 1"
  "width_of PORTSC_Bitmap ''port_reset'' = 1" "width_of PORTSC_Bitmap ''port_speed'' = 4"
  by code_simp+

lemma portsc_written_clear:
  assumes "\<not> bit v 16" and "\<not> bit v 4"
  shows "portsc_written v (clear_status_word ''port_reset_change'' v) = unset_bit 21 v"
    and "portsc_written v (clear_status_word ''connect_status_change'' v) = unset_bit 17 v"
  using assms
  by (intro u32_eqI; simp add: portsc_written_def clear_status_word_def wr_def bf_set_def portsc_positions bit_simps Let_def upt_rec)+

lemma portsc_bit_1:
  assumes "offset_of PORTSC_Bitmap f = k" and "width_of PORTSC_Bitmap f = 1"
  shows "rd PORTSC_Bitmap f (v :: u32) \<noteq> 0 \<longleftrightarrow> bit v k"
  using assms by (simp add: rd_def bf_get_def bit_iff_odd_drop_bit take_bit_Suc_0 even_iff_mod_2_eq_zero)

lemma port_reset_spins:
  assumes "port_register io port portsc" and "bit u 4"
    and "portsc hw \<in> {u, reset_finished u}" and "\<not> bit (portsc (((\<lambda>hw. snd (Read io (PORTSC port) hw)) ^^ n) hw)) 4"
  shows "\<exists>hw'. spin_while (portsc_bit io ''port_reset'' port) hw = Some hw' \<and> portsc hw' = reset_finished u"
  using assms(3,4)
proof (induction n arbitrary: hw)
  case 0
  have "reset_finished (reset_finished u) = reset_finished u" by (simp add: reset_finished_def bit_simps)
  with 0 assms(2) have "portsc hw = reset_finished u" "\<not> bit (portsc hw) 4" by auto
  moreover from this have "portsc (snd (Read io (PORTSC port) hw)) = reset_finished u"
    using port_register_quiet [OF assms(1)] by simp
  ultimately show ?case
    using port_registerD(2) [OF assms(1), of hw] portsc_bit_1 [of "''port_reset''" 4 "portsc hw"]
    by (subst spin_while.simps) (simp add: portsc_bit_def portsc_positions split_beta)
next
  case (Suc n)
  let ?hw = "snd (Read io (PORTSC port) hw)"
  show ?case
  proof (cases "bit (portsc hw) 4")
    case True
    then have "portsc hw = u" using Suc.prems(1) by (auto simp: reset_finished_def bit_simps split: if_splits)
    then have "portsc ?hw \<in> {u, reset_finished u}" using port_registerD(3) [OF assms(1), of hw] by auto
    from Suc.IH [OF this] Suc.prems(2)
    have "\<exists>hw'. spin_while (portsc_bit io ''port_reset'' port) ?hw = Some hw' \<and> portsc hw' = reset_finished u"
      by (simp add: funpow_Suc_right del: funpow.simps)
    then show ?thesis
      using port_registerD(2) [OF assms(1), of hw] portsc_bit_1 [of "''port_reset''" 4 "portsc hw"] True
      by (subst spin_while.simps) (simp add: portsc_bit_def portsc_positions split_beta)
  next
    case False
    then have "portsc hw = reset_finished u" "portsc ?hw = portsc hw"
      using Suc.prems(1) assms(2) port_register_quiet [OF assms(1)] by auto
    then show ?thesis
      using port_registerD(2) [OF assms(1), of hw] portsc_bit_1 [of "''port_reset''" 4 "portsc hw"] False
      by (subst spin_while.simps) (simp add: portsc_bit_def portsc_positions split_beta)
  qed
qed

lemma portsc_reads:
  assumes "port_register io port portsc"
  shows "fst (IsConnected io port hw) = bit (portsc hw) 0" and "fst (IsEnabled io port hw) = bit (portsc hw) 1"
    and "fst (IsConnectStatusChanged io port hw) = bit (portsc hw) 17" and "fst (IsPortResetChanged io port hw) = bit (portsc hw) 21"
    and "fst (Port_Speed io port hw) = uint (take_bit 4 (drop_bit 10 (portsc hw)))"
  using portsc_bit_1 [of "''current_connect_status''" 0 "portsc hw"] portsc_bit_1 [of "''port_enabled_disabled''" 1 "portsc hw"]
    portsc_bit_1 [of "''connect_status_change''" 17 "portsc hw"] portsc_bit_1 [of "''port_reset_change''" 21 "portsc hw"]
    port_registerD(2) [OF assms, of hw]
  by (simp_all add: IsConnected_def IsEnabled_def IsConnectStatusChanged_def IsPortResetChanged_def Port_Speed_def portsc_bit_def
    portsc_positions split_beta rd_def bf_get_def)


text \<open>A register that ends a reset at the first look, with the connection and link state changes of a port pending.\<close>

definition port_io :: "u32 Mmio" where
  "port_io = \<lparr>mm_read = (\<lambda>n a hw. (ucast (unset_bit 16 hw), reset_finished (unset_bit 16 hw))),
     mm_write = (\<lambda>n a v hw. portsc_written (unset_bit 16 hw) (ucast v))\<rparr>"

lemma port_io_register: "port_register port_io port (unset_bit 16)"
proof -
  have ucast: "ucast (ucast v :: u64) = v" for v :: u32 by (rule bit_word_eqI) (simp add: bit_simps)
  have io: "Read port_io a hw = (unset_bit 16 hw, reset_finished (unset_bit 16 hw))"
    "Write port_io a w hw = portsc_written (unset_bit 16 hw) w" for a w hw
    by (simp_all add: Read_def Write_def port_io_def ucast)
  have strobe: "unset_bit 16 (reset_finished (unset_bit 16 hw)) = reset_finished (unset_bit 16 hw)"
    "unset_bit 16 (portsc_written (unset_bit 16 hw) w) = portsc_written (unset_bit 16 hw) w" for w hw :: u32
    by (intro bit_word_eqI; auto simp: reset_finished_def bit_simps)
      (rule u32_eqI, simp add: portsc_written_def bit_simps Let_def upt_rec)
  have "\<not> bit (reset_finished hw) 4" for hw by (simp add: reset_finished_def bit_simps)
  then have "\<exists>n. \<not> bit (unset_bit 16 (((\<lambda>hw. snd (Read port_io (PORTSC port) hw)) ^^ n) hw)) 4" for hw
    by (intro exI [of _ 1]) (simp add: io bit_simps)
  then show ?thesis unfolding port_register_def by (simp add: io strobe) (simp add: bit_simps)
qed


section \<open>The device manager\<close>

text \<open>Sizes and offsets of the compiled classes, in bytes.\<close>

record ClassSizes =
  sizeof_Device :: u64
  sizeof_Ring :: u64
  offset_ctx :: u64
  offset_input_ctx :: u64
  offset_buf :: u64

text \<open>The two arrays with their addresses; an entry of \<open>dm_devices\<close> is an object and where it lies.\<close>

record DeviceManager =
  dm_context_pointers_at :: "u64 option"
  dm_device_context_pointers :: "u64 list"
  dm_max_slots :: u64
  dm_devices_at :: "u64 option"
  dm_devices :: "(u64 \<times> Device_usb) option list"

definition DeviceManager_Initialize :: "u64 \<Rightarrow> DeviceManager \<times> Pool \<Rightarrow> Code \<times> DeviceManager \<times> Pool" where
  "DeviceManager_Initialize max_slots = (\<lambda>(dm, pool).
     let dm = dm\<lparr>dm_max_slots := max_slots\<rparr>;
         (devs, pool) = AllocArray 8 (dm_max_slots dm + 1) 0 0 pool; dm = dm\<lparr>dm_devices_at := devs\<rparr>
     in case devs of
          None \<Rightarrow> (kNoEnoughMemory, dm, pool)
        | Some d \<Rightarrow>
            let (ptrs, pool) = AllocArray 8 (dm_max_slots dm + 1) 64 4096 pool; dm = dm\<lparr>dm_context_pointers_at := ptrs\<rparr>
            in case ptrs of
                 None \<Rightarrow> (kNoEnoughMemory, dm, FreeMem d pool)
               | Some p \<Rightarrow> (kSuccess, dm\<lparr>dm_devices := replicate (unat (dm_max_slots dm) + 1) None,
                   dm_device_context_pointers := replicate (unat (dm_max_slots dm) + 1) 0\<rparr>, pool))"

definition DeviceContexts :: "DeviceManager \<Rightarrow> u64 option" where
  "DeviceContexts dm = dm_context_pointers_at dm"

text \<open>\<open>dev->DeviceContext()->slot_context.bits.root_hub_port_num\<close>\<close>

definition root_hub_port_num :: "Device_usb \<Rightarrow> u8" where
  "root_hub_port_num dev = ucast (rd SlotContext ''root_hub_port_num'' (dc_slot_context (dev_ctx dev)))"

text \<open>The first slot from 1 whose device satisfies the condition.\<close>

definition find_device :: "(Device_usb \<Rightarrow> bool) \<Rightarrow> DeviceManager \<Rightarrow> nat option" where
  "find_device P dm = List.find (\<lambda>i. case dm_devices dm ! i of None \<Rightarrow> False | Some (a, dev) \<Rightarrow> P dev)
     [1..<unat (dm_max_slots dm) + 1]"

definition FindByPort :: "u8 \<Rightarrow> u32 \<Rightarrow> DeviceManager \<Rightarrow> nat option" where
  "FindByPort number route_string = find_device (\<lambda>dev. root_hub_port_num dev = number)"

definition FindByState :: "DeviceState \<Rightarrow> DeviceManager \<Rightarrow> nat option" where
  "FindByState state = find_device (\<lambda>dev. dev_state dev = state)"

definition FindBySlot :: "u8 \<Rightarrow> DeviceManager \<Rightarrow> nat option" where
  "FindBySlot slot_id dm =
     (if dm_max_slots dm < ucast slot_id then None
      else if dm_devices dm ! unat slot_id = None then None else Some (unat slot_id))"

text \<open>Constructing a device where \<open>AllocArray\<close> found no memory is undefined.\<close>

definition AllocDevice ::
  "ClassSizes \<Rightarrow> u8 \<Rightarrow> u64 \<Rightarrow> DeviceManager \<times> Pool \<Rightarrow> (Code \<times> DeviceManager \<times> Pool) option" where
  "AllocDevice sizes slot_id dbreg = (\<lambda>(dm, pool).
     if dm_max_slots dm < ucast slot_id then Some (kInvalidSlotID, dm, pool)
     else if dm_devices dm ! unat slot_id \<noteq> None then Some (kAlreadyAllocated, dm, pool)
     else
       let (p, pool) = AllocArray (sizeof_Device sizes) 1 64 4096 pool in do {
         a \<leftarrow> p;
         Some (kSuccess, dm\<lparr>dm_devices := (dm_devices dm)
           [unat slot_id := Some (a, Device_new (a + offset_buf sizes) slot_id dbreg)]\<rparr>, pool)
       })"

definition LoadDCBAA :: "ClassSizes \<Rightarrow> u8 \<Rightarrow> DeviceManager \<Rightarrow> (Code \<times> DeviceManager) option" where
  "LoadDCBAA sizes slot_id dm =
     (if dm_max_slots dm < ucast slot_id then Some (kInvalidSlotID, dm)
      else do {
        (a, dev) \<leftarrow> dm_devices dm ! unat slot_id;
        Some (kSuccess, dm\<lparr>dm_device_context_pointers := (dm_device_context_pointers dm)
          [unat slot_id := a + offset_ctx sizes]\<rparr>)
      })"

definition Remove :: "u8 \<Rightarrow> DeviceManager \<times> Pool \<Rightarrow> (Code \<times> DeviceManager \<times> Pool) option" where
  "Remove slot_id = (\<lambda>(dm, pool).
     if length (dm_devices dm) \<le> unat slot_id then None
     else Some (kSuccess, dm\<lparr>dm_device_context_pointers := (dm_device_context_pointers dm)[unat slot_id := 0],
         dm_devices := (dm_devices dm)[unat slot_id := None]\<rparr>,
       case dm_devices dm ! unat slot_id of None \<Rightarrow> pool | Some (a, dev) \<Rightarrow> FreeMem a pool))"

end
