(* ===== verification/Xhci.thy ===== *)
theory Xhci
  imports DevMgr
begin

text \<open>
  The xHCI host controller driver (\<open>usb/xhci/xhci.hpp\<close>, \<open>usb/xhci/xhci.cpp\<close>): the controller
  object, the configuration phases of the root hub ports, the commands, and the handling of an
  event. A register access changes the state of the controller hardware, the \<open>w_hw\<close> of the world.
\<close>

section \<open>State\<close>

datatype ConfigPhase = kNotConnected | kWaitingAddressed | kResettingPort | kEnablingSlot | kAddressingDevice
  | kInitializingDevice | kConfiguringEndpoints | kConfigured

record 'hw Xhc =
  x_mmio_base :: u64
  x_cap :: u64
  x_op :: u64
  x_max_ports :: u8
  x_devmgr :: DeviceManager
  x_cr :: Ring
  x_er :: EventRing
  x_port_config_phase :: "ConfigPhase list"
  x_addressing_port :: u8
  x_world :: "'hw World"
  x_sizes :: ClassSizes

text \<open>The hardware, the devices and the memory inside the state.\<close>

definition on_hw :: "('hw \<Rightarrow> 'a \<times> 'hw) \<Rightarrow> 'hw Xhc \<Rightarrow> 'a \<times> 'hw Xhc" where
  "on_hw f x = (let (v, hw) = f (w_hw (x_world x)) in (v, x\<lparr>x_world := (x_world x)\<lparr>w_hw := hw\<rparr>\<rparr>))"

definition hw_do :: "('hw \<Rightarrow> 'hw) \<Rightarrow> 'hw Xhc \<Rightarrow> 'hw Xhc" where
  "hw_do f x = x\<lparr>x_world := (x_world x)\<lparr>w_hw := f (w_hw (x_world x))\<rparr>\<rparr>"

definition hw_try :: "('hw \<Rightarrow> 'hw option) \<Rightarrow> 'hw Xhc \<Rightarrow> 'hw Xhc option" where
  "hw_try f x = map_option (\<lambda>hw. x\<lparr>x_world := (x_world x)\<lparr>w_hw := hw\<rparr>\<rparr>) (f (w_hw (x_world x)))"

definition device_at :: "nat \<Rightarrow> 'hw Xhc \<Rightarrow> (u64 \<times> Device_usb) option" where
  "device_at i x = dm_devices (x_devmgr x) ! i"

definition set_device :: "nat \<Rightarrow> u64 \<times> Device_usb \<Rightarrow> 'hw Xhc \<Rightarrow> 'hw Xhc" where
  "set_device i d x = x\<lparr>x_devmgr := (x_devmgr x)\<lparr>dm_devices := (dm_devices (x_devmgr x))[i := Some d]\<rparr>\<rparr>"

text \<open>A member function of the device of a slot.\<close>

definition on_device :: "nat \<Rightarrow> ('hw dstate \<Rightarrow> ('a \<times> 'hw dstate) option) \<Rightarrow> 'hw Xhc \<Rightarrow> ('a \<times> 'hw Xhc) option" where
  "on_device i f x = do {
     (a, dev) \<leftarrow> device_at i x;
     (v, dev, w) \<leftarrow> f (dev, x_world x);
     Some (v, set_device i (a, dev) x\<lparr>x_world := w\<rparr>)
   }"

definition set_phase :: "u8 \<Rightarrow> ConfigPhase \<Rightarrow> 'hw Xhc \<Rightarrow> 'hw Xhc" where
  "set_phase port ph x = x\<lparr>x_port_config_phase := (x_port_config_phase x)[unat port := ph]\<rparr>"

definition phase_of :: "'hw Xhc \<Rightarrow> u8 \<Rightarrow> ConfigPhase" where
  "phase_of x port = x_port_config_phase x ! unat port"

section \<open>The controller object\<close>

definition kDeviceSize :: u64 where "kDeviceSize = 8"

definition cap_reg :: "string \<Rightarrow> 'hw Xhc \<Rightarrow> u64" where
  "cap_reg f x = x_cap x + of_nat (offset_of CapabilityRegisters f)"

definition op_reg :: "string \<Rightarrow> 'hw Xhc \<Rightarrow> u64" where
  "op_reg f x = x_op x + of_nat (offset_of OperationalRegisters f)"

definition read_reg :: "'hw Mmio \<Rightarrow> u64 \<Rightarrow> 'hw Xhc \<Rightarrow> u32 \<times> 'hw Xhc" where
  "read_reg io a = on_hw (Read io a)"

definition write_reg :: "'hw Mmio \<Rightarrow> u64 \<Rightarrow> u32 \<Rightarrow> 'hw Xhc \<Rightarrow> 'hw Xhc" where
  "write_reg io a v = hw_do (Write io a v)"

text \<open>A loop \<open>while\<close> a field of a register is not zero, or is zero.\<close>

definition wait_while :: "'hw Mmio \<Rightarrow> u64 \<Rightarrow> (u32 \<Rightarrow> bool) \<Rightarrow> 'hw Xhc \<Rightarrow> 'hw Xhc option" where
  "wait_while io a P = hw_try (spin_while (\<lambda>hw. let (v, hw) = Read io a hw in (P v, hw)))"

definition InterrupterRegisterSets :: "'hw Mmio \<Rightarrow> 'hw Xhc \<Rightarrow> ArrayWrapper \<times> 'hw Xhc" where
  "InterrupterRegisterSets io x =
     (let (v, x) = read_reg io (cap_reg ''RTSOFF'' x) x
      in (\<lparr>aw_array = x_mmio_base x + ucast (RTSOFF_Offset v) + 0x20, aw_size = 1024\<rparr>, x))"

definition PortRegisterSets :: "'hw Xhc \<Rightarrow> ArrayWrapper" where
  "PortRegisterSets x = \<lparr>aw_array = x_op x + 0x400, aw_size = ucast (x_max_ports x)\<rparr>"

definition DoorbellRegisters :: "'hw Mmio \<Rightarrow> 'hw Xhc \<Rightarrow> ArrayWrapper \<times> 'hw Xhc" where
  "DoorbellRegisters io x =
     (let (v, x) = read_reg io (cap_reg ''DBOFF'' x) x
      in (\<lparr>aw_array = x_mmio_base x + ucast (DBOFF_Offset v), aw_size = 256\<rparr>, x))"

definition DoorbellRegisterAt :: "'hw Mmio \<Rightarrow> u8 \<Rightarrow> 'hw Xhc \<Rightarrow> u64 \<times> 'hw Xhc" where
  "DoorbellRegisterAt io index x =
     (let (regs, x) = DoorbellRegisters io x in (ArrayWrapper_at 4 regs (ucast index), x))"

definition PortAt :: "u8 \<Rightarrow> 'hw Xhc \<Rightarrow> Port" where
  "PortAt n x = \<lparr>port_num = n,
     port_reg_set = ArrayWrapper_at (of_nat (total_width PortRegisterSet)) (PortRegisterSets x) (of_int (uint n - 1))\<rparr>"

definition MaxPorts :: "'hw Xhc \<Rightarrow> u8" where
  "MaxPorts x = x_max_ports x"

text \<open>The constructor; the members without an initialiser are those of zeroed memory.\<close>

definition Controller_new :: "'hw Mmio \<Rightarrow> u64 \<Rightarrow> ClassSizes \<Rightarrow> 'hw World \<Rightarrow> 'hw Xhc" where
  "Controller_new io mmio_base sizes w =
     (let reg = \<lambda>f. mmio_base + of_nat (offset_of CapabilityRegisters f);
          (caplength, hw) = Read8 io (reg ''CAPLENGTH'') (w_hw w);
          (hcsparams1, hw) = Read io (reg ''HCSPARAMS1'') hw
      in \<lparr>x_mmio_base = mmio_base, x_cap = mmio_base, x_op = mmio_base + ucast caplength,
          x_max_ports = ucast (rd HCSPARAMS1_Bitmap ''max_ports'' hcsparams1),
          x_devmgr = \<lparr>dm_context_pointers_at = None, dm_device_context_pointers = [], dm_max_slots = 0,
            dm_devices_at = None, dm_devices = []\<rparr>,
          x_cr = \<lparr>ring_buf = None, ring_buf_size = 0, ring_cycle_bit = False, ring_write_index = 0\<rparr>,
          x_er = \<lparr>er_buf = 0, er_buf_size = 0, er_cycle_bit = False, er_erst = 0, er_interrupter = 0\<rparr>,
          x_port_config_phase = replicate 256 kNotConnected, x_addressing_port = 0,
          x_world = w\<lparr>w_hw := hw\<rparr>, x_sizes = sizes\<rparr>)"

definition RegisterCommandRing :: "'hw Mmio \<Rightarrow> Ring \<Rightarrow> u64 \<Rightarrow> 'hw Xhc \<Rightarrow> Code \<times> 'hw Xhc" where
  "RegisterCommandRing io ring crcr x =
     (let (v, x) = on_hw (Read64 io crcr) x;
          v = wr CRCR_Bitmap ''ring_cycle_state'' 1 v;
          v = wr CRCR_Bitmap ''command_stop'' 0 v;
          v = wr CRCR_Bitmap ''command_abort'' 0 v;
          v = CRCR_SetPointer (case Ring_Buffer ring of None \<Rightarrow> 0 | Some p \<Rightarrow> p) v
      in (kSuccess, hw_do (Write64 io crcr v) x))"

definition RequestHCOwnership :: "'hw Mmio \<Rightarrow> u64 \<Rightarrow> u32 \<Rightarrow> 'hw Xhc \<Rightarrow> 'hw Xhc option" where
  "RequestHCOwnership io mmio_base hccp x = do {
     (ext_usblegsup, hw) \<leftarrow> find_extended io 1 (ExtendedRegisterList_begin mmio_base hccp) (w_hw (x_world x));
     let x = x\<lparr>x_world := (x_world x)\<lparr>w_hw := hw\<rparr>\<rparr> in
     case ext_usblegsup of
       None \<Rightarrow> Some x
     | Some reg \<Rightarrow>
         let (r, x) = read_reg io reg x in
         if rd USBLEGSUP_Bitmap ''hc_os_owned_semaphore'' r \<noteq> 0 then Some x
         else wait_while io reg (\<lambda>r. rd USBLEGSUP_Bitmap ''hc_bios_owned_semaphore'' r \<noteq> 0 \<or>
                rd USBLEGSUP_Bitmap ''hc_os_owned_semaphore'' r = 0)
              (write_reg io reg (wr USBLEGSUP_Bitmap ''hc_os_owned_semaphore'' 1 r) x)
   }"

text \<open>The scratchpad buffers and the array of their addresses, in device context slot 0.\<close>

definition AllocScratchpad :: "nat \<Rightarrow> 'hw Xhc \<Rightarrow> 'hw Xhc option" where
  "AllocScratchpad n x =
     (if n = 0 then Some x
      else
        let (arr, pool) = AllocArray 8 (of_nat n) 64 4096 (w_pool (x_world x));
            x = x\<lparr>x_world := (x_world x)\<lparr>w_pool := pool\<rparr>\<rparr>
        in do {
          a \<leftarrow> arr;
          let x = fold (\<lambda>i x.
                let (p, pool) = AllocMem 4096 4096 4096 (w_pool (x_world x)); v = (case p of None \<Rightarrow> 0 | Some v \<Rightarrow> v);
                    q = a + 8 * of_nat i
                in x\<lparr>x_world := (x_world x)\<lparr>w_pool := pool,
                     w_mem := apply_stores [(q, ucast v), (q + 4, ucast (drop_bit 32 v))] (w_mem (x_world x))\<rparr>\<rparr>) [0..<n] x
          in Some (x\<lparr>x_devmgr := (x_devmgr x)\<lparr>dm_device_context_pointers :=
               (dm_device_context_pointers (x_devmgr x))[0 := a]\<rparr>\<rparr>)
        })"

text \<open>\<open>Initialize\<close> up to the rings: ownership, halt, reset, slots, scratchpad, device contexts.\<close>

definition HaltController :: "'hw Mmio \<Rightarrow> 'hw Xhc \<Rightarrow> 'hw Xhc option" where
  "HaltController io x =
     (let usbcmd_at = op_reg ''USBCMD'' x; usbsts_at = op_reg ''USBSTS'' x;
          (usbcmd, x) = read_reg io usbcmd_at x;
          usbcmd = wr USBCMD_Bitmap ''interrupter_enable'' 0 usbcmd;
          usbcmd = wr USBCMD_Bitmap ''host_system_error_enable'' 0 usbcmd;
          usbcmd = wr USBCMD_Bitmap ''enable_wrap_event'' 0 usbcmd;
          (usbsts, x) = read_reg io usbsts_at x;
          usbcmd = (if rd USBSTS_Bitmap ''host_controller_halted'' usbsts = 0 then wr USBCMD_Bitmap ''run_stop'' 0 usbcmd
                    else usbcmd)
      in wait_while io usbsts_at (\<lambda>v. rd USBSTS_Bitmap ''host_controller_halted'' v = 0) (write_reg io usbcmd_at usbcmd x))"

definition ResetController :: "'hw Mmio \<Rightarrow> 'hw Xhc \<Rightarrow> 'hw Xhc option" where
  "ResetController io x =
     (let usbcmd_at = op_reg ''USBCMD'' x;
          (usbcmd, x) = read_reg io usbcmd_at x;
          x = write_reg io usbcmd_at (wr USBCMD_Bitmap ''host_controller_reset'' 1 usbcmd) x
      in do {
        x \<leftarrow> wait_while io usbcmd_at (\<lambda>v. rd USBCMD_Bitmap ''host_controller_reset'' v \<noteq> 0) x;
        wait_while io (op_reg ''USBSTS'' x) (\<lambda>v. rd USBSTS_Bitmap ''controller_not_ready'' v \<noteq> 0) x
      })"

text \<open>The number of scratchpad buffers, as the code computes it.\<close>

definition max_scratchpad_buffers :: "u32 \<Rightarrow> u16" where
  "max_scratchpad_buffers hcsparams2 =
     ucast (rd HCSPARAMS2_Bitmap ''max_scratchpad_buffers_low'' hcsparams2 OR
       push_bit 5 (rd HCSPARAMS2_Bitmap ''max_scratchpad_buffers_high'' hcsparams2))"

definition InitializeRings :: "'hw Mmio \<Rightarrow> 'hw Xhc fallible" where
  "InitializeRings io x =
     (let (regs, x) = InterrupterRegisterSets io x; primary_interrupter = ArrayWrapper_at 32 regs 0;
          (c, cr, pool, m) = Ring_Initialize 32 (x_cr x, w_pool (x_world x), w_mem (x_world x));
          x = x\<lparr>x_cr := cr, x_world := (x_world x)\<lparr>w_pool := pool, w_mem := m\<rparr>\<rparr>
      in if c \<noteq> kSuccess then Some (c, x)
      else
        let (c, x) = RegisterCommandRing io (x_cr x) (op_reg ''CRCR'' x) x;
            (c, er, pool, m, hw) = EventRing_Initialize io 32 primary_interrupter
              (x_er x, w_pool (x_world x), w_mem (x_world x), w_hw (x_world x));
            x = x\<lparr>x_er := er, x_world := (x_world x)\<lparr>w_pool := pool, w_mem := m, w_hw := hw\<rparr>\<rparr>
        in if c \<noteq> kSuccess then Some (c, x)
        else
          let iman_at = primary_interrupter + of_nat (offset_of InterrupterRegisterSet ''IMAN'');
              (iman, x) = read_reg io iman_at x;
              x = write_reg io iman_at (wr IMAN_Bitmap ''interrupt_enable'' 1 (wr IMAN_Bitmap ''interrupt_pending'' 1 iman)) x;
              (usbcmd, x) = read_reg io (op_reg ''USBCMD'' x) x;
              x = write_reg io (op_reg ''USBCMD'' x) (wr USBCMD_Bitmap ''interrupter_enable'' 1 usbcmd) x
          in Some (kSuccess, x))"

definition Controller_Initialize :: "'hw Mmio \<Rightarrow> 'hw Xhc fallible" where
  "Controller_Initialize io x =
     (let (c, dm, pool) = DeviceManager_Initialize kDeviceSize (x_devmgr x, w_pool (x_world x));
          x = x\<lparr>x_devmgr := dm, x_world := (x_world x)\<lparr>w_pool := pool\<rparr>\<rparr>
      in if c \<noteq> kSuccess then Some (c, x)
      else
        let (hccparams1, x) = read_reg io (cap_reg ''HCCPARAMS1'' x) x in do {
          x \<leftarrow> RequestHCOwnership io (x_mmio_base x) hccparams1 x;
          x \<leftarrow> HaltController io x;
          x \<leftarrow> ResetController io x;
          let (hcsparams1, x) = read_reg io (cap_reg ''HCSPARAMS1'' x) x;
              (config, x) = read_reg io (op_reg ''CONFIG'' x) x;
              x = write_reg io (op_reg ''CONFIG'' x) (wr CONFIG_Bitmap ''max_device_slots_enabled'' (ucast kDeviceSize) config) x;
              (hcsparams2, x) = read_reg io (cap_reg ''HCSPARAMS2'' x) x
          in do {
            x \<leftarrow> AllocScratchpad (unat (max_scratchpad_buffers hcsparams2)) x;
            let x = hw_do (Write64 io (op_reg ''DCBAAP'' x)
                  (DCBAAP_SetPointer (case DeviceContexts (x_devmgr x) of None \<Rightarrow> 0 | Some p \<Rightarrow> p) 0)) x
            in InitializeRings io x
          }
        })"

definition Controller_Run :: "'hw Mmio \<Rightarrow> 'hw Xhc fallible" where
  "Controller_Run io x =
     (let usbcmd_at = op_reg ''USBCMD'' x;
          (usbcmd, x) = read_reg io usbcmd_at x;
          x = write_reg io usbcmd_at (wr USBCMD_Bitmap ''run_stop'' 1 usbcmd) x;
          (ignored, x) = read_reg io usbcmd_at x
      in do {
        x \<leftarrow> wait_while io (op_reg ''USBSTS'' x) (\<lambda>v. rd USBSTS_Bitmap ''host_controller_halted'' v \<noteq> 0) x;
        Some (kSuccess, x)
      })"

section \<open>Configuration of a port\<close>

definition InitializeSlotContext :: "'hw Mmio \<Rightarrow> Port \<Rightarrow> context_word \<Rightarrow> 'hw \<Rightarrow> context_word \<times> 'hw" where
  "InitializeSlotContext io port ctx hw =
     (let ctx = wr SlotContext ''route_string'' 0 ctx;
          ctx = wr SlotContext ''root_hub_port_num'' (ucast (Port_Number port)) ctx;
          ctx = wr SlotContext ''context_entries'' 1 ctx;
          (speed, hw) = Port_Speed io port hw
      in (wr SlotContext ''speed'' (of_int speed) ctx, hw))"

definition DetermineMaxPacketSizeForControlPipe :: "nat \<Rightarrow> nat" where
  "DetermineMaxPacketSizeForControlPipe slot_speed = (if slot_speed = 4 then 512 else if slot_speed = 3 then 64 else 8)"

text \<open>The instruction \<open>bsr\<close>: the position of the highest bit.\<close>

definition MostSignificantBit :: "u32 \<Rightarrow> int" where
  "MostSignificantBit v = (if v = 0 then -1 else int (Max (set (filter (bit v) [0..<32]))))"

definition InitializeEP0Context :: "Ring \<Rightarrow> nat \<Rightarrow> context_word \<Rightarrow> context_word" where
  "InitializeEP0Context transfer_ring max_packet_size ctx =
     wr EndpointContext ''error_count'' 3
       (wr EndpointContext ''mult'' 0
         (wr EndpointContext ''max_primary_streams'' 0
           (wr EndpointContext ''interval'' 0
             (wr EndpointContext ''dequeue_cycle_state'' 1
               (SetTransferRingBuffer (case Ring_Buffer transfer_ring of None \<Rightarrow> 0 | Some p \<Rightarrow> p)
                 (wr EndpointContext ''max_burst_size'' 0
                   (wr EndpointContext ''max_packet_size'' (of_nat max_packet_size)
                     (wr EndpointContext ''ep_type'' 4 ctx))))))))"

text \<open>\<open>CommandRing()->Push(cmd)\<close> and \<open>DoorbellRegisterAt(0)->Ring(0)\<close>.\<close>

definition issue_command :: "'hw Mmio \<Rightarrow> TRB \<Rightarrow> 'hw Xhc \<Rightarrow> 'hw Xhc option" where
  "issue_command io cmd x = do {
     (p, ss, cr) \<leftarrow> Push cmd (x_cr x);
     let x = x\<lparr>x_cr := cr, x_world := (x_world x)\<lparr>w_mem := apply_stores ss (w_mem (x_world x))\<rparr>\<rparr>;
         (db, x) = DoorbellRegisterAt io 0 x
     in Some (hw_do (DoorbellRegister_Ring io db 0 0) x)
   }"

definition ResetPort :: "'hw Mmio \<Rightarrow> Port \<Rightarrow> 'hw Xhc fallible" where
  "ResetPort io port x =
     (let (is_connected, x) = on_hw (IsConnected io port) x in
      if \<not> is_connected then Some (kSuccess, x)
      else if x_addressing_port x \<noteq> 0 then Some (kSuccess, set_phase (Port_Number port) kWaitingAddressed x)
      else
        let port_phase = phase_of x (Port_Number port) in
        if port_phase \<noteq> kNotConnected \<and> port_phase \<noteq> kWaitingAddressed then Some (kInvalidPhase, x)
        else
          let x = set_phase (Port_Number port) kResettingPort (x\<lparr>x_addressing_port := Port_Number port\<rparr>) in do {
            x \<leftarrow> hw_try (\<lambda>hw. map_option snd (Port_Reset io port hw)) x;
            Some (kSuccess, x)
          })"

definition EnableSlot :: "'hw Mmio \<Rightarrow> Port \<Rightarrow> 'hw Xhc fallible" where
  "EnableSlot io port x =
     (let (is_enabled, x) = on_hw (IsEnabled io port) x;
          (reset_completed, x) = on_hw (IsPortResetChanged io port) x
      in if is_enabled \<and> reset_completed then
           let x = hw_do (ClearPortResetChange io port) x; x = set_phase (Port_Number port) kEnablingSlot x in do {
             x \<leftarrow> issue_command io EnableSlotCommandTRB_new x;
             Some (kSuccess, x)
           }
         else Some (kSuccess, x))"

text \<open>The input context of the device of a slot.\<close>

definition update_input_ctx :: "nat \<Rightarrow> (InputContext \<Rightarrow> InputContext) \<Rightarrow> 'hw Xhc \<Rightarrow> 'hw Xhc" where
  "update_input_ctx i f x =
     (case device_at i x of None \<Rightarrow> x | Some (a, dev) \<Rightarrow> set_device i (a, dev\<lparr>dev_input_ctx := f (dev_input_ctx dev)\<rparr>) x)"

definition AddressDevice :: "'hw Mmio \<Rightarrow> u8 \<Rightarrow> u8 \<Rightarrow> 'hw Xhc fallible" where
  "AddressDevice io port_id slot_id x =
     (let (dbreg, x) = DoorbellRegisterAt io slot_id x in do {
        (ignored, dm, pool) \<leftarrow> AllocDevice (x_sizes x) slot_id dbreg (x_devmgr x, w_pool (x_world x));
        let x = x\<lparr>x_devmgr := dm, x_world := (x_world x)\<lparr>w_pool := pool\<rparr>\<rparr> in
        case FindBySlot slot_id (x_devmgr x) of
          None \<Rightarrow> Some (kInvalidSlotID, x)
        | Some i \<Rightarrow> do {
            (a, dev) \<leftarrow> device_at i x;
            let ep0_dci = DeviceContextIndex_of_num 0 False;
                ic = EnableSlotContext ((dev_input_ctx dev)\<lparr>ic_input_control_context := InputControlContext_zero\<rparr>)
            in do {
              (k, ic) \<leftarrow> EnableEndpoint ep0_dci ic;
              let (slot_ctx, x) = on_hw (InitializeSlotContext io (PortAt port_id x) (ic_slot_context ic)) x;
                  x = set_device i (a, dev\<lparr>dev_input_ctx := ic\<lparr>ic_slot_context := slot_ctx\<rparr>\<rparr>) x
              in do {
                (tr, x) \<leftarrow> on_device i (AllocTransferRing (sizeof_Ring (x_sizes x)) ep0_dci 32) x;
                ring \<leftarrow> tr;
                let mps = DetermineMaxPacketSizeForControlPipe (unat (rd SlotContext ''speed'' slot_ctx));
                    x = update_input_ctx i (\<lambda>ic. ic\<lparr>ic_ep_contexts := (ic_ep_contexts ic)
                          [k := InitializeEP0Context ring mps (ic_ep_contexts ic ! k)]\<rparr>) x
                in do {
                  (ignored, dm) \<leftarrow> LoadDCBAA (x_sizes x) slot_id (x_devmgr x);
                  let x = set_phase port_id kAddressingDevice (x\<lparr>x_devmgr := dm\<rparr>) in do {
                    x \<leftarrow> issue_command io (AddressDeviceCommandTRB_new (a + offset_input_ctx (x_sizes x)) slot_id) x;
                    Some (kSuccess, x)
                  }
                }
              }
            }
          }
      })"

definition InitializeDevice :: "'hw Mmio \<Rightarrow> u8 \<Rightarrow> u8 \<Rightarrow> 'hw Xhc fallible" where
  "InitializeDevice io port_id slot_id x =
     (case FindBySlot slot_id (x_devmgr x) of
        None \<Rightarrow> Some (kInvalidSlotID, x)
      | Some i \<Rightarrow> do {
          (ignored, x) \<leftarrow> on_device i (StartInitialize io) (set_phase port_id kInitializingDevice x);
          Some (kSuccess, x)
        })"

definition CompleteConfiguration :: "'hw Mmio \<Rightarrow> u8 \<Rightarrow> u8 \<Rightarrow> 'hw Xhc fallible" where
  "CompleteConfiguration io port_id slot_id x =
     (case FindBySlot slot_id (x_devmgr x) of
        None \<Rightarrow> Some (kInvalidSlotID, x)
      | Some i \<Rightarrow> do {
          (ignored, x) \<leftarrow> on_device i (OnEndpointsConfigured io) x;
          Some (kSuccess, set_phase port_id kConfigured x)
        })"

definition ConfigurePort :: "'hw Mmio \<Rightarrow> Port \<Rightarrow> 'hw Xhc fallible" where
  "ConfigurePort io port x =
     (if phase_of x (Port_Number port) = kNotConnected then ResetPort io port x else Some (kSuccess, x))"

text \<open>The endpoint context of an endpoint, and the interval the controller wants.\<close>

definition convert_interval :: "int \<Rightarrow> EndpointType \<Rightarrow> int \<Rightarrow> int" where
  "convert_interval port_speed ty interval =
     (if port_speed = kFullSpeed \<or> port_speed = kLowSpeed
      then if ty = kIsochronous then interval + 2 else MostSignificantBit (of_int interval) + 3
      else interval - 1)"

definition ep_type_code :: "EndpointConfig \<Rightarrow> nat" where
  "ep_type_code config =
     (let is_in = EndpointID_IsIn (ec_ep_id config) in
      case ec_ep_type config of
        kControl \<Rightarrow> 4
      | kIsochronous \<Rightarrow> if is_in then 5 else 1
      | kBulk \<Rightarrow> if is_in then 6 else 2
      | kInterrupt \<Rightarrow> if is_in then 7 else 3)"

definition configure_ep_ctx :: "int \<Rightarrow> EndpointConfig \<Rightarrow> Ring \<Rightarrow> context_word \<Rightarrow> context_word" where
  "configure_ep_ctx port_speed config tr ctx =
     wr EndpointContext ''error_count'' 3
       (wr EndpointContext ''mult'' 0
         (wr EndpointContext ''max_primary_streams'' 0
           (wr EndpointContext ''dequeue_cycle_state'' 1
             (SetTransferRingBuffer (case Ring_Buffer tr of None \<Rightarrow> 0 | Some p \<Rightarrow> p)
               (wr EndpointContext ''average_trb_length'' 1
                 (wr EndpointContext ''interval'' (of_int (convert_interval port_speed (ec_ep_type config) (ec_interval config)))
                   (wr EndpointContext ''max_packet_size'' (of_int (ec_max_packet_size config))
                     (wr EndpointContext ''ep_type'' (of_nat (ep_type_code config)) ctx))))))))"

text \<open>One round of the loop over the endpoints: the device and the world.\<close>

definition configure_endpoint :: "u64 \<Rightarrow> int \<Rightarrow> nat \<Rightarrow> 'hw dstate \<Rightarrow> 'hw dstate option" where
  "configure_endpoint sizeof_ring port_speed i = (\<lambda>(dev, w). do {
     config \<leftarrow> (if i < length (dev_ep_configs dev) then Some (dev_ep_configs dev ! i) else None);
     let ep_dci = DeviceContextIndex_of_ep (ec_ep_id config) in do {
       (k, ic) \<leftarrow> EnableEndpoint ep_dci (dev_input_ctx dev);
       (tr, dev, w) \<leftarrow> AllocTransferRing sizeof_ring ep_dci 32 (dev\<lparr>dev_input_ctx := ic\<rparr>, w);
       ring \<leftarrow> tr;
       Some (dev\<lparr>dev_input_ctx := ic\<lparr>ic_ep_contexts :=
           (ic_ep_contexts ic)[k := configure_ep_ctx port_speed config ring (ic_ep_contexts ic ! k)]\<rparr>\<rparr>, w)
     }
   })"

definition ConfigureEndpoints :: "'hw Mmio \<Rightarrow> nat \<Rightarrow> 'hw Xhc fallible" where
  "ConfigureEndpoints io i x = do {
     (a, dev) \<leftarrow> device_at i x;
     let len = nat (dev_num_ep_configs dev);
         ic = EnableSlotContext ((dev_input_ctx dev)\<lparr>ic_input_control_context := InputControlContext_zero,
                ic_slot_context := dc_slot_context (dev_ctx dev)\<rparr>);
         ic = ic\<lparr>ic_slot_context := wr SlotContext ''context_entries'' 31 (ic_slot_context ic)\<rparr>;
         x = set_device i (a, dev\<lparr>dev_input_ctx := ic\<rparr>) x;
         port_id = root_hub_port_num dev;
         (port_speed, x) = on_hw (Port_Speed io (PortAt port_id x)) x
     in if port_speed = 0 \<or> kSuperSpeedPlus < port_speed then Some (kUnknownXHCISpeedID, x)
        else do {
          (ignored, x) \<leftarrow> on_device i (\<lambda>s. map_option (Pair ())
             (foldM (configure_endpoint (sizeof_Ring (x_sizes x)) port_speed) [0..<len] s)) x;
          let x = set_phase port_id kConfiguringEndpoints x in do {
            x \<leftarrow> issue_command io (ConfigureEndpointCommandTRB_new (a + offset_input_ctx (x_sizes x)) (dev_slot_id dev)) x;
            Some (kSuccess, x)
          }
        }
   }"

section \<open>Events\<close>

definition OnPortStatusChange :: "'hw Mmio \<Rightarrow> TRB \<Rightarrow> 'hw Xhc fallible" where
  "OnPortStatusChange io trb x =
     (let port_id = ucast (rd PortStatusChangeEventTRB ''port_id'' trb) :: u8; port = PortAt port_id x in
      case phase_of x port_id of
        kNotConnected \<Rightarrow> ResetPort io port x
      | kResettingPort \<Rightarrow> EnableSlot io port x
      | _ \<Rightarrow> Some (kInvalidPhase, x))"

definition OnTransfer :: "'hw Mmio \<Rightarrow> TRB \<Rightarrow> 'hw Xhc fallible" where
  "OnTransfer io trb x =
     (case FindBySlot (ucast (rd TransferEventTRB ''slot_id'' trb)) (x_devmgr x) of
        None \<Rightarrow> Some (kInvalidSlotID, x)
      | Some i \<Rightarrow>
          or_return (on_device i (OnTransferEventReceived io trb))
            (\<lambda>x. do {
               (a, dev) \<leftarrow> device_at i x;
               if dev_is_initialized dev \<and> phase_of x (root_hub_port_num dev) = kInitializingDevice
               then ConfigureEndpoints io i x else Some (kSuccess, x)
             }) x)"

text \<open>The loop over the ports after an address is assigned: the first that waits is started.\<close>

fun start_next_port :: "'hw Mmio \<Rightarrow> nat list \<Rightarrow> 'hw Xhc fallible" where
  "start_next_port io [] x = Some (kSuccess, x)"
| "start_next_port io (i # is) x =
     (if x_port_config_phase x ! i = kWaitingAddressed then ResetPort io (PortAt (of_nat i) x) x
      else start_next_port io is x)"

definition OnAddressAssigned :: "'hw Mmio \<Rightarrow> u8 \<Rightarrow> 'hw Xhc fallible" where
  "OnAddressAssigned io slot_id x =
     (case FindBySlot slot_id (x_devmgr x) of
        None \<Rightarrow> Some (kInvalidSlotID, x)
      | Some i \<Rightarrow> do {
          (a, dev) \<leftarrow> device_at i x;
          let port_id = root_hub_port_num dev in
          if port_id \<noteq> x_addressing_port x then Some (kInvalidPhase, x)
          else if phase_of x port_id \<noteq> kAddressingDevice then Some (kInvalidPhase, x)
          else or_return (start_next_port io [0..<length (x_port_config_phase x)]) (InitializeDevice io port_id slot_id)
                 (x\<lparr>x_addressing_port := 0\<rparr>)
        })"

definition OnCommandCompletion :: "'hw Mmio \<Rightarrow> TRB \<Rightarrow> 'hw Xhc fallible" where
  "OnCommandCompletion io trb x =
     (let issuer_type = unat (rd TRB ''trb_type'' (trb_at (w_mem (x_world x)) (CommandCompletionEventTRB_Pointer trb)));
          slot_id = ucast (rd CommandCompletionEventTRB ''slot_id'' trb) :: u8
      in if issuer_type = EnableSlotCommandTRB_Type then
           if phase_of x (x_addressing_port x) \<noteq> kEnablingSlot then Some (kInvalidPhase, x)
           else AddressDevice io (x_addressing_port x) slot_id x
         else if issuer_type = AddressDeviceCommandTRB_Type then OnAddressAssigned io slot_id x
         else if issuer_type = ConfigureEndpointCommandTRB_Type then
           (case FindBySlot slot_id (x_devmgr x) of
              None \<Rightarrow> Some (kInvalidSlotID, x)
            | Some i \<Rightarrow> do {
                (a, dev) \<leftarrow> device_at i x;
                if phase_of x (root_hub_port_num dev) \<noteq> kConfiguringEndpoints then Some (kInvalidPhase, x)
                else CompleteConfiguration io (root_hub_port_num dev) slot_id x
              })
         else Some (kInvalidPhase, x))"

definition dispatch_event :: "'hw Mmio \<Rightarrow> TRB \<Rightarrow> 'hw Xhc fallible" where
  "dispatch_event io trb x =
     (if TRBDynamicCast TransferEventTRB_Type trb \<noteq> None then OnTransfer io trb x
      else if TRBDynamicCast PortStatusChangeEventTRB_Type trb \<noteq> None then OnPortStatusChange io trb x
      else if TRBDynamicCast CommandCompletionEventTRB_Type trb \<noteq> None then OnCommandCompletion io trb x
      else Some (kNotImplemented, x))"

definition ProcessEvent :: "'hw Mmio \<Rightarrow> 'hw Xhc fallible" where
  "ProcessEvent io x =
     (let (has, x) = on_hw (HasFront io (x_er x) (w_mem (x_world x))) x in
      if \<not> has then Some (kSuccess, x)
      else
        let (event_trb, x) = on_hw (Front io (x_er x)) x in do {
          (err, x) \<leftarrow> dispatch_event io (trb_at (w_mem (x_world x)) event_trb) x;
          let (er, hw) = EventRing_Pop io (w_mem (x_world x)) (x_er x) (w_hw (x_world x))
          in Some (err, x\<lparr>x_er := er, x_world := (x_world x)\<lparr>w_hw := hw\<rparr>\<rparr>)
        })"

end
