(* ===== verification/XhciProtocol.thy ===== *)
theory XhciProtocol
  imports Xhci
begin

text \<open>
  The configuration of the ports as a protocol: an abstract machine over the phases of the ports
  and the port being addressed, the refinement of that machine by the event handlers, and what
  holds in every state the controller driver can reach.
\<close>

section \<open>The abstract machine\<close>

text \<open>The phases of the ports and the port that is between its reset and its address, 0 for none.\<close>

type_synonym ports = "ConfigPhase list \<times> u8"

definition ports :: "'hw Xhc \<Rightarrow> ports" where
  "ports x = (x_port_config_phase x, x_addressing_port x)"

inductive port_step :: "ports \<Rightarrow> ports \<Rightarrow> bool" where
  reset: "p \<noteq> 0 \<Longrightarrow> ph ! unat p = kNotConnected \<Longrightarrow> port_step (ph, 0) (ph[unat p := kResettingPort], p)"
| queue: "(p :: u8) \<noteq> 0 \<Longrightarrow> ph ! unat p = kNotConnected \<Longrightarrow> a \<noteq> 0 \<Longrightarrow> port_step (ph, a) (ph[unat p := kWaitingAddressed], a)"
| reset_done: "ph ! unat (p :: u8) = kResettingPort \<Longrightarrow> port_step (ph, a) (ph[unat p := kEnablingSlot], a)"
| slot_enabled: "ph ! unat a = kEnablingSlot \<Longrightarrow> port_step (ph, a) (ph[unat a := kAddressingDevice], a)"
| assigned: "ph ! unat a = kAddressingDevice \<Longrightarrow> port_step (ph, a) (ph[unat a := kInitializingDevice], 0)"
| assigned_next: "ph ! unat a = kAddressingDevice \<Longrightarrow> ph ! unat q = kWaitingAddressed \<Longrightarrow>
    port_step (ph, a) (ph[unat q := kResettingPort, unat a := kInitializingDevice], q)"
| initialized: "ph ! unat (p :: u8) = kInitializingDevice \<Longrightarrow> port_step (ph, a) (ph[unat p := kConfiguringEndpoints], a)"
| configured: "ph ! unat (p :: u8) = kConfiguringEndpoints \<Longrightarrow> port_step (ph, a) (ph[unat p := kConfigured], a)"

inductive_cases port_stepE: "port_step (ph, a) s"

text \<open>A port on its way from reset to address.\<close>

definition in_progress :: "ConfigPhase \<Rightarrow> bool" where
  "in_progress c \<longleftrightarrow> c \<in> {kResettingPort, kEnablingSlot, kAddressingDevice}"

definition exclusive :: "ports \<Rightarrow> bool" where
  "exclusive = (\<lambda>(ph, a). length ph = 256 \<and> ph ! 0 = kNotConnected \<and>
     (\<forall>p. in_progress (ph ! unat p) \<longleftrightarrow> p = a \<and> a \<noteq> 0))"

lemma in_progress_simps [simp]:
  "\<not> in_progress kNotConnected" "\<not> in_progress kWaitingAddressed" "in_progress kResettingPort"
  "in_progress kEnablingSlot" "in_progress kAddressingDevice" "\<not> in_progress kInitializingDevice"
  "\<not> in_progress kConfiguringEndpoints" "\<not> in_progress kConfigured"
  by (simp_all add: in_progress_def)

lemma unat_u8_less [simp]: "unat (p :: u8) < 256"
proof -
  have "unat p < 2 ^ LENGTH(8)" by (rule unsigned_less)
  then show ?thesis by simp
qed

lemma phases_update:
  "length ph = 256 \<Longrightarrow> ph[unat p := c] ! unat (q :: u8) = (if q = p then c else ph ! unat q)"
  by (simp add: nth_list_update word_unat_eq_iff)

lemma phases_update_0:
  "length ph = 256 \<Longrightarrow> ph[unat (p :: u8) := c] ! 0 = (if p = 0 then c else ph ! 0)"
  using phases_update [of ph p c 0] by simp

lemma exclusive_in_progress: "exclusive (ph, a) \<Longrightarrow> in_progress (ph ! unat p) \<longleftrightarrow> p = a \<and> a \<noteq> 0"
  by (simp add: exclusive_def)

lemma exclusive_other:
  fixes p :: u8
  assumes "exclusive (ph, a)" and "\<not> in_progress (ph ! unat p)" and "\<not> in_progress c" and "p \<noteq> 0"
  shows "exclusive (ph[unat p := c], a)"
proof -
  have "p \<noteq> a" using assms exclusive_in_progress [of ph a p] by auto
  then show ?thesis using assms by (simp add: exclusive_def phases_update phases_update_0)
qed

lemma exclusive_move:
  "exclusive (ph, a) \<Longrightarrow> a \<noteq> 0 \<Longrightarrow> in_progress c \<Longrightarrow> exclusive (ph[unat a := c], a)"
  by (simp add: exclusive_def phases_update phases_update_0)

lemma exclusive_begin:
  "exclusive (ph, 0) \<Longrightarrow> p \<noteq> 0 \<Longrightarrow> in_progress c \<Longrightarrow> exclusive (ph[unat p := c], p)"
  by (simp add: exclusive_def phases_update phases_update_0)

lemma exclusive_end:
  "exclusive (ph, a) \<Longrightarrow> a \<noteq> 0 \<Longrightarrow> \<not> in_progress c \<Longrightarrow> exclusive (ph[unat a := c], 0)"
  by (simp add: exclusive_def phases_update phases_update_0)

lemma exclusive_0: "exclusive (ph, a) \<Longrightarrow> ph ! unat (0 :: u8) = kNotConnected"
  by (simp add: exclusive_def)

lemma port_step_exclusive:
  assumes "port_step s t" and "exclusive s"
  shows "exclusive t"
proof -
  obtain ph a where s: "s = (ph, a)" by fastforce
  have inv: "exclusive (ph, a)" using assms(2) s by simp
  note is_a = exclusive_in_progress [OF inv] and z = exclusive_0 [OF inv]
  from assms(1) show ?thesis
    unfolding s
  proof (cases rule: port_stepE
      [consumes 1, case_names reset queue reset_done slot_enabled assigned assigned_next initialized configured])
    case (reset p)
    then show ?thesis using inv by (simp add: exclusive_begin)
  next
    case (queue p)
    then show ?thesis using inv by (simp add: exclusive_other)
  next
    case (reset_done p)
    then show ?thesis using inv is_a [of p] by (simp add: exclusive_move)
  next
    case slot_enabled
    then show ?thesis using inv is_a [of a] by (simp add: exclusive_move)
  next
    case assigned
    then show ?thesis using inv is_a [of a] by (simp add: exclusive_end)
  next
    case (assigned_next q)
    have "exclusive (ph[unat a := kInitializingDevice], 0)"
      using assigned_next(2) inv is_a [of a] by (simp add: exclusive_end)
    moreover have "q \<noteq> 0" "q \<noteq> a" using assigned_next(2,3) z by auto
    ultimately show ?thesis
      using exclusive_begin [of "ph[unat a := kInitializingDevice]" q kResettingPort] assigned_next(1)
      by (simp add: list_update_swap word_unat_eq_iff)
  next
    case (initialized p)
    then show ?thesis using inv z by (cases "p = 0") (simp_all add: exclusive_other)
  next
    case (configured p)
    then show ?thesis using inv z by (cases "p = 0") (simp_all add: exclusive_other)
  qed
qed

section \<open>What the operations leave alone\<close>

text \<open>Everything but the command ring and the world outside.\<close>

definition only_world :: "'hw Xhc \<Rightarrow> 'hw Xhc \<Rightarrow> bool" where
  "only_world x x' \<longleftrightarrow> (\<exists>cr w. x' = x\<lparr>x_cr := cr, x_world := w\<rparr>)"

lemma only_worldD:
  assumes "only_world x x'"
  shows "ports x' = ports x" and "x_devmgr x' = x_devmgr x" and "x_port_config_phase x' = x_port_config_phase x"
    and "x_addressing_port x' = x_addressing_port x" and "device_at i x' = device_at i x" and "phase_of x' p = phase_of x p"
    and "PortAt p x' = PortAt p x"
  using assms by (auto simp: only_world_def ports_def device_at_def phase_of_def PortAt_def PortRegisterSets_def)

lemma only_world_driver:
  "only_world x x' \<Longrightarrow> x_port_config_phase x' = x_port_config_phase x \<and> x_addressing_port x' = x_addressing_port x \<and>
     x_devmgr x' = x_devmgr x"
  by (auto simp: only_world_def)

lemma only_world_refl [simp]: "only_world x x"
  unfolding only_world_def by (rule exI [of _ "x_cr x"], rule exI [of _ "x_world x"]) simp

lemma only_world_trans [trans]:
  assumes "only_world x y" and "only_world y z"
  shows "only_world x z"
proof -
  obtain cr w cr' w' where "y = x\<lparr>x_cr := cr, x_world := w\<rparr>" "z = y\<lparr>x_cr := cr', x_world := w'\<rparr>"
    using assms unfolding only_world_def by blast
  then have "z = x\<lparr>x_cr := cr', x_world := w'\<rparr>" by simp
  then show ?thesis unfolding only_world_def by blast
qed

lemma only_world_world [simp]: "only_world x (x\<lparr>x_world := w\<rparr>)"
  unfolding only_world_def by (rule exI [of _ "x_cr x"], rule exI [of _ w]) simp

lemma only_world_on_hw: "on_hw f x = (v, x') \<Longrightarrow> only_world x x'"
  by (auto simp: on_hw_def split: prod.splits)

lemma only_world_hw_do [simp]: "only_world x (hw_do f x)"
  by (simp add: hw_do_def)

lemma only_world_hw_try: "hw_try f x = Some x' \<Longrightarrow> only_world x x'"
  by (auto simp: hw_try_def)

lemma only_world_DoorbellRegisterAt: "DoorbellRegisterAt io i x = (r, x') \<Longrightarrow> only_world x x'"
  by (auto simp: DoorbellRegisterAt_def DoorbellRegisters_def read_reg_def split: prod.splits dest: only_world_on_hw)

lemma only_world_issue_command: "issue_command io cmd x = Some x' \<Longrightarrow> only_world x x'"
proof -
  assume "issue_command io cmd x = Some x'"
  then obtain ss cr r y where "only_world (x\<lparr>x_cr := cr, x_world := (x_world x)\<lparr>w_mem := apply_stores ss (w_mem (x_world x))\<rparr>\<rparr>) y"
    "x' = hw_do (DoorbellRegister_Ring io r 0 0) y"
    by (auto simp: issue_command_def Let_def split: bind_splits prod.splits dest: only_world_DoorbellRegisterAt)
  moreover have "only_world x (x\<lparr>x_cr := cr, x_world := (x_world x)\<lparr>w_mem := apply_stores ss (w_mem (x_world x))\<rparr>\<rparr>)"
    unfolding only_world_def by blast
  ultimately show ?thesis by (metis only_world_hw_do only_world_trans)
qed

section \<open>The handlers implement the machine\<close>

lemma ports_set_phase [simp]:
  "ports (set_phase p c x) = ((x_port_config_phase x)[unat p := c], x_addressing_port x)"
  "x_devmgr (set_phase p c x) = x_devmgr x"
  by (simp_all add: ports_def set_phase_def)

lemma ports_set_device [simp]: "ports (set_device i d x) = ports x" "ports (x\<lparr>x_devmgr := dm\<rparr>) = ports x"
  "ports (x\<lparr>x_world := w\<rparr>) = ports x" "ports (x\<lparr>x_er := er\<rparr>) = ports x"
  by (simp_all add: ports_def set_device_def)

lemma ports_on_device: "on_device i f x = Some (v, x') \<Longrightarrow> ports x' = ports x"
  by (auto simp: on_device_def split: bind_splits)

lemma ports_update_input_ctx [simp]:
  "ports (update_input_ctx i f x) = ports x" "x_port_config_phase (update_input_ctx i f x) = x_port_config_phase x"
  "x_addressing_port (update_input_ctx i f x) = x_addressing_port x"
  by (simp_all add: update_input_ctx_def set_device_def ports_def split: option.split)

lemma only_world_ports: "only_world x x' \<Longrightarrow> ports x' = ports x"
  by (rule only_worldD)

lemmas only_world_intros = only_world_on_hw only_world_hw_try only_world_DoorbellRegisterAt only_world_issue_command

lemma ResetPort_ports:
  assumes "ResetPort io port x = Some (c, x')"
  defines "n \<equiv> Port_Number port" and "ph \<equiv> x_port_config_phase x" and "a \<equiv> x_addressing_port x"
  shows "x_devmgr x' = x_devmgr x \<and>
    (ports x' = (ph, a) \<or> a \<noteq> 0 \<and> ports x' = (ph[unat n := kWaitingAddressed], a) \<or>
     a = 0 \<and> ph ! unat n \<in> {kNotConnected, kWaitingAddressed} \<and> ports x' = (ph[unat n := kResettingPort], n))"
proof -
  obtain conn y where y: "on_hw (IsConnected io port) x = (conn, y)" by fastforce
  show ?thesis
    using assms(1) only_world_driver [OF only_world_on_hw [OF y]] unfolding ResetPort_def y
    by (auto simp: n_def ph_def a_def phase_of_def ports_def set_phase_def Let_def split: if_splits bind_splits
      dest!: only_world_hw_try [THEN only_world_driver])
qed

lemma EnableSlot_ports:
  assumes "EnableSlot io port x = Some (c, x')"
  shows "x_devmgr x' = x_devmgr x \<and>
    (ports x' = ports x \<or> ports x' = ((x_port_config_phase x)[unat (Port_Number port) := kEnablingSlot], x_addressing_port x))"
proof -
  obtain e y r z where y: "on_hw (IsEnabled io port) x = (e, y)" "on_hw (IsPortResetChanged io port) y = (r, z)" by fastforce
  show ?thesis
    using assms only_world_driver [OF only_world_trans [OF only_world_on_hw [OF y(1)] only_world_on_hw [OF y(2)]]]
    unfolding EnableSlot_def y Let_def
    by (auto simp: y ports_def set_phase_def hw_do_def split: if_splits bind_splits
      dest!: only_world_issue_command [THEN only_world_driver])
qed

lemma ConfigureEndpoints_ports:
  assumes "ConfigureEndpoints io i x = Some (c, x')" and "device_at i x = Some (a, dev)"
  shows "ports x' = ports x \<or>
    ports x' = ((x_port_config_phase x)[unat (root_hub_port_num dev) := kConfiguringEndpoints], x_addressing_port x)"
  using assms
  by (auto simp: ConfigureEndpoints_def Let_def split: bind_splits prod.splits if_splits
    dest!: only_world_intros [THEN only_world_ports] ports_on_device) (auto simp: ports_def)

lemma AddressDevice_ports:
  assumes "AddressDevice io port_id slot_id x = Some (c, x')"
  shows "ports x' = ports x \<or> ports x' = ((x_port_config_phase x)[unat port_id := kAddressingDevice], x_addressing_port x)"
  using assms
  by (auto simp: AddressDevice_def Let_def split: bind_splits prod.splits if_splits option.splits
    dest!: only_world_intros [THEN only_world_ports] ports_on_device) (auto simp: ports_def)

lemma InitializeDevice_ports:
  assumes "InitializeDevice io port_id slot_id x = Some (c, x')" and "FindBySlot slot_id (x_devmgr x) \<noteq> None"
  shows "ports x' = ((x_port_config_phase x)[unat port_id := kInitializingDevice], x_addressing_port x)"
  using assms by (auto simp: InitializeDevice_def split: bind_splits option.splits dest!: ports_on_device)

lemma CompleteConfiguration_ports:
  assumes "CompleteConfiguration io port_id slot_id x = Some (c, x')"
  shows "ports x' = ports x \<or> ports x' = ((x_port_config_phase x)[unat port_id := kConfigured], x_addressing_port x)"
  using assms by (auto simp: CompleteConfiguration_def split: bind_splits option.splits dest!: ports_on_device)
    (auto simp: ports_def)

lemma start_next_port_ports:
  assumes "start_next_port io is x = Some (c, x')"
  shows "x_devmgr x' = x_devmgr x \<and>
    (ports x' = ports x \<or>
     (\<exists>i\<in>set is. x_port_config_phase x ! i = kWaitingAddressed \<and>
       (x_addressing_port x \<noteq> 0 \<and> ports x' = ((x_port_config_phase x)[unat (of_nat i :: u8) := kWaitingAddressed], x_addressing_port x) \<or>
        x_addressing_port x = 0 \<and> ports x' = ((x_port_config_phase x)[unat (of_nat i :: u8) := kResettingPort], of_nat i))))"
  using assms
proof (induction "is")
  case Nil
  then show ?case by simp
next
  case (Cons i "is")
  show ?case
  proof (cases "x_port_config_phase x ! i = kWaitingAddressed")
    case True
    with Cons.prems have "ResetPort io (PortAt (of_nat i) x) x = Some (c, x')" by simp
    from ResetPort_ports [OF this] True show ?thesis by (auto simp: Port_Number_def PortAt_def ports_def)
  next
    case False
    with Cons show ?thesis by auto
  qed
qed

lemma start_next_port_success:
  assumes "start_next_port io is x = Some (c, x')" and "x_addressing_port x = 0" and "set is \<subseteq> {..<256}"
  shows "c = kSuccess"
  using assms
proof (induction "is")
  case (Cons i "is")
  show ?case
  proof (cases "x_port_config_phase x ! i = kWaitingAddressed")
    case True
    with Cons.prems have r: "ResetPort io (PortAt (of_nat i) x) x = Some (c, x')" by simp
    obtain conn y where y: "on_hw (IsConnected io (PortAt (of_nat i) x)) x = (conn, y)" by fastforce
    have "unat (of_nat i :: u8) = i" using Cons.prems(3) by (simp add: unsigned_of_nat take_bit_nat_eq_self)
    then show ?thesis
      using r True Cons.prems(2) only_world_driver [OF only_world_on_hw [OF y]] unfolding ResetPort_def y
      by (auto simp: phase_of_def Port_Number_def PortAt_def split: if_splits bind_splits)
  qed (use Cons in auto)
qed simp

lemma OnPortStatusChange_steps:
  assumes "OnPortStatusChange io trb x = Some (c, x')"
    and "ucast (rd PortStatusChangeEventTRB ''port_id'' trb) \<noteq> (0 :: u8)"
  shows "ports x' = ports x \<or> port_step (ports x) (ports x')"
proof -
  let ?p = "ucast (rd PortStatusChangeEventTRB ''port_id'' trb) :: u8"
  have n: "Port_Number (PortAt ?p x) = ?p" by (simp add: Port_Number_def PortAt_def)
  show ?thesis
  proof (cases "phase_of x ?p")
    case kNotConnected
    with assms(1) have "ResetPort io (PortAt ?p x) x = Some (c, x')" by (simp add: OnPortStatusChange_def)
    from ResetPort_ports [OF this] kNotConnected assms(2) show ?thesis
      unfolding n ports_def phase_of_def by (auto intro: port_step.intros)
  next
    case kResettingPort
    with assms(1) have "EnableSlot io (PortAt ?p x) x = Some (c, x')" by (simp add: OnPortStatusChange_def)
    from EnableSlot_ports [OF this] kResettingPort show ?thesis
      unfolding n ports_def phase_of_def by (auto intro: port_step.intros)
  qed (use assms(1) in \<open>simp_all add: OnPortStatusChange_def\<close>)
qed

lemma OnTransfer_steps:
  assumes "OnTransfer io trb x = Some (c, x')"
  shows "ports x' = ports x \<or> port_step (ports x) (ports x')"
proof (cases "FindBySlot (ucast (rd TransferEventTRB ''slot_id'' trb)) (x_devmgr x)")
  case None
  with assms show ?thesis by (simp add: OnTransfer_def)
next
  case (Some i)
  with assms obtain d y where y: "on_device i (OnTransferEventReceived io trb) x = Some (d, y)"
    and rest: "if d = kSuccess then do {
        (a, dev) \<leftarrow> device_at i y;
        if dev_is_initialized dev \<and> phase_of y (root_hub_port_num dev) = kInitializingDevice
        then ConfigureEndpoints io i y else Some (kSuccess, y)
      } = Some (c, x') else c = d \<and> x' = y"
    by (auto simp: OnTransfer_def or_return_Some split: if_splits)
  have p: "ports y = ports x" by (rule ports_on_device [OF y])
  show ?thesis
  proof (cases "d = kSuccess")
    case False
    with rest p show ?thesis by simp
  next
    case True
    with rest obtain a dev where dev: "device_at i y = Some (a, dev)"
      "if dev_is_initialized dev \<and> phase_of y (root_hub_port_num dev) = kInitializingDevice
       then ConfigureEndpoints io i y = Some (c, x') else c = kSuccess \<and> x' = y"
      by (auto split: bind_splits if_splits)
    show ?thesis
    proof (cases "dev_is_initialized dev \<and> phase_of y (root_hub_port_num dev) = kInitializingDevice")
      case True
      with dev have "ConfigureEndpoints io i y = Some (c, x')" by simp
      from ConfigureEndpoints_ports [OF this dev(1)] True show ?thesis
        unfolding p [symmetric] unfolding ports_def phase_of_def by (auto intro: port_step.intros)
    next
      case False
      with dev p show ?thesis by auto
    qed
  qed
qed

lemma OnAddressAssigned_ports:
  assumes "OnAddressAssigned io slot_id x = Some (c, x')" and "length (x_port_config_phase x) = 256"
  shows "ports x' = ports x \<or>
    phase_of x (x_addressing_port x) = kAddressingDevice \<and>
    (ports x' = ((x_port_config_phase x)[unat (x_addressing_port x) := kInitializingDevice], 0) \<or>
     (\<exists>q. phase_of x q = kWaitingAddressed \<and>
       ports x' = ((x_port_config_phase x)[unat q := kResettingPort, unat (x_addressing_port x) := kInitializingDevice], q)))"
proof (cases "FindBySlot slot_id (x_devmgr x)")
  case None
  with assms(1) show ?thesis by (simp add: OnAddressAssigned_def)
next
  case (Some i)
  let ?x = "x\<lparr>x_addressing_port := 0\<rparr>" and ?a = "x_addressing_port x"
  obtain a dev where dev: "device_at i x = Some (a, dev)"
    using assms(1) Some by (auto simp: OnAddressAssigned_def split: bind_splits)
  show ?thesis
  proof (cases "root_hub_port_num dev = ?a \<and> phase_of x ?a = kAddressingDevice")
    case False
    with assms(1) Some dev show ?thesis by (auto simp: OnAddressAssigned_def Let_def split: if_splits)
  next
    case True
    with assms Some dev have "or_return (start_next_port io [0..<256]) (InitializeDevice io ?a slot_id) ?x = Some (c, x')"
      by (auto simp: OnAddressAssigned_def Let_def)
    then obtain d y where y: "start_next_port io [0..<256] ?x = Some (d, y)"
      "if d = kSuccess then InitializeDevice io ?a slot_id y = Some (c, x') else c = d \<and> x' = y"
      by (auto simp: or_return_Some)
    have "d = kSuccess" by (rule start_next_port_success [OF y(1)]) auto
    with y(2) have init: "InitializeDevice io ?a slot_id y = Some (c, x')" by simp
    note n = start_next_port_ports [OF y(1)]
    have "FindBySlot slot_id (x_devmgr y) \<noteq> None" using n Some by simp
    from InitializeDevice_ports [OF init this]
    have f: "ports x' = ((fst (ports y))[unat ?a := kInitializingDevice], snd (ports y))" by (simp add: ports_def)
    have w: "unat (of_nat j :: u8) = j" if "j < 256" for j
      using that by (simp add: unsigned_of_nat take_bit_nat_eq_self)
    from n consider "ports y = (x_port_config_phase x, 0)"
      | j where "j < 256" "x_port_config_phase x ! j = kWaitingAddressed"
        "ports y = ((x_port_config_phase x)[unat (of_nat j :: u8) := kResettingPort], of_nat j)"
      by (auto simp: ports_def)
    then show ?thesis
    proof cases
      case 1
      with f True show ?thesis by simp
    next
      case 2
      with f True w [OF 2(1)] show ?thesis by (auto simp: phase_of_def intro!: exI [of _ "of_nat j"])
    qed
  qed
qed

lemma OnCommandCompletion_steps:
  assumes "OnCommandCompletion io trb x = Some (c, x')" and "length (x_port_config_phase x) = 256"
  shows "ports x' = ports x \<or> port_step (ports x) (ports x')"
proof -
  consider "phase_of x (x_addressing_port x) = kEnablingSlot"
      "AddressDevice io (x_addressing_port x) (ucast (rd CommandCompletionEventTRB ''slot_id'' trb)) x = Some (c, x')"
    | "OnAddressAssigned io (ucast (rd CommandCompletionEventTRB ''slot_id'' trb)) x = Some (c, x')"
    | p where "phase_of x p = kConfiguringEndpoints"
      "CompleteConfiguration io p (ucast (rd CommandCompletionEventTRB ''slot_id'' trb)) x = Some (c, x')"
    | "x' = x"
    using assms(1) by (auto simp: OnCommandCompletion_def Let_def split: if_splits option.splits bind_splits)
  then show ?thesis
  proof cases
    case 1
    from AddressDevice_ports [OF 1(2)] 1(1) show ?thesis
      by (auto simp: ports_def phase_of_def intro: port_step.intros)
  next
    case 2
    from OnAddressAssigned_ports [OF this assms(2)] show ?thesis
      by (auto simp: ports_def phase_of_def intro: port_step.intros)
  next
    case (3 p)
    from CompleteConfiguration_ports [OF 3(2)] 3(1) show ?thesis
      by (auto simp: ports_def phase_of_def intro: port_step.intros)
  qed simp
qed

lemma dispatch_event_steps:
  assumes "dispatch_event io trb x = Some (c, x')" and "length (x_port_config_phase x) = 256"
    and "TRBDynamicCast PortStatusChangeEventTRB_Type trb \<noteq> None \<Longrightarrow>
      ucast (rd PortStatusChangeEventTRB ''port_id'' trb) \<noteq> (0 :: u8)"
  shows "ports x' = ports x \<or> port_step (ports x) (ports x')"
proof -
  consider "OnTransfer io trb x = Some (c, x')"
    | "OnPortStatusChange io trb x = Some (c, x')" "TRBDynamicCast PortStatusChangeEventTRB_Type trb \<noteq> None"
    | "OnCommandCompletion io trb x = Some (c, x')" | "x' = x"
    using assms(1) unfolding dispatch_event_def by (auto split: if_splits)
  then show ?thesis
  proof cases
    case 1
    then show ?thesis by (rule OnTransfer_steps)
  next
    case 2
    from OnPortStatusChange_steps [OF 2(1) assms(3) [OF 2(2)]] show ?thesis .
  next
    case 3
    from OnCommandCompletion_steps [OF 3 assms(2)] show ?thesis .
  qed simp
qed

text \<open>The event that the next \<open>ProcessEvent\<close> handles, if there is one.\<close>

definition next_event :: "'hw Mmio \<Rightarrow> 'hw Xhc \<Rightarrow> TRB" where
  "next_event io x = (let w = x_world x; (has, hw) = HasFront io (x_er x) (w_mem w) (w_hw w)
     in trb_at (w_mem w) (fst (Front io (x_er x) hw)))"

definition valid_event :: "'hw Mmio \<Rightarrow> 'hw Xhc \<Rightarrow> bool" where
  "valid_event io x \<longleftrightarrow> (TRBDynamicCast PortStatusChangeEventTRB_Type (next_event io x) \<noteq> None \<longrightarrow>
     ucast (rd PortStatusChangeEventTRB ''port_id'' (next_event io x)) \<noteq> (0 :: u8))"

lemma ProcessEvent_cases:
  assumes "ProcessEvent io x = Some (c, x')"
  obtains (nothing) "only_world x x'" "c = kSuccess"
  | (event) y z er w where "only_world x y" "dispatch_event io (next_event io x) y = Some (c, z)"
      "x' = z\<lparr>x_er := er, x_world := w\<rparr>"
proof -
  obtain has y1 where 1: "on_hw (HasFront io (x_er x) (w_mem (x_world x))) x = (has, y1)" by fastforce
  obtain p y2 where 2: "on_hw (Front io (x_er y1)) y1 = (p, y2)" by fastforce
  have e: "trb_at (w_mem (x_world y2)) p = next_event io x"
    using 1 2 by (auto simp: on_hw_def next_event_def split: prod.splits)
  have w: "only_world x y1" "only_world x y2"
    using only_world_on_hw [OF 1] only_world_trans [OF only_world_on_hw [OF 1] only_world_on_hw [OF 2]] by simp_all
  show thesis
  proof (cases has)
    case False
    with assms 1 have "only_world x x'" "c = kSuccess" using w(1) by (auto simp: ProcessEvent_def)
    then show thesis by (rule nothing)
  next
    case True
    with assms 1 2 obtain z where "dispatch_event io (next_event io x) y2 = Some (c, z)"
      "\<exists>er w. x' = z\<lparr>x_er := er, x_world := w\<rparr>"
      by (auto simp: ProcessEvent_def e split: bind_splits prod.splits)
    then show thesis using event w(2) by blast
  qed
qed

text \<open>
  C2. The event handlers implement the abstract machine of the ports: handling an event leaves the
  phases of all ports and the port being addressed as they are, or makes exactly one step of the
  machine, whatever the event, the registers and the devices are. The only condition is that the
  controller reports no change of a port 0, which does not exist.
\<close>

theorem ProcessEvent_refines_port_machine:
  assumes "ProcessEvent io x = Some (c, x')" and "length (x_port_config_phase x) = 256" and "valid_event io x"
  shows "ports x' = ports x \<or> port_step (ports x) (ports x')"
  using assms(1)
proof (cases rule: ProcessEvent_cases)
  case nothing
  then show ?thesis by (simp add: only_world_ports)
next
  case (event y z er w)
  have "length (x_port_config_phase y) = 256" using assms(2) event(1) by (simp add: only_worldD)
  from dispatch_event_steps [OF event(2) this] assms(3) event(1,3) show ?thesis
    by (simp add: valid_event_def only_world_ports)
qed

section \<open>The devices of the controller\<close>

text \<open>The table has an entry for every slot and slot 0, and every device in it is in order.\<close>

definition table_ok :: "DeviceManager \<Rightarrow> bool" where
  "table_ok dm \<longleftrightarrow> length (dm_devices dm) = unat (dm_max_slots dm) + 1 \<and>
     (\<forall>a dev. Some (a, dev) \<in> set (dm_devices dm) \<longrightarrow> device_ok dev)"

lemma table_ok_update:
  "table_ok dm \<Longrightarrow> device_ok dev \<Longrightarrow> table_ok (dm\<lparr>dm_devices := (dm_devices dm)[i := Some (a, dev)]\<rparr>)"
  by (auto simp: table_ok_def dest!: set_update_subset_insert [THEN subsetD])

lemma table_ok_pointers [simp]: "table_ok (dm\<lparr>dm_device_context_pointers := ps\<rparr>) = table_ok dm"
  by (simp add: table_ok_def)

lemma table_ok_device:
  assumes "table_ok dm" and "dm_devices dm ! i = Some (a, dev)" and "i < length (dm_devices dm)"
  shows "device_ok dev"
  using assms nth_mem [OF assms(3)] by (auto simp: table_ok_def)

lemma FindBySlot_in_table:
  assumes "FindBySlot slot_id dm = Some i" and "table_ok dm"
  shows "i < length (dm_devices dm)" and "\<exists>a dev. dm_devices dm ! i = Some (a, dev)" and "i = unat slot_id"
proof -
  have "\<not> dm_max_slots dm < ucast slot_id" "i = unat slot_id" "dm_devices dm ! i \<noteq> None"
    using assms(1) by (auto simp: FindBySlot_def split: if_splits)
  moreover have "unat (ucast slot_id :: u64) = unat slot_id"
    using unat_u8_less [of slot_id] by (simp add: unsigned_ucast_eq take_bit_nat_eq_self del: unat_u8_less)
  ultimately show "i < length (dm_devices dm)" "\<exists>a dev. dm_devices dm ! i = Some (a, dev)" "i = unat slot_id"
    using assms(2) by (auto simp: table_ok_def word_le_nat_alt not_less)
qed

lemma set_device_table:
  "table_ok (x_devmgr x) \<Longrightarrow> device_ok dev \<Longrightarrow> table_ok (x_devmgr (set_device i (a, dev) x))"
  by (simp add: set_device_def table_ok_update)

lemma set_device_simps [simp]:
  "length (dm_devices (x_devmgr (set_device i d x))) = length (dm_devices (x_devmgr x))"
  "dm_max_slots (x_devmgr (set_device i d x)) = dm_max_slots (x_devmgr x)"
  by (simp_all add: set_device_def)

lemma on_device_table:
  assumes "on_device i f x = Some (v, x')" and "table_ok (x_devmgr x)" and "i < length (dm_devices (x_devmgr x))"
    and "\<And>dev w v dev' w'. f (dev, w) = Some (v, dev', w') \<Longrightarrow> device_ok dev \<Longrightarrow> device_ok dev'"
  shows "table_ok (x_devmgr x') \<and> length (dm_devices (x_devmgr x')) = length (dm_devices (x_devmgr x))"
proof -
  obtain a dev dev' w' where 1: "device_at i x = Some (a, dev)" "f (dev, x_world x) = Some (v, dev', w')"
    "x' = set_device i (a, dev') x\<lparr>x_world := w'\<rparr>"
    using assms(1) by (auto simp: on_device_def split: bind_splits)
  have "device_ok dev" using table_ok_device [OF assms(2) _ assms(3)] 1(1) by (simp add: device_at_def)
  from assms(4) [OF 1(2) this] assms(2) show ?thesis by (simp add: 1(3) set_device_table)
qed

lemma device_ok_input_ctx [simp]: "device_ok (dev\<lparr>dev_input_ctx := ic\<rparr>) = device_ok dev"
  "device_ok (dev\<lparr>dev_ctx := ctx\<rparr>) = device_ok dev"
  by (simp_all add: device_ok_def)

lemma AllocDevice_table:
  assumes "AllocDevice sizes slot_id dbreg (dm, pool) = Some (c, dm', pool')" and "table_ok dm"
  shows "table_ok dm'"
proof -
  have "device_ok (Device_new buf_addr slot_id dbreg)" for buf_addr
    by (auto simp: device_ok_def Device_new_def ArrayMap_Get_None_iff [THEN iffD2])
  with assms show ?thesis
    by (auto simp: AllocDevice_def Let_def table_ok_update split: if_splits prod.splits bind_splits)
qed

lemma configure_endpoint_ok:
  assumes "configure_endpoint sz sp i (dev, w) = Some (dev', w')" and "device_ok dev"
  shows "device_ok dev'"
  using assms by (auto simp: configure_endpoint_def Let_def split: bind_splits if_splits prod.splits
    dest!: AllocTransferRing_ok)

lemma configure_loop_ok:
  assumes "foldM (configure_endpoint sz sp) is (dev, w) = Some (dev', w')" and "device_ok dev"
  shows "device_ok dev'"
proof -
  have "device_ok (fst (dev', w'))"
  proof (rule foldM_invariant [OF assms(1), where P = "\<lambda>s. device_ok (fst s)"])
    fix i s s'
    assume "device_ok (fst s)" "configure_endpoint sz sp i s = Some s'"
    then show "device_ok (fst s')" by (cases s; cases s') (auto dest: configure_endpoint_ok)
  qed (simp add: assms(2))
  then show ?thesis by simp
qed

lemma only_world_table: "only_world x x' \<Longrightarrow> x_devmgr x' = x_devmgr x"
  by (rule only_worldD)

lemma ConfigureEndpoints_table:
  assumes "ConfigureEndpoints io i x = Some (c, x')" and "table_ok (x_devmgr x)" and "i < length (dm_devices (x_devmgr x))"
  shows "table_ok (x_devmgr x')"
proof -
  obtain a dev where dev: "device_at i x = Some (a, dev)"
    using assms(1) by (auto simp: ConfigureEndpoints_def split: bind_splits)
  have "device_ok dev" using table_ok_device [OF assms(2) _ assms(3)] dev by (simp add: device_at_def)
  define ic where "ic = EnableSlotContext ((dev_input_ctx dev)\<lparr>ic_input_control_context := InputControlContext_zero,
      ic_slot_context := dc_slot_context (dev_ctx dev)\<rparr>)"
  define x1 where "x1 = set_device i (a, dev\<lparr>dev_input_ctx :=
      ic\<lparr>ic_slot_context := wr SlotContext ''context_entries'' 31 (ic_slot_context ic)\<rparr>\<rparr>) x"
  have 1: "table_ok (x_devmgr x1)" "i < length (dm_devices (x_devmgr x1))"
    using assms(2,3) \<open>device_ok dev\<close> by (simp_all add: x1_def set_device_table)
  obtain sp x2 where 2: "on_hw (Port_Speed io (PortAt (root_hub_port_num dev) x1)) x1 = (sp, x2)" by fastforce
  have dm2: "x_devmgr x2 = x_devmgr x1" by (rule only_world_table [OF only_world_on_hw [OF 2]])
  consider "x' = x2" | v x3 where
      "on_device i (\<lambda>s. map_option (Pair ()) (foldM (configure_endpoint (sizeof_Ring (x_sizes x2)) sp)
         [0..<nat (dev_num_ep_configs dev)] s)) x2 = Some (v, x3)" "x_devmgr x' = x_devmgr x3"
    using assms(1) unfolding ConfigureEndpoints_def dev
    by (auto simp: Let_def ic_def [symmetric] x1_def [symmetric] 2 split: if_splits bind_splits
      dest!: only_world_issue_command [THEN only_world_table])
  then show ?thesis
  proof cases
    case 1
    with dm2 \<open>table_ok (x_devmgr x1)\<close> show ?thesis by simp
  next
    case (2 v x3)
    have "table_ok (x_devmgr x3)"
      using on_device_table [OF 2(1)] 1 dm2 by (auto dest: configure_loop_ok)
    with 2(2) show ?thesis by simp
  qed
qed

lemma update_input_ctx_table:
  assumes "table_ok (x_devmgr x)" and "i < length (dm_devices (x_devmgr x))"
  shows "table_ok (x_devmgr (update_input_ctx i f x))"
  using assms by (auto simp: update_input_ctx_def device_at_def set_device_table table_ok_device split: option.split)

lemma LoadDCBAA_table: "LoadDCBAA sizes slot_id dm = Some (c, dm') \<Longrightarrow> table_ok dm' = table_ok dm"
  by (auto simp: LoadDCBAA_def split: if_splits bind_splits)

lemma AddressDevice_table:
  assumes "AddressDevice io port_id slot_id x = Some (c, x')" and "table_ok (x_devmgr x)"
  shows "table_ok (x_devmgr x')"
proof -
  obtain r y where y: "DoorbellRegisterAt io slot_id x = (r, y)" by fastforce
  have dmy: "x_devmgr y = x_devmgr x" by (rule only_world_table [OF only_world_DoorbellRegisterAt [OF y]])
  obtain d dm pool where d: "AllocDevice (x_sizes y) slot_id r (x_devmgr y, w_pool (x_world y)) = Some (d, dm, pool)"
    using assms(1) by (auto simp: AddressDevice_def y split: bind_splits)
  have dm: "table_ok dm" using AllocDevice_table [OF d] dmy assms(2) by simp
  define x1 where "x1 = y\<lparr>x_devmgr := dm, x_world := (x_world y)\<lparr>w_pool := pool\<rparr>\<rparr>"
  show ?thesis
  proof (cases "FindBySlot slot_id dm")
    case None
    with assms(1) y d dm show ?thesis by (auto simp: AddressDevice_def)
  next
    case (Some i)
    note i = FindBySlot_in_table(1) [OF Some dm]
    from FindBySlot_in_table(2) [OF Some dm] obtain a dev where dev: "dm_devices dm ! i = Some (a, dev)" by blast
    have ok: "device_ok dev" by (rule table_ok_device [OF dm dev i])
    obtain k ic where k: "EnableEndpoint (DeviceContextIndex_of_num 0 False)
        (EnableSlotContext ((dev_input_ctx dev)\<lparr>ic_input_control_context := InputControlContext_zero\<rparr>)) = Some (k, ic)"
      using assms(1) y d Some dev by (auto simp: AddressDevice_def device_at_def Let_def split: bind_splits)
    obtain slot_ctx x2 where x2: "on_hw (InitializeSlotContext io (PortAt port_id x1) (ic_slot_context ic)) x1 = (slot_ctx, x2)"
      by fastforce
    define x3 where "x3 = set_device i (a, dev\<lparr>dev_input_ctx := ic\<lparr>ic_slot_context := slot_ctx\<rparr>\<rparr>) x2"
    have dm2: "x_devmgr x2 = dm" using only_world_table [OF only_world_on_hw [OF x2]] by (simp add: x1_def)
    have 3: "table_ok (x_devmgr x3)" "i < length (dm_devices (x_devmgr x3))"
      using dm i ok dm2 by (simp_all add: x3_def set_device_table)
    obtain tr x4 f e where 4: "on_device i (AllocTransferRing (sizeof_Ring (x_sizes x3)) (DeviceContextIndex_of_num 0 False) 32) x3
        = Some (tr, x4)" and 5: "LoadDCBAA (x_sizes (update_input_ctx i f x4)) slot_id (x_devmgr (update_input_ctx i f x4)) = Some e"
      "x_devmgr x' = snd e"
      using assms(1) y d Some dev k x2
      by (auto simp: AddressDevice_def device_at_def Let_def x1_def [symmetric] x3_def [symmetric] split: bind_splits
        dest!: only_world_issue_command [THEN only_world_table])
    have "table_ok (x_devmgr x4) \<and> length (dm_devices (x_devmgr x4)) = length (dm_devices (x_devmgr x3))"
      by (rule on_device_table [OF 4 3]) (rule AllocTransferRing_ok)
    with 3(2) have "table_ok (x_devmgr x4) \<and> i < length (dm_devices (x_devmgr x4))" by simp
    with 5 show ?thesis
      by (cases e) (auto simp: update_input_ctx_table dest: LoadDCBAA_table)
  qed
qed

lemma InitializeDevice_table:
  assumes "InitializeDevice io port_id slot_id x = Some (c, x')" and "table_ok (x_devmgr x)"
  shows "table_ok (x_devmgr x')"
proof (cases "FindBySlot slot_id (x_devmgr x)")
  case (Some i)
  with assms(1) obtain d where "on_device i (StartInitialize io) (set_phase port_id kInitializingDevice x) = Some (d, x')"
    by (auto simp: InitializeDevice_def split: bind_splits)
  from on_device_table [OF this] FindBySlot_in_table(1) [OF Some assms(2)] assms(2) show ?thesis
    by (auto dest: StartInitialize_ok)
qed (use assms in \<open>simp add: InitializeDevice_def\<close>)

lemma CompleteConfiguration_table:
  assumes "CompleteConfiguration io port_id slot_id x = Some (c, x')" and "table_ok (x_devmgr x)"
  shows "table_ok (x_devmgr x')"
proof (cases "FindBySlot slot_id (x_devmgr x)")
  case (Some i)
  with assms(1) obtain d y where "on_device i (OnEndpointsConfigured io) x = Some (d, y)" "x' = set_phase port_id kConfigured y"
    by (auto simp: CompleteConfiguration_def split: bind_splits)
  moreover have "device_ok dev'" if "OnEndpointsConfigured io (dev, w) = Some (v, dev', w')" "device_ok dev" for dev w v dev' w'
    using OnEndpointsConfigured_ok [OF that(1)] that(2) by simp
  ultimately show ?thesis
    using on_device_table [OF _ assms(2) FindBySlot_in_table(1) [OF Some assms(2)], of "OnEndpointsConfigured io" d y] by auto
qed (use assms in \<open>simp add: CompleteConfiguration_def\<close>)

lemma OnTransfer_table:
  assumes "OnTransfer io trb x = Some (c, x')" and "table_ok (x_devmgr x)"
  shows "table_ok (x_devmgr x')"
proof (cases "FindBySlot (ucast (rd TransferEventTRB ''slot_id'' trb)) (x_devmgr x)")
  case None
  with assms show ?thesis by (simp add: OnTransfer_def)
next
  case (Some i)
  note i = FindBySlot_in_table(1) [OF Some assms(2)]
  from Some assms(1) obtain d y where y: "on_device i (OnTransferEventReceived io trb) x = Some (d, y)"
    and rest: "x' = y \<or> ConfigureEndpoints io i y = Some (c, x')"
    by (auto simp: OnTransfer_def or_return_Some split: if_splits bind_splits)
  have "table_ok (x_devmgr y) \<and> length (dm_devices (x_devmgr y)) = length (dm_devices (x_devmgr x))"
    by (rule on_device_table [OF y assms(2) i]) (rule OnTransferEventReceived_ok)
  with rest i show ?thesis by (auto intro: ConfigureEndpoints_table)
qed

lemma dispatch_event_table:
  assumes "dispatch_event io trb x = Some (c, x')" and "table_ok (x_devmgr x)"
  shows "table_ok (x_devmgr x')"
proof -
  have reset: "x_devmgr y = x_devmgr x" if "ResetPort io port x = Some (d, y)" for port d y
    using ResetPort_ports [OF that] by simp
  have slot: "x_devmgr y = x_devmgr x" if "EnableSlot io port x = Some (d, y)" for port d y
    using EnableSlot_ports [OF that] by simp
  have assigned: "table_ok (x_devmgr x')" if a: "OnAddressAssigned io slot_id x = Some (c, x')" for slot_id
  proof -
    consider "x' = x" | y d where
        "start_next_port io [0..<length (x_port_config_phase x)] (x\<lparr>x_addressing_port := 0\<rparr>) = Some (d, y)" "x' = y"
      | y d port_id where
        "start_next_port io [0..<length (x_port_config_phase x)] (x\<lparr>x_addressing_port := 0\<rparr>) = Some (d, y)"
        "InitializeDevice io port_id slot_id y = Some (c, x')"
      using a by (auto simp: OnAddressAssigned_def Let_def or_return_Some split: option.splits bind_splits if_splits)
    then show ?thesis
    proof cases
      case 1
      with assms(2) show ?thesis by simp
    next
      case 2
      from start_next_port_ports [OF 2(1)] 2(2) assms(2) show ?thesis by simp
    next
      case 3
      from start_next_port_ports [OF 3(1)] assms(2) InitializeDevice_table [OF 3(2)] show ?thesis by simp
    qed
  qed
  show ?thesis
    using assms assigned
    by (auto simp: dispatch_event_def OnPortStatusChange_def OnCommandCompletion_def Let_def
      split: if_splits ConfigPhase.splits option.splits bind_splits
      dest: OnTransfer_table reset slot AddressDevice_table CompleteConfiguration_table)
qed

section \<open>Every reachable state\<close>

lemma only_world_registers:
  "read_reg io a x = (v, y) \<Longrightarrow> only_world x y" "only_world x (write_reg io a v x)"
  "wait_while io a P x = Some y \<Longrightarrow> only_world x y"
  by (auto simp: read_reg_def write_reg_def wait_while_def only_world_on_hw only_world_hw_try)

text \<open>The ports and the devices are as they were.\<close>

definition same_driver :: "'hw Xhc \<Rightarrow> 'hw Xhc \<Rightarrow> bool" where
  "same_driver x x' \<longleftrightarrow> ports x' = ports x \<and> x_devmgr x' = x_devmgr x"

lemma same_driver_trans [trans]: "same_driver x y \<Longrightarrow> same_driver y z \<Longrightarrow> same_driver x z"
  by (simp add: same_driver_def)

lemma same_driver_only_world: "only_world x y \<Longrightarrow> same_driver x y"
  by (simp add: same_driver_def only_world_ports only_world_table)

lemma same_driver_registers:
  "read_reg io a x = (v, y) \<Longrightarrow> same_driver x y" "wait_while io a P x = Some y \<Longrightarrow> same_driver x y"
  "same_driver x (write_reg io a v x)" "same_driver x (hw_do f x)" "same_driver x (x\<lparr>x_world := w\<rparr>)"
  "on_hw g x = (u, y) \<Longrightarrow> same_driver x y"
  by (auto intro: same_driver_only_world only_world_registers only_world_on_hw)

lemma RequestHCOwnership_same: "RequestHCOwnership io b h x = Some y \<Longrightarrow> same_driver x y"
  by (auto simp: RequestHCOwnership_def Let_def split: bind_splits option.splits prod.splits if_splits
    dest!: same_driver_registers(1,2)) (simp_all add: same_driver_def write_reg_def hw_do_def ports_def)

lemma HaltController_same: "HaltController io x = Some y \<Longrightarrow> same_driver x y"
  by (auto simp: HaltController_def Let_def split: prod.splits dest!: same_driver_registers(1,2))
    (simp_all add: same_driver_def write_reg_def hw_do_def ports_def)

lemma ResetController_same: "ResetController io x = Some y \<Longrightarrow> same_driver x y"
  by (auto simp: ResetController_def Let_def split: prod.splits bind_splits dest!: same_driver_registers(1,2))
    (simp_all add: same_driver_def write_reg_def hw_do_def ports_def)

lemma fold_same_driver: "(\<And>i x. same_driver x (f i x)) \<Longrightarrow> same_driver x (fold f is x)"
proof (induction "is" arbitrary: x)
  case (Cons i "is")
  show ?case using same_driver_trans [OF Cons.prems Cons.IH [OF Cons.prems]] by simp
qed (simp add: same_driver_def)

lemma AllocScratchpad_same:
  assumes "AllocScratchpad n x = Some y"
  shows "ports y = ports x \<and> table_ok (x_devmgr y) = table_ok (x_devmgr x)"
proof (cases "n = 0")
  case False
  obtain arr pool where a: "AllocArray 8 (of_nat n) 64 4096 (w_pool (x_world x)) = (arr, pool)" by fastforce
  define body where "body = (\<lambda>a i (x :: 'a Xhc).
      let (p, pool) = AllocMem 4096 4096 4096 (w_pool (x_world x)); v = (case p of None \<Rightarrow> 0 | Some v \<Rightarrow> v);
          q = a + 8 * of_nat i
      in x\<lparr>x_world := (x_world x)\<lparr>w_pool := pool,
           w_mem := apply_stores [(q, ucast v), (q + 4, ucast (drop_bit 32 v))] (w_mem (x_world x))\<rparr>\<rparr>)"
  have b: "same_driver z (fold (body a) is z)" for a "is" z
    by (rule fold_same_driver) (simp add: body_def same_driver_registers(5) Let_def split: prod.split)
  from assms False obtain p where "y = (let x = fold (body p) [0..<n] (x\<lparr>x_world := (x_world x)\<lparr>w_pool := pool\<rparr>\<rparr>)
      in x\<lparr>x_devmgr := (x_devmgr x)\<lparr>dm_device_context_pointers := (dm_device_context_pointers (x_devmgr x))[0 := p]\<rparr>\<rparr>)"
    by (auto simp: AllocScratchpad_def a body_def Let_def split: bind_splits)
  then show ?thesis
    using b [of "x\<lparr>x_world := (x_world x)\<lparr>w_pool := pool\<rparr>\<rparr>" p "[0..<n]"] by (simp add: same_driver_def Let_def)
qed (use assms in \<open>simp add: AllocScratchpad_def\<close>)

lemma InitializeRings_same:
  assumes "InitializeRings io x = Some (c, y)"
  shows "same_driver x y"
proof -
  have cr: "RegisterCommandRing io r p x = (d, y) \<Longrightarrow> same_driver x y" for r p d and x y :: "'a Xhc"
    by (auto simp: RegisterCommandRing_def Let_def split: prod.splits dest!: same_driver_registers(6))
      (simp add: same_driver_def hw_do_def ports_def)
  have ir: "InterrupterRegisterSets io x = (a, y) \<Longrightarrow> same_driver x y" for a and x y :: "'a Xhc"
    by (auto simp: InterrupterRegisterSets_def split: prod.splits dest!: same_driver_registers(1))
  show ?thesis
    using assms unfolding InitializeRings_def Let_def
    by (auto split: prod.splits if_splits dest!: ir cr same_driver_registers(1))
      (simp_all add: same_driver_def ports_def write_reg_def hw_do_def)
qed

lemma Controller_new_ports: "exclusive (ports (Controller_new io b sizes w))"
  by (simp add: Controller_new_def ports_def exclusive_def Let_def nth_append split: prod.split)

lemma Controller_Initialize_ok:
  assumes "Controller_Initialize io x = Some (kSuccess, y)"
  shows "ports y = ports x \<and> table_ok (x_devmgr y)"
proof -
  obtain c dm pool where 1: "DeviceManager_Initialize kDeviceSize (x_devmgr x, w_pool (x_world x)) = (c, dm, pool)"
    by (metis prod_cases3)
  let ?x = "x\<lparr>x_devmgr := dm, x_world := (x_world x)\<lparr>w_pool := pool\<rparr>\<rparr>"
  have c: "c = kSuccess" using assms 1 by (auto simp: Controller_Initialize_def Let_def split: if_splits)
  have dm: "table_ok dm"
    using 1 c by (auto simp: DeviceManager_Initialize_def Let_def table_ok_def split: prod.splits option.splits)
  have "ports y = ports ?x \<and> (table_ok (x_devmgr y) \<longleftrightarrow> table_ok dm)"
    using assms 1 c unfolding Controller_Initialize_def Let_def
    by (auto split: prod.splits bind_splits dest!: same_driver_registers(1) RequestHCOwnership_same HaltController_same
      ResetController_same AllocScratchpad_same InitializeRings_same)
      (simp_all add: same_driver_def write_reg_def hw_do_def)
  with dm show ?thesis by simp
qed

text \<open>
  Everything that happens to the controller object: it is constructed and initialised, started,
  ports are configured and events handled. The controller hardware changes the world and the
  device contexts at any time.
\<close>

inductive xhc_run :: "'hw Mmio \<Rightarrow> 'hw Xhc \<Rightarrow> bool" for io where
  initialized: "Controller_Initialize io (Controller_new io mmio_base sizes w\<lparr>x_world := w'\<rparr>) = Some (kSuccess, x) \<Longrightarrow>
    xhc_run io x"
| started: "xhc_run io x \<Longrightarrow> Controller_Run io x = Some (c, x') \<Longrightarrow> xhc_run io x'"
| port: "xhc_run io x \<Longrightarrow> n \<noteq> 0 \<Longrightarrow> ConfigurePort io (PortAt n x) x = Some (c, x') \<Longrightarrow> xhc_run io x'"
| event: "xhc_run io x \<Longrightarrow> valid_event io x \<Longrightarrow> ProcessEvent io x = Some (c, x') \<Longrightarrow> xhc_run io x'"
| world: "xhc_run io x \<Longrightarrow> xhc_run io (x\<lparr>x_world := w\<rparr>)"
| device_context: "xhc_run io x \<Longrightarrow> i < length (dm_devices (x_devmgr x)) \<Longrightarrow> device_at i x = Some (a, dev) \<Longrightarrow>
    xhc_run io (set_device i (a, dev\<lparr>dev_ctx := ctx\<rparr>) x)"

lemma ProcessEvent_table:
  assumes "ProcessEvent io x = Some (c, x')" and "table_ok (x_devmgr x)"
  shows "table_ok (x_devmgr x')"
  using assms(1)
proof (cases rule: ProcessEvent_cases)
  case nothing
  with assms(2) show ?thesis by (simp add: only_world_table)
next
  case (event y z er w)
  from dispatch_event_table [OF event(2)] assms(2) event(1,3) show ?thesis by (simp add: only_world_table)
qed

lemma ProcessEvent_ports:
  assumes "ProcessEvent io x = Some (c, x')" and "length (x_port_config_phase x) = 256" and "valid_event io x"
  shows "ports x' = ports x \<or> port_step (ports x) (ports x')"
  using assms(1)
proof (cases rule: ProcessEvent_cases)
  case nothing
  then show ?thesis by (simp add: only_world_ports)
next
  case (event y z er w)
  have "length (x_port_config_phase y) = 256" using assms(2) event(1) by (simp add: only_worldD)
  from dispatch_event_steps [OF event(2) this] assms(3) event(1,3) show ?thesis
    by (simp add: valid_event_def only_world_ports)
qed

lemma ConfigurePort_steps:
  assumes "ConfigurePort io (PortAt n x) x = Some (c, x')" and "n \<noteq> 0"
  shows "(ports x' = ports x \<or> port_step (ports x) (ports x')) \<and> x_devmgr x' = x_devmgr x"
proof (cases "phase_of x n = kNotConnected")
  case True
  have n: "Port_Number (PortAt n x) = n" by (simp add: Port_Number_def PortAt_def)
  from True assms(1) have "ResetPort io (PortAt n x) x = Some (c, x')" by (simp add: ConfigurePort_def n)
  from ResetPort_ports [OF this] True assms(2) show ?thesis
    unfolding n ports_def phase_of_def by (auto intro: port_step.intros)
next
  case False
  with assms(1) show ?thesis by (simp add: ConfigurePort_def Port_Number_def PortAt_def)
qed

lemma xhc_run_inv:
  assumes "xhc_run io x"
  shows "exclusive (ports x) \<and> table_ok (x_devmgr x)"
  using assms
proof induction
  case (initialized mmio_base sizes w w' x)
  then show ?case using Controller_Initialize_ok [OF initialized] Controller_new_ports by simp
next
  case (started x c x')
  have "same_driver x x'"
    using started.hyps(2) unfolding Controller_Run_def Let_def
    by (auto split: prod.splits bind_splits dest!: same_driver_registers(1,2))
      (simp_all add: same_driver_def write_reg_def hw_do_def)
  with started.IH show ?case by (simp add: same_driver_def)
next
  case (port x n c x')
  from ConfigurePort_steps [OF port.hyps(3,2)] port.IH show ?case by (auto dest: port_step_exclusive)
next
  case (event x c x')
  have "length (x_port_config_phase x) = 256" using event.IH by (simp add: exclusive_def ports_def)
  from ProcessEvent_ports [OF event.hyps(3) this event.hyps(2)] ProcessEvent_table [OF event.hyps(3)] event.IH
  show ?case by (auto dest: port_step_exclusive)
next
  case (world x w)
  then show ?case by simp
next
  case (device_context x i a dev ctx)
  have "device_ok dev"
    using device_context table_ok_device [of "x_devmgr x" i a dev] by (simp add: device_at_def)
  with device_context.IH show ?case by (simp add: set_device_table)
qed

text \<open>
  C4. At most one port is between its reset and its address, in every state the driver can reach:
  a port is resetting, enabling its slot or being addressed exactly if it is the port in
  \<open>addressing_port\<close>, which is what the comment at the top of the phases demands.
\<close>

theorem one_port_addressed_at_a_time:
  assumes "xhc_run io x"
  shows "phase_of x p \<in> {kResettingPort, kEnablingSlot, kAddressingDevice} \<longleftrightarrow>
    p = x_addressing_port x \<and> x_addressing_port x \<noteq> 0"
  using xhc_run_inv [OF assms] by (simp add: exclusive_def ports_def phase_of_def in_progress_def)

text \<open>
  C19. The table of devices is in order in every state the driver can reach: it has an entry for
  every slot and slot 0, and of every device in it the class drivers it will call and the drivers
  that wait for a transfer exist, and it is initialised exactly when its last phase is over. The
  states are those of runs in which no device reports more than 16 endpoints: the code does not check
  that number and writes past its table, after which nothing is known.
\<close>

theorem devices_in_order:
  assumes "xhc_run io x"
  shows "length (dm_devices (x_devmgr x)) = unat (dm_max_slots (x_devmgr x)) + 1 \<and>
    (\<forall>a dev. Some (a, dev) \<in> set (dm_devices (x_devmgr x)) \<longrightarrow>
      (\<forall>d. Some d \<in> set (dev_class_drivers dev) \<longrightarrow> d < length (dev_drivers dev)) \<and>
      (\<forall>k d. ArrayMap_Get (dev_event_waiters dev) k = Some d \<longrightarrow> d < length (dev_drivers dev)) \<and>
      dev_initialize_phase dev \<in> {0..4} \<and> (dev_is_initialized dev \<longleftrightarrow> dev_initialize_phase dev = 4))"
  using xhc_run_inv [OF assms] by (auto simp: table_ok_def device_ok_def)

section \<open>The next port\<close>

lemma start_next_port_append:
  "\<forall>j\<in>set is. x_port_config_phase x ! j \<noteq> kWaitingAddressed \<Longrightarrow> start_next_port io (is @ js) x = start_next_port io js x"
  by (induction "is") auto

lemma start_next_port_first:
  assumes "q < n" and "x_port_config_phase x ! q = kWaitingAddressed" and "\<forall>j<q. x_port_config_phase x ! j \<noteq> kWaitingAddressed"
  shows "start_next_port io [0..<n] x = ResetPort io (PortAt (of_nat q) x) x"
proof -
  have "[0..<n] = [0..<q] @ q # [Suc q..<n]"
    using assms(1) by (metis le_add_same_cancel1 less_imp_add_positive less_or_eq_imp_le upt_add_eq_append upt_conv_Cons zero_le)
  then show ?thesis using assms(2,3) by (simp add: start_next_port_append)
qed

lemma ResetPort_connected:
  assumes "ResetPort io port x = Some (d, y)" and "x_addressing_port x = 0"
    and "phase_of x (Port_Number port) = kWaitingAddressed"
  shows "ports y = (if fst (IsConnected io port (w_hw (x_world x)))
    then ((x_port_config_phase x)[unat (Port_Number port) := kResettingPort], Port_Number port) else ports x)"
proof -
  obtain conn z where z: "on_hw (IsConnected io port) x = (conn, z)" by fastforce
  then have "conn = fst (IsConnected io port (w_hw (x_world x)))" by (auto simp: on_hw_def split: prod.splits)
  then show ?thesis
    using assms only_world_driver [OF only_world_on_hw [OF z]] unfolding ResetPort_def z
    by (auto simp: phase_of_def ports_def set_phase_def Let_def split: if_splits bind_splits
      dest!: only_world_hw_try [THEN only_world_driver])
qed

text \<open>
  C20. When a port has got its address, the first port that waits is asked whether a device is
  still there. If so its reset starts and it is the port being addressed. If not, the loop ends all
  the same: no port is being addressed, and every port that waited goes on waiting, although
  nothing else will start it.
\<close>

theorem address_assigned_starts_first_waiting:
  assumes "OnAddressAssigned io slot_id x = Some (c, x')" and "length (x_port_config_phase x) = 256"
    and "FindBySlot slot_id (x_devmgr x) = Some i" and "device_at i x = Some (a, dev)"
    and "root_hub_port_num dev = x_addressing_port x" and "phase_of x (x_addressing_port x) = kAddressingDevice"
    and "phase_of x q = kWaitingAddressed" and "\<forall>p<q. phase_of x p \<noteq> kWaitingAddressed"
  shows "c = kSuccess \<and> phase_of x' (x_addressing_port x) = kInitializingDevice \<and>
    (if fst (IsConnected io (PortAt q x) (w_hw (x_world x)))
     then x_addressing_port x' = q \<and> phase_of x' q = kResettingPort
     else x_addressing_port x' = 0 \<and> (\<forall>p. phase_of x p = kWaitingAddressed \<longrightarrow> phase_of x' p = kWaitingAddressed))"
proof -
  let ?x = "x\<lparr>x_addressing_port := 0\<rparr>" and ?a = "x_addressing_port x"
  have w: "unat (of_nat j :: u8) = j" if "j < 256" for j
    using that by (simp add: unsigned_of_nat take_bit_nat_eq_self)
  have "x_port_config_phase x ! j \<noteq> kWaitingAddressed" if "j < unat q" for j
  proof -
    have j: "j < 256" using that unat_u8_less [of q] by linarith
    then have "(of_nat j :: u8) < q" using that w by (simp add: word_less_nat_alt)
    with assms(8) w [OF j] show ?thesis by (force simp: phase_of_def)
  qed
  then have first: "start_next_port io [0..<256] ?x = ResetPort io (PortAt q ?x) ?x"
    using start_next_port_first [of "unat q" 256 ?x io] assms(7) by (simp add: phase_of_def)
  have "or_return (start_next_port io [0..<256]) (InitializeDevice io ?a slot_id) ?x = Some (c, x')"
    using assms(1-6) by (auto simp: OnAddressAssigned_def Let_def)
  then obtain d y where y: "start_next_port io [0..<256] ?x = Some (d, y)"
    "if d = kSuccess then InitializeDevice io ?a slot_id y = Some (c, x') else c = d \<and> x' = y"
    by (auto simp: or_return_Some)
  have "d = kSuccess" by (rule start_next_port_success [OF y(1)]) auto
  with y(2) have init: "InitializeDevice io ?a slot_id y = Some (c, x')" by simp
  have reset: "ResetPort io (PortAt q ?x) ?x = Some (d, y)" using y(1) first by simp
  have "x_devmgr y = x_devmgr x" using ResetPort_ports [OF reset] by simp
  then have f: "ports x' = ((x_port_config_phase y)[unat ?a := kInitializingDevice], x_addressing_port y)"
    using InitializeDevice_ports [OF init] assms(3) by simp
  have c: "c = kSuccess" using init by (auto simp: InitializeDevice_def split: option.splits bind_splits)
      (use \<open>x_devmgr y = x_devmgr x\<close> assms(3) in simp)
  have port: "PortAt q ?x = PortAt q x" by (simp add: PortAt_def PortRegisterSets_def)
  have n: "Port_Number (PortAt q x) = q" by (simp add: Port_Number_def PortAt_def)
  have qa: "q \<noteq> ?a" using assms(6,7) by auto
  from ResetPort_connected [OF reset] assms(7)
  have y': "ports y = (if fst (IsConnected io (PortAt q x) (w_hw (x_world x)))
      then ((x_port_config_phase x)[unat q := kResettingPort], q) else (x_port_config_phase x, 0))"
    by (simp add: port n ports_def phase_of_def)
  show ?thesis
  proof (cases "fst (IsConnected io (PortAt q x) (w_hw (x_world x)))")
    case True
    then show ?thesis using c f y' qa assms(2) by (simp add: ports_def phase_of_def phases_update)
  next
    case False
    then show ?thesis using c f y' qa assms(2,6) by (simp add: ports_def phase_of_def phases_update)
  qed
qed

section \<open>A controller whose registers always read as the same value\<close>

definition const_io :: "u64 \<Rightarrow> u64 Mmio" where
  "const_io v = \<lparr>mm_read = (\<lambda>n a hw. (v, hw)), mm_write = (\<lambda>n a w hw. hw)\<rparr>"

lemma const_io_simps [simp]:
  "Read (const_io v) a hw = (ucast v, hw)" "Write (const_io v) a w hw = hw" "Read8 (const_io v) a hw = (ucast v, hw)"
  "Read64 (const_io v) a hw = (v, hw)" "Write64 (const_io v) a u hw = hw"
  by (simp_all add: const_io_def Read_def Write_def Read8_def Read64_def Write64_def)

lemma spin_once: "poll hw = (False, hw') \<Longrightarrow> spin_while poll hw = Some hw'"
  by (subst spin_while.simps) simp

definition sample_sizes :: ClassSizes where
  "sample_sizes = \<lparr>sizeof_Device = 4096, sizeof_Ring = 32, offset_ctx = 512, offset_input_ctx = 1536, offset_buf = 64\<rparr>"

text \<open>A controller all of whose registers are 1 until its interrupts are enabled, and 0 from then on.\<close>

definition run_io :: "u64 Mmio" where
  "run_io = \<lparr>mm_read = (\<lambda>n a hw. (hw, hw)), mm_write = (\<lambda>n a w hw. if a = 0xf0000001 \<and> bit w 2 then 0 else hw)\<rparr>"

lemma run_io_simps [simp]:
  "Read run_io a hw = (ucast hw, hw)" "Read8 run_io a hw = (ucast hw, hw)" "Read64 run_io a hw = (hw, hw)"
  "a \<noteq> 0xf0000001 \<Longrightarrow> Write run_io a w hw = hw" "a \<noteq> 0xf0000001 \<Longrightarrow> Write64 run_io a u hw = hw"
  "\<not> bit w 2 \<Longrightarrow> Write run_io a w hw = hw" "bit w 2 \<Longrightarrow> Write run_io 0xf0000001 w hw = 0"
  by (simp_all add: run_io_def Read_def Write_def Read8_def Read64_def Write64_def bit_simps)

definition sample_new :: "u64 Xhc" where
  "sample_new = Controller_new run_io 0xf0000000 sample_sizes (sample_world\<lparr>w_hw := 1\<rparr>)"

lemma run_regs:
  "read_reg run_io a x = (ucast (w_hw (x_world x)), x)"
  "a \<noteq> 0xf0000001 \<Longrightarrow> write_reg run_io a w x = x" "\<not> bit w 2 \<Longrightarrow> write_reg run_io a w x = x"
  "bit w 2 \<Longrightarrow> write_reg run_io 0xf0000001 w x = x\<lparr>x_world := (x_world x)\<lparr>w_hw := 0\<rparr>\<rparr>"
  "a \<noteq> 0xf0000001 \<Longrightarrow> hw_do (Write64 run_io a u) x = x"
  "\<not> P (ucast (w_hw (x_world x))) \<Longrightarrow> wait_while run_io a P x = Some x"
  by (simp_all add: read_reg_def write_reg_def on_hw_def hw_do_def wait_while_def hw_try_def spin_once)

lemma sample_pool:
  "AllocArray 8 9 0 0 \<lparr>memory_pool = 0x100000, alloc_ptr = 0x100000\<rparr> = (Some 0x100000, \<lparr>memory_pool = 0x100000, alloc_ptr = 0x100048\<rparr>)"
  "AllocArray 8 9 64 4096 \<lparr>memory_pool = 0x100000, alloc_ptr = 0x100048\<rparr> = (Some 0x100080, \<lparr>memory_pool = 0x100000, alloc_ptr = 0x1000c8\<rparr>)"
  "AllocArray 16 32 64 (64 * 1024) \<lparr>memory_pool = 0x100000, alloc_ptr = 0x1000c8\<rparr> = (Some 0x100100, \<lparr>memory_pool = 0x100000, alloc_ptr = 0x100300\<rparr>)"
  "AllocArray 16 32 64 (64 * 1024) \<lparr>memory_pool = 0x100000, alloc_ptr = 0x100300\<rparr> = (Some 0x100300, \<lparr>memory_pool = 0x100000, alloc_ptr = 0x100500\<rparr>)"
  "AllocArray 16 1 64 (64 * 1024) \<lparr>memory_pool = 0x100000, alloc_ptr = 0x100500\<rparr> = (Some 0x100500, \<lparr>memory_pool = 0x100000, alloc_ptr = 0x100510\<rparr>)"
  by (simp_all add: AllocArray_def AllocMem_def Ceil_def kMemoryPoolSize_def Let_def)

lemma const_1_fields:
  "rd HCCPARAMS1_Bitmap ''xhci_extended_capabilities_pointer'' (1 :: u32) = 0"
  "rd USBSTS_Bitmap ''host_controller_halted'' (1 :: u32) = 1" "rd USBSTS_Bitmap ''controller_not_ready'' (1 :: u32) = 0"
  "rd USBCMD_Bitmap ''host_controller_reset'' (1 :: u32) = 0" "max_scratchpad_buffers 1 = 0"
proof -
  have "map (\<lambda>(L, f). (offset_of L f, width_of L f)) [(HCCPARAMS1_Bitmap, ''xhci_extended_capabilities_pointer''),
      (USBSTS_Bitmap, ''host_controller_halted''), (USBSTS_Bitmap, ''controller_not_ready''),
      (USBCMD_Bitmap, ''host_controller_reset''), (HCSPARAMS2_Bitmap, ''max_scratchpad_buffers_low''),
      (HCSPARAMS2_Bitmap, ''max_scratchpad_buffers_high'')] = [(16, 16), (0, 1), (11, 1), (1, 1), (27, 5), (21, 5)]"
    by code_simp
  then show "rd HCCPARAMS1_Bitmap ''xhci_extended_capabilities_pointer'' (1 :: u32) = 0"
    "rd USBSTS_Bitmap ''host_controller_halted'' (1 :: u32) = 1" "rd USBSTS_Bitmap ''controller_not_ready'' (1 :: u32) = 0"
    "rd USBCMD_Bitmap ''host_controller_reset'' (1 :: u32) = 0" "max_scratchpad_buffers 1 = 0"
    by (simp_all add: rd_def bf_get_def max_scratchpad_buffers_def)
qed

lemma ring_init_const:
  "AllocArray 16 n 64 (64 * 1024) pool = (Some p, pool1) \<Longrightarrow>
    \<exists>m. Ring_Initialize n (r0, pool, m0) = (kSuccess,
      \<lparr>ring_buf = Some p, ring_buf_size = n, ring_cycle_bit = True, ring_write_index = 0\<rparr>, pool1, m)"
  by (simp add: Ring_Initialize_def sizeof_TRB_def Let_def)

lemma run_offsets:
  "offset_of OperationalRegisters ''USBCMD'' = 0" "offset_of OperationalRegisters ''USBSTS'' = 4"
  "offset_of OperationalRegisters ''CRCR'' = 24" "offset_of OperationalRegisters ''DCBAAP'' = 48"
  "offset_of OperationalRegisters ''CONFIG'' = 56" "offset_of InterrupterRegisterSet ''IMAN'' = 0"
  "offset_of InterrupterRegisterSet ''ERSTSZ'' = 8" "offset_of InterrupterRegisterSet ''ERSTBA'' = 16"
  "offset_of InterrupterRegisterSet ''ERDP'' = 24"
  by code_simp+

lemma event_ring_init_run:
  "AllocArray 16 n 64 (64 * 1024) pool = (Some p, pool1) \<Longrightarrow> AllocArray 16 1 64 (64 * 1024) pool1 = (Some e, pool2) \<Longrightarrow>
    \<exists>er m. EventRing_Initialize run_io n 0xf0000020 (er0, pool, m0, hw) = (kSuccess, er, pool2, m, hw)"
  by (simp add: EventRing_Initialize_def sizeof_TRB_def Let_def WriteDequeuePointer_def interrupter_reg_def run_offsets)

lemma usbcmd_values:
  "wr USBCMD_Bitmap ''enable_wrap_event'' 0 (wr USBCMD_Bitmap ''host_system_error_enable'' 0
     (wr USBCMD_Bitmap ''interrupter_enable'' 0 (1 :: u32))) = 1"
  "wr USBCMD_Bitmap ''host_controller_reset'' 1 (1 :: u32) = 3" "wr USBCMD_Bitmap ''interrupter_enable'' 1 (1 :: u32) = 5"
  by code_simp+

lemma sample_rings:
  assumes "w_pool (x_world x) = \<lparr>memory_pool = 0x100000, alloc_ptr = 0x1000c8\<rparr>" and "w_hw (x_world x) = 1"
    and "x_op x = 0xf0000001" and "x_mmio_base x = 0xf0000000"
  shows "\<exists>y. InitializeRings run_io x = Some (kSuccess, y) \<and> w_hw (x_world y) = 0 \<and> x_max_ports y = x_max_ports x \<and>
    x_op y = 0xf0000001 \<and> x_sizes y = x_sizes x \<and> ports y = ports x \<and> x_devmgr y = x_devmgr x \<and>
    x_cr y = \<lparr>ring_buf = Some 0x100100, ring_buf_size = 32, ring_cycle_bit = True, ring_write_index = 0\<rparr>"
proof -
  let ?r = "\<lparr>ring_buf = Some 0x100100, ring_buf_size = 32, ring_cycle_bit = True, ring_write_index = 0\<rparr>"
  obtain m where r: "Ring_Initialize 32 (x_cr x, w_pool (x_world x), w_mem (x_world x)) =
      (kSuccess, ?r, \<lparr>memory_pool = 0x100000, alloc_ptr = 0x100300\<rparr>, m)"
    unfolding assms(1) using ring_init_const [OF sample_pool(3)] by blast
  obtain er m' where e: "EventRing_Initialize run_io 32 0xf0000020 (x_er x, \<lparr>memory_pool = 0x100000, alloc_ptr = 0x100300\<rparr>, m, 1) =
      (kSuccess, er, \<lparr>memory_pool = 0x100000, alloc_ptr = 0x100510\<rparr>, m', 1)"
    using event_ring_init_run [OF sample_pool(4,5)] by blast
  have rts: "ArrayWrapper_at 32 \<lparr>aw_array = 0xf0000020 + ucast (RTSOFF_Offset (1 :: u32)), aw_size = 1024\<rparr> 0 = 0xf0000020"
    by code_simp
  show ?thesis
    using assms
    by (simp add: InitializeRings_def InterrupterRegisterSets_def run_regs Let_def r [unfolded assms(1)] RegisterCommandRing_def on_hw_def
      op_reg_def run_offsets rts e usbcmd_values hw_do_def ports_def)
qed

lemma sample_initialized:
  "\<exists>x. Controller_Initialize run_io sample_new = Some (kSuccess, x) \<and> w_hw (x_world x) = 0 \<and> x_max_ports x = 0 \<and>
    x_op x = 0xf0000001 \<and> x_sizes x = sample_sizes \<and> ports x = (replicate 256 kNotConnected, 0) \<and>
    dm_max_slots (x_devmgr x) = 8 \<and> dm_devices (x_devmgr x) = None # replicate 8 None \<and>
    x_cr x = \<lparr>ring_buf = Some 0x100100, ring_buf_size = 32, ring_cycle_bit = True, ring_write_index = 0\<rparr>"
proof -
  obtain dm where init: "DeviceManager_Initialize kDeviceSize (x_devmgr sample_new, w_pool (x_world sample_new)) =
      (kSuccess, dm, \<lparr>memory_pool = 0x100000, alloc_ptr = 0x1000c8\<rparr>)"
    and dm: "dm_max_slots dm = 8" "dm_devices dm = None # replicate 8 None"
    by (simp add: DeviceManager_Initialize_def sample_new_def Controller_new_def sample_world_def kDeviceSize_def sample_pool)
  define x1 where "x1 = sample_new\<lparr>x_devmgr := dm,
      x_world := (x_world sample_new)\<lparr>w_pool := \<lparr>memory_pool = 0x100000, alloc_ptr = 0x1000c8\<rparr>\<rparr>\<rparr>"
  have x1: "x_op x1 = 0xf0000001" "w_hw (x_world x1) = 1" "x_mmio_base x1 = 0xf0000000" "x_max_ports x1 = 0"
    "w_pool (x_world x1) = \<lparr>memory_pool = 0x100000, alloc_ptr = 0x1000c8\<rparr>" "x_sizes x1 = sample_sizes" "x_devmgr x1 = dm"
    "ports x1 = (replicate 256 kNotConnected, 0)"
    by (simp_all add: ports_def x1_def sample_new_def Controller_new_def) code_simp
  have hw: "w_hw (x_world sample_new) = 1" by (simp add: sample_new_def Controller_new_def)
  have own: "RequestHCOwnership run_io b 1 x1 = Some x1" for b
    by (simp add: RequestHCOwnership_def ExtendedRegisterList_begin_def const_1_fields AddOrNull_def
      find_extended.simps)
  have halt: "HaltController run_io x1 = Some x1" "ResetController run_io x1 = Some x1"
    by (simp_all add: HaltController_def ResetController_def run_regs const_1_fields Let_def x1 op_reg_def run_offsets
      usbcmd_values)
  show ?thesis
    using sample_rings [OF x1(5,2,1,3)] unfolding Controller_Initialize_def init
    by (simp add: x1_def [symmetric] run_regs own halt hw const_1_fields AllocScratchpad_def x1 op_reg_def run_offsets)
      (use dm in auto)
qed

definition sample_x :: "u64 Xhc" where
  "sample_x = snd (the (Controller_Initialize run_io sample_new))"

lemma sample_x_run: "xhc_run run_io sample_x"
proof -
  obtain x where x: "Controller_Initialize run_io sample_new = Some (kSuccess, x)" using sample_initialized by blast
  have "sample_new = Controller_new run_io 0xf0000000 sample_sizes (sample_world\<lparr>w_hw := 1\<rparr>)\<lparr>x_world := x_world sample_new\<rparr>"
    by (simp add: sample_new_def)
  with x have "xhc_run run_io x" by (metis xhc_run.initialized)
  then show ?thesis by (simp add: sample_x_def x)
qed

theorem one_port_addressed_at_a_time_witness:
  "phase_of sample_x 3 \<in> {kResettingPort, kEnablingSlot, kAddressingDevice} \<longleftrightarrow>
    3 = x_addressing_port sample_x \<and> x_addressing_port sample_x \<noteq> 0"
  by (rule one_port_addressed_at_a_time [OF sample_x_run])

text \<open>
  A run to a device in the table: the port 1 of a new controller is connected and reset, its change
  makes the code enable a slot, and the completion of that command makes it address a device in slot 1.
  Between the steps the controller's registers, the rings and the memory pool are what they are said to be.
\<close>

definition sample_ring_world :: "u64 \<Rightarrow> dmem \<Rightarrow> u64 World" where
  "sample_ring_world hw m = sample_world\<lparr>w_hw := hw, w_mem := m\<rparr>"

definition event_mem :: "u64 \<Rightarrow> u32 \<Rightarrow> u32 \<Rightarrow> bool \<Rightarrow> dmem" where
  "event_mem lo w0 w3 c = (\<lambda>a. if a = lo then w0 else if a = lo + 12 then w3 OR of_bool c else if a = 0x300c then 0x2400 else 0)"

lemma sample_port_words:
  "rd PORTSC_Bitmap ''current_connect_status'' (1 :: u32) = 1" "rd PORTSC_Bitmap ''port_reset'' (1 :: u32) = 0"
  "\<not> bit (reset_word 1) 2"
  "rd PORTSC_Bitmap ''port_enabled_disabled'' (0x200002 :: u32) = 1" "rd PORTSC_Bitmap ''port_reset_change'' (0x200002 :: u32) = 1"
  "\<not> bit (clear_status_word ''port_reset_change'' 0x200002) 2"
  by code_simp+

lemma sample_reset:
  assumes "x_addressing_port x = 0" and "phase_of x 1 = kNotConnected" and "w_hw (x_world x) = 1"
  shows "ConfigurePort run_io (PortAt 1 x) x = Some (kSuccess, set_phase 1 kResettingPort (x\<lparr>x_addressing_port := 1\<rparr>))"
  using assms
  by (simp add: ConfigurePort_def ResetPort_def on_hw_def IsConnected_def portsc_bit_def sample_port_words Port_Number_def
    PortAt_def hw_try_def Port_Reset_def spin_once set_phase_def phase_of_def)

lemma sample_event_words:
  "ERDP_Pointer 0x200002 = 0x200000"
  "rd TRB ''cycle_bit'' (0x8801000000000000000001000000 :: TRB) = 1" "rd TRB ''cycle_bit'' (0x8800000000000000000001000000 :: TRB) = 0"
  "rd TRB ''trb_type'' (0x8801000000000000000001000000 :: TRB) = 34" "rd TRB ''trb_type'' (0x8800000000000000000001000000 :: TRB) = 34"
  "rd PortStatusChangeEventTRB ''port_id'' (0x8801000000000000000001000000 :: TRB) = 1"
  "rd PortStatusChangeEventTRB ''port_id'' (0x8800000000000000000001000000 :: TRB) = 1"
  "rd TRB ''cycle_bit'' (0x1008401000000000000000000003000 :: TRB) = 1" "rd TRB ''cycle_bit'' (0x1008400000000000000000000003000 :: TRB) = 0"
  "rd TRB ''trb_type'' (0x1008401000000000000000000003000 :: TRB) = 33" "rd TRB ''trb_type'' (0x1008400000000000000000000003000 :: TRB) = 33"
  "CommandCompletionEventTRB_Pointer 0x1008401000000000000000000003000 = 0x3000"
  "CommandCompletionEventTRB_Pointer 0x1008400000000000000000000003000 = 0x3000"
  "rd CommandCompletionEventTRB ''slot_id'' (0x1008401000000000000000000003000 :: TRB) = 1"
  "rd CommandCompletionEventTRB ''slot_id'' (0x1008400000000000000000000003000 :: TRB) = 1"
  "rd TRB ''trb_type'' (0x2400000000000000000000000000 :: TRB) = 9"
proof -
  have "map (\<lambda>(L, f). (offset_of L f, width_of L f)) [(ERDP_Bitmap, ''event_ring_dequeue_pointer''), (TRB, ''cycle_bit''),
      (TRB, ''trb_type''), (PortStatusChangeEventTRB, ''port_id''), (CommandCompletionEventTRB, ''slot_id''),
      (CommandCompletionEventTRB, ''command_trb_pointer'')] = [(4, 60), (96, 1), (106, 6), (24, 8), (120, 8), (4, 60)]"
    by code_simp
  then show "ERDP_Pointer 0x200002 = 0x200000"
    "rd TRB ''cycle_bit'' (0x8801000000000000000001000000 :: TRB) = 1" "rd TRB ''cycle_bit'' (0x8800000000000000000001000000 :: TRB) = 0"
    "rd TRB ''trb_type'' (0x8801000000000000000001000000 :: TRB) = 34" "rd TRB ''trb_type'' (0x8800000000000000000001000000 :: TRB) = 34"
    "rd PortStatusChangeEventTRB ''port_id'' (0x8801000000000000000001000000 :: TRB) = 1"
    "rd PortStatusChangeEventTRB ''port_id'' (0x8800000000000000000001000000 :: TRB) = 1"
    "rd TRB ''cycle_bit'' (0x1008401000000000000000000003000 :: TRB) = 1" "rd TRB ''cycle_bit'' (0x1008400000000000000000000003000 :: TRB) = 0"
    "rd TRB ''trb_type'' (0x1008401000000000000000000003000 :: TRB) = 33" "rd TRB ''trb_type'' (0x1008400000000000000000000003000 :: TRB) = 33"
    "CommandCompletionEventTRB_Pointer 0x1008401000000000000000000003000 = 0x3000"
    "CommandCompletionEventTRB_Pointer 0x1008400000000000000000000003000 = 0x3000"
    "rd CommandCompletionEventTRB ''slot_id'' (0x1008401000000000000000000003000 :: TRB) = 1"
    "rd CommandCompletionEventTRB ''slot_id'' (0x1008400000000000000000000003000 :: TRB) = 1"
    "rd TRB ''trb_type'' (0x2400000000000000000000000000 :: TRB) = 9"
    by (simp_all add: ERDP_Pointer_def CommandCompletionEventTRB_Pointer_def rd_def bf_get_def)
qed

lemma sample_events:
  "trb_at (event_mem 0x200000 0x1000000 0x8800 c) 0x200000 =
    (if c then 0x8801000000000000000001000000 else 0x8800000000000000000001000000)"
  "trb_at (event_mem 0x200000 0x3000 0x1008400 c) 0x200000 =
    (if c then 0x1008401000000000000000000003000 else 0x1008400000000000000000000003000)"
  "trb_at (event_mem 0x200000 w0 w3 c) 0x3000 = 0x2400000000000000000000000000"
  by (simp_all add: event_mem_def trb_at_def)

lemma sample_front:
  "Front run_io er 0x200002 = (0x200000, 0x200002)"
  by (simp add: Front_def ReadDequeuePointer_def sample_event_words)

lemma sample_push:
  "ring_buf r = Some b \<Longrightarrow> ring_buf_size r = 32 \<Longrightarrow> ring_write_index r = n \<Longrightarrow> n < 30 \<Longrightarrow>
    \<exists>p ss. Push d r = Some (p, ss, r\<lparr>ring_write_index := n + 1\<rparr>)"
  by (auto simp: Push_def Let_def) unat_arith+

lemma sample_issue:
  assumes "ring_buf (x_cr x) = Some b" and "ring_buf_size (x_cr x) = 32" and "ring_write_index (x_cr x) = n" and "n < 30"
  shows "\<exists>w. issue_command run_io cmd x = Some (x\<lparr>x_cr := (x_cr x)\<lparr>ring_write_index := n + 1\<rparr>, x_world := w\<rparr>)"
proof -
  from sample_push [OF assms] obtain p ss where "Push cmd (x_cr x) = Some (p, ss, (x_cr x)\<lparr>ring_write_index := n + 1\<rparr>)" by blast
  then show ?thesis
    by (auto simp: issue_command_def Let_def DoorbellRegisterAt_def DoorbellRegisters_def read_reg_def on_hw_def hw_do_def
      split: prod.splits)
qed

lemma sample_process:
  assumes "x_world x = sample_ring_world 0x200002 (event_mem 0x200000 w0 w3 (er_cycle_bit (x_er x)))"
    and "trb_at (event_mem 0x200000 w0 w3 (er_cycle_bit (x_er x))) 0x200000 = ev"
    and "rd TRB ''cycle_bit'' ev = of_bool (er_cycle_bit (x_er x))" and "dispatch_event run_io ev x = Some (c, y)"
  shows "\<exists>er w. ProcessEvent run_io x = Some (c, y\<lparr>x_er := er, x_world := w\<rparr>)" and "next_event run_io x = ev"
proof -
  have hw: "w_hw (x_world x) = 0x200002" "x\<lparr>x_world := (x_world x)\<lparr>w_hw := 0x200002\<rparr>\<rparr> = x"
    "w_mem (x_world x) = event_mem 0x200000 w0 w3 (er_cycle_bit (x_er x))"
    by (simp_all add: assms(1) sample_ring_world_def)
  show "next_event run_io x = ev"
    by (simp add: next_event_def HasFront_def sample_front hw assms(2) Let_def)
  show "\<exists>er w. ProcessEvent run_io x = Some (c, y\<lparr>x_er := er, x_world := w\<rparr>)"
    using assms(4)
    by (auto simp: ProcessEvent_def on_hw_def HasFront_def sample_front hw assms(2,3) Let_def split: prod.split)
qed

lemma sample_enable_slot:
  assumes "x_world x = sample_ring_world 0x200002 (event_mem 0x200000 0x1000000 0x8800 (er_cycle_bit (x_er x)))"
    and "phase_of x 1 = kResettingPort" and "ring_buf (x_cr x) = Some b" "ring_buf_size (x_cr x) = 32" "ring_write_index (x_cr x) = 0"
  shows "valid_event run_io x \<and> (\<exists>er w. ProcessEvent run_io x = Some (kSuccess, (set_phase 1 kEnablingSlot x)
    \<lparr>x_cr := (x_cr x)\<lparr>ring_write_index := 1\<rparr>, x_er := er, x_world := w\<rparr>))"
proof -
  define ev :: TRB where "ev = (if er_cycle_bit (x_er x) then 0x8801000000000000000001000000 else 0x8800000000000000000001000000)"
  have ev: "rd TRB ''cycle_bit'' ev = of_bool (er_cycle_bit (x_er x))" "rd TRB ''trb_type'' ev = 34"
    "rd PortStatusChangeEventTRB ''port_id'' ev = 1"
    by (simp_all add: ev_def sample_event_words)
  have hw: "w_hw (x_world x) = 0x200002" "x\<lparr>x_world := (x_world x)\<lparr>w_hw := 0x200002\<rparr>\<rparr> = x"
    by (simp_all add: assms(1) sample_ring_world_def)
  obtain w where "issue_command run_io EnableSlotCommandTRB_new (set_phase 1 kEnablingSlot x) =
      Some ((set_phase 1 kEnablingSlot x)\<lparr>x_cr := (x_cr x)\<lparr>ring_write_index := 1\<rparr>, x_world := w\<rparr>)"
    using sample_issue [of "set_phase 1 kEnablingSlot x" b 0 EnableSlotCommandTRB_new] assms(3-5) by (auto simp: set_phase_def)
  then have "dispatch_event run_io ev x = Some (kSuccess, (set_phase 1 kEnablingSlot x)\<lparr>x_cr := (x_cr x)\<lparr>ring_write_index := 1\<rparr>, x_world := w\<rparr>)"
    using assms(2)
    by (simp add: dispatch_event_def TRBDynamicCast_def ev TransferEventTRB_Type_def PortStatusChangeEventTRB_Type_def
      OnPortStatusChange_def EnableSlot_def on_hw_def IsEnabled_def IsPortResetChanged_def portsc_bit_def hw sample_port_words
      hw_do_def ClearPortResetChange_def CLEAR_STATUS_BIT_def PortAt_def Port_Number_def Let_def)
  from sample_process [OF assms(1) _ ev(1) this] show ?thesis
    by (auto simp: sample_events ev_def valid_event_def sample_event_words)
qed

lemma sample_address_device:
  assumes "x_world x = sample_ring_world 0x200002 (event_mem 0x200000 0x3000 0x1008400 (er_cycle_bit (x_er x)))"
    and "x_addressing_port x = 1" and "phase_of x 1 = kEnablingSlot" and "x_sizes x = sample_sizes"
    and "dm_max_slots (x_devmgr x) = 8" and "dm_devices (x_devmgr x) = None # replicate 8 None"
    and "ring_buf (x_cr x) = Some b" "ring_buf_size (x_cr x) = 32" "ring_write_index (x_cr x) = 1"
  shows "valid_event run_io x \<and> (\<exists>y a dev. ProcessEvent run_io x = Some (kSuccess, y) \<and> device_at 1 y = Some (a, dev) \<and>
    dev_slot_id dev = 1 \<and> length (dm_devices (x_devmgr y)) = 9)"
proof -
  define ev :: TRB where "ev = (if er_cycle_bit (x_er x) then 0x1008401000000000000000000003000 else 0x1008400000000000000000000003000)"
  have ev: "rd TRB ''cycle_bit'' ev = of_bool (er_cycle_bit (x_er x))" "rd TRB ''trb_type'' ev = 33"
    "CommandCompletionEventTRB_Pointer ev = 0x3000" "rd CommandCompletionEventTRB ''slot_id'' ev = 1"
    by (simp_all add: ev_def sample_event_words)
  have "\<exists>y a dev. AddressDevice run_io 1 1 x = Some (kSuccess, y) \<and> device_at 1 y = Some (a, dev) \<and>
    dev_slot_id dev = 1 \<and> length (dm_devices (x_devmgr y)) = 9"
  proof -
    have "\<forall>y. \<exists>w. ring_buf (x_cr y) = Some b \<longrightarrow> ring_buf_size (x_cr y) = 32 \<longrightarrow> ring_write_index (x_cr y) = 1 \<longrightarrow>
        issue_command run_io cmd y = Some (y\<lparr>x_cr := (x_cr y)\<lparr>ring_write_index := 2\<rparr>, x_world := w\<rparr>)" for cmd
      using sample_issue [of _ b 1 cmd] by fastforce
    then obtain f where issue: "ring_buf (x_cr y) = Some b \<Longrightarrow> ring_buf_size (x_cr y) = 32 \<Longrightarrow> ring_write_index (x_cr y) = 1 \<Longrightarrow>
        issue_command run_io cmd y = Some (y\<lparr>x_cr := (x_cr y)\<lparr>ring_write_index := 2\<rparr>, x_world := f cmd y\<rparr>)" for cmd y
      by metis
    have pool: "AllocArray 4096 1 64 4096 \<lparr>memory_pool = 0x100000, alloc_ptr = 0x100000\<rparr> =
        (Some 0x100000, \<lparr>memory_pool = 0x100000, alloc_ptr = 0x101000\<rparr>)"
      "AllocArray 32 1 64 4096 \<lparr>memory_pool = 0x100000, alloc_ptr = 0x101000\<rparr> =
        (Some 0x101000, \<lparr>memory_pool = 0x100000, alloc_ptr = 0x101020\<rparr>)"
      "AllocArray 16 32 64 65536 \<lparr>memory_pool = 0x100000, alloc_ptr = 0x101020\<rparr> =
        (Some 0x101040, \<lparr>memory_pool = 0x100000, alloc_ptr = 0x101240\<rparr>)"
      by (simp_all add: AllocArray_def AllocMem_def Ceil_def kMemoryPoolSize_def Let_def)
    have dci: "DeviceContextIndex_of_num 0 False = 1" by code_simp
    have slots: "replicate 8 None = None # replicate 7 (None :: (u64 \<times> Device_usb) option)" by (simp flip: replicate_Suc)
    show ?thesis
      using assms(4-5,7-9) assms(6) [unfolded slots]
      by (simp add: AddressDevice_def DoorbellRegisterAt_def DoorbellRegisters_def read_reg_def on_hw_def AllocDevice_def
        assms(1) sample_ring_world_def sample_world_def sample_sizes_def pool FindBySlot_def device_at_def dci EnableEndpoint_def
        EnableSlotContext_def Device_new_def InitializeSlotContext_def Port_Speed_def set_device_def on_device_def
        AllocTransferRing_def Ring_Initialize_def sizeof_TRB_def update_input_ctx_def LoadDCBAA_def set_phase_def issue Let_def)
  qed
  then obtain y a dev where y: "AddressDevice run_io 1 1 x = Some (kSuccess, y)" "device_at 1 y = Some (a, dev)"
    "dev_slot_id dev = 1" "length (dm_devices (x_devmgr y)) = 9" by blast
  have "dispatch_event run_io ev x = Some (kSuccess, y)"
    using assms(2,3) y(1)
    by (simp add: dispatch_event_def TRBDynamicCast_def ev TransferEventTRB_Type_def PortStatusChangeEventTRB_Type_def
      CommandCompletionEventTRB_Type_def OnCommandCompletion_def assms(1) sample_ring_world_def sample_events sample_event_words
      EnableSlotCommandTRB_Type_def)
  from sample_process [OF assms(1) _ ev(1) this] y(2-4) show ?thesis
    by (auto simp: sample_events ev_def valid_event_def sample_event_words TRBDynamicCast_def PortStatusChangeEventTRB_Type_def
      device_at_def)
qed

theorem devices_in_order_witness:
  "\<exists>x a dev. xhc_run run_io x \<and> Some (a, dev) \<in> set (dm_devices (x_devmgr x)) \<and> dev_slot_id dev = 1 \<and>
    length (dm_devices (x_devmgr x)) = unat (dm_max_slots (x_devmgr x)) + 1 \<and>
    (\<forall>d. Some d \<in> set (dev_class_drivers dev) \<longrightarrow> d < length (dev_drivers dev)) \<and> dev_initialize_phase dev \<in> {0..4}"
proof -
  obtain x where "Controller_Initialize run_io sample_new = Some (kSuccess, x)" and sizes: "x_sizes x = sample_sizes"
    and ports: "x_port_config_phase x = replicate 256 kNotConnected" "x_addressing_port x = 0"
    and dm: "dm_max_slots (x_devmgr x) = 8" "dm_devices (x_devmgr x) = None # replicate 8 None"
    and cr: "ring_buf (x_cr x) = Some 0x100100" "ring_buf_size (x_cr x) = 32" "ring_write_index (x_cr x) = 0"
    using sample_initialized by (auto simp: ports_def)
  then have "xhc_run run_io x" using sample_x_run by (simp add: sample_x_def)
  then have "xhc_run run_io (x\<lparr>x_world := sample_ring_world 1 (\<lambda>_. 0)\<rparr>)" (is "xhc_run _ ?x0") by (rule xhc_run.world)
  then have "xhc_run run_io (set_phase 1 kResettingPort (?x0\<lparr>x_addressing_port := 1\<rparr>))" (is "xhc_run _ ?x1")
    by (rule xhc_run.port [of run_io ?x0 1]) (simp, rule sample_reset, simp_all add: ports phase_of_def sample_ring_world_def)
  then have x2: "xhc_run run_io (?x1\<lparr>x_world := sample_ring_world 0x200002 (event_mem 0x200000 0x1000000 0x8800 (er_cycle_bit (x_er x)))\<rparr>)"
    (is "xhc_run _ ?x2") by (rule xhc_run.world)
  obtain er w where e: "valid_event run_io ?x2" "ProcessEvent run_io ?x2 = Some (kSuccess, (set_phase 1 kEnablingSlot ?x2)
      \<lparr>x_cr := (x_cr ?x2)\<lparr>ring_write_index := 1\<rparr>, x_er := er, x_world := w\<rparr>)"
    using sample_enable_slot [of ?x2 "0x100100"] ports cr by (auto simp: set_phase_def phase_of_def)
  from xhc_run.world [OF xhc_run.event [OF x2 e]]
  have x3: "xhc_run run_io ((set_phase 1 kEnablingSlot ?x2)\<lparr>x_cr := (x_cr ?x2)\<lparr>ring_write_index := 1\<rparr>, x_er := er,
      x_world := sample_ring_world 0x200002 (event_mem 0x200000 0x3000 0x1008400 (er_cycle_bit er))\<rparr>)" (is "xhc_run _ ?x3")
    by simp
  obtain y a dev where y: "valid_event run_io ?x3" "ProcessEvent run_io ?x3 = Some (kSuccess, y)" "device_at 1 y = Some (a, dev)"
    "dev_slot_id dev = 1" "length (dm_devices (x_devmgr y)) = 9"
    using sample_address_device [of ?x3 "0x100100"] ports cr sizes dm by (auto simp: set_phase_def phase_of_def)
  have run: "xhc_run run_io y" by (rule xhc_run.event [OF x3 y(1,2)])
  have "Some (a, dev) \<in> set (dm_devices (x_devmgr y))" using y(3,5) nth_mem [of 1 "dm_devices (x_devmgr y)"] by (simp add: device_at_def)
  with devices_in_order [OF run] y(4) run show ?thesis by blast
qed

text \<open>Port 1 has just been addressed, ports 2 and 5 wait, and the device of slot 1 is on port 1.\<close>

definition sample_addressed :: "u64 Xhc" where
  "sample_addressed = sample_new
     \<lparr>x_world := sample_world, x_port_config_phase := (replicate 256 kNotConnected)[1 := kAddressingDevice, 2 := kWaitingAddressed, 5 := kWaitingAddressed],
      x_addressing_port := 1,
      x_devmgr := \<lparr>dm_context_pointers_at = Some 0x100080, dm_device_context_pointers = [0, 0], dm_max_slots = 1,
        dm_devices_at = Some 0x100000,
        dm_devices = [None, Some (0x101000, sample_dev\<lparr>dev_ctx := \<lparr>dc_slot_context =
          wr SlotContext ''root_hub_port_num'' 1 0, dc_ep_contexts = []\<rparr>\<rparr>)]\<rparr>\<rparr>"

lemma sample_StartInitialize:
  "\<exists>c dev' w'. StartInitialize (const_io 1) (sample_dev\<lparr>dev_ctx := ctx\<rparr>, sample_world) = Some (c, dev', w')"
proof -
  let ?dev = "sample_dev\<lparr>dev_ctx := ctx, dev_is_initialized := False, dev_initialize_phase := 1\<rparr>"
  have "EndpointID_Number kDefaultControlPipeID = 0" "DeviceContextIndex_of_ep kDefaultControlPipeID = 1" by code_simp+
  moreover have "transfer_ring_inv 0 3 0x200000 [] (?dev, sample_world)"
    using sample_ring_inv by (simp add: transfer_ring_inv_def)
  ultimately have "\<exists>r. control_transfer (const_io 1) True kDefaultControlPipeID sd buf len (?dev, sample_world) = Some r"
    for sd buf len
    by (rule_tac control_transfer_pushes [of kDefaultControlPipeID 3 "0x200000" "[]" ?dev sample_world "const_io 1" True sd buf len])
      auto
  then show ?thesis
    by (auto simp: StartInitialize_def GetDescriptor_def ControlIn_def wait_for_def)
qed

lemma sample_addressed_state:
  "FindBySlot 1 (x_devmgr sample_addressed) = Some 1" "x_addressing_port sample_addressed = 1"
  "length (x_port_config_phase sample_addressed) = 256"
  "phase_of sample_addressed 1 = kAddressingDevice" "phase_of sample_addressed 2 = kWaitingAddressed"
  "x_port_config_phase sample_addressed ! 0 = kNotConnected" "x_port_config_phase sample_addressed ! 1 = kAddressingDevice"
  "x_world sample_addressed = sample_world"
  by (simp_all add: sample_addressed_def FindBySlot_def phase_of_def sample_new_def Controller_new_def)

lemma sample_device:
  "\<exists>a dev. device_at 1 sample_addressed = Some (a, dev) \<and> root_hub_port_num dev = 1 \<and> (\<exists>ctx. dev = sample_dev\<lparr>dev_ctx := ctx\<rparr>)"
proof -
  have "offset_of SlotContext ''root_hub_port_num'' = 48" "width_of SlotContext ''root_hub_port_num'' = 8" by code_simp+
  then show ?thesis
    by (auto simp: sample_addressed_def device_at_def root_hub_port_num_def rd_def wr_def bf_get_def bf_set_def)
qed

lemma sample_bits:
  assumes "v = 1 \<or> v = 0x1001"
  shows "portsc_bit (const_io v) ''current_connect_status'' port hw = (True, hw)"
    and "portsc_bit (const_io v) ''port_reset'' port hw = (False, hw)"
proof -
  have "offset_of PORTSC_Bitmap ''current_connect_status'' = 0" "width_of PORTSC_Bitmap ''current_connect_status'' = 1"
    "offset_of PORTSC_Bitmap ''port_reset'' = 4" "width_of PORTSC_Bitmap ''port_reset'' = 1" by code_simp+
  with assms show "portsc_bit (const_io v) ''current_connect_status'' port hw = (True, hw)"
    "portsc_bit (const_io v) ''port_reset'' port hw = (False, hw)"
    by (auto simp: portsc_bit_def rd_def bf_get_def)
qed

lemma sample_ResetPort:
  "v = 1 \<or> v = 0x1001 \<Longrightarrow> x_addressing_port x = 0 \<Longrightarrow> phase_of x (port_num port) \<in> {kNotConnected, kWaitingAddressed} \<Longrightarrow>
    ResetPort (const_io v) port x = Some (kSuccess, set_phase (port_num port) kResettingPort (x\<lparr>x_addressing_port := port_num port\<rparr>))"
  by (auto simp add: ResetPort_def on_hw_def IsConnected_def sample_bits Port_Number_def hw_try_def Port_Reset_def spin_once
    set_phase_def phase_of_def)

text \<open>The event ring holds a change of port 1, on which a device is connected.\<close>

definition sample_event :: "u64 Xhc" where
  "sample_event = sample_new\<lparr>x_er := (x_er sample_new)\<lparr>er_cycle_bit := True\<rparr>,
     x_world := sample_world\<lparr>w_mem := (\<lambda>a. if a = 0x1000 then 0x1000000 else if a = 0x100c then 0x8801 else 0)\<rparr>\<rparr>"

lemma sample_event_fields:
  "ERDP_Pointer 0x1001 = 0x1000" "rd TRB ''cycle_bit'' (0x8801000000000000000001000000 :: TRB) = 1"
  "rd TRB ''trb_type'' (0x8801000000000000000001000000 :: TRB) = 34"
  "rd PortStatusChangeEventTRB ''port_id'' (0x8801000000000000000001000000 :: TRB) = 1"
proof -
  have "map (\<lambda>(L, f). (offset_of L f, width_of L f)) [(ERDP_Bitmap, ''event_ring_dequeue_pointer''), (TRB, ''cycle_bit''),
      (TRB, ''trb_type''), (PortStatusChangeEventTRB, ''port_id'')] = [(4, 60), (96, 1), (106, 6), (24, 8)]"
    by code_simp
  then show "ERDP_Pointer 0x1001 = 0x1000" "rd TRB ''cycle_bit'' (0x8801000000000000000001000000 :: TRB) = 1"
    "rd TRB ''trb_type'' (0x8801000000000000000001000000 :: TRB) = 34"
    "rd PortStatusChangeEventTRB ''port_id'' (0x8801000000000000000001000000 :: TRB) = 1"
    by (simp_all add: ERDP_Pointer_def rd_def bf_get_def)
qed

lemma sample_event_trb:
  "trb_at (w_mem (x_world sample_event)) 0x1000 = 0x8801000000000000000001000000"
  "HasFront (const_io 0x1001) (x_er sample_event) (w_mem (x_world sample_event)) hw = (True, hw)"
  "Front (const_io 0x1001) er hw = (0x1000, hw)"
proof -
  show 1: "trb_at (w_mem (x_world sample_event)) 0x1000 = 0x8801000000000000000001000000"
    by (simp add: sample_event_def trb_at_def)
  show 2: "Front (const_io 0x1001) er hw = (0x1000, hw)" for er
    by (simp add: Front_def ReadDequeuePointer_def sample_event_fields)
  show "HasFront (const_io 0x1001) (x_er sample_event) (w_mem (x_world sample_event)) hw = (True, hw)"
    unfolding HasFront_def 2 by (simp add: 1 sample_event_fields) (simp add: sample_event_def)
qed

theorem ProcessEvent_refines_port_machine_witness:
  "case ProcessEvent (const_io 0x1001) sample_event of
     Some (c, x') \<Rightarrow> ports x' = ports sample_event \<or> port_step (ports sample_event) (ports x') | None \<Rightarrow> False"
proof -
  have x: "length (x_port_config_phase sample_event) = 256" "x_addressing_port sample_event = 0"
    "phase_of sample_event 1 = kNotConnected"
    by (simp_all add: sample_event_def sample_new_def Controller_new_def phase_of_def)
  have e: "next_event (const_io 0x1001) sample_event = 0x8801000000000000000001000000"
    by (simp add: next_event_def sample_event_trb)
  have valid: "valid_event (const_io 0x1001) sample_event"
    by (simp add: valid_event_def e sample_event_fields)
  have "\<exists>c y. dispatch_event (const_io 0x1001) 0x8801000000000000000001000000 sample_event = Some (c, y)"
    using x sample_ResetPort [of "0x1001" sample_event "PortAt 1 sample_event"]
    by (simp add: dispatch_event_def TRBDynamicCast_def TransferEventTRB_Type_def PortStatusChangeEventTRB_Type_def
      sample_event_fields OnPortStatusChange_def PortAt_def)
  then have "\<exists>r. ProcessEvent (const_io 0x1001) sample_event = Some r"
    by (auto simp: ProcessEvent_def on_hw_def sample_event_trb split: prod.split)
  then obtain c y where "ProcessEvent (const_io 0x1001) sample_event = Some (c, y)" by auto
  with ProcessEvent_refines_port_machine [OF this x(1) valid] show ?thesis by simp
qed

theorem address_assigned_starts_first_waiting_witness:
  "case OnAddressAssigned (const_io 1) 1 sample_addressed of
     Some (c, x') \<Rightarrow> c = kSuccess \<and> x_addressing_port x' = 2 \<and> phase_of x' 2 = kResettingPort
   | None \<Rightarrow> False"
proof -
  let ?x = "sample_addressed\<lparr>x_addressing_port := 0\<rparr>"
  obtain a dev ctx where dev: "device_at 1 sample_addressed = Some (a, dev)" "root_hub_port_num dev = 1"
    "dev = sample_dev\<lparr>dev_ctx := ctx\<rparr>" using sample_device by blast
  have p: "p = 0 \<or> p = 1" if "p < (2 :: u8)" for p
  proof -
    from that have "unat p < 2" by (simp add: word_less_nat_alt)
    then have "unat p = 0 \<or> unat p = 1" by linarith
    then show ?thesis by (auto simp: word_unat_eq_iff)
  qed
  have before: "\<forall>p<2. phase_of sample_addressed p \<noteq> kWaitingAddressed"
    by (auto simp: phase_of_def sample_addressed_state(6) sample_addressed_state(7) [unfolded One_nat_def] dest!: p)
  have phases: "x_port_config_phase sample_addressed ! j \<noteq> kWaitingAddressed" if "j < 2" for j
  proof -
    from that have "j = 0 \<or> j = 1" by linarith
    then show ?thesis using sample_addressed_state(6,7) by (elim disjE) simp_all
  qed
  have "start_next_port (const_io 1) [0..<256] ?x = ResetPort (const_io 1) (PortAt (of_nat 2) ?x) ?x"
    by (rule start_next_port_first)
      (use phases sample_addressed_state(3,5) in \<open>simp_all add: phase_of_def\<close>)
  then have next_port: "start_next_port (const_io 1) [0..<256] ?x =
      Some (kSuccess, set_phase 2 kResettingPort (?x\<lparr>x_addressing_port := 2\<rparr>))"
    using sample_ResetPort [of 1 ?x "PortAt 2 ?x"] sample_addressed_state(5) by (simp add: PortAt_def phase_of_def)
  obtain c dev' w' where start: "StartInitialize (const_io 1) (dev, sample_world) = Some (c, dev', w')"
    using sample_StartInitialize dev(3) by blast
  have "\<exists>r. OnAddressAssigned (const_io 1) 1 sample_addressed = Some r"
    using dev(1,2) start next_port sample_addressed_state
    by (simp add: OnAddressAssigned_def or_return_def InitializeDevice_def on_device_def set_phase_def device_at_def)
  then obtain c x' where r: "OnAddressAssigned (const_io 1) 1 sample_addressed = Some (c, x')" by auto
  have "fst (IsConnected (const_io 1) (PortAt 2 sample_addressed) (w_hw (x_world sample_addressed)))"
    by (simp add: IsConnected_def sample_bits)
  then show ?thesis
    using address_assigned_starts_first_waiting [OF r sample_addressed_state(3,1) dev(1), of 2] dev(2) before
      sample_addressed_state by (simp add: r)
qed

end
