(* ===== verification/KernelQueue.thy ===== *)
theory KernelQueue
  imports KernelError
begin

text \<open>
  \<open>ArrayQueue<T>\<close> (\<open>kernel/queue/queue.hpp\<close>): the bounded FIFO over a caller-supplied array in
  which the interrupt handler leaves messages for the main loop. The record has the class's
  members; an access past the array is undefined (\<open>None\<close>). The locale \<open>bounded_queue\<close> is the
  contract the kernel relies on; it is proved of the model here and gives the refinement of
  every sequence of operations to a bounded list.
\<close>

section \<open>The class\<close>

record 'a ArrayQueue =
  aq_data :: "'a list"
  aq_read_pos :: size_t
  aq_write_pos :: size_t
  aq_count :: size_t
  aq_capacity :: size_t

definition ArrayQueue_new :: "'a list \<Rightarrow> size_t \<Rightarrow> 'a ArrayQueue" where
  "ArrayQueue_new buf size' =
     \<lparr>aq_data = buf, aq_read_pos = 0, aq_write_pos = 0, aq_count = 0, aq_capacity = size'\<rparr>"

text \<open>The constructor from a \<open>std::array<T, N>\<close> passes the array's own length.\<close>

definition ArrayQueue_of_array :: "'a list \<Rightarrow> 'a ArrayQueue" where
  "ArrayQueue_of_array buf = ArrayQueue_new buf (length buf)"

definition ArrayQueue_Push :: "'a \<Rightarrow> 'a ArrayQueue \<Rightarrow> (Code \<times> 'a ArrayQueue) option" where
  "ArrayQueue_Push v q =
     (if aq_count q = aq_capacity q then Some (kFull, q)
      else if aq_write_pos q < length (aq_data q) then
        Some (kSuccess,
          q\<lparr>aq_data := (aq_data q)[aq_write_pos q := v],
            aq_write_pos := add64 (aq_write_pos q) 1 mod aq_capacity q,
            aq_count := add64 (aq_count q) 1\<rparr>)
      else None)"

definition ArrayQueue_Pop :: "'a ArrayQueue \<Rightarrow> Code \<times> 'a ArrayQueue" where
  "ArrayQueue_Pop q =
     (if aq_count q = 0 then (kEmpty, q)
      else (kSuccess,
        q\<lparr>aq_read_pos := add64 (aq_read_pos q) 1 mod aq_capacity q,
          aq_count := sub64 (aq_count q) 1\<rparr>))"

definition ArrayQueue_Count :: "'a ArrayQueue \<Rightarrow> size_t" where
  "ArrayQueue_Count q = aq_count q"

definition ArrayQueue_Capacity :: "'a ArrayQueue \<Rightarrow> size_t" where
  "ArrayQueue_Capacity q = aq_capacity q"

definition ArrayQueue_Front :: "'a ArrayQueue \<Rightarrow> 'a option" where
  "ArrayQueue_Front q =
     (if aq_read_pos q < length (aq_data q) then Some (aq_data q ! aq_read_pos q) else None)"

section \<open>Representation invariant and abstraction\<close>

definition aq_inv :: "'a ArrayQueue \<Rightarrow> bool" where
  "aq_inv q \<longleftrightarrow> aq_capacity q \<le> length (aq_data q) \<and> aq_capacity q < 2 ^ 64 \<and>
     aq_count q \<le> aq_capacity q \<and>
     (aq_read_pos q < aq_capacity q \<or> aq_capacity q = 0 \<and> aq_read_pos q = 0) \<and>
     aq_write_pos q = (aq_read_pos q + aq_count q) mod aq_capacity q"

text \<open>The queued elements, oldest first.\<close>

definition aq_list :: "'a ArrayQueue \<Rightarrow> 'a list" where
  "aq_list q = map (\<lambda>i. aq_data q ! ((aq_read_pos q + i) mod aq_capacity q)) [0..<aq_count q]"

lemma length_aq_list [simp]: "length (aq_list q) = aq_count q"
  by (simp add: aq_list_def)

lemma aq_inv_new: "size' \<le> length buf \<Longrightarrow> size' < 2 ^ 64 \<Longrightarrow> aq_inv (ArrayQueue_new buf size')"
  by (auto simp: aq_inv_def ArrayQueue_new_def)

lemma aq_list_new [simp]: "aq_list (ArrayQueue_new buf size') = []"
  by (simp add: aq_list_def ArrayQueue_new_def)

text \<open>Two positions less than a capacity apart are different slots of the ring.\<close>

lemma ring_slots_distinct:
  assumes "i < j" and "j - i < (c :: nat)"
  shows "(r + i) mod c \<noteq> (r + j) mod c"
proof
  assume "(r + i) mod c = (r + j) mod c"
  then have "c dvd (r + j) - (r + i)" by (metis mod_eq_dvd_iff_nat nat_add_left_cancel_le assms(1) less_imp_le)
  with assms show False by (auto dest: dvd_imp_le)
qed

lemma ArrayQueue_Push_full:
  "aq_count q = aq_capacity q \<Longrightarrow> ArrayQueue_Push v q = Some (kFull, q)"
  by (simp add: ArrayQueue_Push_def)

lemma ArrayQueue_Push_room:
  assumes "aq_inv q" and "aq_count q \<noteq> aq_capacity q"
  shows "\<exists>q'. ArrayQueue_Push v q = Some (kSuccess, q') \<and> aq_inv q' \<and>
    aq_list q' = aq_list q @ [v] \<and> aq_capacity q' = aq_capacity q"
proof -
  let ?c = "aq_capacity q" and ?w = "aq_write_pos q" and ?n = "aq_count q" and ?r = "aq_read_pos q"
  from assms have c: "0 < ?c" "?n < ?c" "?r < ?c" "?c < 2 ^ 64" "?c \<le> length (aq_data q)"
    and w: "?w = (?r + ?n) mod ?c"
    by (auto simp: aq_inv_def)
  then have wc: "?w < ?c" by simp
  have w': "add64 ?w 1 mod ?c = (?r + (?n + 1)) mod ?c"
    using wc c(4) by (simp add: w mod_simps)
  have n': "add64 ?n 1 = ?n + 1" using c by simp
  have *: "(?r + i) mod ?c \<noteq> ?w" if "i < ?n" for i
    unfolding w using ring_slots_distinct [of i ?n ?c ?r] that c by linarith
  define q' where "q' = q\<lparr>aq_data := (aq_data q)[?w := v], aq_write_pos := add64 ?w 1 mod ?c,
    aq_count := add64 ?n 1\<rparr>"
  have "map (\<lambda>i. (aq_data q)[?w := v] ! ((?r + i) mod ?c)) [0..<?n] = aq_list q"
    unfolding aq_list_def using * by (intro map_cong) (force intro: nth_list_update_neq)+
  moreover have "(aq_data q)[?w := v] ! ((?r + ?n) mod ?c) = v"
    using wc c(5) by (simp flip: w)
  ultimately have "aq_list q' = aq_list q @ [v]"
    using n' by (simp add: aq_list_def q'_def)
  moreover have "aq_inv q'"
    unfolding aq_inv_def q'_def using c n' w' by simp
  ultimately show ?thesis
    using assms(2) wc c by (auto simp: ArrayQueue_Push_def q'_def)
qed

lemma ArrayQueue_Pop_empty: "aq_count q = 0 \<Longrightarrow> ArrayQueue_Pop q = (kEmpty, q)"
  by (simp add: ArrayQueue_Pop_def)

lemma ArrayQueue_Pop_nonempty:
  assumes "aq_inv q" and "aq_count q \<noteq> 0"
  shows "\<exists>q'. ArrayQueue_Pop q = (kSuccess, q') \<and> aq_inv q' \<and>
    aq_list q' = tl (aq_list q) \<and> aq_capacity q' = aq_capacity q"
proof -
  let ?c = "aq_capacity q" and ?n = "aq_count q" and ?r = "aq_read_pos q"
  from assms have c: "0 < ?c" "?n \<le> ?c" "?r < ?c" "?c < 2 ^ 64" "?c \<le> length (aq_data q)"
    and w: "aq_write_pos q = (?r + ?n) mod ?c"
    by (auto simp: aq_inv_def)
  have r': "add64 ?r 1 = ?r + 1" and n': "sub64 ?n 1 = ?n - 1" and n: "0 < ?n"
    using c assms(2) by simp_all
  define q' where "q' = q\<lparr>aq_read_pos := add64 ?r 1 mod ?c, aq_count := sub64 ?n 1\<rparr>"
  have "tl (aq_list q) = map (\<lambda>i. aq_data q ! ((?r + i) mod ?c)) [1..<?n]"
    using n by (simp add: aq_list_def upt_conv_Cons flip: map_tl)
  also have "\<dots> = map (\<lambda>i. aq_data q ! ((?r + Suc i) mod ?c)) [0..<?n - 1]"
    by (rule nth_equalityI) auto
  also have "\<dots> = aq_list q'"
    using r' n' by (simp add: aq_list_def q'_def mod_simps)
  finally have "aq_list q' = tl (aq_list q)" by simp
  moreover have "aq_inv q'"
  proof -
    have "(Suc ?r mod ?c + (?n - 1)) mod ?c = (?r + ?n) mod ?c"
      using n by (cases ?n) (simp_all add: mod_simps)
    then show ?thesis
      unfolding aq_inv_def q'_def using c n n' r' by (simp add: w)
  qed
  ultimately show ?thesis
    using assms(2) by (auto simp: ArrayQueue_Pop_def q'_def)
qed

lemma ArrayQueue_Front_nonempty:
  assumes "aq_inv q" and "aq_list q \<noteq> []"
  shows "ArrayQueue_Front q = Some (hd (aq_list q))"
proof -
  from assms have "aq_count q \<noteq> 0" by (metis length_aq_list length_0_conv)
  with assms(1) show ?thesis
    by (auto simp: ArrayQueue_Front_def aq_list_def aq_inv_def hd_map hd_conv_nth)
qed

section \<open>The contract of a bounded queue\<close>

datatype 'a queue_op = PushOp 'a | PopOp

text \<open>Runs of the operations, with the codes they return: of an implementation, and of a list.\<close>

fun run_ops ::
  "('a \<Rightarrow> 'q \<Rightarrow> (Code \<times> 'q) option) \<Rightarrow> ('q \<Rightarrow> Code \<times> 'q) \<Rightarrow> 'a queue_op list \<Rightarrow> 'q \<Rightarrow> (Code list \<times> 'q) option"
where
  "run_ops push pop [] q = Some ([], q)"
| "run_ops push pop (PushOp v # ops) q = do {
     (c, q1) \<leftarrow> push v q;
     (cs, q2) \<leftarrow> run_ops push pop ops q1;
     Some (c # cs, q2)
   }"
| "run_ops push pop (PopOp # ops) q = do {
     let (c, q1) = pop q;
     (cs, q2) \<leftarrow> run_ops push pop ops q1;
     Some (c # cs, q2)
   }"

fun list_ops :: "nat \<Rightarrow> 'a queue_op list \<Rightarrow> 'a list \<Rightarrow> Code list \<times> 'a list" where
  "list_ops n [] xs = ([], xs)"
| "list_ops n (PushOp v # ops) xs =
     (if length xs = n then map_prod (Cons kFull) id (list_ops n ops xs)
      else map_prod (Cons kSuccess) id (list_ops n ops (xs @ [v])))"
| "list_ops n (PopOp # ops) xs =
     (if xs = [] then map_prod (Cons kEmpty) id (list_ops n ops xs)
      else map_prod (Cons kSuccess) id (list_ops n ops (tl xs)))"

locale bounded_queue =
  fixes push :: "'a \<Rightarrow> 'q \<Rightarrow> (Code \<times> 'q) option"
    and pop :: "'q \<Rightarrow> Code \<times> 'q"
    and front :: "'q \<Rightarrow> 'a option"
    and room :: "'q \<Rightarrow> nat"
    and contents :: "'q \<Rightarrow> 'a list"
    and invar :: "'q \<Rightarrow> bool"
  assumes push_full: "invar q \<Longrightarrow> length (contents q) = room q \<Longrightarrow> push v q = Some (kFull, q)"
    and push_room: "invar q \<Longrightarrow> length (contents q) \<noteq> room q \<Longrightarrow>
      \<exists>q'. push v q = Some (kSuccess, q') \<and> invar q' \<and> contents q' = contents q @ [v] \<and> room q' = room q"
    and pop_empty: "invar q \<Longrightarrow> contents q = [] \<Longrightarrow> pop q = (kEmpty, q)"
    and pop_nonempty: "invar q \<Longrightarrow> contents q \<noteq> [] \<Longrightarrow>
      \<exists>q'. pop q = (kSuccess, q') \<and> invar q' \<and> contents q' = tl (contents q) \<and> room q' = room q"
    and front_nonempty: "invar q \<Longrightarrow> contents q \<noteq> [] \<Longrightarrow> front q = Some (hd (contents q))"
    and contents_bounded: "invar q \<Longrightarrow> length (contents q) \<le> room q"
begin

text \<open>Every sequence of operations behaves like the bounded list, return codes included.\<close>

lemma run_refines_list:
  "invar q \<Longrightarrow> \<exists>q'. run_ops push pop ops q = Some (fst (list_ops (room q) ops (contents q)), q') \<and>
     invar q' \<and> contents q' = snd (list_ops (room q) ops (contents q)) \<and> room q' = room q"
proof (induction ops arbitrary: q)
  case Nil
  then show ?case by simp
next
  case (Cons opr ops)
  show ?case
  proof (cases opr)
    case (PushOp v)
    show ?thesis
    proof (cases "length (contents q) = room q")
      case True
      with Cons.IH [OF Cons.prems] push_full [OF Cons.prems True] PushOp show ?thesis by auto
    next
      case False
      then obtain q1 where q1: "push v q = Some (kSuccess, q1)" "invar q1"
        "contents q1 = contents q @ [v]" "room q1 = room q"
        using push_room [OF Cons.prems] by blast
      from Cons.IH [OF q1(2)] q1 False PushOp show ?thesis by auto
    qed
  next
    case PopOp
    show ?thesis
    proof (cases "contents q = []")
      case True
      with Cons.IH [OF Cons.prems] pop_empty [OF Cons.prems True] PopOp show ?thesis by auto
    next
      case False
      then obtain q1 where q1: "pop q = (kSuccess, q1)" "invar q1"
        "contents q1 = tl (contents q)" "room q1 = room q"
        using pop_nonempty [OF Cons.prems] by blast
      from Cons.IH [OF q1(2)] q1 False PopOp show ?thesis by auto
    qed
  qed
qed

text \<open>What is pushed into enough room comes out in order.\<close>

lemma push_all_fifo:
  "invar q \<Longrightarrow> length (contents q) + length vs \<le> room q \<Longrightarrow>
   \<exists>q'. run_ops push pop (map PushOp vs) q = Some (replicate (length vs) kSuccess, q') \<and>
     invar q' \<and> contents q' = contents q @ vs \<and> room q' = room q"
proof (induction vs arbitrary: q)
  case Nil
  then show ?case by simp
next
  case (Cons v vs)
  then have "length (contents q) \<noteq> room q" by simp
  then obtain q1 where q1: "push v q = Some (kSuccess, q1)" "invar q1"
    "contents q1 = contents q @ [v]" "room q1 = room q"
    using push_room [OF Cons.prems(1)] by blast
  moreover have "length (contents q1) + length vs \<le> room q1"
    using q1 Cons.prems(2) by simp
  ultimately show ?case using Cons.IH [OF q1(2)] by auto
qed

end

interpretation aq: bounded_queue ArrayQueue_Push ArrayQueue_Pop ArrayQueue_Front
  ArrayQueue_Capacity aq_list aq_inv
proof unfold_locales
  fix q :: "'a ArrayQueue" and v :: 'a
  assume inv: "aq_inv q"
  show "length (aq_list q) = ArrayQueue_Capacity q \<Longrightarrow> ArrayQueue_Push v q = Some (kFull, q)"
    by (simp add: ArrayQueue_Capacity_def ArrayQueue_Push_full)
  show "length (aq_list q) \<noteq> ArrayQueue_Capacity q \<Longrightarrow>
    \<exists>q'. ArrayQueue_Push v q = Some (kSuccess, q') \<and> aq_inv q' \<and> aq_list q' = aq_list q @ [v] \<and>
      ArrayQueue_Capacity q' = ArrayQueue_Capacity q"
    using ArrayQueue_Push_room [OF inv] by (simp add: ArrayQueue_Capacity_def)
  show "aq_list q = [] \<Longrightarrow> ArrayQueue_Pop q = (kEmpty, q)"
    by (simp add: ArrayQueue_Pop_empty flip: length_aq_list)
  show "aq_list q \<noteq> [] \<Longrightarrow>
    \<exists>q'. ArrayQueue_Pop q = (kSuccess, q') \<and> aq_inv q' \<and> aq_list q' = tl (aq_list q) \<and>
      ArrayQueue_Capacity q' = ArrayQueue_Capacity q"
    using ArrayQueue_Pop_nonempty [OF inv] by (simp add: ArrayQueue_Capacity_def flip: length_aq_list)
  show "aq_list q \<noteq> [] \<Longrightarrow> ArrayQueue_Front q = Some (hd (aq_list q))"
    by (rule ArrayQueue_Front_nonempty [OF inv])
  show "length (aq_list q) \<le> ArrayQueue_Capacity q"
    using inv by (simp add: aq_inv_def ArrayQueue_Capacity_def)
qed

section \<open>Properties\<close>

text \<open>
  C21. Starting from a constructed queue, every sequence of pushes and pops returns, never
  touches memory outside the array, gives the codes \<open>kSuccess\<close>, \<open>kFull\<close> and \<open>kEmpty\<close> a list of
  at most the capacity would give, and leaves that list's elements in the queue.
\<close>

theorem ArrayQueue_refines_bounded_list:
  assumes "length buf < 2 ^ 64"
  shows "\<exists>q'. run_ops ArrayQueue_Push ArrayQueue_Pop ops (ArrayQueue_of_array buf)
      = Some (fst (list_ops (length buf) ops []), q') \<and>
    aq_inv q' \<and> aq_list q' = snd (list_ops (length buf) ops [])"
  using aq.run_refines_list [of "ArrayQueue_of_array buf" ops] aq_inv_new [of "length buf" buf] assms
  by (auto simp: ArrayQueue_of_array_def ArrayQueue_Capacity_def ArrayQueue_new_def aq_list_def)

theorem ArrayQueue_refines_bounded_list_witness:
  "\<exists>q'. run_ops ArrayQueue_Push ArrayQueue_Pop
      [PushOp 1, PushOp 2, PushOp 3, PopOp, PushOp (4 :: nat)] (ArrayQueue_of_array [0, 0])
      = Some ([kSuccess, kSuccess, kFull, kSuccess, kSuccess], q') \<and> aq_list q' = [2, 4]"
  using ArrayQueue_refines_bounded_list
    [of "[0, 0]" "[PushOp 1, PushOp 2, PushOp 3, PopOp, PushOp (4 :: nat)]"]
  by auto

end
