(* ===== verification/Pci.thy ===== *)
theory Pci
  imports KernelError
begin

text \<open>
  PCI enumeration and configuration (\<open>kernel/pci\<close>). The two port instructions are a parameter
  over the state \<open>'hw\<close> of the hardware (record \<open>PortIO\<close>); what the proofs use of them, that
  reading a configuration register returns its value and changes none, is the predicate
  \<open>config_space\<close>. The scan of a bus calls itself for the bus behind a bridge: the depth is
  counted down, and since every level adds a device to a table of 32, a depth of 33 is never
  used up, whatever the hardware answers.
\<close>

section \<open>Ports and addresses\<close>

record 'hw PortIO =
  io_IoOut32 :: "u16 \<Rightarrow> u32 \<Rightarrow> 'hw \<Rightarrow> 'hw"
  io_IoIn32 :: "u16 \<Rightarrow> 'hw \<Rightarrow> u32 \<times> 'hw"

definition kConfigAddress :: u16 where "kConfigAddress = 0x0cf8"
definition kDataAddress :: u16 where "kDataAddress = 0x0cfc"
definition kCapabilityMSI :: u32 where "kCapabilityMSI = 0x05"
definition kCapabilityMSIX :: u32 where "kCapabilityMSIX = 0x11"

definition WriteAddress :: "'hw PortIO \<Rightarrow> u32 \<Rightarrow> 'hw \<Rightarrow> 'hw" where
  "WriteAddress io address = io_IoOut32 io kConfigAddress address"

definition WriteData :: "'hw PortIO \<Rightarrow> u32 \<Rightarrow> 'hw \<Rightarrow> 'hw" where
  "WriteData io v = io_IoOut32 io kDataAddress v"

definition ReadData :: "'hw PortIO \<Rightarrow> 'hw \<Rightarrow> u32 \<times> 'hw" where
  "ReadData io = io_IoIn32 io kDataAddress"

definition MakeAddress :: "u8 \<Rightarrow> u8 \<Rightarrow> u8 \<Rightarrow> u8 \<Rightarrow> u32" where
  "MakeAddress bus device function offset =
     push_bit 31 1 OR push_bit 16 (ucast bus) OR push_bit 11 (ucast device) OR
     push_bit 8 (ucast function) OR (ucast offset AND 0xfc)"

section \<open>Devices\<close>

record ClassCode =
  cc_base :: u8
  cc_sub :: u8
  cc_interface :: u8

definition Match1 :: "ClassCode \<Rightarrow> u8 \<Rightarrow> bool" where
  "Match1 cc b \<longleftrightarrow> b = cc_base cc"

definition Match2 :: "ClassCode \<Rightarrow> u8 \<Rightarrow> u8 \<Rightarrow> bool" where
  "Match2 cc b s \<longleftrightarrow> Match1 cc b \<and> s = cc_sub cc"

definition Match3 :: "ClassCode \<Rightarrow> u8 \<Rightarrow> u8 \<Rightarrow> u8 \<Rightarrow> bool" where
  "Match3 cc b s i \<longleftrightarrow> Match2 cc b s \<and> i = cc_interface cc"

record Device =
  dev_bus :: u8
  dev_device :: u8
  dev_function :: u8
  dev_header_type :: u8
  dev_class_code :: ClassCode

text \<open>The hardware with the globals \<open>num_device\<close> and \<open>devices\<close>, an array of 32.\<close>

record 'hw PciState =
  pci_hw :: 'hw
  pci_num_device :: nat
  pci_devices :: "Device list"

section \<open>Configuration registers\<close>

definition ReadVendorId :: "'hw PortIO \<Rightarrow> u8 \<Rightarrow> u8 \<Rightarrow> u8 \<Rightarrow> 'hw \<Rightarrow> u16 \<times> 'hw" where
  "ReadVendorId io bus device function hw =
     (let (v, hw) = ReadData io (WriteAddress io (MakeAddress bus device function 0x00) hw)
      in (ucast (v AND 0xffff), hw))"

definition ReadDeviceId :: "'hw PortIO \<Rightarrow> u8 \<Rightarrow> u8 \<Rightarrow> u8 \<Rightarrow> 'hw \<Rightarrow> u16 \<times> 'hw" where
  "ReadDeviceId io bus device function hw =
     (let (v, hw) = ReadData io (WriteAddress io (MakeAddress bus device function 0x00) hw)
      in (ucast (drop_bit 16 v AND 0xffff), hw))"

definition ReadHeaderType :: "'hw PortIO \<Rightarrow> u8 \<Rightarrow> u8 \<Rightarrow> u8 \<Rightarrow> 'hw \<Rightarrow> u8 \<times> 'hw" where
  "ReadHeaderType io bus device function hw =
     (let (v, hw) = ReadData io (WriteAddress io (MakeAddress bus device function 0x0c) hw)
      in (ucast (drop_bit 16 v AND 0xff), hw))"

definition ReadClassCode :: "'hw PortIO \<Rightarrow> u8 \<Rightarrow> u8 \<Rightarrow> u8 \<Rightarrow> 'hw \<Rightarrow> ClassCode \<times> 'hw" where
  "ReadClassCode io bus device function hw =
     (let (reg, hw) = ReadData io (WriteAddress io (MakeAddress bus device function 0x08) hw)
      in (\<lparr>cc_base = ucast (drop_bit 24 reg AND 0xff), cc_sub = ucast (drop_bit 16 reg AND 0xff),
           cc_interface = ucast (drop_bit 8 reg AND 0xff)\<rparr>, hw))"

definition ReadBusNumbers :: "'hw PortIO \<Rightarrow> u8 \<Rightarrow> u8 \<Rightarrow> u8 \<Rightarrow> 'hw \<Rightarrow> u32 \<times> 'hw" where
  "ReadBusNumbers io bus device function hw =
     ReadData io (WriteAddress io (MakeAddress bus device function 0x18) hw)"

definition ReadConfReg :: "'hw PortIO \<Rightarrow> Device \<Rightarrow> u8 \<Rightarrow> 'hw \<Rightarrow> u32 \<times> 'hw" where
  "ReadConfReg io dev reg_addr hw =
     ReadData io (WriteAddress io (MakeAddress (dev_bus dev) (dev_device dev) (dev_function dev) reg_addr) hw)"

definition WriteConfReg :: "'hw PortIO \<Rightarrow> Device \<Rightarrow> u8 \<Rightarrow> u32 \<Rightarrow> 'hw \<Rightarrow> 'hw" where
  "WriteConfReg io dev reg_addr v hw =
     WriteData io v (WriteAddress io (MakeAddress (dev_bus dev) (dev_device dev) (dev_function dev) reg_addr) hw)"

definition ReadVendorId_dev :: "'hw PortIO \<Rightarrow> Device \<Rightarrow> 'hw \<Rightarrow> u16 \<times> 'hw" where
  "ReadVendorId_dev io dev = ReadVendorId io (dev_bus dev) (dev_device dev) (dev_function dev)"

definition IsSingleFunctionDevice :: "u8 \<Rightarrow> bool" where
  "IsSingleFunctionDevice header_type \<longleftrightarrow> header_type AND 0x80 = 0"

section \<open>Enumeration\<close>

definition AddDevice :: "Device \<Rightarrow> 'hw PciState fallible" where
  "AddDevice device st =
     (if pci_num_device st = length (pci_devices st) then Some (kFull, st)
      else if pci_num_device st < length (pci_devices st)
      then Some (kSuccess, st\<lparr>pci_devices := (pci_devices st)[pci_num_device st := device],
             pci_num_device := pci_num_device st + 1\<rparr>)
      else None)"

text \<open>\<open>scan_bus\<close> stands for the recursive call of \<open>ScanBus\<close>.\<close>

definition ScanFunction ::
  "'hw PortIO \<Rightarrow> (u8 \<Rightarrow> 'hw PciState fallible) \<Rightarrow> u8 \<Rightarrow> u8 \<Rightarrow> u8 \<Rightarrow> 'hw PciState fallible" where
  "ScanFunction io scan_bus bus device function st =
     (let (class_code, hw) = ReadClassCode io bus device function (pci_hw st);
          (header_type, hw) = ReadHeaderType io bus device function hw;
          dev = \<lparr>dev_bus = bus, dev_device = device, dev_function = function,
                 dev_header_type = header_type, dev_class_code = class_code\<rparr>
      in or_return (AddDevice dev)
           (\<lambda>st. if Match2 class_code 0x06 0x04 then
               let (bus_numbers, hw) = ReadBusNumbers io bus device function (pci_hw st);
                   secondary_bus = ucast (drop_bit 8 bus_numbers AND 0xff)
               in scan_bus secondary_bus (st\<lparr>pci_hw := hw\<rparr>)
             else Some (kSuccess, st))
           (st\<lparr>pci_hw := hw\<rparr>))"

text \<open>\<open>if (ReadVendorId(bus, device, function) == 0xffffu) continue;\<close> before the rest of a loop body.\<close>

definition if_present ::
  "'hw PortIO \<Rightarrow> u8 \<Rightarrow> u8 \<Rightarrow> u8 \<Rightarrow> 'hw PciState fallible \<Rightarrow> 'hw PciState fallible" where
  "if_present io bus device function rest st =
     (let (vendor, hw) = ReadVendorId io bus device function (pci_hw st); st = st\<lparr>pci_hw := hw\<rparr>
      in if vendor = 0xffff then Some (kSuccess, st) else rest st)"

definition ScanDevice ::
  "'hw PortIO \<Rightarrow> (u8 \<Rightarrow> 'hw PciState fallible) \<Rightarrow> u8 \<Rightarrow> u8 \<Rightarrow> 'hw PciState fallible" where
  "ScanDevice io scan_bus bus device =
     or_return (ScanFunction io scan_bus bus device 0)
       (\<lambda>st. let (header_type, hw) = ReadHeaderType io bus device 0 (pci_hw st); st = st\<lparr>pci_hw := hw\<rparr> in
          if IsSingleFunctionDevice header_type then Some (kSuccess, st)
          else each_or_return (\<lambda>function.
            if_present io bus device function (ScanFunction io scan_bus bus device function))
            (map word_of_nat [1..<8]) st)"

primrec ScanBus_depth :: "'hw PortIO \<Rightarrow> nat \<Rightarrow> u8 \<Rightarrow> 'hw PciState fallible" where
  "ScanBus_depth io 0 bus st = None"
| "ScanBus_depth io (Suc n) bus st =
     each_or_return (\<lambda>device. if_present io bus device 0 (ScanDevice io (ScanBus_depth io n) bus device))
       (map word_of_nat [0..<32]) st"

definition ScanBus :: "'hw PortIO \<Rightarrow> u8 \<Rightarrow> 'hw PciState fallible" where
  "ScanBus io = ScanBus_depth io 33"

definition ScanAllBus :: "'hw PortIO \<Rightarrow> 'hw PciState fallible" where
  "ScanAllBus io st =
     (let st = st\<lparr>pci_num_device := 0\<rparr>;
          (header_type, hw) = ReadHeaderType io 0 0 0 (pci_hw st); st = st\<lparr>pci_hw := hw\<rparr>
      in if IsSingleFunctionDevice header_type then ScanBus io 0 st
         else each_or_return (\<lambda>function. if_present io 0 0 function (ScanBus io function))
           (map word_of_nat [0..<8]) st)"

section \<open>Base addresses and message-signalled interrupts\<close>

definition CalcBarAddress :: "u32 \<Rightarrow> u8" where
  "CalcBarAddress bar_index = ucast (0x10 + bar_index * 4)"

definition ReadBar :: "'hw PortIO \<Rightarrow> Device \<Rightarrow> u32 \<Rightarrow> 'hw \<Rightarrow> u64 Either \<times> 'hw" where
  "ReadBar io dev bar_index hw =
     (if 6 \<le> bar_index then (\<lparr>either_value = 0, either_error = kIndexOutOfRange\<rparr>, hw)
      else
        let addr = CalcBarAddress bar_index; (bar, hw) = ReadConfReg io dev addr hw in
        if bar AND 4 = 0 then (\<lparr>either_value = ucast bar, either_error = kSuccess\<rparr>, hw)
        else if 5 \<le> bar_index then (\<lparr>either_value = 0, either_error = kIndexOutOfRange\<rparr>, hw)
        else
          let (bar_upper, hw) = ReadConfReg io dev (addr + 4) hw
          in (\<lparr>either_value = ucast bar OR push_bit 32 (ucast bar_upper), either_error = kSuccess\<rparr>, hw))"

datatype MSITriggerMode = kEdge | kLevel
datatype MSIDeliveryMode = kFixed

definition MSIDeliveryMode_code :: "MSIDeliveryMode \<Rightarrow> u32" where
  "MSIDeliveryMode_code m = (case m of kFixed \<Rightarrow> 0)"

type_synonym CapabilityHeader = u32

definition ch_cap_id :: "CapabilityHeader \<Rightarrow> u32" where "ch_cap_id = bf_get 0 8"
definition ch_next_ptr :: "CapabilityHeader \<Rightarrow> u32" where "ch_next_ptr = bf_get 8 8"

definition ReadCapabilityHeader :: "'hw PortIO \<Rightarrow> Device \<Rightarrow> u8 \<Rightarrow> 'hw \<Rightarrow> CapabilityHeader \<times> 'hw" where
  "ReadCapabilityHeader io dev addr = ReadConfReg io dev addr"

record MSICapability =
  msi_header :: u32
  msi_msg_addr :: u32
  msi_msg_upper_addr :: u32
  msi_msg_data :: u32
  msi_mask_bits :: u32
  msi_pending_bits :: u32

definition msi_enable :: "u32 \<Rightarrow> u32 \<Rightarrow> u32" where "msi_enable = bf_set 16 1"
definition multi_msg_capable :: "u32 \<Rightarrow> u32" where "multi_msg_capable = bf_get 17 3"
definition multi_msg_enable :: "u32 \<Rightarrow> u32 \<Rightarrow> u32" where "multi_msg_enable = bf_set 20 3"
definition addr_64_capable :: "u32 \<Rightarrow> bool" where "addr_64_capable h \<longleftrightarrow> bf_get 23 1 h \<noteq> 0"
definition per_vector_mask_capable :: "u32 \<Rightarrow> bool" where "per_vector_mask_capable h \<longleftrightarrow> bf_get 24 1 h \<noteq> 0"

definition ReadMSICapability :: "'hw PortIO \<Rightarrow> Device \<Rightarrow> u8 \<Rightarrow> 'hw \<Rightarrow> MSICapability \<times> 'hw" where
  "ReadMSICapability io dev cap_addr hw =
     (let (h, hw) = ReadConfReg io dev cap_addr hw;
          (msg_addr, hw) = ReadConfReg io dev (cap_addr + 4) hw;
          (msg_upper_addr, msg_data_addr, hw) =
            (if addr_64_capable h
             then let (v, hw) = ReadConfReg io dev (cap_addr + 8) hw in (v, cap_addr + 12, hw)
             else (0, cap_addr + 8, hw));
          (msg_data, hw) = ReadConfReg io dev msg_data_addr hw;
          (mask_bits, pending_bits, hw) =
            (if per_vector_mask_capable h
             then let (a, hw) = ReadConfReg io dev (msg_data_addr + 4) hw;
                      (b, hw) = ReadConfReg io dev (msg_data_addr + 8) hw in (a, b, hw)
             else (0, 0, hw))
      in (\<lparr>msi_header = h, msi_msg_addr = msg_addr, msi_msg_upper_addr = msg_upper_addr,
           msi_msg_data = msg_data, msi_mask_bits = mask_bits, msi_pending_bits = pending_bits\<rparr>, hw))"

definition WriteMSICapability :: "'hw PortIO \<Rightarrow> Device \<Rightarrow> u8 \<Rightarrow> MSICapability \<Rightarrow> 'hw \<Rightarrow> 'hw" where
  "WriteMSICapability io dev cap_addr msi_cap hw =
     (let hw = WriteConfReg io dev cap_addr (msi_header msi_cap) hw;
          hw = WriteConfReg io dev (cap_addr + 4) (msi_msg_addr msi_cap) hw;
          (msg_data_addr, hw) =
            (if addr_64_capable (msi_header msi_cap)
             then (cap_addr + 12, WriteConfReg io dev (cap_addr + 8) (msi_msg_upper_addr msi_cap) hw)
             else (cap_addr + 8, hw));
          hw = WriteConfReg io dev msg_data_addr (msi_msg_data msi_cap) hw
      in if per_vector_mask_capable (msi_header msi_cap)
         then WriteConfReg io dev (msg_data_addr + 8) (msi_pending_bits msi_cap)
                (WriteConfReg io dev (msg_data_addr + 4) (msi_mask_bits msi_cap) hw)
         else hw)"

definition ConfigureMSIRegister :: "'hw PortIO \<Rightarrow> Device \<Rightarrow> u8 \<Rightarrow> u32 \<Rightarrow> u32 \<Rightarrow> u32 \<Rightarrow> 'hw \<Rightarrow> Code \<times> 'hw" where
  "ConfigureMSIRegister io dev cap_addr msg_addr msg_data num_vector_exponent hw =
     (let (msi_cap, hw) = ReadMSICapability io dev cap_addr hw;
          h = msi_header msi_cap;
          h = (if multi_msg_capable h \<le> num_vector_exponent
               then multi_msg_enable (multi_msg_capable h) h else multi_msg_enable num_vector_exponent h);
          h = msi_enable 1 h;
          msi_cap = msi_cap\<lparr>msi_header := h, msi_msg_addr := msg_addr, msi_msg_data := msg_data\<rparr>
      in (kSuccess, WriteMSICapability io dev cap_addr msi_cap hw))"

text \<open>The walk along the capability list, which a cyclic list never leaves.\<close>

partial_function (option) find_capabilities ::
  "'hw PortIO \<Rightarrow> Device \<Rightarrow> u8 \<Rightarrow> u8 \<Rightarrow> u8 \<Rightarrow> 'hw \<Rightarrow> (u8 \<times> u8 \<times> 'hw) option" where
  "find_capabilities io dev cap_pointer msi_cap_addr msix_cap_addr hw =
     (if cap_pointer = 0 then Some (msi_cap_addr, msix_cap_addr, hw)
      else
        let (header, hw) = ReadCapabilityHeader io dev cap_pointer hw in
        find_capabilities io dev (ucast (ch_next_ptr header))
          (if ch_cap_id header = kCapabilityMSI then cap_pointer else msi_cap_addr)
          (if ch_cap_id header \<noteq> kCapabilityMSI \<and> ch_cap_id header = kCapabilityMSIX then cap_pointer
           else msix_cap_addr) hw)"

definition ConfigureMSI :: "'hw PortIO \<Rightarrow> Device \<Rightarrow> u32 \<Rightarrow> u32 \<Rightarrow> u32 \<Rightarrow> 'hw fallible" where
  "ConfigureMSI io dev msg_addr msg_data num_vector_exponent hw =
     (let (v, hw) = ReadConfReg io dev 0x34 hw; cap_pointer = ucast (v AND 0xff) in
      case find_capabilities io dev cap_pointer 0 0 hw of
        None \<Rightarrow> None
      | Some (msi_cap_addr, msix_cap_addr, hw) \<Rightarrow>
          if msi_cap_addr \<noteq> 0
          then Some (ConfigureMSIRegister io dev msi_cap_addr msg_addr msg_data num_vector_exponent hw)
          else if msix_cap_addr \<noteq> 0 then Some (kNotImplemented, hw)
          else Some (kNoPCIMSI, hw))"

definition ConfigureMSIFixedDestination ::
  "'hw PortIO \<Rightarrow> Device \<Rightarrow> u8 \<Rightarrow> MSITriggerMode \<Rightarrow> MSIDeliveryMode \<Rightarrow> u8 \<Rightarrow> u32 \<Rightarrow> 'hw fallible" where
  "ConfigureMSIFixedDestination io dev apic_id trigger_mode delivery_mode vector num_vector_exponent =
     (let msg_addr = 0xfee00000 OR push_bit 12 (ucast apic_id);
          msg_data = push_bit 8 (MSIDeliveryMode_code delivery_mode) OR ucast vector;
          msg_data = (if trigger_mode = kLevel then msg_data OR 0xc000 else msg_data)
      in ConfigureMSI io dev msg_addr msg_data num_vector_exponent)"

section \<open>The USB host controllers in main.cpp\<close>

text \<open>The loop of \<open>lookupXHC\<close> over the indices left; the result is an index into \<open>devices\<close>.\<close>

fun lookupXHC_loop ::
  "'hw PortIO \<Rightarrow> Device list \<Rightarrow> nat list \<Rightarrow> nat option \<Rightarrow> 'hw \<Rightarrow> nat option \<times> 'hw" where
  "lookupXHC_loop io devs [] xhc_dev hw = (xhc_dev, hw)"
| "lookupXHC_loop io devs (i # is) xhc_dev hw =
     (if Match3 (dev_class_code (devs ! i)) 0x0c 0x03 0x30 then
        let (vendor, hw) = ReadVendorId_dev io (devs ! i) hw in
        if 0x8086 = vendor then (Some i, hw) else lookupXHC_loop io devs is (Some i) hw
      else lookupXHC_loop io devs is xhc_dev hw)"

definition lookupXHC :: "'hw PortIO \<Rightarrow> 'hw PciState \<Rightarrow> nat option \<times> 'hw PciState" where
  "lookupXHC io st =
     (let (xhc_dev, hw) = lookupXHC_loop io (pci_devices st) [0..<pci_num_device st] None (pci_hw st)
      in (xhc_dev, st\<lparr>pci_hw := hw\<rparr>))"

text \<open>
  The start of the kernel's search: the scan, the loop that reads each function's vendor and class
  again for a message, and \<open>lookupXHC\<close>. The result of the scan is only logged.
\<close>

definition LogDevices :: "'hw PortIO \<Rightarrow> Device list \<Rightarrow> 'hw \<Rightarrow> 'hw" where
  "LogDevices io devs = fold (\<lambda>dev hw.
     let (vendor_id, hw) = ReadVendorId io (dev_bus dev) (dev_device dev) (dev_function dev) hw;
         (class_code, hw) = ReadClassCode io (dev_bus dev) (dev_device dev) (dev_function dev) hw
     in hw) devs"

definition ProbePci :: "'hw PortIO \<Rightarrow> 'hw PciState \<Rightarrow> (Code \<times> nat option \<times> 'hw PciState) option" where
  "ProbePci io st = do {
     (err, st) \<leftarrow> ScanAllBus io st;
     let st = st\<lparr>pci_hw := LogDevices io (take (pci_num_device st) (pci_devices st)) (pci_hw st)\<rparr>;
         (xhc_dev, st) = lookupXHC io st
     in Some (err, xhc_dev, st)
   }"

fun intel_ehc_exists :: "'hw PortIO \<Rightarrow> Device list \<Rightarrow> 'hw \<Rightarrow> bool \<times> 'hw" where
  "intel_ehc_exists io [] hw = (False, hw)"
| "intel_ehc_exists io (d # ds) hw =
     (if Match3 (dev_class_code d) 0x0c 0x03 0x20 then
        let (vendor, hw) = ReadVendorId_dev io d hw in
        if 0x8086 = vendor then (True, hw) else intel_ehc_exists io ds hw
      else intel_ehc_exists io ds hw)"

definition SwitchEhci2Xhci :: "'hw PortIO \<Rightarrow> Device \<Rightarrow> 'hw PciState \<Rightarrow> 'hw PciState" where
  "SwitchEhci2Xhci io xhc_dev st =
     (let (intel_ehc_exist, hw) = intel_ehc_exists io (take (pci_num_device st) (pci_devices st)) (pci_hw st)
      in if \<not> intel_ehc_exist then st\<lparr>pci_hw := hw\<rparr>
         else
           let (superspeed_ports, hw) = ReadConfReg io xhc_dev 0xdc hw;
               hw = WriteConfReg io xhc_dev 0xd8 superspeed_ports hw;
               (ehci2xhci_ports, hw) = ReadConfReg io xhc_dev 0xd4 hw;
               hw = WriteConfReg io xhc_dev 0xd0 ehci2xhci_ports hw
           in st\<lparr>pci_hw := hw\<rparr>)"

section \<open>The scan returns\<close>

definition pci_wf :: "'hw PciState \<Rightarrow> bool" where
  "pci_wf st \<longleftrightarrow> length (pci_devices st) = 32 \<and> pci_num_device st \<le> 32"

lemma pci_wf_hw [simp]: "pci_wf (st\<lparr>pci_hw := hw\<rparr>) = pci_wf st"
  by (simp add: pci_wf_def)

lemma AddDevice_cases:
  assumes "pci_wf st"
  obtains (full) "AddDevice d st = Some (kFull, st)" "pci_num_device st = 32"
    | (added) st' where "AddDevice d st = Some (kSuccess, st')" "pci_wf st'" "pci_hw st' = pci_hw st"
      "pci_num_device st' = Suc (pci_num_device st)"
      "take (pci_num_device st') (pci_devices st') = take (pci_num_device st) (pci_devices st) @ [d]"
proof (cases "pci_num_device st = 32")
  case True
  then show ?thesis using full assms by (simp add: AddDevice_def pci_wf_def)
next
  case False
  let ?st = "st\<lparr>pci_devices := (pci_devices st)[pci_num_device st := d], pci_num_device := pci_num_device st + 1\<rparr>"
  show ?thesis
    by (rule added [of ?st]) (use assms False in \<open>simp_all add: AddDevice_def pci_wf_def take_Suc_conv_app_nth\<close>)
qed

text \<open>A scan that returns, keeps the table well formed and never removes a device.\<close>

definition returns_growing :: "nat \<Rightarrow> (u8 \<Rightarrow> 'hw PciState fallible) \<Rightarrow> bool" where
  "returns_growing k scan \<longleftrightarrow> (\<forall>b st. pci_wf st \<and> k \<le> pci_num_device st \<longrightarrow>
     (\<exists>c st'. scan b st = Some (c, st') \<and> pci_wf st' \<and> k \<le> pci_num_device st'))"

lemma ScanFunction_returns:
  assumes "returns_growing (Suc k) scan" and "pci_wf st" and "k \<le> pci_num_device st"
  shows "\<exists>c st'. ScanFunction io scan b d f st = Some (c, st') \<and> pci_wf st' \<and> k \<le> pci_num_device st'"
proof -
  obtain cc hw1 where cc: "ReadClassCode io b d f (pci_hw st) = (cc, hw1)" by fastforce
  obtain ht hw2 where ht: "ReadHeaderType io b d f hw1 = (ht, hw2)" by fastforce
  let ?dev = "\<lparr>dev_bus = b, dev_device = d, dev_function = f, dev_header_type = ht, dev_class_code = cc\<rparr>"
  have wf: "pci_wf (st\<lparr>pci_hw := hw2\<rparr>)" using assms(2) by simp
  from wf show ?thesis
  proof (cases rule: AddDevice_cases [of _ ?dev])
    case full
    then show ?thesis using assms by (simp add: ScanFunction_def cc ht or_return_def)
  next
    case (added st1)
    obtain bn hw3 where bn: "ReadBusNumbers io b d f (pci_hw st1) = (bn, hw3)" by fastforce
    let ?sec = "ucast (drop_bit 8 bn AND 0xff) :: u8"
    have le: "Suc k \<le> pci_num_device st1" using added assms(3) by simp
    then obtain c st2 where "scan ?sec (st1\<lparr>pci_hw := hw3\<rparr>) = Some (c, st2)" "pci_wf st2"
      "Suc k \<le> pci_num_device st2"
      using assms(1) added(2) unfolding returns_growing_def by (metis (no_types, lifting) PciState.select_convs(2) PciState.surjective PciState.update_convs(1) pci_wf_hw)
    with added le show ?thesis
      by (auto simp: ScanFunction_def cc ht or_return_def bn Let_def)
  qed
qed

lemma if_present_returns:
  assumes "\<And>st. pci_wf st \<and> k \<le> pci_num_device st \<Longrightarrow>
      \<exists>c st'. rest st = Some (c, st') \<and> (pci_wf st' \<and> k \<le> pci_num_device st')"
    and "pci_wf st \<and> k \<le> pci_num_device st"
  shows "\<exists>c st'. if_present io b d f rest st = Some (c, st') \<and> (pci_wf st' \<and> k \<le> pci_num_device st')"
proof -
  obtain v hw where v: "ReadVendorId io b d f (pci_hw st) = (v, hw)" by fastforce
  show ?thesis
    using assms(1) [of "st\<lparr>pci_hw := hw\<rparr>"] assms(2) by (simp add: if_present_def v Let_def)
qed

lemma ScanDevice_returns:
  assumes "returns_growing (Suc k) scan" and "pci_wf st" and "k \<le> pci_num_device st"
  shows "\<exists>c st'. ScanDevice io scan b d st = Some (c, st') \<and> pci_wf st' \<and> k \<le> pci_num_device st'"
proof -
  from ScanFunction_returns [OF assms] obtain c st1 where
    1: "ScanFunction io scan b d 0 st = Some (c, st1)" "pci_wf st1" "k \<le> pci_num_device st1" by blast
  obtain ht hw where ht: "ReadHeaderType io b d 0 (pci_hw st1) = (ht, hw)" by fastforce
  have "\<exists>c st'. each_or_return (\<lambda>function. if_present io b d function (ScanFunction io scan b d function)) xs
      (st1\<lparr>pci_hw := hw\<rparr>) = Some (c, st') \<and> (pci_wf st' \<and> k \<le> pci_num_device st')" for xs
    by (rule each_or_return_total, use 1(2,3) in simp, rule if_present_returns)
      (use ScanFunction_returns [OF assms(1)] in blast)+
  then show ?thesis
    using 1 unfolding ScanDevice_def or_return_def by (simp add: ht Let_def del: set_map)
qed

lemma ScanBus_depth_returns: "returns_growing k (ScanBus_depth io (33 - k))" if "k \<le> 33"
  using that
proof (induction "33 - k" arbitrary: k)
  case 0
  then show ?case by (auto simp: returns_growing_def pci_wf_def)
next
  case (Suc n)
  then have n: "n = 33 - Suc k" "33 - k = Suc n" "Suc k \<le> 33" by simp_all
  have IH: "returns_growing (Suc k) (ScanBus_depth io n)"
    unfolding n(1) by (rule Suc.hyps(1)) (use n in simp_all)
  have "\<exists>c st'. each_or_return (\<lambda>device. if_present io b device 0 (ScanDevice io (ScanBus_depth io n) b device)) xs st =
      Some (c, st') \<and> (pci_wf st' \<and> k \<le> pci_num_device st')" if "pci_wf st \<and> k \<le> pci_num_device st" for b xs st
    by (rule each_or_return_total, use that in simp, rule if_present_returns)
      (use ScanDevice_returns [OF IH] in blast)+
  then show ?case
    unfolding returns_growing_def n(2) ScanBus_depth.simps(2) by blast
qed

text \<open>The depth does not matter once the scan returns.\<close>

lemma if_present_mono:
  "(\<And>st r. rest st = Some r \<Longrightarrow> rest' st = Some r) \<Longrightarrow> if_present io b d f rest st = Some r \<Longrightarrow>
    if_present io b d f rest' st = Some r"
  by (auto simp: if_present_def Let_def split: prod.splits if_splits)

lemma ScanFunction_mono:
  assumes "\<And>b st r. scan b st = Some r \<Longrightarrow> scan' b st = Some r"
    and "ScanFunction io scan b d f st = Some r"
  shows "ScanFunction io scan' b d f st = Some r"
  using assms(2) unfolding ScanFunction_def Let_def prod.case_eq_if
  by (rule or_return_mono [rotated 2]) (auto intro: assms(1) split: if_splits)

lemma ScanDevice_mono:
  assumes "\<And>b st r. scan b st = Some r \<Longrightarrow> scan' b st = Some r"
    and "ScanDevice io scan b d st = Some r"
  shows "ScanDevice io scan' b d st = Some r"
proof -
  have loop: "each_or_return (\<lambda>function. if_present io b d function (ScanFunction io scan b d function)) xs st = Some r \<Longrightarrow>
      each_or_return (\<lambda>function. if_present io b d function (ScanFunction io scan' b d function)) xs st = Some r" for xs st r
    by (erule each_or_return_mono [rotated], erule if_present_mono [rotated]) (rule ScanFunction_mono [OF assms(1)])
  show ?thesis
    using assms(2) unfolding ScanDevice_def Let_def prod.case_eq_if
    by (rule or_return_mono [rotated 2])
      (auto intro: ScanFunction_mono [OF assms(1)] loop split: if_splits)
qed

lemma ScanBus_depth_mono:
  "ScanBus_depth io n b st = Some r \<Longrightarrow> n \<le> m \<Longrightarrow> ScanBus_depth io m b st = Some r"
proof (induction n arbitrary: m b st r)
  case (Suc n)
  then obtain m' where m: "m = Suc m'" "n \<le> m'" by (cases m) auto
  have IH: "ScanBus_depth io n b st = Some r \<Longrightarrow> ScanBus_depth io m' b st = Some r" for b st r
    by (rule Suc.IH [OF _ m(2)])
  show ?case
    using Suc.prems(1) unfolding m(1) ScanBus_depth.simps
    by (elim each_or_return_mono [rotated] if_present_mono [rotated]) (rule ScanDevice_mono [OF IH])
qed simp

section \<open>Configuration space\<close>

text \<open>
  The documented behaviour of the two ports: selecting an address and reading the data port
  gives the register \<open>cfg hw a\<close>, and neither changes any register.
\<close>

definition config_space :: "'hw PortIO \<Rightarrow> ('hw \<Rightarrow> u32 \<Rightarrow> u32) \<Rightarrow> bool" where
  "config_space io cfg \<longleftrightarrow>
     (\<forall>hw a. fst (ReadData io (WriteAddress io a hw)) = cfg hw a) \<and>
     (\<forall>hw a. cfg (WriteAddress io a hw) = cfg hw) \<and> (\<forall>hw. cfg (snd (ReadData io hw)) = cfg hw)"

lemma config_space_read:
  assumes "config_space io cfg" and "ReadData io (WriteAddress io a hw) = (v, hw')"
  shows "v = cfg hw a" and "cfg hw' = cfg hw"
proof -
  have "fst (ReadData io (WriteAddress io a hw)) = cfg hw a" using assms(1) unfolding config_space_def by blast
  then show "v = cfg hw a" using assms(2) by simp
  have "cfg (snd (ReadData io (WriteAddress io a hw))) = cfg hw" using assms(1) unfolding config_space_def by metis
  then show "cfg hw' = cfg hw" using assms(2) by simp
qed

lemma config_space_obtain:
  assumes "config_space io cfg"
  obtains hw' where "ReadData io (WriteAddress io a hw) = (cfg hw a, hw')" and "cfg hw' = cfg hw"
  using config_space_read [OF assms] by (metis surj_pair)

text \<open>What the enumeration reads, as functions of the registers \<open>C\<close>.\<close>

definition vendor_of :: "(u32 \<Rightarrow> u32) \<Rightarrow> u8 \<Rightarrow> u8 \<Rightarrow> u8 \<Rightarrow> u16" where
  "vendor_of C b d f = ucast (C (MakeAddress b d f 0x00) AND 0xffff)"

definition header_of :: "(u32 \<Rightarrow> u32) \<Rightarrow> u8 \<Rightarrow> u8 \<Rightarrow> u8 \<Rightarrow> u8" where
  "header_of C b d f = ucast (drop_bit 16 (C (MakeAddress b d f 0x0c)) AND 0xff)"

definition class_of :: "(u32 \<Rightarrow> u32) \<Rightarrow> u8 \<Rightarrow> u8 \<Rightarrow> u8 \<Rightarrow> ClassCode" where
  "class_of C b d f = (let reg = C (MakeAddress b d f 0x08) in
     \<lparr>cc_base = ucast (drop_bit 24 reg AND 0xff), cc_sub = ucast (drop_bit 16 reg AND 0xff),
      cc_interface = ucast (drop_bit 8 reg AND 0xff)\<rparr>)"

definition secondary_of :: "(u32 \<Rightarrow> u32) \<Rightarrow> u8 \<Rightarrow> u8 \<Rightarrow> u8 \<Rightarrow> u8" where
  "secondary_of C b d f = ucast (drop_bit 8 (C (MakeAddress b d f 0x18)) AND 0xff)"

definition device_of :: "(u32 \<Rightarrow> u32) \<Rightarrow> u8 \<Rightarrow> u8 \<Rightarrow> u8 \<Rightarrow> Device" where
  "device_of C b d f = \<lparr>dev_bus = b, dev_device = d, dev_function = f,
     dev_header_type = header_of C b d f, dev_class_code = class_of C b d f\<rparr>"

lemma ReadVendorId_obtain:
  assumes "config_space io cfg"
  obtains hw' where "ReadVendorId io b d f hw = (vendor_of (cfg hw) b d f, hw')" and "cfg hw' = cfg hw"
  by (rule config_space_obtain [OF assms, of "MakeAddress b d f 0" hw])
    (use that in \<open>simp add: ReadVendorId_def vendor_of_def Let_def\<close>)

lemma ReadHeaderType_obtain:
  assumes "config_space io cfg"
  obtains hw' where "ReadHeaderType io b d f hw = (header_of (cfg hw) b d f, hw')" and "cfg hw' = cfg hw"
  by (rule config_space_obtain [OF assms, of "MakeAddress b d f 0x0c" hw])
    (use that in \<open>simp add: ReadHeaderType_def header_of_def Let_def\<close>)

lemma ReadClassCode_obtain:
  assumes "config_space io cfg"
  obtains hw' where "ReadClassCode io b d f hw = (class_of (cfg hw) b d f, hw')" and "cfg hw' = cfg hw"
  by (rule config_space_obtain [OF assms, of "MakeAddress b d f 0x08" hw])
    (use that in \<open>simp add: ReadClassCode_def class_of_def Let_def\<close>)

lemma ReadBusNumbers_obtain:
  assumes "config_space io cfg"
  obtains v hw' where "ReadBusNumbers io b d f hw = (v, hw')" and "cfg hw' = cfg hw"
    and "ucast (drop_bit 8 v AND 0xff) = secondary_of (cfg hw) b d f"
  by (rule config_space_obtain [OF assms, of "MakeAddress b d f 0x18" hw])
    (use that in \<open>simp add: ReadBusNumbers_def secondary_of_def\<close>)

text \<open>The functions present on a bus, and the buses behind its bridges.\<close>

definition fn_present :: "(u32 \<Rightarrow> u32) \<Rightarrow> u8 \<Rightarrow> u8 \<Rightarrow> u8 \<Rightarrow> bool" where
  "fn_present C b d f \<longleftrightarrow> d < 32 \<and> vendor_of C b d 0 \<noteq> 0xffff \<and>
     (f = 0 \<or> f < 8 \<and> header_of C b d 0 AND 0x80 \<noteq> 0 \<and> vendor_of C b d f \<noteq> 0xffff)"

definition is_bridge :: "(u32 \<Rightarrow> u32) \<Rightarrow> u8 \<Rightarrow> u8 \<Rightarrow> u8 \<Rightarrow> bool" where
  "is_bridge C b d f \<longleftrightarrow> Match2 (class_of C b d f) 0x06 0x04"

inductive below :: "(u32 \<Rightarrow> u32) \<Rightarrow> u8 \<Rightarrow> u8 \<Rightarrow> bool" for C where
  here: "below C b b"
| behind: "fn_present C b d f \<Longrightarrow> is_bridge C b d f \<Longrightarrow> below C (secondary_of C b d f) b' \<Longrightarrow> below C b b'"

definition devices_below :: "(u32 \<Rightarrow> u32) \<Rightarrow> u8 \<Rightarrow> Device set" where
  "devices_below C b = {device_of C b' d f | b' d f. below C b b' \<and> fn_present C b' d f}"

text \<open>The buses the host bridge names: bus 0, or one for each function of a multi-function one.\<close>

definition root_bus :: "(u32 \<Rightarrow> u32) \<Rightarrow> u8 \<Rightarrow> bool" where
  "root_bus C b \<longleftrightarrow> (if header_of C 0 0 0 AND 0x80 = 0 then b = 0
     else b < 8 \<and> vendor_of C 0 0 b \<noteq> 0xffff)"

definition all_devices :: "(u32 \<Rightarrow> u32) \<Rightarrow> Device set" where
  "all_devices C = {x. \<exists>b. root_bus C b \<and> x \<in> devices_below C b}"

definition listed :: "'hw PciState \<Rightarrow> Device set" where
  "listed st = set (take (pci_num_device st) (pci_devices st))"

text \<open>
  \<open>lists cfg C A m\<close>: wherever \<open>m\<close> returns, it has added devices of \<open>A\<close> only, all of them if it
  succeeded, and it fails only because the table is full.
\<close>

definition lists ::
  "('hw \<Rightarrow> u32 \<Rightarrow> u32) \<Rightarrow> (u32 \<Rightarrow> u32) \<Rightarrow> Device set \<Rightarrow> 'hw PciState fallible \<Rightarrow> bool" where
  "lists cfg C A m \<longleftrightarrow> (\<forall>st c st'. pci_wf st \<longrightarrow> cfg (pci_hw st) = C \<longrightarrow> m st = Some (c, st') \<longrightarrow>
     pci_wf st' \<and> cfg (pci_hw st') = C \<and> listed st \<subseteq> listed st' \<and> listed st' \<subseteq> listed st \<union> A \<and>
     (c = kSuccess \<and> A \<subseteq> listed st' \<or> c = kFull \<and> pci_num_device st' = 32))"

lemma listed_hw [simp]: "listed (st\<lparr>pci_hw := hw\<rparr>) = listed st"
  by (simp add: listed_def)

lemma lists_skip: "lists cfg C {} (\<lambda>st. Some (kSuccess, st))"
  by (simp add: lists_def)

lemma lists_hw:
  assumes "lists cfg C A m" and "\<And>st. cfg (pci_hw st) = C \<Longrightarrow> \<exists>hw. cfg hw = C \<and> m' st = m (st\<lparr>pci_hw := hw\<rparr>)"
  shows "lists cfg C A m'"
  unfolding lists_def
proof (intro allI impI)
  fix st c st' assume a: "pci_wf st" "cfg (pci_hw st) = C" "m' st = Some (c, st')"
  from assms(2) [OF a(2)] obtain hw where hw: "cfg hw = C" "m' st = m (st\<lparr>pci_hw := hw\<rparr>)" by blast
  have "m (st\<lparr>pci_hw := hw\<rparr>) = Some (c, st')" using a(3) hw(2) by simp
  with assms(1) a(1) hw(1) show "pci_wf st' \<and> cfg (pci_hw st') = C \<and> listed st \<subseteq> listed st' \<and> listed st' \<subseteq> listed st \<union> A \<and>
     (c = kSuccess \<and> A \<subseteq> listed st' \<or> c = kFull \<and> pci_num_device st' = 32)"
    unfolding lists_def by (metis (no_types, lifting) PciState.select_convs(1) PciState.surjective PciState.update_convs(1) listed_hw pci_wf_hw)
qed

lemma lists_or_return:
  assumes "lists cfg C A m" and "lists cfg C B k"
  shows "lists cfg C (A \<union> B) (or_return m k)"
  unfolding lists_def
proof (intro allI impI)
  fix st c st' assume a: "pci_wf st" "cfg (pci_hw st) = C" "or_return m k st = Some (c, st')"
  then obtain d st1 where 1: "m st = Some (d, st1)" "if d = kSuccess then k st1 = Some (c, st') else c = d \<and> st' = st1"
    by (auto simp: or_return_Some)
  from assms(1) a(1,2) 1(1) have m: "pci_wf st1" "cfg (pci_hw st1) = C" "listed st \<subseteq> listed st1"
    "listed st1 \<subseteq> listed st \<union> A" "d = kSuccess \<and> A \<subseteq> listed st1 \<or> d = kFull \<and> pci_num_device st1 = 32"
    unfolding lists_def by blast+
  show "pci_wf st' \<and> cfg (pci_hw st') = C \<and> listed st \<subseteq> listed st' \<and> listed st' \<subseteq> listed st \<union> (A \<union> B) \<and>
     (c = kSuccess \<and> A \<union> B \<subseteq> listed st' \<or> c = kFull \<and> pci_num_device st' = 32)"
  proof (cases "d = kSuccess")
    case True
    then have "k st1 = Some (c, st')" using 1(2) by simp
    with assms(2) m(1,2) have "pci_wf st'" "cfg (pci_hw st') = C" "listed st1 \<subseteq> listed st'"
      "listed st' \<subseteq> listed st1 \<union> B" "c = kSuccess \<and> B \<subseteq> listed st' \<or> c = kFull \<and> pci_num_device st' = 32"
      unfolding lists_def by blast+
    with m True show ?thesis by auto
  next
    case False
    with 1(2) m show ?thesis by auto
  qed
qed

lemma lists_each:
  assumes "\<And>x. x \<in> set xs \<Longrightarrow> lists cfg C (A x) (f x)"
  shows "lists cfg C (\<Union>x\<in>set xs. A x) (each_or_return f xs)"
  using assms
proof (induction xs)
  case Nil
  have "each_or_return f [] = (\<lambda>st. Some (kSuccess, st))" by (rule ext) simp
  then show ?case using lists_skip by (simp del: each_or_return.simps)
next
  case (Cons x xs)
  have "each_or_return f (x # xs) = or_return (f x) (each_or_return f xs)" by (rule ext) simp
  then show ?case
    using lists_or_return [OF Cons.prems [of x] Cons.IH [OF Cons.prems]] by (simp del: each_or_return.simps)
qed

lemma lists_AddDevice: "lists cfg C {d} (AddDevice d)"
  unfolding lists_def
proof (intro allI impI)
  fix st c st' assume a: "pci_wf st" "cfg (pci_hw st) = C" "AddDevice d st = Some (c, st')"
  from a(1) show "pci_wf st' \<and> cfg (pci_hw st') = C \<and> listed st \<subseteq> listed st' \<and> listed st' \<subseteq> listed st \<union> {d} \<and>
     (c = kSuccess \<and> {d} \<subseteq> listed st' \<or> c = kFull \<and> pci_num_device st' = 32)"
  proof (cases rule: AddDevice_cases [of st d])
    case full
    with a show ?thesis by auto
  next
    case (added st1)
    with a show ?thesis by (auto simp: listed_def)
  qed
qed

lemma lists_ScanFunction:
  assumes "config_space io cfg" and "\<And>b. lists cfg C (F b) (scan b)"
  shows "lists cfg C (insert (device_of C b d f) (if is_bridge C b d f then F (secondary_of C b d f) else {}))
    (ScanFunction io scan b d f)"
proof -
  let ?rest = "\<lambda>st. if Match2 (class_of C b d f) 6 4
     then case ReadBusNumbers io b d f (pci_hw st) of (n, hw) \<Rightarrow> scan (ucast (drop_bit 8 n AND 0xff)) (st\<lparr>pci_hw := hw\<rparr>)
     else Some (kSuccess, st)"
  have rest: "lists cfg C (if is_bridge C b d f then F (secondary_of C b d f) else {}) ?rest"
  proof (cases "is_bridge C b d f")
    case True
    have "\<exists>hw. cfg hw = C \<and> ?rest st = scan (secondary_of C b d f) (st\<lparr>pci_hw := hw\<rparr>)" if a: "cfg (pci_hw st) = C" for st
    proof -
      obtain v hw where v: "ReadBusNumbers io b d f (pci_hw st) = (v, hw)" "cfg hw = C"
        "ucast (drop_bit 8 v AND 0xff) = secondary_of C b d f"
        by (rule ReadBusNumbers_obtain [OF assms(1), of b d f "pci_hw st", unfolded a])
      have "Match2 (class_of C b d f) 6 4" using True by (simp only: is_bridge_def)
      then have "?rest st = scan (secondary_of C b d f) (st\<lparr>pci_hw := hw\<rparr>)"
        by (simp only: v if_True prod.case)
      with v(2) show ?thesis by blast
    qed
    then have "lists cfg C (F (secondary_of C b d f)) ?rest"
      by (rule lists_hw [OF assms(2)])
    with True show ?thesis by simp
  next
    case False
    then show ?thesis using lists_skip by (simp add: is_bridge_def)
  qed
  have "\<exists>hw. cfg hw = C \<and> ScanFunction io scan b d f st =
      or_return (AddDevice (device_of C b d f)) ?rest (st\<lparr>pci_hw := hw\<rparr>)" if a: "cfg (pci_hw st) = C" for st
  proof -
    obtain hw1 where 1: "ReadClassCode io b d f (pci_hw st) = (class_of C b d f, hw1)" "cfg hw1 = C"
      by (rule ReadClassCode_obtain [OF assms(1), of b d f "pci_hw st", unfolded a])
    obtain hw2 where 2: "ReadHeaderType io b d f hw1 = (header_of C b d f, hw2)" "cfg hw2 = C"
      by (rule ReadHeaderType_obtain [OF assms(1), of b d f hw1, unfolded 1(2)])
    have "ScanFunction io scan b d f st =
      or_return (AddDevice (device_of C b d f)) ?rest (st\<lparr>pci_hw := hw2\<rparr>)"
      unfolding ScanFunction_def Let_def by (simp add: 1 2 device_of_def)
    with 2(2) show ?thesis by blast
  qed
  from lists_hw [OF lists_or_return [OF lists_AddDevice rest] this] show ?thesis by simp
qed

lemma lists_if_present:
  assumes "config_space io cfg" and "lists cfg C A rest"
  shows "lists cfg C (if vendor_of C b d f \<noteq> 0xffff then A else {}) (if_present io b d f rest)"
proof (cases "vendor_of C b d f = 0xffff")
  case True
  have "\<exists>hw. cfg hw = C \<and> if_present io b d f rest st = Some (kSuccess, st\<lparr>pci_hw := hw\<rparr>)" if "cfg (pci_hw st) = C" for st
    by (rule ReadVendorId_obtain [OF assms(1), of b d f "pci_hw st"]) (use True that in \<open>auto simp: if_present_def Let_def\<close>)
  from lists_hw [OF lists_skip this] True show ?thesis by simp
next
  case False
  have "\<exists>hw. cfg hw = C \<and> if_present io b d f rest st = rest (st\<lparr>pci_hw := hw\<rparr>)" if "cfg (pci_hw st) = C" for st
    by (rule ReadVendorId_obtain [OF assms(1), of b d f "pci_hw st"]) (use False that in \<open>auto simp: if_present_def Let_def\<close>)
  from lists_hw [OF assms(2) this] False show ?thesis by simp
qed

text \<open>What lies behind one function, and the functions of a device and of a bus by it.\<close>

definition behind_fn :: "(u32 \<Rightarrow> u32) \<Rightarrow> u8 \<Rightarrow> u8 \<Rightarrow> u8 \<Rightarrow> Device set" where
  "behind_fn C b d f = insert (device_of C b d f)
     (if is_bridge C b d f then devices_below C (secondary_of C b d f) else {})"

lemma lists_ScanDevice:
  assumes "config_space io cfg" and "\<And>b. lists cfg C (devices_below C b) (scan b)"
  shows "lists cfg C (behind_fn C b d 0 \<union> (if header_of C b d 0 AND 0x80 = 0 then {}
      else \<Union>f\<in>set (map word_of_nat [1..<8]). if vendor_of C b d f \<noteq> 0xffff then behind_fn C b d f else {}))
    (ScanDevice io scan b d)"
proof -
  have fn: "lists cfg C (behind_fn C b d f) (ScanFunction io scan b d f)" for f
    unfolding behind_fn_def by (rule lists_ScanFunction [OF assms])
  have loop: "lists cfg C (\<Union>f\<in>set xs. if vendor_of C b d f \<noteq> 0xffff then behind_fn C b d f else {})
      (each_or_return (\<lambda>f. if_present io b d f (ScanFunction io scan b d f)) xs)" for xs
    by (rule lists_each) (rule lists_if_present [OF assms(1) fn])
  let ?rest = "\<lambda>st. case ReadHeaderType io b d 0 (pci_hw st) of (ht, hw) \<Rightarrow>
     if IsSingleFunctionDevice ht then Some (kSuccess, st\<lparr>pci_hw := hw\<rparr>)
     else each_or_return (\<lambda>f. if_present io b d f (ScanFunction io scan b d f)) (map word_of_nat [1..<8]) (st\<lparr>pci_hw := hw\<rparr>)"
  have "\<exists>hw. cfg hw = C \<and> ?rest st = (if header_of C b d 0 AND 0x80 = 0 then Some (kSuccess, st\<lparr>pci_hw := hw\<rparr>)
     else each_or_return (\<lambda>f. if_present io b d f (ScanFunction io scan b d f)) (map word_of_nat [1..<8]) (st\<lparr>pci_hw := hw\<rparr>))"
    if "cfg (pci_hw st) = C" for st
    by (rule ReadHeaderType_obtain [OF assms(1), of b d 0 "pci_hw st"])
      (use that in \<open>auto simp: IsSingleFunctionDevice_def simp del: set_map\<close>)
  note hw = this
  have "lists cfg C (if header_of C b d 0 AND 0x80 = 0 then {} else \<Union>f\<in>set (map word_of_nat [1..<8]).
      if vendor_of C b d f \<noteq> 0xffff then behind_fn C b d f else {}) ?rest"
  proof (cases "header_of C b d 0 AND 0x80 = 0")
    case True
    show ?thesis
      unfolding if_P [OF True] by (rule lists_hw [OF lists_skip]) (use hw [unfolded if_P [OF True]] in blast)
  next
    case False
    show ?thesis
      unfolding if_not_P [OF False] by (rule lists_hw [OF loop]) (use hw [unfolded if_not_P [OF False]] in blast)
  qed
  from lists_or_return [OF fn this] show ?thesis
    by (simp only: ScanDevice_def Let_def)
qed

lemma devices_below_unfold:
  "devices_below C b = (\<Union>d\<in>{d. d < 32 \<and> vendor_of C b d 0 \<noteq> 0xffff}.
     \<Union>f\<in>{f. fn_present C b d f}. behind_fn C b d f)" (is "_ = ?R")
proof (intro equalityI subsetI)
  fix x assume "x \<in> devices_below C b"
  then obtain b' d f where x: "x = device_of C b' d f" "below C b b'" "fn_present C b' d f"
    by (auto simp: devices_below_def)
  from x(2) show "x \<in> ?R"
  proof cases
    case here
    with x have "x \<in> behind_fn C b d f" "fn_present C b d f" by (simp_all add: behind_fn_def)
    then show ?thesis by (auto simp: fn_present_def)
  next
    case (behind e g)
    with x have "x \<in> devices_below C (secondary_of C b e g)" by (auto simp: devices_below_def)
    with behind have "x \<in> behind_fn C b e g" by (simp add: behind_fn_def)
    with behind show ?thesis by (auto simp: fn_present_def)
  qed
next
  fix x assume "x \<in> ?R"
  then obtain d f where df: "fn_present C b d f" "x \<in> behind_fn C b d f" by auto
  show "x \<in> devices_below C b"
  proof (cases "x = device_of C b d f")
    case True
    with df show ?thesis by (auto simp: devices_below_def intro: below.here)
  next
    case False
    with df have "is_bridge C b d f" "x \<in> devices_below C (secondary_of C b d f)"
      by (auto simp: behind_fn_def split: if_splits)
    with df(1) show ?thesis unfolding devices_below_def by (blast intro: below.behind)
  qed
qed

text \<open>The counted loops over device and function numbers run over all of them.\<close>

lemma set_upto_word:
  assumes "n \<le> 256"
  shows "set (map word_of_nat [m..<n]) = {w :: u8. m \<le> unat w \<and> unat w < n}" (is "?L = ?R")
proof (intro equalityI subsetI)
  fix w assume "w \<in> ?L"
  then obtain i where "w = word_of_nat i" "m \<le> i" "i < n" by auto
  with assms show "w \<in> ?R" by (simp add: unat_of_nat)
next
  fix w :: u8 assume "w \<in> ?R"
  then have "unat w \<in> set [m..<n]" "w = word_of_nat (unat w)" by simp_all
  then show "w \<in> ?L" by (metis image_eqI set_map)
qed

lemma upto:
  "set (map word_of_nat [1..<8]) = {f :: u8. 1 \<le> unat f \<and> unat f < 8}"
  "set (map word_of_nat [0..<32]) = {d :: u8. 0 \<le> unat d \<and> unat d < 32}"
  "set (map word_of_nat [0..<8]) = {f :: u8. 0 \<le> unat f \<and> unat f < 8}"
  by (rule set_upto_word, simp)+

lemma lists_ScanBus_depth:
  assumes "config_space io cfg"
  shows "lists cfg C (devices_below C b) (ScanBus_depth io n b)"
proof (induction n arbitrary: b)
  case 0
  show ?case by (simp add: lists_def)
next
  case (Suc n)
  let ?A = "\<lambda>d. behind_fn C b d 0 \<union> (if header_of C b d 0 AND 0x80 = 0 then {}
      else \<Union>f\<in>set (map word_of_nat [1..<8]). if vendor_of C b d f \<noteq> 0xffff then behind_fn C b d f else {})"
  have "lists cfg C (\<Union>d\<in>set (map word_of_nat [0..<32]). if vendor_of C b d 0 \<noteq> 0xffff then ?A d else {})
      (each_or_return (\<lambda>d. if_present io b d 0 (ScanDevice io (ScanBus_depth io n) b d)) (map word_of_nat [0..<32]))"
    by (rule lists_each) (intro lists_if_present [OF assms] lists_ScanDevice [OF assms] Suc.IH)
  moreover have "ScanBus_depth io (Suc n) b =
      each_or_return (\<lambda>d. if_present io b d 0 (ScanDevice io (ScanBus_depth io n) b d)) (map word_of_nat [0..<32])"
    by (rule ext) (rule ScanBus_depth.simps)
  moreover have "?A d = (\<Union>f\<in>{f. fn_present C b d f}. behind_fn C b d f)"
    if "d < 32" "vendor_of C b d 0 \<noteq> 0xffff" for d
  proof -
    have "{f. fn_present C b d f} = insert 0 (if header_of C b d 0 AND 0x80 = 0 then {}
        else {f. f \<in> set (map word_of_nat [1..<8]) \<and> vendor_of C b d f \<noteq> 0xffff})"
      using that unfolding upto
      by (auto simp: fn_present_def word_less_nat_alt Suc_le_eq unat_gt_0)
    then show ?thesis by (cases "header_of C b d 0 AND 0x80 = 0") (simp_all del: set_map, blast)
  qed
  then have "(\<Union>d\<in>set (map word_of_nat [0..<32]). if vendor_of C b d 0 \<noteq> 0xffff then ?A d else {}) = devices_below C b"
    unfolding devices_below_unfold upto
    by (auto simp: word_less_nat_alt simp del: set_map split: if_splits)
  ultimately show ?case by (simp only:)
qed

section \<open>The enumeration\<close>

text \<open>The hardware that the witnesses use: a selected address over a bank of registers.\<close>

definition bank_io :: "(u32 \<times> (u32 \<Rightarrow> u32)) PortIO" where
  "bank_io = \<lparr>io_IoOut32 = (\<lambda>port v (a, regs). if port = kConfigAddress then (v, regs)
       else if port = kDataAddress then (a, regs(a := v)) else (a, regs)),
     io_IoIn32 = (\<lambda>port (a, regs). (if port = kDataAddress then regs a else 0, (a, regs)))\<rparr>"

lemma bank_config_space: "config_space bank_io snd"
  by (auto simp: config_space_def ReadData_def WriteAddress_def bank_io_def)

text \<open>An Intel xHCI controller as the only device, a single-function one.\<close>

definition one_xhc :: "u32 \<Rightarrow> u32" where
  "one_xhc = (\<lambda>_. 0xffffffff)(0x80000000 := 0xa36d8086, 0x80000008 := 0x0c033010, 0x8000000c := 0,
     0x80000010 := 0xf7d00004, 0x80000014 := 0x00000001, 0x80000024 := 0x00000004, 0x80000034 := 0x50,
     0x80000050 := 0x00867005, 0x80000070 := 0x00000001)"

definition sample_pci :: "(u32 \<times> (u32 \<Rightarrow> u32)) PciState" where
  "sample_pci = \<lparr>pci_hw = (0, one_xhc), pci_num_device = 0,
     pci_devices = replicate 32 (device_of (\<lambda>_. 0) 0 0 0)\<rparr>"

lemma ScanBus_returns: "returns_growing 0 (ScanBus io)"
  using ScanBus_depth_returns [of 0 io] by (simp add: ScanBus_def)

lemma lists_ScanAllBus:
  assumes "config_space io cfg" and "cfg (pci_hw st) = C" and "length (pci_devices st) = 32"
    and "ScanAllBus io st = Some (c, st')"
  shows "listed st' \<subseteq> all_devices C" and "c = kSuccess \<and> all_devices C \<subseteq> listed st' \<or> c = kFull \<and> pci_num_device st' = 32"
    and "pci_wf st'" and "cfg (pci_hw st') = C"
proof -
  obtain hw where hw: "ReadHeaderType io 0 0 0 (pci_hw st) = (header_of C 0 0 0, hw)" "cfg hw = C"
    by (rule ReadHeaderType_obtain [OF assms(1), of 0 0 0 "pci_hw st", unfolded assms(2)])
  let ?st = "st\<lparr>pci_num_device := 0, pci_hw := hw\<rparr>"
  let ?m = "if header_of C 0 0 0 AND 0x80 = 0 then ScanBus io 0
     else each_or_return (\<lambda>f. if_present io 0 0 f (ScanBus io f)) (map word_of_nat [0..<8])"
  have bus: "lists cfg C (devices_below C b) (ScanBus io b)" for b
    unfolding ScanBus_def by (rule lists_ScanBus_depth [OF assms(1)])
  have "lists cfg C (all_devices C) ?m"
  proof (cases "header_of C 0 0 0 AND 0x80 = 0")
    case True
    then have "all_devices C = devices_below C 0" by (simp add: all_devices_def root_bus_def)
    with bus True show ?thesis by simp
  next
    case False
    have "lists cfg C (\<Union>f\<in>set (map word_of_nat [0..<8]). if vendor_of C 0 0 f \<noteq> 0xffff then devices_below C f else {})
      (each_or_return (\<lambda>f. if_present io 0 0 f (ScanBus io f)) (map word_of_nat [0..<8]))"
      by (rule lists_each) (rule lists_if_present [OF assms(1) bus])
    moreover have "(\<Union>f\<in>set (map word_of_nat [0..<8]). if vendor_of C 0 0 f \<noteq> 0xffff then devices_below C f else {})
        = all_devices C"
      using False unfolding upto by (auto simp: all_devices_def root_bus_def word_less_nat_alt split: if_splits)
    ultimately show ?thesis using False by simp
  qed
  moreover have "?m ?st = Some (c, st')"
    using assms(4) unfolding ScanAllBus_def Let_def
    by (simp add: hw IsSingleFunctionDevice_def del: set_map split: if_splits)
  moreover have "pci_wf ?st" "listed ?st = {}" using assms(3) by (simp_all add: pci_wf_def listed_def)
  moreover have "cfg (pci_hw ?st) = C" using hw(2) by simp
  ultimately have "listed st' \<subseteq> listed ?st \<union> all_devices C \<and>
      (c = kSuccess \<and> all_devices C \<subseteq> listed st' \<or> c = kFull \<and> pci_num_device st' = 32) \<and> pci_wf st' \<and> cfg (pci_hw st') = C"
    unfolding lists_def by blast
  then show "listed st' \<subseteq> all_devices C"
    and "c = kSuccess \<and> all_devices C \<subseteq> listed st' \<or> c = kFull \<and> pci_num_device st' = 32"
    and "pci_wf st'" and "cfg (pci_hw st') = C"
    using \<open>listed ?st = {}\<close> by simp_all
qed

lemma ScanBus_total:
  "pci_wf st \<and> 0 \<le> pci_num_device st \<Longrightarrow>
    \<exists>c st'. ScanBus io b st = Some (c, st') \<and> (pci_wf st' \<and> 0 \<le> pci_num_device st')"
  using ScanBus_returns [of io] unfolding returns_growing_def by blast

lemma ScanAllBus_total:
  assumes "length (pci_devices st) = 32"
  shows "\<exists>c st'. ScanAllBus io st = Some (c, st') \<and> pci_wf st'"
proof -
  obtain ht hw where ht: "ReadHeaderType io 0 0 0 (pci_hw st) = (ht, hw)" by fastforce
  let ?st = "st\<lparr>pci_num_device := 0, pci_hw := hw\<rparr>"
  have wf: "pci_wf ?st \<and> 0 \<le> pci_num_device ?st" using assms by (simp add: pci_wf_def)
  have "\<exists>c st'. each_or_return (\<lambda>f. if_present io 0 0 f (ScanBus io f)) xs ?st = Some (c, st') \<and>
      (pci_wf st' \<and> 0 \<le> pci_num_device st')" for xs
    by (rule each_or_return_total [where P = "\<lambda>st. pci_wf st \<and> 0 \<le> pci_num_device st", OF wf])
      (rule if_present_returns [OF ScanBus_total])
  with ScanBus_total [OF wf] show ?thesis
    unfolding ScanAllBus_def Let_def by (auto simp: ht simp del: set_map)
qed

text \<open>
  C30. The recursion of \<open>ScanBus\<close> through bridges ends for every hardware, also one whose bridges
  lead back to themselves: from every state with room for 32 devices \<open>ScanAllBus\<close> returns, the
  table stays within its 32 entries, and the depth to which the model follows bridges is never
  used up (any larger depth gives the same result), because every level has added a device.
\<close>

theorem ScanAllBus_returns:
  assumes "length (pci_devices st) = 32"
  shows "(\<exists>c st'. ScanAllBus io st = Some (c, st') \<and> length (pci_devices st') = 32 \<and> pci_num_device st' \<le> 32) \<and>
    (pci_num_device st \<le> 32 \<longrightarrow> 33 \<le> depth \<longrightarrow> ScanBus_depth io depth bus st = ScanBus io bus st)"
proof (intro conjI impI)
  show "\<exists>c st'. ScanAllBus io st = Some (c, st') \<and> length (pci_devices st') = 32 \<and> pci_num_device st' \<le> 32"
    using ScanAllBus_total [OF assms, of io] by (simp add: pci_wf_def)
  assume "pci_num_device st \<le> 32" "33 \<le> depth"
  then obtain r where "ScanBus io bus st = Some r"
    using ScanBus_total [of st io bus] assms by (auto simp: pci_wf_def)
  then show "ScanBus_depth io depth bus st = ScanBus io bus st"
    using ScanBus_depth_mono \<open>33 \<le> depth\<close> unfolding ScanBus_def by metis
qed

theorem ScanAllBus_returns_witness:
  "(\<exists>c st'. ScanAllBus bank_io sample_pci = Some (c, st') \<and> length (pci_devices st') = 32 \<and> pci_num_device st' \<le> 32) \<and>
    ScanBus_depth bank_io 40 0 sample_pci = ScanBus bank_io 0 sample_pci"
  using ScanAllBus_returns [of sample_pci bank_io 40 0] by (simp add: sample_pci_def)

text \<open>
  C14. What \<open>ScanAllBus\<close> leaves in \<open>devices[0..num_device-1]\<close>: only functions that are there, with
  their header type and class code, namely those present on a root bus or on a bus behind a
  bridge; all of them when it returns \<open>kSuccess\<close>, and the only failure is \<open>kFull\<close>, with 32 entries.
\<close>

theorem ScanAllBus_lists_all_devices:
  assumes "config_space io cfg" and "length (pci_devices st) = 32" and "ScanAllBus io st = Some (c, st')"
  shows "listed st' \<subseteq> all_devices (cfg (pci_hw st)) \<and>
    (if c = kSuccess then listed st' = all_devices (cfg (pci_hw st)) else c = kFull \<and> pci_num_device st' = 32)"
  using lists_ScanAllBus [OF assms(1) refl assms(2,3)] by auto

theorem ScanAllBus_lists_all_devices_witness:
  "\<exists>c st'. ScanAllBus bank_io sample_pci = Some (c, st') \<and> listed st' \<subseteq> all_devices one_xhc \<and>
    (if c = kSuccess then listed st' = all_devices one_xhc else c = kFull \<and> pci_num_device st' = 32)"
proof -
  have len: "length (pci_devices sample_pci) = 32" and hw: "snd (pci_hw sample_pci) = one_xhc"
    by (simp_all add: sample_pci_def)
  obtain c st' where r: "ScanAllBus bank_io sample_pci = Some (c, st')"
    using ScanAllBus_total [OF len] by blast
  from ScanAllBus_lists_all_devices [OF bank_config_space len r] r show ?thesis unfolding hw by blast
qed

section \<open>Addresses, base addresses and interrupt capabilities\<close>

text \<open>
  \<open>MakeAddress\<close> puts the bus, the device and function numbers and the register, cut to a
  multiple of four, into fields that do not overlap: each can be read back, for every device
  number below 32 and function number below 8, and the enable bit is set.
\<close>

lemma MakeAddress_fields:
  assumes "dn < 32" and "fn < 8"
  shows "bf_get 16 8 (MakeAddress bus dn fn offset) = ucast bus \<and>
    bf_get 11 5 (MakeAddress bus dn fn offset) = ucast dn \<and>
    bf_get 8 3 (MakeAddress bus dn fn offset) = ucast fn \<and>
    bf_get 0 8 (MakeAddress bus dn fn offset) = ucast offset AND 0xfc \<and>
    bit (MakeAddress bus dn fn offset) 31"
proof -
  have d: "n < 5" if "bit dn n" for n
  proof -
    have "dn = take_bit 5 dn"
      using assms(1) by (simp add: word_less_nat_alt word_unat_eq_iff unat_take_bit)
    then show ?thesis using that by (metis bit_take_bit_iff not_less)
  qed
  have f: "n < 3" if "bit fn n" for n
  proof -
    have "fn = take_bit 3 fn"
      using assms(2) by (simp add: word_less_nat_alt word_unat_eq_iff unat_take_bit)
    then show ?thesis using that by (metis bit_take_bit_iff not_less)
  qed
  have fc: "n < 8" if "bit (0xfc :: u32) n" for n
  proof -
    have "(0xfc :: u32) = take_bit 8 0xfc" by simp
    then show ?thesis using that by (metis bit_take_bit_iff not_less)
  qed
  have top: "bit (0x80000000 :: u32) n \<longleftrightarrow> n = 31" for n
  proof -
    have "bit (push_bit 31 1 :: u32) n \<longleftrightarrow> n = 31"
      unfolding bit_push_bit_iff by (auto simp: bit_simps dest: bit_imp_le_length)
    then show ?thesis by simp
  qed
  show ?thesis
    by (intro conjI bit_word_eqI)
      (auto simp: MakeAddress_def bit_simps top dest: bit_imp_le_length d f fc
        simp del: bit_numeral_word_iff)
qed

lemma MakeAddress_fields_witness:
  "bf_get 11 5 (MakeAddress 2 31 7 0x35) = ucast (31 :: u8) \<and> bf_get 0 8 (MakeAddress 2 31 7 0x35) = 0x34"
  using MakeAddress_fields [where dn = 31 and fn = 7 and bus = 2 and offset = "0x35"] by simp

definition conf_of :: "(u32 \<Rightarrow> u32) \<Rightarrow> Device \<Rightarrow> u8 \<Rightarrow> u32" where
  "conf_of C dev r = C (MakeAddress (dev_bus dev) (dev_device dev) (dev_function dev) r)"

lemma ReadConfReg_obtain:
  assumes "config_space io cfg"
  obtains hw' where "ReadConfReg io dev r hw = (conf_of (cfg hw) dev r, hw')" and "cfg hw' = cfg hw"
  by (rule config_space_obtain [OF assms, of "MakeAddress (dev_bus dev) (dev_device dev) (dev_function dev) r" hw])
    (use that in \<open>simp add: ReadConfReg_def conf_of_def\<close>)

text \<open>
  C33. \<open>ReadBar\<close> on every branch: an index of 6 or more, and the upper half of a 64-bit address
  at index 5, are \<open>kIndexOutOfRange\<close>; a 32-bit register is returned as it is; a 64-bit one has
  the register in its low half and the next register in its high half. Reading changes nothing.
\<close>

theorem ReadBar_cases:
  assumes "config_space io cfg"
  shows "\<exists>hw'. cfg hw' = cfg hw \<and> (let bar = conf_of (cfg hw) dev (0x10 + 4 * ucast i) in
    ReadBar io dev i hw =
      (if 6 \<le> i \<or> bar AND 4 \<noteq> 0 \<and> i = 5 then (\<lparr>either_value = 0, either_error = kIndexOutOfRange\<rparr>, hw')
       else if bar AND 4 = 0 then (\<lparr>either_value = ucast bar, either_error = kSuccess\<rparr>, hw')
       else (\<lparr>either_value = ucast bar OR push_bit 32 (ucast (conf_of (cfg hw) dev (0x14 + 4 * ucast i))),
          either_error = kSuccess\<rparr>, hw')))"
proof (cases "6 \<le> i")
  case True
  then show ?thesis by (auto simp: ReadBar_def Let_def)
next
  case False
  have addr: "CalcBarAddress i = 0x10 + 4 * ucast i" "CalcBarAddress i + 4 = 0x14 + 4 * ucast i"
    by (simp_all add: CalcBarAddress_def ucast_down_add ucast_down_mult)
  obtain hw1 where 1: "ReadConfReg io dev (CalcBarAddress i) hw = (conf_of (cfg hw) dev (0x10 + 4 * ucast i), hw1)" "cfg hw1 = cfg hw"
    by (rule ReadConfReg_obtain [OF assms, of dev "0x10 + 4 * ucast i" hw]) (simp only: addr)
  obtain hw2 where 2: "ReadConfReg io dev (CalcBarAddress i + 4) hw1 = (conf_of (cfg hw) dev (0x14 + 4 * ucast i), hw2)" "cfg hw2 = cfg hw"
    by (rule ReadConfReg_obtain [OF assms, of dev "0x14 + 4 * ucast i" hw1]) (simp only: addr(2) 1(2))
  have "5 \<le> i \<longleftrightarrow> i = 5" using False by (auto simp: word_le_nat_alt word_unat_eq_iff)
  then show ?thesis
    unfolding ReadBar_def Let_def using False 1 2 by auto
qed

theorem ReadBar_cases_witness:
  "\<exists>hw'. ReadBar bank_io (device_of one_xhc 0 0 0) 0 (0, one_xhc) =
     (\<lparr>either_value = 0x1f7d00004, either_error = kSuccess\<rparr>, hw')"
  using ReadBar_cases [OF bank_config_space, of "(0, one_xhc)" "device_of one_xhc 0 0 0" 0]
  by (simp add: conf_of_def MakeAddress_def device_of_def one_xhc_def Let_def) blast

text \<open>The pointers of a capability list that ends, in order, and what the walk keeps of them.\<close>

inductive capability_chain :: "(u32 \<Rightarrow> u32) \<Rightarrow> Device \<Rightarrow> u8 \<Rightarrow> u8 list \<Rightarrow> bool" for C dev where
  last: "capability_chain C dev 0 []"
| link: "p \<noteq> 0 \<Longrightarrow> capability_chain C dev (ucast (ch_next_ptr (conf_of C dev p))) ps \<Longrightarrow>
    capability_chain C dev p (p # ps)"

definition last_with_id :: "(u32 \<Rightarrow> u32) \<Rightarrow> Device \<Rightarrow> u32 \<Rightarrow> u8 \<Rightarrow> u8 list \<Rightarrow> u8" where
  "last_with_id C dev cap_id a ps =
     fold (\<lambda>p b. if ch_cap_id (conf_of C dev p) = cap_id then p else b) ps a"

lemma find_capabilities_chain:
  assumes "capability_chain C dev p ps" and "config_space io cfg" and "cfg hw = C"
  shows "\<exists>hw'. cfg hw' = C \<and> find_capabilities io dev p msi msix hw =
    Some (last_with_id C dev kCapabilityMSI msi ps, last_with_id C dev kCapabilityMSIX msix ps, hw')"
  using assms(1,3)
proof (induction arbitrary: msi msix hw)
  case last
  then show ?case by (subst find_capabilities.simps) (auto simp: last_with_id_def)
next
  case (link p ps)
  obtain hw1 where 1: "ReadConfReg io dev p hw = (conf_of C dev p, hw1)" "cfg hw1 = C"
    by (rule ReadConfReg_obtain [OF assms(2), of dev p hw, unfolded link.prems])
  have ne: "kCapabilityMSIX \<noteq> kCapabilityMSI" by (simp add: kCapabilityMSI_def kCapabilityMSIX_def)
  let ?msi = "if ch_cap_id (conf_of C dev p) = kCapabilityMSI then p else msi"
  let ?msix = "if ch_cap_id (conf_of C dev p) = kCapabilityMSIX then p else msix"
  from link.IH [OF 1(2), of ?msi ?msix] link.hyps(1) ne show ?case
    by (subst find_capabilities.simps) (auto simp: ReadCapabilityHeader_def 1 last_with_id_def cong: if_cong)
qed

lemma find_capabilities_returns:
  assumes "find_capabilities io dev p msi msix hw = Some r" and "config_space io cfg" and "cfg hw = C"
  shows "\<exists>ps. capability_chain C dev p ps"
  using assms
proof (induction arbitrary: rule: find_capabilities.raw_induct [rotated, consumes 1])
  case (1 find io dev p msi msix hw r)
  show ?case
  proof (cases "p = 0")
    case True
    then show ?thesis by (auto intro: capability_chain.last)
  next
    case False
    obtain hw1 where hw1: "ReadConfReg io dev p hw = (conf_of C dev p, hw1)" "cfg hw1 = C"
      by (rule ReadConfReg_obtain [OF "1.prems"(1), of dev p hw, unfolded "1.prems"(2)])
    from "1.hyps" False have "find io dev (ucast (ch_next_ptr (conf_of C dev p)))
        (if ch_cap_id (conf_of C dev p) = kCapabilityMSI then p else msi)
        (if ch_cap_id (conf_of C dev p) \<noteq> kCapabilityMSI \<and> ch_cap_id (conf_of C dev p) = kCapabilityMSIX then p else msix)
        hw1 = Some r"
      by (simp add: ReadCapabilityHeader_def hw1 cong: if_cong)
    from "1.IH" [OF this "1.prems"(1) hw1(2)] False show ?thesis by (auto intro: capability_chain.link)
  qed
qed


definition msi_header_written :: "u32 \<Rightarrow> u32 \<Rightarrow> u32" where
  "msi_header_written n h = msi_enable 1
     (if multi_msg_capable h \<le> n then multi_msg_enable (multi_msg_capable h) h else multi_msg_enable n h)"

lemma bit_msi_header_written:
  assumes "i < 32" and "i \<noteq> 16" and "i < 20 \<or> 22 < i"
  shows "bit (msi_header_written n h) i = bit h i"
  using assms by (auto simp: msi_header_written_def msi_enable_def multi_msg_enable_def bit_simps)

lemma bf_get_msi_header_written:
  assumes "hi \<le> 16 \<or> 17 \<le> lo \<and> hi \<le> 20 \<or> 23 \<le> lo" and "lo + m = hi"
  shows "bf_get lo m (msi_header_written n h) = bf_get lo m h"
  using assms unfolding msi_header_written_def msi_enable_def multi_msg_enable_def by (auto simp: bf_simps)

lemma msi_header_written_enabled: "bf_get 16 1 (msi_header_written n h) = 1"
proof -
  have "take_bit 1 (1 :: u32) = 1" by (simp add: take_bit_eq_mod)
  then show ?thesis by (simp add: msi_header_written_def msi_enable_def bf_simps)
qed

lemma msi_header_written_vectors:
  "unat (bf_get 20 3 (msi_header_written n h)) = min (unat (bf_get 17 3 h)) (unat n)"
proof -
  have lt: "unat (bf_get 17 3 h) < 8" using unat_bf_get_less [of 17 3 h] by simp
  have "bf_get 20 3 (msi_header_written n h) = take_bit 3 (if bf_get 17 3 h \<le> n then bf_get 17 3 h else n)"
    by (simp add: msi_header_written_def msi_enable_def multi_msg_enable_def multi_msg_capable_def bf_simps)
  then show ?thesis
    using lt by (auto simp: unat_take_bit word_le_nat_alt)
qed

text \<open>The registers \<open>ConfigureMSIRegister\<close> writes for the capability at \<open>p\<close>, in order.\<close>

definition msi_writes :: "(u32 \<Rightarrow> u32) \<Rightarrow> Device \<Rightarrow> u8 \<Rightarrow> u32 \<Rightarrow> u32 \<Rightarrow> u32 \<Rightarrow> (u8 \<times> u32) list" where
  "msi_writes C dev p msg_addr msg_data n =
     (let h = conf_of C dev p; q = (if addr_64_capable h then p + 12 else p + 8)
      in [(p, msi_header_written n h), (p + 4, msg_addr)] @
         (if addr_64_capable h then [(p + 8, conf_of C dev (p + 8))] else []) @ [(q, msg_data)] @
         (if per_vector_mask_capable h
          then [(q + 4, conf_of C dev (q + 4)), (q + 8, conf_of C dev (q + 8))] else []))"

lemma ReadMSICapability_obtain:
  fixes C :: "u32 \<Rightarrow> u32" and dev :: Device and p :: u8
  assumes "config_space io cfg" and "cfg hw = C"
  defines "h \<equiv> conf_of C dev p"
  defines "q \<equiv> (if addr_64_capable h then p + 12 else p + 8)"
  obtains hw' where "cfg hw' = C" and "ReadMSICapability io dev p hw =
    (\<lparr>msi_header = h, msi_msg_addr = conf_of C dev (p + 4),
      msi_msg_upper_addr = (if addr_64_capable h then conf_of C dev (p + 8) else 0),
      msi_msg_data = conf_of C dev q,
      msi_mask_bits = (if per_vector_mask_capable h then conf_of C dev (q + 4) else 0),
      msi_pending_bits = (if per_vector_mask_capable h then conf_of C dev (q + 8) else 0)\<rparr>, hw')"
proof -
  have rd: "\<exists>hw'. ReadConfReg io dev r hw = (conf_of C dev r, hw') \<and> cfg hw' = C" if "cfg hw = C" for r hw
    by (rule ReadConfReg_obtain [OF assms(1), of dev r hw, unfolded that]) blast
  obtain hw1 where 1: "ReadConfReg io dev p hw = (h, hw1)" "cfg hw1 = C" using rd [OF assms(2)] unfolding h_def by blast
  obtain hw2 where 2: "ReadConfReg io dev (p + 4) hw1 = (conf_of C dev (p + 4), hw2)" "cfg hw2 = C" using rd [OF 1(2)] by blast
  obtain hw3 where 3: "ReadConfReg io dev (p + 8) hw2 = (conf_of C dev (p + 8), hw3)" "cfg hw3 = C" using rd [OF 2(2)] by blast
  define hw4 where "hw4 = (if addr_64_capable h then hw3 else hw2)"
  have "cfg hw4 = C" using 2 3 by (simp add: hw4_def)
  then obtain hw5 where 5: "ReadConfReg io dev q hw4 = (conf_of C dev q, hw5)" "cfg hw5 = C" using rd by blast
  obtain hw6 where 6: "ReadConfReg io dev (q + 4) hw5 = (conf_of C dev (q + 4), hw6)" "cfg hw6 = C" using rd [OF 5(2)] by blast
  obtain hw7 where 7: "ReadConfReg io dev (q + 8) hw6 = (conf_of C dev (q + 8), hw7)" "cfg hw7 = C" using rd [OF 6(2)] by blast
  show thesis
  proof (rule that [of "if per_vector_mask_capable h then hw7 else hw5"])
    show "cfg (if per_vector_mask_capable h then hw7 else hw5) = C" using 5 7 by simp
  qed (use 1 2 3 5 6 7 in \<open>cases "addr_64_capable h"; cases "per_vector_mask_capable h";
      simp add: ReadMSICapability_def hw4_def q_def\<close>)
qed

lemma ConfigureMSIRegister_writes:
  assumes "config_space io cfg" and "cfg hw = C"
  shows "\<exists>hw'. cfg hw' = C \<and> ConfigureMSIRegister io dev p msg_addr msg_data n hw =
    (kSuccess, fold (\<lambda>(r, v). WriteConfReg io dev r v) (msi_writes C dev p msg_addr msg_data n) hw')"
proof (rule ReadMSICapability_obtain [OF assms, of dev p])
  fix hw' assume hw': "cfg hw' = C" and "ReadMSICapability io dev p hw =
    (\<lparr>msi_header = conf_of C dev p, msi_msg_addr = conf_of C dev (p + 4),
      msi_msg_upper_addr = (if addr_64_capable (conf_of C dev p) then conf_of C dev (p + 8) else 0),
      msi_msg_data = conf_of C dev (if addr_64_capable (conf_of C dev p) then p + 12 else p + 8),
      msi_mask_bits = (if per_vector_mask_capable (conf_of C dev p)
        then conf_of C dev ((if addr_64_capable (conf_of C dev p) then p + 12 else p + 8) + 4) else 0),
      msi_pending_bits = (if per_vector_mask_capable (conf_of C dev p)
        then conf_of C dev ((if addr_64_capable (conf_of C dev p) then p + 12 else p + 8) + 8) else 0)\<rparr>, hw')"
  note rd = this(2)
  have caps: "addr_64_capable (msi_header_written n h) = addr_64_capable h"
    "per_vector_mask_capable (msi_header_written n h) = per_vector_mask_capable h" for h
    by (simp_all add: addr_64_capable_def per_vector_mask_capable_def bf_get_msi_header_written)
  have "ConfigureMSIRegister io dev p msg_addr msg_data n hw =
    (kSuccess, fold (\<lambda>(r, v). WriteConfReg io dev r v) (msi_writes C dev p msg_addr msg_data n) hw')"
    unfolding ConfigureMSIRegister_def rd Let_def prod.case MSICapability.simps msi_header_written_def [symmetric]
    by (simp add: WriteMSICapability_def msi_writes_def caps)
  with hw' show ?thesis by blast
qed

text \<open>
  C32. \<open>ConfigureMSI\<close> returns exactly on the devices whose capability list ends: on a list whose
  pointers lead back into it the loop never stops.
\<close>

theorem ConfigureMSI_returns_iff:
  assumes "config_space io cfg"
  shows "(\<exists>r. ConfigureMSI io dev msg_addr msg_data n hw = Some r) \<longleftrightarrow>
    (\<exists>ps. capability_chain (cfg hw) dev (ucast (conf_of (cfg hw) dev 0x34 AND 0xff)) ps)"
proof -
  obtain hw1 where 1: "ReadConfReg io dev 0x34 hw = (conf_of (cfg hw) dev 0x34, hw1)" "cfg hw1 = cfg hw"
    by (rule ReadConfReg_obtain [OF assms, of dev "0x34" hw])
  let ?p = "ucast (conf_of (cfg hw) dev 0x34 AND 0xff) :: u8"
  have "(\<exists>r. ConfigureMSI io dev msg_addr msg_data n hw = Some r) \<longleftrightarrow>
    (\<exists>r. find_capabilities io dev ?p 0 0 hw1 = Some r)"
    unfolding ConfigureMSI_def 1 Let_def prod.case
    by (cases "find_capabilities io dev ?p 0 0 hw1") auto
  also have "\<dots> \<longleftrightarrow> (\<exists>ps. capability_chain (cfg hw) dev ?p ps)"
    using find_capabilities_returns [OF _ assms 1(2)] find_capabilities_chain [OF _ assms 1(2)] by metis
  finally show ?thesis .
qed

lemma one_xhc_chain: "capability_chain one_xhc (device_of one_xhc 0 0 0) 0x50 [0x50, 0x70]"
proof -
  have "conf_of one_xhc (device_of one_xhc 0 0 0) 0x50 = 0x00867005"
    "conf_of one_xhc (device_of one_xhc 0 0 0) 0x70 = 1"
    by (simp_all add: conf_of_def MakeAddress_def device_of_def one_xhc_def)
  then show ?thesis
    by (auto intro!: capability_chain.intros simp: ch_next_ptr_def bf_get_def take_bit_eq_mask mask_eq_exp_minus_1)
qed

theorem ConfigureMSI_returns_iff_witness:
  "\<exists>r. ConfigureMSI bank_io (device_of one_xhc 0 0 0) 0xfee00000 0xc040 0 (0, one_xhc) = Some r"
proof -
  have "ucast (conf_of one_xhc (device_of one_xhc 0 0 0) 0x34 AND 0xff) = (0x50 :: u8)"
    by (simp add: conf_of_def MakeAddress_def device_of_def one_xhc_def)
  then show ?thesis
    using one_xhc_chain by (subst ConfigureMSI_returns_iff [OF bank_config_space]) auto
qed

text \<open>
  C31. What \<open>ConfigureMSI\<close> does once the list ends. The last MSI capability of the list wins: it is
  read, and written back with the enable bit set, as many vectors as both sides allow, the
  message address and data in the registers the capability's layout gives them, and its upper
  address, mask and pending registers and every other header bit unchanged. Without one nothing
  is written, and the result tells an MSI-X capability from none.
\<close>

theorem ConfigureMSI_programs:
  assumes "config_space io cfg"
    and "capability_chain (cfg hw) dev (ucast (conf_of (cfg hw) dev 0x34 AND 0xff)) ps"
  defines "p \<equiv> last_with_id (cfg hw) dev kCapabilityMSI 0 ps"
  shows "(\<exists>hw'. cfg hw' = cfg hw \<and> ConfigureMSI io dev msg_addr msg_data n hw =
      Some (if p \<noteq> 0
        then (kSuccess, fold (\<lambda>(r, v). WriteConfReg io dev r v) (msi_writes (cfg hw) dev p msg_addr msg_data n) hw')
        else (if last_with_id (cfg hw) dev kCapabilityMSIX 0 ps \<noteq> 0 then kNotImplemented else kNoPCIMSI, hw'))) \<and>
    (\<forall>h. bf_get 16 1 (msi_header_written n h) = 1 \<and>
      unat (bf_get 20 3 (msi_header_written n h)) = min (unat (bf_get 17 3 h)) (unat n) \<and>
      (\<forall>i<32. i \<notin> {16, 20, 21, 22} \<longrightarrow> bit (msi_header_written n h) i = bit h i))"
proof (intro conjI allI impI)
  obtain hw1 where 1: "ReadConfReg io dev 0x34 hw = (conf_of (cfg hw) dev 0x34, hw1)" "cfg hw1 = cfg hw"
    by (rule ReadConfReg_obtain [OF assms(1), of dev "0x34" hw])
  let ?m = "last_with_id (cfg hw) dev kCapabilityMSIX 0 ps"
  obtain hw2 where 2: "cfg hw2 = cfg hw"
    "find_capabilities io dev (ucast (conf_of (cfg hw) dev 0x34 AND 0xff)) 0 0 hw1 = Some (p, ?m, hw2)"
    using find_capabilities_chain [OF assms(2,1) 1(2), of 0 0] unfolding p_def by blast
  obtain hw3 where 3: "cfg hw3 = cfg hw" "ConfigureMSIRegister io dev p msg_addr msg_data n hw2 =
      (kSuccess, fold (\<lambda>(r, v). WriteConfReg io dev r v) (msi_writes (cfg hw) dev p msg_addr msg_data n) hw3)"
    using ConfigureMSIRegister_writes [OF assms(1) 2(1)] by blast
  have "ConfigureMSI io dev msg_addr msg_data n hw = Some (if p \<noteq> 0 then ConfigureMSIRegister io dev p msg_addr msg_data n hw2
      else (if ?m \<noteq> 0 then kNotImplemented else kNoPCIMSI, hw2))"
    unfolding ConfigureMSI_def 1 Let_def prod.case 2(2) option.case by simp
  then show "\<exists>hw'. cfg hw' = cfg hw \<and> ConfigureMSI io dev msg_addr msg_data n hw =
      Some (if p \<noteq> 0
        then (kSuccess, fold (\<lambda>(r, v). WriteConfReg io dev r v) (msi_writes (cfg hw) dev p msg_addr msg_data n) hw')
        else (if ?m \<noteq> 0 then kNotImplemented else kNoPCIMSI, hw'))"
    using 2(1) 3 by (cases "p = 0") auto
  fix h
  show "bf_get 16 1 (msi_header_written n h) = 1" by (rule msi_header_written_enabled)
  show "unat (bf_get 20 3 (msi_header_written n h)) = min (unat (bf_get 17 3 h)) (unat n)"
    by (rule msi_header_written_vectors)
  fix i :: nat assume "i < 32" "i \<notin> {16, 20, 21, 22}"
  then have "i < 20 \<or> 22 < i" by auto
  with \<open>i < 32\<close> \<open>i \<notin> _\<close> show "bit (msi_header_written n h) i = bit h i"
    by (intro bit_msi_header_written) auto
qed

theorem ConfigureMSI_programs_witness:
  "\<exists>hw'. snd hw' = one_xhc \<and> ConfigureMSI bank_io (device_of one_xhc 0 0 0) 0xfee00000 0xc040 0 (0, one_xhc) =
    Some (kSuccess, fold (\<lambda>(r, v). WriteConfReg bank_io (device_of one_xhc 0 0 0) r v)
      (msi_writes one_xhc (device_of one_xhc 0 0 0) 0x50 0xfee00000 0xc040 0) hw')"
proof -
  let ?d = "device_of one_xhc 0 0 0"
  have regs: "ucast (conf_of one_xhc ?d 0x34 AND 0xff) = (0x50 :: u8)"
    "conf_of one_xhc ?d 0x50 = 0x00867005" "conf_of one_xhc ?d 0x70 = 1"
    by (simp_all add: conf_of_def MakeAddress_def device_of_def one_xhc_def)
  then have msi: "last_with_id one_xhc ?d kCapabilityMSI 0 [0x50, 0x70] = 0x50"
    by (simp add: last_with_id_def ch_cap_id_def kCapabilityMSI_def bf_get_def take_bit_eq_mask mask_eq_exp_minus_1)
  from ConfigureMSI_programs [OF bank_config_space, of "(0, one_xhc)" ?d "[0x50, 0x70]"] one_xhc_chain
  show ?thesis by (simp add: regs(1) msi)
qed

definition is_xhc :: "Device \<Rightarrow> bool" where
  "is_xhc d \<longleftrightarrow> Match3 (dev_class_code d) 0x0c 0x03 0x30"

definition is_intel :: "(u32 \<Rightarrow> u32) \<Rightarrow> Device \<Rightarrow> bool" where
  "is_intel C d \<longleftrightarrow> vendor_of C (dev_bus d) (dev_device d) (dev_function d) = 0x8086"

lemma lookupXHC_loop_result:
  assumes "config_space io cfg" and "cfg hw = C"
  shows "\<exists>hw'. cfg hw' = C \<and> lookupXHC_loop io devs is d hw =
    (case find (\<lambda>i. is_xhc (devs ! i) \<and> is_intel C (devs ! i)) is of Some i \<Rightarrow> Some i
     | None \<Rightarrow> (if filter (\<lambda>i. is_xhc (devs ! i)) is = [] then d
         else Some (last (filter (\<lambda>i. is_xhc (devs ! i)) is))), hw')"
  using assms(2)
proof (induction "is" arbitrary: d hw)
  case (Cons i "is")
  show ?case
  proof (cases "is_xhc (devs ! i)")
    case True
    let ?d = "devs ! i"
    obtain hw1 where 1: "ReadVendorId io (dev_bus ?d) (dev_device ?d) (dev_function ?d) hw =
        (vendor_of C (dev_bus ?d) (dev_device ?d) (dev_function ?d), hw1)" "cfg hw1 = C"
      by (rule ReadVendorId_obtain [OF assms(1), of "dev_bus ?d" "dev_device ?d" "dev_function ?d" hw, unfolded Cons.prems])
    with True Cons.IH [OF 1(2), of "Some i"] show ?thesis
      unfolding lookupXHC_loop.simps is_xhc_def [symmetric] by (auto simp: is_intel_def ReadVendorId_dev_def cong: option.case_cong)
  next
    case False
    with Cons.IH [OF Cons.prems, of d] show ?thesis unfolding lookupXHC_loop.simps is_xhc_def [symmetric] by (auto cong: option.case_cong)
  qed
qed (auto intro: exI [of _ hw])

text \<open>The first Intel controller of the table, else the last of any vendor.\<close>

lemma lookupXHC_prefers_intel:
  fixes st :: "'hw PciState"
  assumes "config_space io cfg"
  defines "xhc \<equiv> \<lambda>i. is_xhc (pci_devices st ! i)"
    and "intel \<equiv> \<lambda>i. is_intel (cfg (pci_hw st)) (pci_devices st ! i)"
  shows "fst (lookupXHC io st) =
      (case find (\<lambda>i. xhc i \<and> intel i) [0..<pci_num_device st] of Some i \<Rightarrow> Some i
       | None \<Rightarrow> (if filter xhc [0..<pci_num_device st] = [] then None
           else Some (last (filter xhc [0..<pci_num_device st])))) \<and>
    (fst (lookupXHC io st) = None \<longleftrightarrow> (\<forall>i<pci_num_device st. \<not> xhc i)) \<and>
    (\<exists>hw. snd (lookupXHC io st) = st\<lparr>pci_hw := hw\<rparr>)"
proof -
  obtain hw' where "lookupXHC_loop io (pci_devices st) [0..<pci_num_device st] None (pci_hw st) =
    (case find (\<lambda>i. xhc i \<and> intel i) [0..<pci_num_device st] of Some i \<Rightarrow> Some i
     | None \<Rightarrow> (if filter xhc [0..<pci_num_device st] = [] then None
         else Some (last (filter xhc [0..<pci_num_device st]))), hw')"
    using lookupXHC_loop_result [OF assms(1) refl] unfolding xhc_def intel_def by blast
  then have r: "fst (lookupXHC io st) = (case find (\<lambda>i. xhc i \<and> intel i) [0..<pci_num_device st] of Some i \<Rightarrow> Some i
     | None \<Rightarrow> (if filter xhc [0..<pci_num_device st] = [] then None
         else Some (last (filter xhc [0..<pci_num_device st]))))"
    by (simp add: lookupXHC_def)
  have "(\<forall>i<pci_num_device st. \<not> xhc i) \<Longrightarrow> find (\<lambda>i. xhc i \<and> intel i) [0..<pci_num_device st] = None"
    by (auto simp: find_None_iff)
  moreover have "\<exists>hw. snd (lookupXHC io st) = st\<lparr>pci_hw := hw\<rparr>" by (auto simp: lookupXHC_def split: prod.splits)
  ultimately show ?thesis using r by (auto simp: filter_empty_conv split: option.split)
qed

lemma LogDevices_keeps:
  assumes "config_space io cfg"
  shows "cfg (LogDevices io devs hw) = cfg hw"
proof (induction devs arbitrary: hw)
  case (Cons d devs)
  obtain hw1 where 1: "ReadVendorId io (dev_bus d) (dev_device d) (dev_function d) hw =
      (vendor_of (cfg hw) (dev_bus d) (dev_device d) (dev_function d), hw1)" "cfg hw1 = cfg hw"
    by (rule ReadVendorId_obtain [OF assms])
  obtain hw2 where 2: "ReadClassCode io (dev_bus d) (dev_device d) (dev_function d) hw1 =
      (class_of (cfg hw1) (dev_bus d) (dev_device d) (dev_function d), hw2)" "cfg hw2 = cfg hw1"
    by (rule ReadClassCode_obtain [OF assms])
  show ?case using Cons.IH [of hw2] by (simp add: LogDevices_def 1 2)
qed (simp add: LogDevices_def)

text \<open>The choice in terms of what the table lists.\<close>

lemma lookupXHC_choice:
  assumes "config_space io cfg" and "pci_wf st" and "cfg (pci_hw st) = C"
  shows "case fst (lookupXHC io st) of
      Some i \<Rightarrow> i < pci_num_device st \<and> is_xhc (pci_devices st ! i) \<and>
        (is_intel C (pci_devices st ! i) \<or> (\<forall>d\<in>listed st. is_xhc d \<longrightarrow> \<not> is_intel C d))
    | None \<Rightarrow> \<forall>d\<in>listed st. \<not> is_xhc d"
proof -
  note found = lookupXHC_prefers_intel [OF assms(1), of st, unfolded assms(3)]
  have entry: "d \<in> listed st \<longleftrightarrow> (\<exists>i<pci_num_device st. d = pci_devices st ! i)" for d
    using assms(2) by (auto simp: listed_def pci_wf_def in_set_conv_nth)
  show ?thesis
  proof (cases "fst (lookupXHC io st)")
    case None
    with found show ?thesis by (auto simp: entry)
  next
    case (Some i)
    show ?thesis
    proof (cases "find (\<lambda>i. is_xhc (pci_devices st ! i) \<and> is_intel C (pci_devices st ! i)) [0..<pci_num_device st]")
      case None
      let ?xs = "filter (\<lambda>i. is_xhc (pci_devices st ! i)) [0..<pci_num_device st]"
      have "i = last ?xs" "?xs \<noteq> []" using found None Some by (auto split: if_splits)
      then have "i \<in> set ?xs" using last_in_set by blast
      moreover have "\<forall>d\<in>listed st. is_xhc d \<longrightarrow> \<not> is_intel C d" using None by (auto simp: find_None_iff entry)
      ultimately show ?thesis using Some by simp
    next
      case (Some j)
      then have "fst (lookupXHC io st) = Some j" using found by simp
      then show ?thesis using Some by (auto simp: find_Some_iff)
    qed
  qed
qed

text \<open>
  C34. The kernel finds the USB host controller. From any hardware the search returns; a controller
  it returns is an xHCI function that is there, an Intel one if the table has one. If the scan
  succeeded, it finds a controller whenever one is present on a root bus or behind a bridge, and
  an Intel one whenever one is present; with more than 32 functions it may miss it.
\<close>

theorem ProbePci_finds_controller:
  assumes "config_space io cfg" and "length (pci_devices st) = 32"
  defines "C \<equiv> cfg (pci_hw st)"
  shows "\<exists>err xhc st'. ProbePci io st = Some (err, xhc, st') \<and> (err = kSuccess \<or> err = kFull \<and> pci_num_device st' = 32) \<and>
    (case xhc of
       Some i \<Rightarrow> i < pci_num_device st' \<and> pci_devices st' ! i \<in> all_devices C \<and> is_xhc (pci_devices st' ! i) \<and>
         (is_intel C (pci_devices st' ! i) \<or> (\<forall>d\<in>listed st'. is_xhc d \<longrightarrow> \<not> is_intel C d))
     | None \<Rightarrow> \<forall>d\<in>listed st'. \<not> is_xhc d) \<and>
    (err = kSuccess \<longrightarrow> listed st' = all_devices C)"
proof -
  obtain err st1 where 1: "ScanAllBus io st = Some (err, st1)" using ScanAllBus_total [OF assms(2)] by blast
  note scan = lists_ScanAllBus [OF assms(1) _ assms(2) 1, of C]
  define st2 where "st2 = st1\<lparr>pci_hw := LogDevices io (take (pci_num_device st1) (pci_devices st1)) (pci_hw st1)\<rparr>"
  have st2: "cfg (pci_hw st2) = C" "pci_wf st2" "listed st2 = listed st1" "pci_num_device st2 = pci_num_device st1"
    using scan(3,4) by (simp_all add: st2_def LogDevices_keeps [OF assms(1)] C_def)
  obtain xhc st' where 2: "lookupXHC io st2 = (xhc, st')" by fastforce
  then obtain hw where st': "st' = st2\<lparr>pci_hw := hw\<rparr>"
    using lookupXHC_prefers_intel [OF assms(1), of st2] by auto
  then have table: "listed st' = listed st2" "pci_num_device st' = pci_num_device st2" "pci_devices st' = pci_devices st2"
    by simp_all
  have "pci_devices st2 ! i \<in> listed st2" if "i < pci_num_device st2" for i
    using that st2(2) by (auto simp: listed_def pci_wf_def in_set_conv_nth)
  moreover have "listed st2 \<subseteq> all_devices C" "err = kSuccess \<and> all_devices C \<subseteq> listed st2 \<or> err = kFull \<and> pci_num_device st2 = 32"
    using scan(1,2) st2 by (simp_all add: C_def)
  moreover have "ProbePci io st = Some (err, xhc, st')" by (simp add: ProbePci_def 1 st2_def [symmetric] 2)
  ultimately show ?thesis
    using lookupXHC_choice [OF assms(1) st2(2,1)]
    by (intro exI [of _ err] exI [of _ xhc] exI [of _ st']) (auto simp: table 2 split: option.splits)
qed

theorem ProbePci_finds_controller_witness:
  "\<exists>err xhc st'. ProbePci bank_io sample_pci = Some (err, xhc, st') \<and>
    (err = kSuccess \<longrightarrow> (\<exists>i<pci_num_device st'. xhc = Some i \<and> is_xhc (pci_devices st' ! i)))"
proof -
  have len: "length (pci_devices sample_pci) = 32" and hw: "snd (pci_hw sample_pci) = one_xhc"
    by (simp_all add: sample_pci_def)
  have "root_bus one_xhc 0" "fn_present one_xhc 0 0 0" and xhc: "is_xhc (device_of one_xhc 0 0 0)"
    by (simp_all add: root_bus_def fn_present_def header_of_def vendor_of_def MakeAddress_def one_xhc_def is_xhc_def
      Match3_def Match2_def Match1_def device_of_def class_of_def Let_def)
  then have there: "device_of one_xhc 0 0 0 \<in> all_devices one_xhc"
    unfolding all_devices_def devices_below_def using below.here by blast
  from ProbePci_finds_controller [OF bank_config_space len, unfolded hw] obtain err xhc' st' where
    1: "ProbePci bank_io sample_pci = Some (err, xhc', st')" and
    2: "case xhc' of
       Some i \<Rightarrow> i < pci_num_device st' \<and> pci_devices st' ! i \<in> all_devices one_xhc \<and> is_xhc (pci_devices st' ! i) \<and>
         (is_intel one_xhc (pci_devices st' ! i) \<or> (\<forall>d\<in>listed st'. is_xhc d \<longrightarrow> \<not> is_intel one_xhc d))
     | None \<Rightarrow> \<forall>d\<in>listed st'. \<not> is_xhc d" "err = kSuccess \<longrightarrow> listed st' = all_devices one_xhc" by blast
  have "err = kSuccess \<longrightarrow> (\<exists>i<pci_num_device st'. xhc' = Some i \<and> is_xhc (pci_devices st' ! i))"
    using 2 there xhc by (cases xhc') auto
  with 1 show ?thesis by blast
qed

end
