(* ===== verification/Descriptors.thy ===== *)
theory Descriptors
  imports Prelude
begin

text \<open>
  The x86-64 tables the kernel fills: segment descriptors (\<open>kernel/segment\<close>), interrupt gates
  (\<open>kernel/interrupt\<close>) and the identity page table (\<open>kernel/paging\<close>). Unions of a word and
  bit-fields are words whose fields \<open>bf_get\<close> and \<open>bf_set\<close> access. The addresses the linker gives
  to the tables are parameters; the specification reads the tables the way the processor does.
\<close>

section \<open>Descriptor types\<close>

text \<open>\<open>DescriptorType\<close>: two pairs of enumerators share a value, as in the source.\<close>

type_synonym DescriptorType = u64

definition kUpper8Bytes :: DescriptorType where "kUpper8Bytes = 0"
definition kLDT :: DescriptorType where "kLDT = 2"
definition kTSSAvailable :: DescriptorType where "kTSSAvailable = 9"
definition kTSSBusy :: DescriptorType where "kTSSBusy = 11"
definition kCallGate :: DescriptorType where "kCallGate = 12"
definition kInterruptGate :: DescriptorType where "kInterruptGate = 14"
definition kTrapGate :: DescriptorType where "kTrapGate = 15"
definition kReadWrite :: DescriptorType where "kReadWrite = 2"
definition kExecuteRead :: DescriptorType where "kExecuteRead = 10"

section \<open>Segments\<close>

type_synonym SegmentDescriptor = u64

definition sd_limit_low :: "u64 \<Rightarrow> SegmentDescriptor \<Rightarrow> SegmentDescriptor" where "sd_limit_low = bf_set 0 16"
definition sd_base_low :: "u64 \<Rightarrow> SegmentDescriptor \<Rightarrow> SegmentDescriptor" where "sd_base_low = bf_set 16 16"
definition sd_base_middle :: "u64 \<Rightarrow> SegmentDescriptor \<Rightarrow> SegmentDescriptor" where "sd_base_middle = bf_set 32 8"
definition sd_type :: "u64 \<Rightarrow> SegmentDescriptor \<Rightarrow> SegmentDescriptor" where "sd_type = bf_set 40 4"
definition sd_system_segment :: "u64 \<Rightarrow> SegmentDescriptor \<Rightarrow> SegmentDescriptor" where "sd_system_segment = bf_set 44 1"
definition sd_descriptor_privilege_level :: "u64 \<Rightarrow> SegmentDescriptor \<Rightarrow> SegmentDescriptor" where
  "sd_descriptor_privilege_level = bf_set 45 2"
definition sd_present :: "u64 \<Rightarrow> SegmentDescriptor \<Rightarrow> SegmentDescriptor" where "sd_present = bf_set 47 1"
definition sd_limit_high :: "u64 \<Rightarrow> SegmentDescriptor \<Rightarrow> SegmentDescriptor" where "sd_limit_high = bf_set 48 4"
definition sd_long_mode :: "u64 \<Rightarrow> SegmentDescriptor \<Rightarrow> SegmentDescriptor" where "sd_long_mode = bf_set 53 1"
definition sd_default_operation_size :: "u64 \<Rightarrow> SegmentDescriptor \<Rightarrow> SegmentDescriptor" where
  "sd_default_operation_size = bf_set 54 1"
definition sd_granularity :: "u64 \<Rightarrow> SegmentDescriptor \<Rightarrow> SegmentDescriptor" where "sd_granularity = bf_set 55 1"
definition sd_base_high :: "u64 \<Rightarrow> SegmentDescriptor \<Rightarrow> SegmentDescriptor" where "sd_base_high = bf_set 56 8"

lemmas sd_defs = sd_limit_low_def sd_base_low_def sd_base_middle_def sd_type_def sd_system_segment_def
  sd_descriptor_privilege_level_def sd_present_def sd_limit_high_def sd_long_mode_def
  sd_default_operation_size_def sd_granularity_def sd_base_high_def

text \<open>The descriptor passed in is overwritten completely by \<open>desc.data = 0\<close>.\<close>

definition SetCodeSegment :: "DescriptorType \<Rightarrow> u32 \<Rightarrow> u32 \<Rightarrow> u32 \<Rightarrow> SegmentDescriptor \<Rightarrow> SegmentDescriptor" where
  "SetCodeSegment ty descriptor_privilege_level base limit desc =
     (let desc = 0;
          desc = sd_limit_low (ucast (limit AND 0xffff)) desc;
          desc = sd_limit_high (ucast (drop_bit 16 limit AND 0xf)) desc;
          desc = sd_base_low (ucast (base AND 0xffff)) desc;
          desc = sd_base_middle (ucast (drop_bit 16 base AND 0xff)) desc;
          desc = sd_base_high (ucast (drop_bit 24 base AND 0xff)) desc;
          desc = sd_type ty desc;
          desc = sd_system_segment 1 desc;
          desc = sd_descriptor_privilege_level (ucast descriptor_privilege_level) desc;
          desc = sd_present 1 desc;
          desc = sd_long_mode 1 desc;
          desc = sd_default_operation_size 0 desc;
          desc = sd_granularity 1 desc
      in desc)"

definition SetDataSegment :: "DescriptorType \<Rightarrow> u32 \<Rightarrow> u32 \<Rightarrow> u32 \<Rightarrow> SegmentDescriptor \<Rightarrow> SegmentDescriptor" where
  "SetDataSegment ty descriptor_privilege_level base limit desc =
     (let desc = SetCodeSegment ty descriptor_privilege_level base limit desc;
          desc = sd_long_mode 0 desc;
          desc = sd_default_operation_size 1 desc
      in desc)"

text \<open>The table \<open>gdt\<close> and the arguments of \<open>LoadGDT\<close>, its limit and address.\<close>

definition SetupSegments :: "u64 \<Rightarrow> SegmentDescriptor list \<Rightarrow> SegmentDescriptor list \<times> u16 \<times> u64" where
  "SetupSegments gdt_address gdt =
     (let gdt = gdt[0 := 0];
          gdt = gdt[1 := SetCodeSegment kExecuteRead 0 0 0xfffff (gdt ! 1)];
          gdt = gdt[2 := SetDataSegment kReadWrite 0 0 0xfffff (gdt ! 2)]
      in (gdt, word_of_nat (8 * length gdt) - 1, gdt_address))"

text \<open>What the processor reads in a segment descriptor.\<close>

definition segment_base :: "SegmentDescriptor \<Rightarrow> u64" where
  "segment_base d = bf_get 16 16 d OR push_bit 16 (bf_get 32 8 d) OR push_bit 24 (bf_get 56 8 d)"

definition segment_limit :: "SegmentDescriptor \<Rightarrow> u64" where
  "segment_limit d = bf_get 0 16 d OR push_bit 16 (bf_get 48 4 d)"

text \<open>The fields after the assignments, of which the last to a field decides.\<close>

lemma take_and_mask:
  "take_bit n (ucast (w AND mask n) :: 'b::len word) = take_bit n (ucast (w :: 'a::len word))"
  by (rule bit_word_eqI) (auto simp: bit_simps dest: bit_imp_le_length)

lemma masks: "(0xffff :: 'a::len word) = mask 16" "(0xff :: 'a word) = mask 8" "(0xf :: 'a word) = mask 4"
  by (simp_all add: mask_eq_exp_minus_1)

lemmas sd_read = bf_get_set_same bf_get_set_other masks take_and_mask

lemma SetCodeSegment_fields:
  fixes ty :: u64 and dpl base limit :: u32 and desc :: u64
  defines "d \<equiv> SetCodeSegment ty dpl base limit desc"
  shows "bf_get 0 16 d = take_bit 16 (ucast limit)" "bf_get 48 4 d = take_bit 4 (ucast (drop_bit 16 limit))"
    "bf_get 16 16 d = take_bit 16 (ucast base)" "bf_get 32 8 d = take_bit 8 (ucast (drop_bit 16 base))"
    "bf_get 56 8 d = take_bit 8 (ucast (drop_bit 24 base))" "bf_get 40 4 d = take_bit 4 ty"
    "bf_get 44 1 d = 1" "bf_get 45 2 d = take_bit 2 (ucast dpl)" "bf_get 47 1 d = 1" "bf_get 53 1 d = 1"
    "bf_get 54 1 d = 0" "bf_get 55 1 d = 1"
  by (simp_all add: d_def SetCodeSegment_def Let_def sd_defs sd_read)

lemma SetDataSegment_fields:
  fixes ty :: u64 and dpl base limit :: u32 and desc :: u64
  defines "d \<equiv> SetDataSegment ty dpl base limit desc"
  shows "bf_get 0 16 d = take_bit 16 (ucast limit)" "bf_get 48 4 d = take_bit 4 (ucast (drop_bit 16 limit))"
    "bf_get 16 16 d = take_bit 16 (ucast base)" "bf_get 32 8 d = take_bit 8 (ucast (drop_bit 16 base))"
    "bf_get 56 8 d = take_bit 8 (ucast (drop_bit 24 base))" "bf_get 40 4 d = take_bit 4 ty"
    "bf_get 44 1 d = 1" "bf_get 45 2 d = take_bit 2 (ucast dpl)" "bf_get 47 1 d = 1" "bf_get 53 1 d = 0"
    "bf_get 54 1 d = 1" "bf_get 55 1 d = 1"
  by (simp_all add: d_def SetDataSegment_def Let_def sd_long_mode_def sd_default_operation_size_def
      bf_get_set_same bf_get_set_other SetCodeSegment_fields SetCodeSegment_fields [unfolded One_nat_def])

lemma join_base:
  "take_bit 16 (ucast (b :: u32)) OR push_bit 16 (take_bit 8 (ucast (drop_bit 16 b))) OR
     push_bit 24 (take_bit 8 (ucast (drop_bit 24 b))) = (ucast b :: u64)"
proof (rule bit_word_eqI)
  fix n assume "n < LENGTH(64)"
  consider "n < 16" | "16 \<le> n" "n < 24" | "24 \<le> n" "n < 32" | "32 \<le> n" by linarith
  then show "bit (take_bit 16 (ucast b) OR push_bit 16 (take_bit 8 (ucast (drop_bit 16 b))) OR
     push_bit 24 (take_bit 8 (ucast (drop_bit 24 b))) :: u64) n \<longleftrightarrow> bit (ucast b :: u64) n"
    by cases (use \<open>n < LENGTH(64)\<close> in \<open>auto simp: bit_simps dest: bit_imp_le_length\<close>)
qed

lemma join_limit:
  "take_bit 16 (ucast (l :: u32)) OR push_bit 16 (take_bit 4 (ucast (drop_bit 16 l))) =
     (take_bit 20 (ucast l) :: u64)"
proof (rule bit_word_eqI)
  fix n assume "n < LENGTH(64)"
  consider "n < 16" | "16 \<le> n" "n < 20" | "20 \<le> n" by linarith
  then show "bit (take_bit 16 (ucast l) OR push_bit 16 (take_bit 4 (ucast (drop_bit 16 l))) :: u64) n \<longleftrightarrow>
      bit (take_bit 20 (ucast l) :: u64) n"
    by cases (use \<open>n < LENGTH(64)\<close> in \<open>auto simp: bit_simps dest: bit_imp_le_length\<close>)
qed

section \<open>Interrupt gates\<close>

definition kXHCI :: nat where "kXHCI = 0x40"

type_synonym InterruptDescriptorAttribute = u16

record InterruptDescriptor =
  id_offset_low :: u16
  id_segment_selector :: u16
  id_attr :: InterruptDescriptorAttribute
  id_offset_middle :: u16
  id_offset_high :: u32
  id_reserved :: u32

text \<open>The frame the processor pushes for an interrupt.\<close>

record InterruptFrame =
  if_rip :: u64
  if_cs :: u64
  if_rflags :: u64
  if_rsp :: u64
  if_ss :: u64

definition MakeIDTAttr :: "DescriptorType \<Rightarrow> u8 \<Rightarrow> bool \<Rightarrow> u8 \<Rightarrow> InterruptDescriptorAttribute" where
  "MakeIDTAttr ty descriptor_privilege_level present interrupt_stack_table =
     (let attr = 0;
          attr = bf_set 0 3 (ucast interrupt_stack_table) attr;
          attr = bf_set 8 4 (ucast ty) attr;
          attr = bf_set 13 2 (ucast descriptor_privilege_level) attr;
          attr = bf_set 15 1 (of_bool present) attr
      in attr)"

definition SetIDTEntry ::
  "InterruptDescriptorAttribute \<Rightarrow> u64 \<Rightarrow> u16 \<Rightarrow> InterruptDescriptor \<Rightarrow> InterruptDescriptor" where
  "SetIDTEntry attr offset segment_selector desc =
     desc\<lparr>id_segment_selector := segment_selector, id_attr := attr,
       id_offset_low := ucast (offset AND 0xffff),
       id_offset_middle := ucast (drop_bit 16 offset AND 0xffff),
       id_offset_high := ucast (drop_bit 32 offset)\<rparr>"

text \<open>\<open>KernelMainNewStack\<close> installs the one handler.\<close>

definition InstallHandler :: "u64 \<Rightarrow> u16 \<Rightarrow> InterruptDescriptor list \<Rightarrow> InterruptDescriptor list" where
  "InstallHandler handler cs idt =
     idt[kXHCI := SetIDTEntry (MakeIDTAttr kInterruptGate 0 True 0) handler cs (idt ! kXHCI)]"

text \<open>
  The local APIC holds the interrupts that are in service, the last one accepted first. It offers the
  processor a vector only if its priority class is above that of those in service, and a write to its
  end-of-interrupt register, at \<open>0xfee000b0\<close>, takes the last one off; a write elsewhere does not.
\<close>

record LocalApic =
  apic_in_service :: "nat list"

definition apic_write :: "u64 \<Rightarrow> u32 \<Rightarrow> LocalApic \<Rightarrow> LocalApic" where
  "apic_write a v apic = (if a = 0xfee000b0 then apic\<lparr>apic_in_service := drop 1 (apic_in_service apic)\<rparr> else apic)"

definition apic_offers :: "nat \<Rightarrow> LocalApic \<Rightarrow> bool" where
  "apic_offers vector apic \<longleftrightarrow> (\<forall>v \<in> set (apic_in_service apic). v div 16 < vector div 16)"

definition apic_accept :: "nat \<Rightarrow> LocalApic \<Rightarrow> LocalApic" where
  "apic_accept vector apic = apic\<lparr>apic_in_service := vector # apic_in_service apic\<rparr>"

definition NotifyEndOfInterrupt :: "LocalApic \<Rightarrow> LocalApic" where
  "NotifyEndOfInterrupt = apic_write 0xfee000b0 0"

lemma NotifyEndOfInterrupt_accept: "NotifyEndOfInterrupt (apic_accept vector apic) = apic"
  by (simp add: NotifyEndOfInterrupt_def apic_write_def apic_accept_def)

text \<open>The processor's view of a gate: the address it jumps to and the gate's type.\<close>

definition gate_offset :: "InterruptDescriptor \<Rightarrow> u64" where
  "gate_offset d = ucast (id_offset_low d) OR push_bit 16 (ucast (id_offset_middle d)) OR
     push_bit 32 (ucast (id_offset_high d))"

lemma SetIDTEntry_offset: "gate_offset (SetIDTEntry attr offset sel desc) = offset"
proof (rule bit_word_eqI)
  fix n assume n: "n < LENGTH(64)"
  have *: "gate_offset (SetIDTEntry attr offset sel desc) =
      ucast (ucast (offset AND mask 16) :: u16) OR
      push_bit 16 (ucast (ucast (drop_bit 16 offset AND mask 16) :: u16)) OR
      push_bit 32 (ucast (ucast (drop_bit 32 offset) :: u32))"
    by (simp add: gate_offset_def SetIDTEntry_def masks)
  consider "n < 16" | "16 \<le> n" "n < 32" | "32 \<le> n" by linarith
  then show "bit (gate_offset (SetIDTEntry attr offset sel desc)) n \<longleftrightarrow> bit offset n"
    unfolding * by cases (use n in \<open>auto simp: bit_simps\<close>)
qed

lemma MakeIDTAttr_fields:
  "bf_get 0 3 (MakeIDTAttr ty dpl present ist) = take_bit 3 (ucast ist)"
  "bf_get 8 4 (MakeIDTAttr ty dpl present ist) = take_bit 4 (ucast ty)"
  "bf_get 13 2 (MakeIDTAttr ty dpl present ist) = take_bit 2 (ucast dpl)"
  "bf_get 15 1 (MakeIDTAttr ty dpl present ist) = of_bool present"
  by (simp_all add: MakeIDTAttr_def Let_def bf_get_set_same bf_get_set_other)

section \<open>The identity page table\<close>

definition kPageSize4K :: u64 where "kPageSize4K = 4096"
definition kPageSize2M :: u64 where "kPageSize2M = 512 * kPageSize4K"
definition kPageSize1G :: u64 where "kPageSize1G = 512 * kPageSize2M"
definition kPageDirectoryCount :: nat where "kPageDirectoryCount = 64"

text \<open>The tables with their addresses, each a multiple of 4 KiB, and the register CR3.\<close>

record PageTables =
  pt_pml4_table :: "u64 list"
  pt_pdp_table :: "u64 list"
  pt_page_directory :: "u64 list list"
  pt_pml4_address :: u64
  pt_pdp_address :: u64
  pt_page_directory_address :: u64
  pt_cr3 :: u64

text \<open>\<open>&page_directory[i]\<close>\<close>

definition directory_address :: "PageTables \<Rightarrow> nat \<Rightarrow> u64" where
  "directory_address pt i = pt_page_directory_address pt + word_of_nat i * 4096"

definition SetupIdentityPageTable :: "PageTables \<Rightarrow> PageTables" where
  "SetupIdentityPageTable pt =
     (let pt = pt\<lparr>pt_pml4_table := (pt_pml4_table pt)[0 := pt_pdp_address pt OR 0x003]\<rparr>;
          pt = fold (\<lambda>i_pdpt pt.
            let pt = pt\<lparr>pt_pdp_table := (pt_pdp_table pt)[i_pdpt := directory_address pt i_pdpt OR 0x003]\<rparr>
            in fold (\<lambda>i_pd pt. pt\<lparr>pt_page_directory := (pt_page_directory pt)[i_pdpt :=
                  (pt_page_directory pt ! i_pdpt)[i_pd :=
                     (word_of_nat i_pdpt * kPageSize1G + word_of_nat i_pd * kPageSize2M) OR 0x83]]\<rparr>)
                 [0..<512] pt) [0..<kPageDirectoryCount] pt
      in pt\<lparr>pt_cr3 := pt_pml4_address pt\<rparr>)"

text \<open>Tables as the loader leaves them: zero, page-aligned, and not overlapping.\<close>

definition pt_wf :: "PageTables \<Rightarrow> bool" where
  "pt_wf pt \<longleftrightarrow> pt_pml4_table pt = replicate 512 0 \<and> pt_pdp_table pt = replicate 512 0 \<and>
     pt_page_directory pt = replicate kPageDirectoryCount (replicate 512 0) \<and>
     take_bit 12 (pt_pml4_address pt) = 0 \<and> take_bit 12 (pt_pdp_address pt) = 0 \<and>
     take_bit 12 (pt_page_directory_address pt) = 0 \<and>
     unat (pt_pml4_address pt) + 4096 \<le> 2 ^ 52 \<and> unat (pt_pdp_address pt) + 4096 \<le> 2 ^ 52 \<and>
     unat (pt_page_directory_address pt) + 4096 * kPageDirectoryCount \<le> 2 ^ 52 \<and>
     pt_pml4_address pt \<noteq> pt_pdp_address pt \<and>
     (\<forall>i < kPageDirectoryCount. directory_address pt i \<noteq> pt_pml4_address pt \<and>
        directory_address pt i \<noteq> pt_pdp_address pt)"

text \<open>The entry \<open>k\<close> of the table at an address, as memory holds it.\<close>

definition table_entry :: "PageTables \<Rightarrow> u64 \<Rightarrow> nat \<Rightarrow> u64 option" where
  "table_entry pt a k =
     (if a = pt_pml4_address pt then Some (pt_pml4_table pt ! k)
      else if a = pt_pdp_address pt then Some (pt_pdp_table pt ! k)
      else case filter (\<lambda>i. directory_address pt i = a) [0..<kPageDirectoryCount] of
             i # _ \<Rightarrow> Some (pt_page_directory pt ! i ! k)
           | [] \<Rightarrow> None)"

text \<open>The address field of an entry that points to a table, and of one that maps 2 MiB.\<close>

definition entry_table :: "u64 \<Rightarrow> u64" where
  "entry_table e = push_bit 12 (bf_get 12 40 e)"

definition entry_page_2M :: "u64 \<Rightarrow> u64" where
  "entry_page_2M e = push_bit 21 (bf_get 21 31 e)"

text \<open>The processor's walk for a linear address; \<open>None\<close> is a page fault (or an entry this kernel never
  makes: a 1 GiB page, or one with a 4 KiB table). Bit 0 of an entry is present, bit 1 writable,
  bit 7 a large page.\<close>

definition translate :: "PageTables \<Rightarrow> u64 \<Rightarrow> u64 option" where
  "translate pt va =
     do {
       e4 \<leftarrow> table_entry pt (pt_cr3 pt) (unat (bf_get 39 9 va));
       e3 \<leftarrow> if bit e4 0 \<and> bit e4 1 then table_entry pt (entry_table e4) (unat (bf_get 30 9 va)) else None;
       e2 \<leftarrow> if bit e3 0 \<and> bit e3 1 \<and> \<not> bit e3 7 then table_entry pt (entry_table e3) (unat (bf_get 21 9 va)) else None;
       if bit e2 0 \<and> bit e2 1 \<and> bit e2 7 then Some (entry_page_2M e2 + take_bit 21 va) else None
     }"

lemma entry_table_present: "take_bit 12 a = 0 \<Longrightarrow> unat a < 2 ^ 52 \<Longrightarrow> entry_table (a OR 3) = a"
proof -
  assume a: "take_bit 12 a = 0" "unat a < 2 ^ 52"
  have low: "\<not> bit a n" if "n < 12" for n
    using a(1) that by (metis bit_take_bit_iff bit_0_eq bot_apply bot_bool_def)
  have high: "\<not> bit a n" if "52 \<le> n" for n
  proof -
    have "take_bit 52 (unat a) = unat a" using a(2) by (simp add: take_bit_nat_eq_self)
    then have "\<not> bit (unat a) n" using that by (metis bit_take_bit_iff not_less)
    then show ?thesis by (auto simp: bit_unsigned_iff dest: bit_imp_le_length)
  qed
  show "entry_table (a OR 3) = a"
  proof (rule bit_word_eqI)
    fix n assume n: "n < LENGTH(64)"
    have three: "(3 :: u64) = mask 2" by (simp add: mask_eq_exp_minus_1)
    consider "n < 12" | "12 \<le> n" "n < 52" | "52 \<le> n" by linarith
    then show "bit (entry_table (a OR 3)) n \<longleftrightarrow> bit a n"
      unfolding three by cases (use n low high in \<open>auto simp: entry_table_def bit_simps\<close>)
  qed
qed

lemma drop_nth_Cons: "n < length xs \<Longrightarrow> drop n xs = xs ! n # drop (Suc n) xs"
  by (rule Cons_nth_drop_Suc [symmetric])

lemma list_update_map_drop:
  "n < length xs \<Longrightarrow> (map g [0..<n] @ drop n xs)[n := g n] = map g [0..<Suc n] @ drop (Suc n) xs"
  by (simp add: list_update_append drop_nth_Cons)

lemma fill_directory:
  assumes "i < length (pt_page_directory pt)" and "n \<le> length (pt_page_directory pt ! i)"
  shows "fold (\<lambda>j pt. pt\<lparr>pt_page_directory := (pt_page_directory pt)[i := (pt_page_directory pt ! i)[j := g j]]\<rparr>)
      [0..<n] pt =
    pt\<lparr>pt_page_directory := (pt_page_directory pt)[i := map g [0..<n] @ drop n (pt_page_directory pt ! i)]\<rparr>"
  using assms(2)
proof (induction n)
  case (Suc n)
  then show ?case
    using assms(1) list_update_map_drop [of n "pt_page_directory pt ! i" g] by simp
qed simp

definition page_entry :: "nat \<Rightarrow> nat \<Rightarrow> u64" where
  "page_entry i j = (word_of_nat i * kPageSize1G + word_of_nat j * kPageSize2M) OR 0x83"

text \<open>The tables that \<open>SetupIdentityPageTable\<close> leaves.\<close>

lemma SetupIdentityPageTable_tables:
  assumes wf: "pt_wf pt"
  shows "SetupIdentityPageTable pt = pt\<lparr>pt_pml4_table := (pt_pdp_address pt OR 3) # replicate 511 0,
    pt_pdp_table := map (\<lambda>i. directory_address pt i OR 3) [0..<64] @ replicate 448 0,
    pt_page_directory := map (\<lambda>i. map (page_entry i) [0..<512]) [0..<64],
    pt_cr3 := pt_pml4_address pt\<rparr>"
proof -
  define step where "step = (\<lambda>i_pdpt pt.
            let pt = pt\<lparr>pt_pdp_table := (pt_pdp_table pt)[i_pdpt := directory_address pt i_pdpt OR 0x003]\<rparr>
            in fold (\<lambda>i_pd pt. pt\<lparr>pt_page_directory := (pt_page_directory pt)[i_pdpt :=
                  (pt_page_directory pt ! i_pdpt)[i_pd :=
                     (word_of_nat i_pdpt * kPageSize1G + word_of_nat i_pd * kPageSize2M) OR 0x83]]\<rparr>)
                 [0..<512] pt)"
  let ?pt0 = "pt\<lparr>pt_pml4_table := (pt_pml4_table pt)[0 := pt_pdp_address pt OR 0x003]\<rparr>"
  have dir: "directory_address (pt\<lparr>pt_pml4_table := a, pt_pdp_table := b, pt_page_directory := c\<rparr>) i = directory_address pt i"
    for a b c i by (simp add: directory_address_def)
  have loop: "fold step [0..<k] ?pt0 = ?pt0\<lparr>
      pt_pdp_table := map (\<lambda>i. directory_address pt i OR 3) [0..<k] @ drop k (replicate 512 0),
      pt_page_directory := map (\<lambda>i. map (page_entry i) [0..<512]) [0..<k] @ drop k (replicate 64 (replicate 512 0))\<rparr>"
    if "k \<le> 64" for k
    using that
  proof (induction k)
    case 0
    then show ?case using wf by (simp add: pt_wf_def kPageDirectoryCount_def)
  next
    case (Suc k)
    let ?a = "map (\<lambda>i. directory_address pt i OR 3) [0..<k] @ drop k (replicate 512 0)"
    let ?b = "map (\<lambda>i. map (page_entry i) [0..<512]) [0..<k] @ drop k (replicate 64 (replicate 512 0))"
    let ?pt = "?pt0\<lparr>pt_pdp_table := ?a, pt_page_directory := ?b\<rparr>"
    have k: "k < length ?b" "length (?b ! k) = 512" using Suc.prems by (simp_all add: nth_append)
    have "step k ?pt = ?pt\<lparr>pt_pdp_table := ?a[k := directory_address pt k OR 3],
        pt_page_directory := ?b[k := map (page_entry k) [0..<512]]\<rparr>"
      unfolding step_def Let_def page_entry_def [symmetric]
      using fill_directory [of k "?pt\<lparr>pt_pdp_table := ?a[k := directory_address pt k OR 3]\<rparr>" 512 "page_entry k"] k
      by (simp add: directory_address_def del: upt_rec_numeral)
    moreover have "?a[k := directory_address pt k OR 3] =
        map (\<lambda>i. directory_address pt i OR 3) [0..<Suc k] @ drop (Suc k) (replicate 512 0)"
      by (rule list_update_map_drop) (use Suc.prems in simp)
    moreover have "?b[k := map (page_entry k) [0..<512]] =
        map (\<lambda>i. map (page_entry i) [0..<512]) [0..<Suc k] @ drop (Suc k) (replicate 64 (replicate 512 0))"
      by (rule list_update_map_drop) (use Suc.prems in simp)
    ultimately show ?case
      using Suc by (simp del: drop_replicate upt_Suc map_append upt_rec_numeral)
        (simp add: upt_Suc del: upt_rec_numeral)
  qed
  have "SetupIdentityPageTable pt = (fold step [0..<64] ?pt0)\<lparr>pt_cr3 := pt_pml4_address (fold step [0..<64] ?pt0)\<rparr>"
    unfolding SetupIdentityPageTable_def step_def kPageDirectoryCount_def Let_def ..
  moreover have "(pt_pml4_table pt)[0 := pt_pdp_address pt OR 3] = (pt_pdp_address pt OR 3) # replicate 511 0"
    using wf replicate_Suc [of 511 "0 :: u64"] by (simp add: pt_wf_def)
  moreover have "drop 64 (replicate 512 (0 :: u64)) = replicate 448 0"
    "drop 64 (replicate 64 (replicate 512 (0 :: u64))) = []" by simp_all
  ultimately show ?thesis
    unfolding loop [OF order_refl] by (simp del: upt_rec_numeral)
qed

subsection \<open>Walking the tables\<close>

lemma unat_directory_address:
  assumes "pt_wf pt" and "i < 64"
  shows "unat (directory_address pt i) = unat (pt_page_directory_address pt) + 4096 * i"
  using assms by (simp add: directory_address_def pt_wf_def kPageDirectoryCount_def unat_word_ariths unat_of_nat)

lemma directory_address_aligned:
  assumes "pt_wf pt" and "i < 64"
  shows "take_bit 12 (directory_address pt i) = 0"
proof -
  have "unat (take_bit 12 (pt_page_directory_address pt)) = 0" using assms(1) by (simp add: pt_wf_def)
  then have "unat (pt_page_directory_address pt) mod 2 ^ 12 = 0" by (simp only: unat_take_bit)
  then have "unat (directory_address pt i) mod 2 ^ 12 = 0"
    unfolding unat_directory_address [OF assms] by (simp add: mod_add_eq [symmetric])
  then have "unat (take_bit 12 (directory_address pt i)) = 0"
    by (simp only: unat_take_bit)
  then show ?thesis by (simp only: unsigned_eq_0_iff)
qed

lemma filter_eq_upt: "i < n \<Longrightarrow> filter (\<lambda>k. k = i) [0..<n] = [i]"
  by (induction n) (auto simp: less_Suc_eq)

lemma page_entry_shift: "page_entry i j = push_bit 21 (word_of_nat (512 * i + j)) OR 0x83"
  by (simp add: page_entry_def push_bit_eq_mult kPageSize1G_def kPageSize2M_def kPageSize4K_def algebra_simps)

lemma bit_0x83: "bit (0x83 :: u64) n \<longleftrightarrow> n < 2 \<or> n = 7"
proof -
  have "(0x83 :: u64) = mask 2 OR push_bit 7 1" by (simp add: mask_eq_exp_minus_1)
  then show ?thesis by (simp only: bit_or_iff bit_mask_iff bit_push_bit_iff bit_1_iff) auto
qed

lemma page_entry_flags: "bit (page_entry i j) 0" "bit (page_entry i j) 1" "bit (page_entry i j) 7"
  unfolding page_entry_shift bit_or_iff bit_0x83 by simp_all

lemma page_entry_page:
  assumes "i < 64" and "j < 512"
  shows "unat (entry_page_2M (page_entry i j)) = 2 ^ 21 * (512 * i + j)"
proof -
  have lt: "512 * i + j < 2 ^ 31" using assms by simp
  have "bf_get 21 31 (page_entry i j) = take_bit 31 (word_of_nat (512 * i + j))"
    unfolding page_entry_shift by (rule bit_word_eqI) (auto simp: bit_simps bit_0x83 simp del: bit_numeral_word_iff)
  then have "unat (bf_get 21 31 (page_entry i j)) = 512 * i + j"
    using lt by (simp only: unsigned_take_bit_eq unat_of_nat) (simp add: take_bit_nat_eq_self)
  then show ?thesis
    using lt assms by (simp add: entry_page_2M_def push_bit_eq_mult unat_word_ariths)
qed

lemma table_entry_setup:
  assumes wf: "pt_wf pt"
  shows "table_entry (SetupIdentityPageTable pt) (pt_pml4_address pt) k =
      Some (((pt_pdp_address pt OR 3) # replicate 511 0) ! k)"
    and "table_entry (SetupIdentityPageTable pt) (pt_pdp_address pt) k =
      Some ((map (\<lambda>i. directory_address pt i OR 3) [0..<64] @ replicate 448 0) ! k)"
    and "i < 64 \<Longrightarrow> k < 512 \<Longrightarrow>
      table_entry (SetupIdentityPageTable pt) (directory_address pt i) k = Some (page_entry i k)"
proof -
  note tables = SetupIdentityPageTable_tables [OF wf]
  have ne: "pt_pml4_address pt \<noteq> pt_pdp_address pt" using wf by (simp add: pt_wf_def)
  have sel: "pt_pml4_address (SetupIdentityPageTable pt) = pt_pml4_address pt"
    "pt_pdp_address (SetupIdentityPageTable pt) = pt_pdp_address pt"
    "pt_pml4_table (SetupIdentityPageTable pt) = (pt_pdp_address pt OR 3) # replicate 511 0"
    "pt_pdp_table (SetupIdentityPageTable pt) = map (\<lambda>i. directory_address pt i OR 3) [0..<64] @ replicate 448 0"
    "pt_page_directory (SetupIdentityPageTable pt) = map (\<lambda>i. map (page_entry i) [0..<512]) [0..<64]"
    by (simp_all add: tables del: upt_rec_numeral)
  show "table_entry (SetupIdentityPageTable pt) (pt_pml4_address pt) k =
      Some (((pt_pdp_address pt OR 3) # replicate 511 0) ! k)"
    by (simp only: table_entry_def sel if_True simp_thms)
  show "table_entry (SetupIdentityPageTable pt) (pt_pdp_address pt) k =
      Some ((map (\<lambda>i. directory_address pt i OR 3) [0..<64] @ replicate 448 0) ! k)"
    using ne by (simp only: table_entry_def sel if_True if_False simp_thms) (simp add: eq_commute)
  assume i: "i < 64" and k: "k < 512"
  have dir: "directory_address (SetupIdentityPageTable pt) = directory_address pt"
    by (rule ext) (simp add: tables directory_address_def del: upt_rec_numeral)
  have "(directory_address pt i' = directory_address pt i) = (i' = i)" if "i' < 64" for i'
  proof
    assume "directory_address pt i' = directory_address pt i"
    then have "unat (directory_address pt i') = unat (directory_address pt i)" by (rule arg_cong)
    then show "i' = i"
      unfolding unat_directory_address [OF wf that] unat_directory_address [OF wf i] by linarith
  qed (simp only:)
  then have "filter (\<lambda>i'. directory_address pt i' = directory_address pt i) [0..<64] = filter (\<lambda>i'. i' = i) [0..<64]"
    by (intro filter_cong refl) (simp del: upt_rec_numeral)
  then have f: "filter (\<lambda>i'. directory_address pt i' = directory_address pt i) [0..<kPageDirectoryCount] = [i]"
    using i by (simp add: kPageDirectoryCount_def filter_eq_upt del: upt_rec_numeral)
  have "directory_address pt i \<noteq> pt_pml4_address pt" "directory_address pt i \<noteq> pt_pdp_address pt"
    using wf i by (simp_all add: pt_wf_def kPageDirectoryCount_def)
  then show "table_entry (SetupIdentityPageTable pt) (directory_address pt i) k = Some (page_entry i k)"
    unfolding table_entry_def dir f sel using i k
    by (simp only: if_False list.case nth_map_upt diff_zero add_0)
qed

text \<open>The address splits into the three indices and the offset.\<close>

lemma translate_indices:
  assumes "unat va < 64 * 2 ^ 30"
  shows "unat (bf_get 39 9 va) = 0" and "unat (bf_get 30 9 va) = unat va div 2 ^ 30"
    and "unat (bf_get 21 9 va) = unat va div 2 ^ 21 mod 512"
    and "512 * (unat va div 2 ^ 30) + unat va div 2 ^ 21 mod 512 = unat va div 2 ^ 21"
proof -
  have "unat va div 2 ^ 39 = 0" "unat va div 2 ^ 30 < 512" using assms by simp_all
  then show "unat (bf_get 39 9 va) = 0" "unat (bf_get 30 9 va) = unat va div 2 ^ 30"
    by (simp_all only: unat_bf_get) simp_all
  show "unat (bf_get 21 9 va) = unat va div 2 ^ 21 mod 512" by (simp add: unat_bf_get)
  have "unat va div 2 ^ 30 = unat va div 2 ^ 21 div 512" by (simp add: div_mult2_eq [symmetric])
  then show "512 * (unat va div 2 ^ 30) + unat va div 2 ^ 21 mod 512 = unat va div 2 ^ 21"
    by simp
qed

lemma setup_cr3: "pt_wf pt \<Longrightarrow> pt_cr3 (SetupIdentityPageTable pt) = pt_pml4_address pt"
  by (simp add: SetupIdentityPageTable_tables del: upt_rec_numeral)

lemma table_flags: "bit (a OR (3 :: u64)) 0" "bit (a OR (3 :: u64)) 1"
  using bit_or_iff [of a 3] by simp_all

lemma pdp_entry: "pt_wf pt \<Longrightarrow> entry_table (pt_pdp_address pt OR 3) = pt_pdp_address pt"
  by (intro entry_table_present) (simp_all add: pt_wf_def)

lemma directory_entry:
  assumes wf: "pt_wf pt" and i: "i < 64"
  shows "entry_table (directory_address pt i OR 3) = directory_address pt i" and "\<not> bit (directory_address pt i OR 3) 7"
proof -
  have "unat (directory_address pt i) < 2 ^ 52"
    using unat_directory_address [OF wf i] wf i by (simp add: pt_wf_def kPageDirectoryCount_def)
  then show "entry_table (directory_address pt i OR 3) = directory_address pt i"
    by (rule entry_table_present [OF directory_address_aligned [OF wf i]])
  have "\<not> bit (directory_address pt i) 7"
    using directory_address_aligned [OF wf i] by (metis bit_take_bit_iff bit_0_eq bot_apply bot_bool_def
        less_numeral_simps(2) numeral_less_iff semiring_norm(76,77,78,79,80,81))
  then show "\<not> bit (directory_address pt i OR 3) 7" by (simp add: bit_or_iff)
qed

lemma page_and_offset:
  assumes "unat va < 64 * 2 ^ 30"
  shows "entry_page_2M (page_entry (unat va div 2 ^ 30) (unat va div 2 ^ 21 mod 512)) + take_bit 21 va = va"
proof (rule word_unat_eq_iff [THEN iffD2])
  let ?p = "entry_page_2M (page_entry (unat va div 2 ^ 30) (unat va div 2 ^ 21 mod 512))"
  have "unat va div 2 ^ 30 < 64" using assms by (simp add: less_mult_imp_div_less)
  from page_entry_page [OF this, of "unat va div 2 ^ 21 mod 512"] translate_indices(4) [OF assms]
  have u: "unat ?p = 2 ^ 21 * (unat va div 2 ^ 21)" by simp
  have "unat (take_bit 21 va) = unat va mod 2 ^ 21" by (rule unat_take_bit)
  then have "unat ?p + unat (take_bit 21 va) = unat va" unfolding u by (simp only: mult_div_mod_eq)
  moreover have "unat va < 2 ^ 64" using assms by simp
  ultimately show "unat (?p + take_bit 21 va) = unat va" by (simp add: unat_word_ariths(1))
qed

lemma translate_mapped:
  assumes wf: "pt_wf pt" and va: "unat va < 64 * 2 ^ 30"
  shows "translate (SetupIdentityPageTable pt) va = Some va"
proof -
  define i j where ij: "i = unat va div 2 ^ 30" "j = unat va div 2 ^ 21 mod 512"
  note idx = translate_indices(1-3) [OF va, folded ij] and page = page_and_offset [OF va, folded ij]
  have i: "i < 64" using va by (simp add: ij less_mult_imp_div_less)
  have j: "j < 512" by (simp add: ij)
  have e3: "(map (\<lambda>i. directory_address pt i OR 3) [0..<64] @ replicate 448 0) ! i = directory_address pt i OR 3"
    using i by (simp add: nth_append del: upt_rec_numeral)
  have "table_entry (SetupIdentityPageTable pt) (pt_pml4_address pt) 0 = Some (pt_pdp_address pt OR 3)"
    "table_entry (SetupIdentityPageTable pt) (pt_pdp_address pt) i = Some (directory_address pt i OR 3)"
    by (simp_all only: table_entry_setup(1,2) [OF wf] e3 nth_Cons_0)
  then show ?thesis
    unfolding translate_def setup_cr3 [OF wf] idx
    using table_flags directory_entry(2) [OF wf i] page_entry_flags [of i j] page
    by (simp add: pdp_entry [OF wf] directory_entry(1) [OF wf i] table_entry_setup(3) [OF wf i j])
qed

lemma translate_unmapped:
  assumes wf: "pt_wf pt" and va: "unat va < 2 ^ 47" "\<not> unat va < 64 * 2 ^ 30"
  shows "translate (SetupIdentityPageTable pt) va = None"
proof (cases "unat va div 2 ^ 39 = 0")
  case True
  then have "unat va < 2 ^ 39" by (simp add: div_eq_0_iff)
  then have k: "unat va div 2 ^ 30 < 512" by (simp add: less_mult_imp_div_less)
  have k': "64 \<le> unat va div 2 ^ 30" using va(2) by (simp add: less_eq_div_iff_mult_less_eq)
  have "(map (\<lambda>i. directory_address pt i OR 3) [0..<64] @ replicate 448 0) ! (unat va div 2 ^ 30) = 0"
    using k k' by (simp add: nth_append del: upt_rec_numeral)
  moreover have "unat (bf_get 39 9 va) = 0" "unat (bf_get 30 9 va) = unat va div 2 ^ 30"
    using True k by (simp_all only: unat_bf_get) simp_all
  ultimately show ?thesis
    unfolding translate_def setup_cr3 [OF wf] table_entry_setup(1,2) [OF wf]
    using table_flags by (simp add: pdp_entry [OF wf] table_entry_setup(2) [OF wf] del: upt_rec_numeral)
next
  case k: False
  have "unat va div 2 ^ 39 < 512" using va(1) by (simp add: less_mult_imp_div_less)
  then have "((pt_pdp_address pt OR 3) # replicate 511 0) ! unat (bf_get 39 9 va) = 0"
    using k by (simp add: unat_bf_get nth_Cons')
  then show ?thesis
    unfolding translate_def setup_cr3 [OF wf] table_entry_setup(1) [OF wf] by simp
qed

text \<open>
  C24. The page table maps the first 64 GiB of memory to itself, every page writable: after
  \<open>SetupIdentityPageTable\<close> on zeroed, page-aligned tables the processor's walk of any address
  below 64 GiB ends at that very address, and of any other address of the lower half in a fault.
\<close>

theorem SetupIdentityPageTable_identity:
  assumes wf: "pt_wf pt" and va: "unat va < 2 ^ 47"
  shows "translate (SetupIdentityPageTable pt) va = (if unat va < 64 * 2 ^ 30 then Some va else None)"
  by (simp add: translate_mapped [OF wf] translate_unmapped [OF assms])

section \<open>The processor\<close>

text \<open>
  The descriptor table register and the selectors that \<open>KernelMainNewStack\<close> loads: code and stack
  in the second and third descriptor, and null for the data segments.
\<close>

record Processor =
  cpu_gdtr :: "u16 \<times> u64"
  cpu_cs :: u16
  cpu_ss :: u16
  cpu_ds :: u16

definition SetupProcessor ::
  "u64 \<Rightarrow> SegmentDescriptor list \<Rightarrow> PageTables \<Rightarrow> SegmentDescriptor list \<times> Processor \<times> PageTables" where
  "SetupProcessor gdt_address gdt pt =
     (let (gdt, gdtr) = SetupSegments gdt_address gdt;
          kernel_cs = push_bit 3 1;
          kernel_ss = push_bit 3 2;
          cpu = \<lparr>cpu_gdtr = gdtr, cpu_cs = kernel_cs, cpu_ss = kernel_ss, cpu_ds = 0\<rparr>
      in (gdt, cpu, SetupIdentityPageTable pt))"

text \<open>
  How the processor uses these: the descriptor that a selector of privilege level 0 picks, if it lies
  in the table, and what it needs of a 64-bit code segment and of a stack segment.
\<close>

definition selected :: "SegmentDescriptor list \<Rightarrow> u16 \<times> u64 \<Rightarrow> u16 \<Rightarrow> SegmentDescriptor option" where
  "selected gdt gdtr sel =
     (let i = unat (drop_bit 3 sel) in
      if take_bit 3 sel = 0 \<and> 0 < i \<and> 8 * i + 7 \<le> unat (fst gdtr) then Some (gdt ! i) else None)"

definition kernel_code :: "SegmentDescriptor \<Rightarrow> bool" where
  "kernel_code d \<longleftrightarrow> bf_get 47 1 d = 1 \<and> bf_get 44 1 d = 1 \<and> bit (bf_get 40 4 d) 3 \<and> bf_get 45 2 d = 0 \<and>
     bf_get 53 1 d = 1 \<and> bf_get 54 1 d = 0"

definition kernel_stack_segment :: "SegmentDescriptor \<Rightarrow> bool" where
  "kernel_stack_segment d \<longleftrightarrow> bf_get 47 1 d = 1 \<and> bf_get 44 1 d = 1 \<and> \<not> bit (bf_get 40 4 d) 3 \<and> bit (bf_get 40 4 d) 1 \<and>
     bf_get 45 2 d = 0"

text \<open>
  The address execution goes on at when the kernel is interrupted: the gate is present, a 64-bit
  interrupt gate without another stack, its selector picks a code segment and the address is mapped.
\<close>

definition interrupt_entry ::
  "SegmentDescriptor list \<Rightarrow> Processor \<Rightarrow> PageTables \<Rightarrow> InterruptDescriptor list \<Rightarrow> nat \<Rightarrow> u64 option" where
  "interrupt_entry gdt cpu pt idt v =
     (if v < length idt \<and> bf_get 15 1 (id_attr (idt ! v)) = 1 \<and> bf_get 8 4 (id_attr (idt ! v)) = 14 \<and>
         bf_get 0 3 (id_attr (idt ! v)) = 0
      then do {
        d \<leftarrow> selected gdt (cpu_gdtr cpu) (id_segment_selector (idt ! v));
        if kernel_code d then translate pt (gate_offset (idt ! v)) else None
      }
      else None)"

lemma SetupProcessor_selected:
  assumes "length gdt = 3" and "SetupProcessor gdt_address gdt pt = (gdt', cpu, pt')"
  shows "selected gdt' (cpu_gdtr cpu) (cpu_cs cpu) = Some (SetCodeSegment kExecuteRead 0 0 0xfffff (gdt ! 1))"
    and "selected gdt' (cpu_gdtr cpu) (cpu_ss cpu) = Some (SetDataSegment kReadWrite 0 0 0xfffff (gdt ! 2))"
    and "cpu_ds cpu = 0" and "pt' = SetupIdentityPageTable pt" and "cpu_cs cpu = 8"
proof -
  have sel: "unat (drop_bit 3 (8 :: u16)) = 1" "unat (drop_bit 3 (16 :: u16)) = 2" "take_bit 3 (8 :: u16) = 0"
    "take_bit 3 (16 :: u16) = 0" "unat (23 :: u16) = 23" by code_simp+
  have cpu: "cpu = \<lparr>cpu_gdtr = (23, gdt_address), cpu_cs = 8, cpu_ss = 16, cpu_ds = 0\<rparr>"
    and gdt: "gdt' = gdt[0 := 0, 1 := SetCodeSegment kExecuteRead 0 0 0xfffff (gdt ! 1),
      2 := SetDataSegment kReadWrite 0 0 0xfffff (gdt ! 2)]" and pt: "pt' = SetupIdentityPageTable pt"
    using assms by (auto simp: SetupProcessor_def SetupSegments_def Let_def)
  show "selected gdt' (cpu_gdtr cpu) (cpu_cs cpu) = Some (SetCodeSegment kExecuteRead 0 0 0xfffff (gdt ! 1))"
    "selected gdt' (cpu_gdtr cpu) (cpu_ss cpu) = Some (SetDataSegment kReadWrite 0 0 0xfffff (gdt ! 2))"
    unfolding selected_def Let_def cpu Processor.simps fst_conv sel using assms(1) by (simp_all add: gdt)
  show "cpu_ds cpu = 0" "pt' = SetupIdentityPageTable pt" "cpu_cs cpu = 8" by (simp_all add: cpu pt)
qed

lemma kernel_code_SetCodeSegment: "kernel_code (SetCodeSegment kExecuteRead 0 base limit d)"
  unfolding kernel_code_def SetCodeSegment_fields by (simp add: kExecuteRead_def)

lemma kernel_stack_SetDataSegment: "kernel_stack_segment (SetDataSegment kReadWrite 0 base limit d)"
  unfolding kernel_stack_segment_def SetDataSegment_fields by (simp add: kReadWrite_def)

text \<open>Tables as the linker might place them.\<close>

definition sample_tables :: PageTables where
  "sample_tables = \<lparr>pt_pml4_table = replicate 512 0, pt_pdp_table = replicate 512 0,
     pt_page_directory = replicate kPageDirectoryCount (replicate 512 0), pt_pml4_address = 0x1000,
     pt_pdp_address = 0x2000, pt_page_directory_address = 0x3000, pt_cr3 = 0\<rparr>"

lemma sample_tables_wf: "pt_wf sample_tables"
proof -
  have "directory_address sample_tables i \<noteq> 0x1000 \<and> directory_address sample_tables i \<noteq> 0x2000"
    if "i < kPageDirectoryCount" for i
  proof -
    have "unat (directory_address sample_tables i) = 0x3000 + 4096 * i"
      using that by (simp add: directory_address_def sample_tables_def kPageDirectoryCount_def
          unat_word_ariths unat_of_nat)
    then show ?thesis by auto
  qed
  moreover have "take_bit 12 (0x1000 :: u64) = 0" "take_bit 12 (0x2000 :: u64) = 0" "take_bit 12 (0x3000 :: u64) = 0"
    by simp_all
  ultimately show ?thesis
    unfolding pt_wf_def by (simp add: sample_tables_def) (simp add: kPageDirectoryCount_def)
qed

theorem SetupIdentityPageTable_identity_witness:
  "translate (SetupIdentityPageTable sample_tables) 0x80123456 = Some 0x80123456 \<and>
   translate (SetupIdentityPageTable sample_tables) 0x1000000000 = None"
  using SetupIdentityPageTable_identity [OF sample_tables_wf, where va = "0x80123456"]
    SetupIdentityPageTable_identity [OF sample_tables_wf, where va = "0x1000000000"]
  by simp

text \<open>The descriptors decode to the base address and limit asked for, and to their type and flags.\<close>

lemma SetSegment_encodes:
  "segment_base (SetCodeSegment ty dpl base limit d) = ucast base \<and>
   segment_limit (SetCodeSegment ty dpl base limit d) = take_bit 20 (ucast limit) \<and>
   bf_get 40 4 (SetCodeSegment ty dpl base limit d) = take_bit 4 ty \<and>
   bf_get 45 2 (SetCodeSegment ty dpl base limit d) = take_bit 2 (ucast dpl) \<and>
   bf_get 47 1 (SetCodeSegment ty dpl base limit d) = 1 \<and>
   bf_get 53 1 (SetCodeSegment ty dpl base limit d) = 1 \<and> bf_get 54 1 (SetCodeSegment ty dpl base limit d) = 0 \<and>
   bf_get 55 1 (SetCodeSegment ty dpl base limit d) = 1 \<and>
   segment_base (SetDataSegment ty dpl base limit d) = ucast base \<and>
   segment_limit (SetDataSegment ty dpl base limit d) = take_bit 20 (ucast limit) \<and>
   bf_get 40 4 (SetDataSegment ty dpl base limit d) = take_bit 4 ty \<and>
   bf_get 53 1 (SetDataSegment ty dpl base limit d) = 0 \<and> bf_get 54 1 (SetDataSegment ty dpl base limit d) = 1"
  unfolding segment_base_def segment_limit_def SetCodeSegment_fields SetDataSegment_fields join_base join_limit
  by (intro conjI refl)

text \<open>An interrupt gate leads back to the handler's address, with the selector and attributes given.\<close>

lemma SetIDTEntry_decodes:
  "gate_offset (SetIDTEntry (MakeIDTAttr ty dpl present ist) offset sel d) = offset \<and>
   id_segment_selector (SetIDTEntry (MakeIDTAttr ty dpl present ist) offset sel d) = sel \<and>
   bf_get 0 3 (id_attr (SetIDTEntry (MakeIDTAttr ty dpl present ist) offset sel d)) = take_bit 3 (ucast ist) \<and>
   bf_get 8 4 (id_attr (SetIDTEntry (MakeIDTAttr ty dpl present ist) offset sel d)) = take_bit 4 (ucast ty) \<and>
   bf_get 13 2 (id_attr (SetIDTEntry (MakeIDTAttr ty dpl present ist) offset sel d)) = take_bit 2 (ucast dpl) \<and>
   bf_get 15 1 (id_attr (SetIDTEntry (MakeIDTAttr ty dpl present ist) offset sel d)) = of_bool present"
proof -
  have "id_attr (SetIDTEntry a offset sel d) = a" "id_segment_selector (SetIDTEntry a offset sel d) = sel" for a
    by (simp_all add: SetIDTEntry_def)
  then show ?thesis by (simp only: SetIDTEntry_offset MakeIDTAttr_fields simp_thms)
qed

text \<open>
  C23. An interrupt of the host controller reaches its handler: once the kernel has loaded its segments
  and page table and installed the handler with its code selector, the processor finds the gate of
  vector 0x40 present, in its selector the kernel's 64-bit code segment, and goes on at the handler,
  at whatever address of the first 64 GiB that lies, on the stack it was using. The stack segment is
  writable and the table register covers both descriptors.
\<close>

theorem interrupt_reaches_handler:
  assumes "pt_wf pt" and "length gdt = 3" and "length idt = 256" and "unat handler < 64 * 2 ^ 30"
    and "SetupProcessor gdt_address gdt pt = (gdt', cpu, pt')"
  shows "interrupt_entry gdt' cpu pt' (InstallHandler handler (cpu_cs cpu) idt) kXHCI = Some handler \<and>
    (\<exists>d. selected gdt' (cpu_gdtr cpu) (cpu_ss cpu) = Some d \<and> kernel_stack_segment d)"
proof -
  note cpu = SetupProcessor_selected [OF assms(2,5)]
  have gate: "InstallHandler handler (cpu_cs cpu) idt ! kXHCI =
      SetIDTEntry (MakeIDTAttr kInterruptGate 0 True 0) handler (cpu_cs cpu) (idt ! kXHCI)" "kXHCI < length idt"
    using assms(3) by (simp_all add: InstallHandler_def kXHCI_def)
  have attr: "id_attr (SetIDTEntry a offset sel d) = a" "id_segment_selector (SetIDTEntry a offset sel d) = sel"
    for a offset sel d by (simp_all add: SetIDTEntry_def)
  have "interrupt_entry gdt' cpu pt' (InstallHandler handler (cpu_cs cpu) idt) kXHCI = Some handler"
    unfolding interrupt_entry_def gate(1) attr MakeIDTAttr_fields SetIDTEntry_offset
    using gate(2) by (simp add: InstallHandler_def kInterruptGate_def cpu(1,4) kernel_code_SetCodeSegment
      translate_mapped [OF assms(1,4), simplified])
  then show ?thesis using cpu(2) kernel_stack_SetDataSegment by blast
qed

theorem interrupt_reaches_handler_witness:
  "\<exists>gdt cpu pt. SetupProcessor 0x5000 [0, 0, 0] sample_tables = (gdt, cpu, pt) \<and>
    interrupt_entry gdt cpu pt (InstallHandler 0x123456 (cpu_cs cpu)
      (replicate 256 \<lparr>id_offset_low = 0, id_segment_selector = 0, id_attr = 0, id_offset_middle = 0, id_offset_high = 0,
        id_reserved = 0\<rparr>)) 0x40 = Some 0x123456"
proof -
  obtain gdt cpu pt where s: "SetupProcessor 0x5000 [0, 0, 0] sample_tables = (gdt, cpu, pt)" by (metis prod.exhaust)
  from interrupt_reaches_handler [OF sample_tables_wf _ _ _ s, of "replicate 256 \<lparr>id_offset_low = 0, id_segment_selector = 0,
      id_attr = 0, id_offset_middle = 0, id_offset_high = 0, id_reserved = 0\<rparr>" "0x123456"] s
  show ?thesis by (simp add: kXHCI_def)
qed

end
