(* ===== verification/MainLoop.thy ===== *)
theory MainLoop
  imports XhciProtocol KernelQueue Pci Descriptors
begin

text \<open>
  The kernel after its memory is set up (\<open>kernel/main/main.cpp\<close>): the interrupt handler, the start
  of the USB host controller, the loop over the root hub ports and the main loop. The state of the
  main thread is where it is in the code, with a place for every access to the queue and every \<open>cli\<close>,
  \<open>sti\<close> and \<open>hlt\<close>. Between any two of its steps the hardware may act and, whenever the processor would
  take it, the interrupt handler may run. What the model takes of the hardware is that it requests an
  interrupt when it puts an event into an empty event ring, and that the local APIC holds interrupts
  back while one is in service. The handler is entered through an interrupt gate (\<open>InstallHandler\<close>),
  with interrupts disabled, and the main thread waits for it, so it is one step.
\<close>

section \<open>Messages and the interrupt handler\<close>

datatype MessageType = kInterruptXHCI

record Message =
  msg_type :: MessageType

text \<open>
  Where the main thread is: what it executes next, or \<open>Halted\<close> after \<open>hlt\<close>. \<open>SleepEnabling\<close> and
  \<open>AboutToHalt\<close> are the \<open>sti\<close> and the \<open>hlt\<close> of the empty queue, \<open>FetchingMessage\<close>, \<open>PoppingMessage\<close> and
  \<open>WorkEnabling\<close> the \<open>Front\<close>, \<open>Pop\<close> and \<open>sti\<close> of the other branch.
\<close>

datatype Pc = ConfiguringPort nat | LoopTop | CountingMessages | SleepEnabling | AboutToHalt | Halted
  | FetchingMessage | PoppingMessage Message | WorkEnabling Message | Handling Message | Draining

text \<open>The interrupt flag, and the shadow of \<open>sti\<close>: the instruction after it is still not interrupted.\<close>

record 'hw Kernel =
  k_queue :: "Message ArrayQueue"
  k_xhc :: "'hw Xhc"
  k_apic :: LocalApic
  k_interrupts_enabled :: bool
  k_shadow :: bool
  k_interrupt_requested :: bool
  k_pc :: Pc

definition cli :: "'hw Kernel \<Rightarrow> 'hw Kernel" where
  "cli k = k\<lparr>k_interrupts_enabled := False\<rparr>"

definition sti :: "'hw Kernel \<Rightarrow> 'hw Kernel" where
  "sti k = k\<lparr>k_interrupts_enabled := True, k_shadow := \<not> k_interrupts_enabled k\<rparr>"

definition IntHandlerXHCI :: "'hw Kernel \<Rightarrow> 'hw Kernel option" where
  "IntHandlerXHCI k = do {
     (ignored, q) \<leftarrow> ArrayQueue_Push \<lparr>msg_type = kInterruptXHCI\<rparr> (k_queue k);
     Some (k\<lparr>k_queue := q, k_apic := NotifyEndOfInterrupt (k_apic k)\<rparr>)
   }"

text \<open>
  When the processor takes an interrupt, and what happens then: the interrupt is in service, the handler
  runs, and the code goes on where it was, or after the \<open>hlt\<close> that the interrupt ended.
\<close>

definition interrupt_due :: "'hw Kernel \<Rightarrow> bool" where
  "interrupt_due k \<longleftrightarrow> k_interrupts_enabled k \<and> \<not> k_shadow k \<and> k_interrupt_requested k \<and> apic_offers kXHCI (k_apic k)"

definition take_interrupt :: "'hw Kernel \<Rightarrow> 'hw Kernel option" where
  "take_interrupt k = map_option (\<lambda>k. if k_pc k = Halted then k\<lparr>k_pc := LoopTop\<rparr> else k)
     (IntHandlerXHCI (k\<lparr>k_interrupt_requested := False, k_apic := apic_accept kXHCI (k_apic k)\<rparr>))"

section \<open>Starting the host controller\<close>

definition xhc_mmio_base :: "u64 Either \<Rightarrow> u64" where
  "xhc_mmio_base xhc_bar = either_value xhc_bar AND NOT 0xf"

text \<open>
  From \<open>lookupXHC\<close> to \<open>Run\<close>, with the word read from the local APIC; the result is that of
  \<open>Initialize\<close>, which the code only logs. Without a controller the code reads a null pointer. After an
  error of \<open>Initialize\<close> the code goes on with a controller half set up; the runs below are those without.
\<close>

definition BootXHC ::
  "'hw PortIO \<Rightarrow> 'hw Mmio \<Rightarrow> ClassSizes \<Rightarrow> u32 \<Rightarrow> 'hw World \<Rightarrow> 'hw PciState \<Rightarrow> (Code \<times> 'hw Xhc) option" where
  "BootXHC pio io sizes lapic w st =
     (let (found, st) = lookupXHC pio st in do {
        i \<leftarrow> found;
        let xhc_dev = pci_devices st ! i; bsp_local_apic_id = ucast (drop_bit 24 lapic) in do {
          (ignored, hw) \<leftarrow> ConfigureMSIFixedDestination pio xhc_dev bsp_local_apic_id kLevel kFixed (of_nat kXHCI) 0 (pci_hw st);
          let (xhc_bar, hw) = ReadBar pio xhc_dev 0 hw;
              xhc = Controller_new io (xhc_mmio_base xhc_bar) sizes (w\<lparr>w_hw := hw\<rparr>);
              (vendor, hw) = ReadVendorId_dev pio xhc_dev (w_hw (x_world xhc));
              st = st\<lparr>pci_hw := hw\<rparr>;
              st = (if 0x8086 = vendor then SwitchEhci2Xhci pio xhc_dev st else st);
              xhc = xhc\<lparr>x_world := (x_world xhc)\<lparr>w_hw := pci_hw st\<rparr>\<rparr>
          in do {
            (err, xhc) \<leftarrow> Controller_Initialize io xhc;
            (ignored, xhc) \<leftarrow> Controller_Run io xhc;
            Some (err, xhc)
          }
        }
      })"

section \<open>The main thread\<close>

text \<open>
  One step: a round of the loop over the ports, \<open>cli\<close>, the test of the queue, \<open>sti\<close>, \<open>hlt\<close>, \<open>Front\<close>, \<open>Pop\<close>,
  the dispatch on the message's type, or a round of the loop over the events. Each step ends the
  shadow of an earlier \<open>sti\<close>. The messages of the log are left out, but not the registers read for them.
\<close>

definition port_round :: "'hw Mmio \<Rightarrow> nat \<Rightarrow> 'hw Xhc \<Rightarrow> 'hw Xhc option" where
  "port_round io i x =
     (let port = PortAt (of_nat i) x;
          (logged, x) = on_hw (IsConnected io port) x;
          (connected, x) = on_hw (IsConnected io port) x
      in if connected then map_option snd (ConfigurePort io port x) else Some x)"

definition has_event :: "'hw Mmio \<Rightarrow> 'hw Xhc \<Rightarrow> bool" where
  "has_event io x = fst (HasFront io (x_er x) (w_mem (x_world x)) (w_hw (x_world x)))"

definition drain_round :: "'hw Mmio \<Rightarrow> 'hw Xhc \<Rightarrow> (bool \<times> 'hw Xhc) option" where
  "drain_round io x =
     (let (has, x) = on_hw (HasFront io (x_er x) (w_mem (x_world x))) x in
      if has then map_option (\<lambda>(err, x). (True, x)) (ProcessEvent io x) else Some (False, x))"

definition main_action :: "'hw Mmio \<Rightarrow> 'hw Kernel \<Rightarrow> 'hw Kernel option" where
  "main_action io k = (case k_pc k of
     ConfiguringPort i \<Rightarrow>
       if i \<le> unat (MaxPorts (k_xhc k))
       then map_option (\<lambda>x. k\<lparr>k_xhc := x, k_pc := ConfiguringPort (i + 1)\<rparr>) (port_round io i (k_xhc k))
       else Some (k\<lparr>k_pc := LoopTop\<rparr>)
   | LoopTop \<Rightarrow> Some ((cli k)\<lparr>k_pc := CountingMessages\<rparr>)
   | CountingMessages \<Rightarrow>
       Some (k\<lparr>k_pc := (if ArrayQueue_Count (k_queue k) = 0 then SleepEnabling else FetchingMessage)\<rparr>)
   | SleepEnabling \<Rightarrow> Some ((sti k)\<lparr>k_pc := AboutToHalt\<rparr>)
   | AboutToHalt \<Rightarrow> Some (k\<lparr>k_pc := Halted\<rparr>)
   | Halted \<Rightarrow> Some k
   | FetchingMessage \<Rightarrow> map_option (\<lambda>msg. k\<lparr>k_pc := PoppingMessage msg\<rparr>) (ArrayQueue_Front (k_queue k))
   | PoppingMessage msg \<Rightarrow> Some (k\<lparr>k_queue := snd (ArrayQueue_Pop (k_queue k)), k_pc := WorkEnabling msg\<rparr>)
   | WorkEnabling msg \<Rightarrow> Some ((sti k)\<lparr>k_pc := Handling msg\<rparr>)
   | Handling msg \<Rightarrow> (case msg_type msg of kInterruptXHCI \<Rightarrow> Some (k\<lparr>k_pc := Draining\<rparr>))
   | Draining \<Rightarrow>
       map_option (\<lambda>(has, x). if has then k\<lparr>k_xhc := x\<rparr> else k\<lparr>k_xhc := x, k_pc := LoopTop\<rparr>) (drain_round io (k_xhc k)))"

definition main_step :: "'hw Mmio \<Rightarrow> 'hw Kernel \<Rightarrow> 'hw Kernel option" where
  "main_step io k = main_action io (k\<lparr>k_shadow := False\<rparr>)"

text \<open>The processor alone: it takes a requested interrupt as soon as it may.\<close>

definition kernel_step :: "'hw Mmio \<Rightarrow> 'hw Kernel \<Rightarrow> 'hw Kernel option" where
  "kernel_step io k =
     (if interrupt_due k then take_interrupt k else main_step io k)"

fun kernel_steps :: "'hw Mmio \<Rightarrow> nat \<Rightarrow> 'hw Kernel \<Rightarrow> 'hw Kernel option" where
  "kernel_steps io 0 k = Some k"
| "kernel_steps io (Suc n) k = do { k \<leftarrow> kernel_step io k; kernel_steps io n k }"

section \<open>Runs of the kernel\<close>

text \<open>
  What the hardware promises of the state before and after anything happened: a ring that was
  empty and holds an event comes with a request, and a request stays until it is served. A run starts
  where the ports are about to be configured, after a controller that came up and with no interrupt in service.
\<close>

definition announced :: "'hw Mmio \<Rightarrow> 'hw Kernel \<Rightarrow> 'hw Xhc \<Rightarrow> bool \<Rightarrow> bool" where
  "announced io k x irq \<longleftrightarrow> (has_event io x \<longrightarrow> has_event io (k_xhc k) \<or> irq) \<and> (k_interrupt_requested k \<longrightarrow> irq)"

definition valid_round :: "'hw Mmio \<Rightarrow> 'hw Xhc \<Rightarrow> bool" where
  "valid_round io x = valid_event io (snd (on_hw (HasFront io (x_er x) (w_mem (x_world x))) x))"

inductive kernel_run :: "'hw PortIO \<Rightarrow> 'hw Mmio \<Rightarrow> 'hw Kernel \<Rightarrow> bool" for pio io where
  booted: "BootXHC pio io sizes lapic w st = Some (kSuccess, x) \<Longrightarrow> length main_queue_data = 32 \<Longrightarrow>
    (has_event io x \<longrightarrow> irq) \<Longrightarrow>
    kernel_run pio io \<lparr>k_queue = ArrayQueue_of_array main_queue_data, k_xhc = x, k_apic = \<lparr>apic_in_service = []\<rparr>,
      k_interrupts_enabled = True, k_shadow = sh, k_interrupt_requested = irq, k_pc = ConfiguringPort 1\<rparr>"
| main_thread: "kernel_run pio io k \<Longrightarrow> (k_pc k = Draining \<longrightarrow> valid_round io (k_xhc k)) \<Longrightarrow> main_step io k = Some k' \<Longrightarrow>
    announced io k (k_xhc k') irq \<Longrightarrow> kernel_run pio io (k'\<lparr>k_interrupt_requested := irq\<rparr>)"
| interrupt: "kernel_run pio io k \<Longrightarrow> interrupt_due k \<Longrightarrow> take_interrupt k = Some k' \<Longrightarrow>
    kernel_run pio io k'"
| hardware: "kernel_run pio io k \<Longrightarrow> announced io k ((k_xhc k)\<lparr>x_world := w\<rparr>) irq \<Longrightarrow>
    kernel_run pio io (k\<lparr>k_xhc := (k_xhc k)\<lparr>x_world := w\<rparr>, k_interrupt_requested := irq\<rparr>)"
| device_context: "kernel_run pio io k \<Longrightarrow> i < length (dm_devices (x_devmgr (k_xhc k))) \<Longrightarrow>
    device_at i (k_xhc k) = Some (a, dev) \<Longrightarrow>
    kernel_run pio io (k\<lparr>k_xhc := set_device i (a, dev\<lparr>dev_ctx := ctx\<rparr>) (k_xhc k)\<rparr>)"


section \<open>What the parts of the state go through\<close>

lemma BootXHC_run:
  assumes "BootXHC pio io sizes lapic w st = Some (kSuccess, x)"
  shows "xhc_run io x"
  using assms unfolding BootXHC_def Let_def
  by (auto split: prod.splits bind_splits intro: xhc_run.started [OF xhc_run.initialized])

lemma on_hw_run: "xhc_run io x \<Longrightarrow> on_hw f x = (v, y) \<Longrightarrow> xhc_run io y"
  by (auto simp: on_hw_def split: prod.splits intro: xhc_run.world)

lemma port_round_run:
  assumes "xhc_run io x" and "port_round io i x = Some y" and "1 \<le> i" and "i \<le> unat (MaxPorts x)"
  shows "xhc_run io y"
proof -
  let ?port = "PortAt (of_nat i) x"
  obtain l z where 1: "on_hw (IsConnected io ?port) x = (l, z)" by fastforce
  obtain c z' where 2: "on_hw (IsConnected io ?port) z = (c, z')" by fastforce
  note run = on_hw_run [OF on_hw_run [OF assms(1) 1] 2]
  have port: "?port = PortAt (of_nat i) z'"
    using 1 2 by (auto simp: on_hw_def PortAt_def PortRegisterSets_def split: prod.splits)
  have "i < 256" using assms(4) unat_u8_less [of "MaxPorts x"] by linarith
  then have "unat (of_nat i :: u8) = i" by (simp add: unsigned_of_nat take_bit_nat_eq_self)
  with assms(3) have "(of_nat i :: u8) \<noteq> 0" by auto
  then show ?thesis
    using assms(2) run unfolding port_round_def Let_def 1 prod.case 2
    by (auto simp: port split: if_splits intro: xhc_run.port)
qed

lemma drain_round_run:
  assumes "xhc_run io x" and "drain_round io x = Some (has, y)" and "valid_round io x"
  shows "xhc_run io y"
proof -
  obtain h z where 1: "on_hw (HasFront io (x_er x) (w_mem (x_world x))) x = (h, z)" by fastforce
  with assms on_hw_run [OF assms(1) 1] show ?thesis
    by (auto simp: drain_round_def valid_round_def split: if_splits intro: xhc_run.event)
qed

lemma drain_round_stops: "drain_round io x = Some (has, y) \<Longrightarrow> has = has_event io x"
  by (auto simp: drain_round_def has_event_def on_hw_def split: prod.splits if_splits)

lemma take_interrupt_Some:
  assumes "aq_inv (k_queue k)" and "ArrayQueue_Capacity (k_queue k) = 32"
  shows "\<exists>q. take_interrupt k = Some (k\<lparr>k_queue := q, k_interrupt_requested := False,
      k_pc := (if k_pc k = Halted then LoopTop else k_pc k)\<rparr>) \<and>
    aq_inv q \<and> ArrayQueue_Capacity q = 32 \<and> aq_list q \<noteq> []"
proof -
  obtain c q where q: "ArrayQueue_Push \<lparr>msg_type = kInterruptXHCI\<rparr> (k_queue k) = Some (c, q)" "aq_inv q"
    "ArrayQueue_Capacity q = 32" "aq_list q \<noteq> []"
  proof (cases "length (aq_list (k_queue k)) = ArrayQueue_Capacity (k_queue k)")
    case True
    have "aq_list (k_queue k) \<noteq> []" using True assms(2) by (auto simp del: length_aq_list)
    with aq.push_full [OF assms(1) True] assms that show ?thesis by blast
  next
    case False
    obtain q where "ArrayQueue_Push \<lparr>msg_type = kInterruptXHCI\<rparr> (k_queue k) = Some (kSuccess, q)" "aq_inv q"
      "aq_list q = aq_list (k_queue k) @ [\<lparr>msg_type = kInterruptXHCI\<rparr>]" "ArrayQueue_Capacity q = ArrayQueue_Capacity (k_queue k)"
      using aq.push_room [OF assms(1) False] by blast
    then show ?thesis using assms(2) that by simp
  qed
  have "take_interrupt k = Some (k\<lparr>k_queue := q, k_interrupt_requested := False,
      k_pc := (if k_pc k = Halted then LoopTop else k_pc k)\<rparr>)"
    by (simp add: take_interrupt_def IntHandlerXHCI_def q(1) NotifyEndOfInterrupt_accept)
  with q show ?thesis by blast
qed

section \<open>The invariant of the kernel\<close>

text \<open>Between the removal of a message and the end of its loop the main thread attends to the ring.\<close>

fun attending :: "Pc \<Rightarrow> bool" where
  "attending (WorkEnabling msg) = True"
| "attending (Handling msg) = True"
| "attending Draining = True"
| "attending pc = False"

text \<open>The places where interrupts are disabled, and what is known of the queue and the shadow elsewhere.\<close>

fun in_critical_section :: "Pc \<Rightarrow> bool" where
  "in_critical_section CountingMessages = True"
| "in_critical_section SleepEnabling = True"
| "in_critical_section FetchingMessage = True"
| "in_critical_section (PoppingMessage msg) = True"
| "in_critical_section (WorkEnabling msg) = True"
| "in_critical_section pc = False"

fun pc_inv :: "Pc \<Rightarrow> Message list \<Rightarrow> bool \<Rightarrow> bool" where
  "pc_inv (ConfiguringPort i) msgs shadow \<longleftrightarrow> 1 \<le> i"
| "pc_inv SleepEnabling msgs shadow \<longleftrightarrow> msgs = []"
| "pc_inv AboutToHalt msgs shadow \<longleftrightarrow> msgs = [] \<and> shadow"
| "pc_inv Halted msgs shadow \<longleftrightarrow> msgs = [] \<and> \<not> shadow"
| "pc_inv FetchingMessage msgs shadow \<longleftrightarrow> msgs \<noteq> []"
| "pc_inv (PoppingMessage msg) msgs shadow \<longleftrightarrow> msgs \<noteq> []"
| "pc_inv LoopTop msgs shadow \<longleftrightarrow> \<not> shadow"
| "pc_inv pc msgs shadow \<longleftrightarrow> True"

definition kernel_inv :: "'hw Mmio \<Rightarrow> 'hw Kernel \<Rightarrow> bool" where
  "kernel_inv io k \<longleftrightarrow> xhc_run io (k_xhc k) \<and> aq_inv (k_queue k) \<and> ArrayQueue_Capacity (k_queue k) = 32 \<and>
     apic_in_service (k_apic k) = [] \<and> (k_interrupts_enabled k \<longleftrightarrow> \<not> in_critical_section (k_pc k)) \<and>
     pc_inv (k_pc k) (aq_list (k_queue k)) (k_shadow k) \<and>
     (has_event io (k_xhc k) \<longrightarrow> k_interrupt_requested k \<or> aq_list (k_queue k) \<noteq> [] \<or> attending (k_pc k))"

lemma kernel_invI:
  assumes "xhc_run io (k_xhc k)" and "aq_inv (k_queue k)" and "ArrayQueue_Capacity (k_queue k) = 32"
    and "apic_in_service (k_apic k) = []" and "k_interrupts_enabled k \<longleftrightarrow> \<not> in_critical_section (k_pc k)"
    and "pc_inv (k_pc k) (aq_list (k_queue k)) (k_shadow k)"
    and "has_event io (k_xhc k) \<Longrightarrow> k_interrupt_requested k \<or> aq_list (k_queue k) \<noteq> [] \<or> attending (k_pc k)"
  shows "kernel_inv io k"
  using assms by (simp add: kernel_inv_def)

lemma Count_eq_0: "ArrayQueue_Count q = 0 \<longleftrightarrow> aq_list q = []"
  by (simp add: ArrayQueue_Count_def flip: length_aq_list)

lemma main_step_inv:
  assumes "kernel_inv io k" and "main_step io k = Some k'" and "k_pc k = Draining \<longrightarrow> valid_round io (k_xhc k)"
    and "announced io k (k_xhc k') irq"
  shows "kernel_inv io (k'\<lparr>k_interrupt_requested := irq\<rparr>)"
proof -
  from assms(1) have inv: "xhc_run io (k_xhc k)" "aq_inv (k_queue k)" "ArrayQueue_Capacity (k_queue k) = 32"
    "apic_in_service (k_apic k) = []" "k_interrupts_enabled k \<longleftrightarrow> \<not> in_critical_section (k_pc k)"
    "pc_inv (k_pc k) (aq_list (k_queue k)) (k_shadow k)"
    "has_event io (k_xhc k) \<Longrightarrow> k_interrupt_requested k \<or> aq_list (k_queue k) \<noteq> [] \<or> attending (k_pc k)"
    by (simp_all add: kernel_inv_def)
  have irq: "has_event io (k_xhc k') \<Longrightarrow> irq \<or> has_event io (k_xhc k)" "k_interrupt_requested k \<Longrightarrow> irq"
    using assms(4) by (auto simp: announced_def)
  note step = assms(2) [unfolded main_step_def main_action_def]
  show ?thesis
  proof (cases "k_pc k")
    case (ConfiguringPort i)
    show ?thesis
    proof (cases "i \<le> unat (MaxPorts (k_xhc k))")
      case True
      with step ConfiguringPort obtain x where x: "port_round io i (k_xhc k) = Some x"
        "k' = k\<lparr>k_shadow := False, k_xhc := x, k_pc := ConfiguringPort (i + 1)\<rparr>" by auto
      have "1 \<le> i" using inv(6) ConfiguringPort by simp
      from port_round_run [OF inv(1) x(1) this True] inv irq ConfiguringPort
      show ?thesis by (intro kernel_invI) (auto simp: x(2))
    next
      case False
      with step ConfiguringPort have "k' = k\<lparr>k_shadow := False, k_pc := LoopTop\<rparr>" by simp
      with inv irq ConfiguringPort show ?thesis by (intro kernel_invI) auto
    qed
  next
    case FetchingMessage
    then have "aq_list (k_queue k) \<noteq> []" using inv(6) by simp
    from aq.front_nonempty [OF inv(2) this] step FetchingMessage
    have "k' = k\<lparr>k_shadow := False, k_pc := PoppingMessage (hd (aq_list (k_queue k)))\<rparr>" by auto
    with inv irq FetchingMessage show ?thesis by (intro kernel_invI) auto
  next
    case (PoppingMessage msg)
    then have "aq_list (k_queue k) \<noteq> []" using inv(6) by simp
    then obtain q where q: "ArrayQueue_Pop (k_queue k) = (kSuccess, q)" "aq_inv q" "ArrayQueue_Capacity q = 32"
      using aq.pop_nonempty [OF inv(2)] inv(3) by auto
    with step PoppingMessage have "k' = k\<lparr>k_shadow := False, k_queue := q, k_pc := WorkEnabling msg\<rparr>" by auto
    with q inv irq PoppingMessage show ?thesis by (intro kernel_invI) auto
  next
    case (Handling msg)
    with step have "k' = k\<lparr>k_shadow := False, k_pc := Draining\<rparr>" by (cases "msg_type msg") simp
    with inv irq Handling show ?thesis by (intro kernel_invI) auto
  next
    case Draining
    with step obtain has x where x: "drain_round io (k_xhc k) = Some (has, x)"
      "k' = (if has then k\<lparr>k_shadow := False, k_xhc := x\<rparr> else k\<lparr>k_shadow := False, k_xhc := x, k_pc := LoopTop\<rparr>)"
      by auto
    have "xhc_run io x" using drain_round_run [OF inv(1) x(1)] assms(3) Draining by simp
    with inv irq Draining drain_round_stops [OF x(1)] show ?thesis by (intro kernel_invI) (auto simp: x(2))
  qed (use step inv irq in \<open>auto intro!: kernel_invI simp: cli_def sti_def Count_eq_0 split: if_splits\<close>)
qed

lemma interrupt_inv:
  assumes "kernel_inv io k" and "interrupt_due k" and "take_interrupt k = Some k'"
  shows "kernel_inv io k'"
proof -
  from assms obtain q where k': "k' = k\<lparr>k_queue := q, k_interrupt_requested := False,
      k_pc := (if k_pc k = Halted then LoopTop else k_pc k)\<rparr>" and q: "aq_inv q" "ArrayQueue_Capacity q = 32" "aq_list q \<noteq> []"
    using take_interrupt_Some [of k] by (auto simp: kernel_inv_def)
  have "\<not> in_critical_section (k_pc k)" "\<not> k_shadow k" using assms(1,2) by (simp_all add: kernel_inv_def interrupt_due_def)
  with assms(1) q show ?thesis by (cases "k_pc k") (auto simp: k' kernel_inv_def)
qed

lemma kernel_run_inv:
  assumes "kernel_run pio io k"
  shows "kernel_inv io k"
  using assms
proof induction
  case (booted sizes lapic w st x main_queue_data irq sh)
  have "aq_inv (ArrayQueue_of_array main_queue_data)"
    using booted.hyps(2) by (simp add: ArrayQueue_of_array_def aq_inv_new)
  moreover have "ArrayQueue_Capacity (ArrayQueue_of_array main_queue_data) = 32"
    using booted.hyps(2) by (simp add: ArrayQueue_of_array_def ArrayQueue_new_def ArrayQueue_Capacity_def)
  ultimately show ?case using BootXHC_run [OF booted.hyps(1)] booted.hyps(3) by (intro kernel_invI) simp_all
next
  case (main_thread k k' irq)
  from main_step_inv [OF main_thread.IH main_thread.hyps(3,2,4)] show ?case .
next
  case (interrupt k k')
  from interrupt_inv [OF interrupt.IH interrupt.hyps(2,3)] show ?case .
next
  case (hardware k w irq)
  then show ?case by (auto simp: kernel_inv_def announced_def intro: xhc_run.world)
next
  case (device_context k i a dev ctx)
  then show ?case by (auto simp: kernel_inv_def has_event_def set_device_def intro: xhc_run.device_context [unfolded set_device_def])
qed


section \<open>How soon the events are handled\<close>

definition drains_within :: "'hw Mmio \<Rightarrow> nat \<Rightarrow> 'hw Kernel \<Rightarrow> bool" where
  "drains_within io n k \<longleftrightarrow> (\<exists>m\<le>n. \<exists>k'. kernel_steps io m k = Some k' \<and> k_pc k' = Draining \<and> k_xhc k' = k_xhc k)"

lemma drains_within_step:
  assumes "kernel_step io k = Some k'" and "k_xhc k' = k_xhc k" and "drains_within io n k'"
  shows "drains_within io (Suc n) k"
proof -
  from assms(3) obtain m k'' where "m \<le> n" "kernel_steps io m k' = Some k''" "k_pc k'' = Draining" "k_xhc k'' = k_xhc k'"
    by (auto simp: drains_within_def)
  then have "Suc m \<le> Suc n \<and> kernel_steps io (Suc m) k = Some k'' \<and> k_pc k'' = Draining \<and> k_xhc k'' = k_xhc k"
    using assms(1,2) by simp
  then show ?thesis unfolding drains_within_def by blast
qed

lemma drains_within_mono: "drains_within io m k \<Longrightarrow> m \<le> n \<Longrightarrow> drains_within io n k"
  unfolding drains_within_def by (meson le_trans)

text \<open>
  What is left of the state on the way to the loop over the events: a queue of the right size and no
  interrupt in service. Each lemma is one step, from the last one back to the first.
\<close>

definition kernel_ready :: "'hw Kernel \<Rightarrow> bool" where
  "kernel_ready k \<longleftrightarrow> aq_inv (k_queue k) \<and> ArrayQueue_Capacity (k_queue k) = 32 \<and> apic_in_service (k_apic k) = []"

lemma drains_main:
  assumes "\<not> interrupt_due k" and "main_step io k = Some k'" and "k_xhc k' = k_xhc k" and "drains_within io n k'"
  shows "drains_within io (Suc n) k"
  using drains_within_step [of io k k' n] assms by (simp add: kernel_step_def)

lemma drains_interrupt:
  assumes "kernel_ready k" and "interrupt_due k"
    and "\<And>q. aq_inv q \<Longrightarrow> ArrayQueue_Capacity q = 32 \<Longrightarrow> aq_list q \<noteq> [] \<Longrightarrow>
      drains_within io n (k\<lparr>k_queue := q, k_interrupt_requested := False,
        k_pc := (if k_pc k = Halted then LoopTop else k_pc k)\<rparr>)"
  shows "drains_within io (Suc n) k"
proof -
  from take_interrupt_Some [of k] assms(1) obtain q where q: "take_interrupt k = Some (k\<lparr>k_queue := q,
      k_interrupt_requested := False, k_pc := (if k_pc k = Halted then LoopTop else k_pc k)\<rparr>)"
    "aq_inv q" "ArrayQueue_Capacity q = 32" "aq_list q \<noteq> []"
    by (auto simp: kernel_ready_def)
  have step: "kernel_step io k = take_interrupt k" using assms(2) by (simp add: kernel_step_def)
  show ?thesis by (rule drains_within_step [OF step [unfolded q(1)] _ assms(3) [OF q(2-4)]]) simp
qed

lemma drains_Draining: "k_pc k = Draining \<Longrightarrow> drains_within io 0 k"
  by (simp add: drains_within_def)

lemma drains_Handling_quiet:
  assumes "k_pc k = Handling msg" and "\<not> interrupt_due k"
  shows "drains_within io 1 k"
proof -
  have "main_step io k = Some (k\<lparr>k_shadow := False, k_pc := Draining\<rparr>)"
    using assms(1) by (cases "msg_type msg") (simp add: main_step_def main_action_def)
  from drains_main [OF assms(2) this _ drains_Draining] show ?thesis by simp
qed

lemma drains_Handling:
  assumes "k_pc k = Handling msg" and "kernel_ready k"
  shows "drains_within io 2 k"
proof (cases "interrupt_due k")
  case True
  have "drains_within io (Suc 1) k"
    by (rule drains_interrupt [OF assms(2) True], rule drains_Handling_quiet)
      (simp_all add: assms(1) interrupt_due_def)
  then show ?thesis by (simp add: numeral_2_eq_2)
next
  case False
  from drains_Handling_quiet [OF assms(1) False] show ?thesis by (rule drains_within_mono) simp
qed

lemma not_due: "\<not> k_interrupts_enabled k \<Longrightarrow> \<not> interrupt_due k" "k_shadow k \<Longrightarrow> \<not> interrupt_due k"
  "\<not> k_interrupt_requested k \<Longrightarrow> \<not> interrupt_due k"
  by (simp_all add: interrupt_due_def)

lemma drains_WorkEnabling:
  assumes "k_pc k = WorkEnabling msg" and "\<not> k_interrupts_enabled k"
  shows "drains_within io 2 k"
proof -
  have "main_step io k = Some (k\<lparr>k_shadow := True, k_interrupts_enabled := True, k_pc := Handling msg\<rparr>)"
    using assms by (simp add: main_step_def main_action_def sti_def)
  from drains_main [OF not_due(1) [OF assms(2)] this _ drains_Handling_quiet]
  show ?thesis by (simp add: numeral_2_eq_2 interrupt_due_def)
qed

lemma drains_Popping:
  assumes "k_pc k = PoppingMessage msg" and "\<not> k_interrupts_enabled k"
  shows "drains_within io 3 k"
proof -
  have "main_step io k = Some (k\<lparr>k_shadow := False, k_queue := snd (ArrayQueue_Pop (k_queue k)), k_pc := WorkEnabling msg\<rparr>)"
    using assms(1) by (simp add: main_step_def main_action_def)
  from drains_main [OF not_due(1) [OF assms(2)] this _ drains_WorkEnabling] assms(2)
  show ?thesis by (simp add: numeral_3_eq_3 numeral_2_eq_2)
qed

lemma drains_Fetching:
  assumes "k_pc k = FetchingMessage" and "\<not> k_interrupts_enabled k" and "kernel_ready k" and "aq_list (k_queue k) \<noteq> []"
  shows "drains_within io 4 k"
proof -
  have "main_step io k = Some (k\<lparr>k_shadow := False, k_pc := PoppingMessage (hd (aq_list (k_queue k)))\<rparr>)"
    using assms aq.front_nonempty [of "k_queue k"] by (simp add: main_step_def main_action_def kernel_ready_def)
  from drains_main [OF not_due(1) [OF assms(2)] this _ drains_Popping] assms(2)
  show ?thesis by (simp add: eval_nat_numeral)
qed

lemma drains_Counting:
  assumes "k_pc k = CountingMessages" and "\<not> k_interrupts_enabled k" and "kernel_ready k" and "aq_list (k_queue k) \<noteq> []"
  shows "drains_within io 5 k"
proof -
  have "main_step io k = Some (k\<lparr>k_shadow := False, k_pc := FetchingMessage\<rparr>)"
    using assms by (simp add: main_step_def main_action_def Count_eq_0)
  from drains_main [OF not_due(1) [OF assms(2)] this _ drains_Fetching] assms(2-4)
  show ?thesis by (simp add: eval_nat_numeral kernel_ready_def)
qed

lemma drains_LoopTop_quiet:
  assumes "k_pc k = LoopTop" and "kernel_ready k" and "aq_list (k_queue k) \<noteq> []" and "\<not> interrupt_due k"
  shows "drains_within io 6 k"
proof -
  have "main_step io k = Some (k\<lparr>k_shadow := False, k_interrupts_enabled := False, k_pc := CountingMessages\<rparr>)"
    using assms(1) by (simp add: main_step_def main_action_def cli_def)
  from drains_main [OF assms(4) this _ drains_Counting] assms(2,3) show ?thesis by (simp add: eval_nat_numeral kernel_ready_def)
qed

lemma drains_woken:
  assumes "k_pc k = LoopTop \<or> k_pc k = Halted" and "kernel_ready k" and "interrupt_due k"
  shows "drains_within io 7 k"
proof -
  have "drains_within io (Suc 6) k"
    by (rule drains_interrupt [OF assms(2,3)], rule drains_LoopTop_quiet)
      (use assms in \<open>auto simp: kernel_ready_def interrupt_due_def\<close>)
  then show ?thesis by simp
qed

lemma drains_AboutToHalt:
  assumes "k_pc k = AboutToHalt" and "kernel_ready k" and "k_interrupts_enabled k" and "k_shadow k" and "k_interrupt_requested k"
  shows "drains_within io 8 k"
proof -
  have "main_step io k = Some (k\<lparr>k_shadow := False, k_pc := Halted\<rparr>)"
    using assms(1) by (simp add: main_step_def main_action_def)
  moreover have "drains_within io 7 (k\<lparr>k_shadow := False, k_pc := Halted\<rparr>)"
    by (rule drains_woken) (use assms(2,3,5) in \<open>simp_all add: kernel_ready_def interrupt_due_def apic_offers_def\<close>)
  ultimately show ?thesis using drains_main [OF not_due(2) [OF assms(4)], of io _ 7] by simp
qed

lemma drains_SleepEnabling:
  assumes "k_pc k = SleepEnabling" and "kernel_ready k" and "\<not> k_interrupts_enabled k" and "k_interrupt_requested k"
  shows "drains_within io 9 k"
proof -
  have "main_step io k = Some (k\<lparr>k_shadow := True, k_interrupts_enabled := True, k_pc := AboutToHalt\<rparr>)"
    using assms(1,3) by (simp add: main_step_def main_action_def sti_def)
  from drains_main [OF not_due(1) [OF assms(3)] this _ drains_AboutToHalt] assms(2,4)
  show ?thesis by (simp add: eval_nat_numeral kernel_ready_def)
qed

lemma drains_Counting_empty:
  assumes "k_pc k = CountingMessages" and "kernel_ready k" and "\<not> k_interrupts_enabled k" and "k_interrupt_requested k"
    and "aq_list (k_queue k) = []"
  shows "drains_within io 10 k"
proof -
  have "main_step io k = Some (k\<lparr>k_shadow := False, k_pc := SleepEnabling\<rparr>)"
    using assms(1,5) by (simp add: main_step_def main_action_def Count_eq_0)
  from drains_main [OF not_due(1) [OF assms(3)] this _ drains_SleepEnabling] assms(2-4)
  show ?thesis by (simp add: eval_nat_numeral kernel_ready_def)
qed

lemma kernel_inv_drains:
  assumes "kernel_inv io k" and "has_event io (k_xhc k)" and "\<And>i. k_pc k \<noteq> ConfiguringPort i"
  shows "drains_within io 10 k"
proof -
  from assms(1,2) have ready: "kernel_ready k" and ie: "k_interrupts_enabled k \<longleftrightarrow> \<not> in_critical_section (k_pc k)"
    and pc: "pc_inv (k_pc k) (aq_list (k_queue k)) (k_shadow k)"
    and why: "k_interrupt_requested k \<or> aq_list (k_queue k) \<noteq> [] \<or> attending (k_pc k)"
    by (simp_all add: kernel_inv_def kernel_ready_def)
  have due: "interrupt_due k" if "k_interrupts_enabled k" "\<not> k_shadow k" "k_interrupt_requested k"
    using ready that by (simp add: interrupt_due_def kernel_ready_def apic_offers_def)
  show ?thesis
  proof (cases "k_pc k")
    case (ConfiguringPort i)
    with assms(3) [of i] show ?thesis by contradiction
  next
    case LoopTop
    show ?thesis
    proof (cases "interrupt_due k")
      case True
      from drains_woken [OF _ ready True, of io] LoopTop show ?thesis by (auto intro: drains_within_mono)
    next
      case False
      with LoopTop ie pc due why have "aq_list (k_queue k) \<noteq> []" by auto
      from drains_LoopTop_quiet [OF LoopTop ready this False] show ?thesis by (rule drains_within_mono) simp
    qed
  next
    case CountingMessages
    show ?thesis
    proof (cases "aq_list (k_queue k) = []")
      case True
      from drains_Counting_empty [OF CountingMessages ready _ _ True] CountingMessages True ie why show ?thesis by simp
    next
      case False
      from drains_Counting [OF CountingMessages _ ready False, of io] CountingMessages ie show ?thesis by (auto intro: drains_within_mono)
    qed
  next
    case SleepEnabling
    with drains_SleepEnabling [OF SleepEnabling ready, of io] ie pc why show ?thesis by (auto intro: drains_within_mono)
  next
    case AboutToHalt
    with drains_AboutToHalt [OF AboutToHalt ready, of io] ie pc why show ?thesis by (auto intro: drains_within_mono)
  next
    case Halted
    with due ie pc why have "interrupt_due k" by auto
    from drains_woken [OF _ ready this, of io] Halted show ?thesis by (auto intro: drains_within_mono)
  next
    case FetchingMessage
    with drains_Fetching [OF FetchingMessage _ ready, of io] ie pc show ?thesis by (auto intro: drains_within_mono)
  next
    case (PoppingMessage msg)
    with drains_Popping [OF PoppingMessage, of io] ie show ?thesis by (auto intro: drains_within_mono)
  next
    case (WorkEnabling msg)
    with drains_WorkEnabling [OF WorkEnabling, of io] ie show ?thesis by (auto intro: drains_within_mono)
  next
    case (Handling msg)
    from drains_Handling [OF Handling ready] show ?thesis by (rule drains_within_mono) simp
  next
    case Draining
    from drains_Draining [OF Draining] show ?thesis by (rule drains_within_mono) simp
  qed
qed

text \<open>Where the kernel sleeps although there is an event, the next thing that happens wakes it.\<close>

lemma kernel_inv_wakes:
  assumes "kernel_inv io k" and "k_pc k = Halted" and "has_event io (k_xhc k)"
  shows "interrupt_due k \<and> (\<exists>k'. kernel_step io k = Some k' \<and> k_pc k' = LoopTop \<and> k_xhc k' = k_xhc k \<and>
    ArrayQueue_Count (k_queue k') \<noteq> 0)"
proof -
  from assms have due: "interrupt_due k"
    by (auto simp: kernel_inv_def interrupt_due_def apic_offers_def)
  moreover obtain q where "take_interrupt k = Some (k\<lparr>k_queue := q, k_interrupt_requested := False, k_pc := LoopTop\<rparr>)"
    "aq_list q \<noteq> []"
    using take_interrupt_Some [of k] assms(1,2) by (auto simp: kernel_inv_def)
  ultimately show ?thesis by (simp add: kernel_step_def Count_eq_0)
qed

section \<open>A kernel that sleeps with an event in the ring\<close>

definition sample_pio :: "u64 PortIO" where
  "sample_pio = \<lparr>io_IoOut32 = (\<lambda>a v hw. hw), io_IoIn32 = (\<lambda>a hw. (0xf0000000, hw))\<rparr>"

definition sample_st :: "u64 PciState" where
  "sample_st = \<lparr>pci_hw = 1, pci_num_device = 1, pci_devices = [\<lparr>dev_bus = 0, dev_device = 3, dev_function = 0,
     dev_header_type = 0, dev_class_code = \<lparr>cc_base = 0x0c, cc_sub = 0x03, cc_interface = 0x30\<rparr>\<rparr>]\<rparr>"

lemma sample_reads:
  "ReadConfReg sample_pio dev a hw = (0xf0000000, hw)" "ReadVendorId_dev sample_pio dev hw = (0, hw)"
  by (simp_all add: ReadConfReg_def ReadVendorId_dev_def ReadVendorId_def ReadData_def WriteAddress_def sample_pio_def)

lemma sample_boot:
  "\<exists>x. BootXHC sample_pio run_io sample_sizes 0 sample_world sample_st = Some (kSuccess, x) \<and> MaxPorts x = 0"
proof -
  obtain x where x: "Controller_Initialize run_io sample_new = Some (kSuccess, x)" "w_hw (x_world x) = 0" "x_max_ports x = 0"
    "x_op x = 0xf0000001" using sample_initialized by blast
  have bits: "\<not> bit (wr USBCMD_Bitmap ''run_stop'' 1 (0 :: u32)) 2" "rd USBSTS_Bitmap ''host_controller_halted'' (0 :: u32) = 0"
    by code_simp+
  have run: "Controller_Run run_io x = Some (kSuccess, x)"
    by (simp add: Controller_Run_def run_regs x Let_def op_reg_def run_offsets bits)
  have new: "Controller_new run_io 0xf0000000 sample_sizes (sample_world\<lparr>w_hw := 1\<rparr>) = sample_new"
    "sample_new\<lparr>x_world := (x_world sample_new)\<lparr>w_hw := 1\<rparr>\<rparr> = sample_new" "w_hw (x_world sample_new) = 1"
    by (simp_all add: sample_new_def Controller_new_def)
  have "BootXHC sample_pio run_io sample_sizes 0 sample_world sample_st = Some (kSuccess, x)"
    by (simp add: BootXHC_def lookupXHC_def sample_st_def Match3_def Match2_def Match1_def sample_reads
      ConfigureMSIFixedDestination_def ConfigureMSI_def find_capabilities.simps ReadBar_def xhc_mmio_base_def new x run)
  with x(3) show ?thesis by (simp add: MaxPorts_def)
qed

definition sample_running :: "u64 Xhc" where
  "sample_running = snd (the (BootXHC sample_pio run_io sample_sizes 0 sample_world sample_st))"

definition sample_kernel :: "Pc \<Rightarrow> bool \<Rightarrow> bool \<Rightarrow> u64 Kernel" where
  "sample_kernel pc ie sh = \<lparr>k_queue = ArrayQueue_of_array (replicate 32 \<lparr>msg_type = kInterruptXHCI\<rparr>), k_xhc = sample_running,
     k_apic = \<lparr>apic_in_service = []\<rparr>, k_interrupts_enabled = ie, k_shadow = sh, k_interrupt_requested = True, k_pc = pc\<rparr>"

definition sample_halted :: "u64 Kernel" where
  "sample_halted = (sample_kernel Halted True False)\<lparr>k_xhc := sample_running\<lparr>x_world := sample_world\<lparr>w_hw := 0,
     w_mem := (\<lambda>a. if a = 12 then of_bool (er_cycle_bit (x_er sample_running)) else 0)\<rparr>\<rparr>, k_interrupt_requested := True\<rparr>"

lemma sample_kernel_run: "kernel_run sample_pio run_io sample_halted"
proof -
  obtain x where x: "BootXHC sample_pio run_io sample_sizes 0 sample_world sample_st = Some (kSuccess, x)" "MaxPorts x = 0"
    using sample_boot by blast
  then have running: "sample_running = x" by (simp add: sample_running_def)
  have step: "kernel_run sample_pio run_io (sample_kernel pc' ie' sh')"
    if "kernel_run sample_pio run_io (sample_kernel pc ie sh)" "pc \<noteq> Draining"
      "main_step run_io (sample_kernel pc ie sh) = Some (sample_kernel pc' ie' sh')" for pc ie sh pc' ie' sh'
  proof -
    have "kernel_run sample_pio run_io (sample_kernel pc' ie' sh'\<lparr>k_interrupt_requested := True\<rparr>)"
      by (rule kernel_run.main_thread [OF that(1) _ that(3)]) (use that(2) in \<open>simp_all add: sample_kernel_def announced_def\<close>)
    then show ?thesis by (simp add: sample_kernel_def)
  qed
  note sample_step = main_step_def main_action_def sample_kernel_def cli_def sti_def
  have "kernel_run sample_pio run_io (sample_kernel (ConfiguringPort 1) True True)"
    unfolding sample_kernel_def running by (rule kernel_run.booted [OF x(1)]) simp_all
  then have "kernel_run sample_pio run_io (sample_kernel LoopTop True False)"
    by (rule step) (simp_all add: sample_step running x)
  then have "kernel_run sample_pio run_io (sample_kernel CountingMessages False False)"
    by (rule step) (simp_all add: sample_step)
  then have "kernel_run sample_pio run_io (sample_kernel SleepEnabling False False)"
    by (rule step) (simp_all add: sample_step ArrayQueue_Count_def ArrayQueue_of_array_def ArrayQueue_new_def)
  then have "kernel_run sample_pio run_io (sample_kernel AboutToHalt True True)"
    by (rule step) (simp_all add: sample_step)
  then have "kernel_run sample_pio run_io (sample_kernel Halted True False)"
    by (rule step) (simp_all add: sample_step)
  then have "kernel_run sample_pio run_io (sample_kernel Halted True False\<lparr>k_xhc := (k_xhc (sample_kernel Halted True False))\<lparr>x_world := w\<rparr>,
      k_interrupt_requested := True\<rparr>)" for w
    by (rule kernel_run.hardware) (simp add: announced_def)
  then show ?thesis unfolding sample_halted_def by (simp add: sample_kernel_def)
qed

lemma sample_halted_state:
  "k_pc sample_halted = Halted" "has_event run_io (k_xhc sample_halted)" "k_interrupt_requested sample_halted"
proof -
  show "k_pc sample_halted = Halted" "k_interrupt_requested sample_halted" by (simp_all add: sample_halted_def sample_kernel_def)
  have "ERDP_Pointer 0 = 0" "rd TRB ''cycle_bit'' (push_bit 96 1 :: TRB) = 1" "rd TRB ''cycle_bit'' (0 :: TRB) = 0" by code_simp+
  then show "has_event run_io (k_xhc sample_halted)"
    by (cases "er_cycle_bit (x_er sample_running)")
      (simp_all add: has_event_def HasFront_def Front_def ReadDequeuePointer_def sample_halted_def trb_at_def)
qed

section \<open>Properties\<close>

text \<open>
  C1. The kernel never sleeps while an event waits: if the main thread has executed \<open>hlt\<close> and the
  event ring holds an event, then the interrupt that wakes it is requested, interrupts are enabled and
  not in the shadow of an \<open>sti\<close>, and the local APIC holds it back for no other; the next thing the
  processor does is to run the handler and go on at the head of the loop with a message in the queue.
  This is so whatever interleaving of the main thread's single steps, the interrupt handler and the
  hardware led there from a controller that came up: no interrupt is lost between the last look at the
  ring, \<open>cli\<close>, the test of the queue, \<open>sti\<close> and \<open>hlt\<close>, nor when the queue is full, and the handler
  always ends the service. The handler itself never touches memory outside the queue.
\<close>

theorem kernel_sleeps_only_when_idle:
  assumes "kernel_run pio io k"
  shows "(k_pc k = Halted \<and> has_event io (k_xhc k) \<longrightarrow>
      k_interrupt_requested k \<and> k_interrupts_enabled k \<and> \<not> k_shadow k \<and> apic_offers kXHCI (k_apic k) \<and>
      (\<exists>k'. kernel_step io k = Some k' \<and> k_pc k' = LoopTop \<and> ArrayQueue_Count (k_queue k') \<noteq> 0)) \<and>
    take_interrupt k \<noteq> None"
  using kernel_inv_wakes [OF kernel_run_inv [OF assms]] take_interrupt_Some [of k] kernel_run_inv [OF assms]
  by (auto simp: kernel_inv_def interrupt_due_def)

theorem kernel_sleeps_only_when_idle_witness:
  "k_pc sample_halted = Halted \<and> has_event run_io (k_xhc sample_halted) \<and> k_interrupt_requested sample_halted \<and>
    k_interrupts_enabled sample_halted \<and> apic_offers kXHCI (k_apic sample_halted) \<and>
    (\<exists>k'. kernel_step run_io sample_halted = Some k' \<and> k_pc k' = LoopTop \<and> ArrayQueue_Count (k_queue k') \<noteq> 0)"
  using kernel_sleeps_only_when_idle [OF sample_kernel_run] sample_halted_state by simp

text \<open>
  C18. An event is handled soon: after a controller that came up and once the ports are configured, from
  every state the kernel can be in with an event in the ring, the processor alone is inside the loop
  that handles the events after at most ten of its steps, each an access to the queue, a \<open>cli\<close>, \<open>sti\<close>,
  \<open>hlt\<close> or dispatch of the main thread or a run of the interrupt handler, with the controller's state
  untouched.
\<close>

theorem kernel_attends_to_events:
  assumes "kernel_run pio io k" and "has_event io (k_xhc k)" and "\<forall>i. k_pc k \<noteq> ConfiguringPort i"
  shows "\<exists>n\<le>10. \<exists>k'. kernel_steps io n k = Some k' \<and> k_pc k' = Draining \<and> k_xhc k' = k_xhc k"
  using kernel_inv_drains [OF kernel_run_inv [OF assms(1)] assms(2)] assms(3) by (simp add: drains_within_def)

theorem kernel_attends_to_events_witness:
  "\<exists>n\<le>10. \<exists>k'. kernel_steps run_io n sample_halted = Some k' \<and> k_pc k' = Draining \<and> k_xhc k' = k_xhc sample_halted"
  using kernel_attends_to_events [OF sample_kernel_run sample_halted_state(2)] sample_halted_state(1) by simp

end
