(* ===== verification/Graphics.thy ===== *)
theory Graphics
  imports Prelude
begin

text \<open>
  Drawing (\<open>kernel/graphics\<close>, \<open>kernel/frame_buffer\<close>). A \<open>PixelWriter\<close> object is its table of
  virtual functions over a state \<open>'w\<close>; the two frame-buffer writers are tables over byte memory.
  Every drawing routine of the kernel is a sequence of \<open>Write\<close> calls. The locale
  \<open>pixel_surface\<close> states what a writer promises (a write inside the surface changes that pixel
  and no other) and derives from it what a sequence of writes does to the image.

  Coordinates are C++ \<open>int\<close>s: they are mathematical integers here, and a call whose argument
  leaves the 32-bit range, which would be signed overflow, is undefined.
\<close>

section \<open>Colours, vectors and writers\<close>

record PixelColor =
  pc_r :: u8
  pc_g :: u8
  pc_b :: u8

abbreviation RGB :: "u8 \<Rightarrow> u8 \<Rightarrow> u8 \<Rightarrow> PixelColor" where
  "RGB r g b \<equiv> \<lparr>pc_r = r, pc_g = g, pc_b = b\<rparr>"

definition PixelColor_eq :: "PixelColor \<Rightarrow> PixelColor \<Rightarrow> bool" where
  "PixelColor_eq lhs rhs \<longleftrightarrow> pc_r lhs = pc_r rhs \<and> pc_g lhs = pc_g rhs \<and> pc_b lhs = pc_b rhs"

definition PixelColor_neq :: "PixelColor \<Rightarrow> PixelColor \<Rightarrow> bool" where
  "PixelColor_neq lhs rhs \<longleftrightarrow> \<not> PixelColor_eq lhs rhs"

lemma PixelColor_eq_iff [simp]: "PixelColor_eq c d \<longleftrightarrow> c = d"
  by (auto simp: PixelColor_eq_def intro: PixelColor.equality)

lemma PixelColor_neq_iff [simp]: "PixelColor_neq c d \<longleftrightarrow> c \<noteq> d"
  by (simp add: PixelColor_neq_def)

definition BLACK :: PixelColor where "BLACK = RGB 0 0 0"
definition WHITE :: PixelColor where "WHITE = RGB 255 255 255"
definition BLUE :: PixelColor where "BLUE = RGB 45 118 237"
definition GLAY :: PixelColor where "GLAY = RGB 80 80 80"
definition kDesktopBGColor :: PixelColor where "kDesktopBGColor = BLUE"
definition kDesktopFGColor :: PixelColor where "kDesktopFGColor = WHITE"

record Vector2D =
  v_x :: int
  v_y :: int

abbreviation vec :: "int \<Rightarrow> int \<Rightarrow> Vector2D" where
  "vec x y \<equiv> \<lparr>v_x = x, v_y = y\<rparr>"

definition int32 :: "int \<Rightarrow> bool" where
  "int32 i \<longleftrightarrow> - (2 ^ 31) \<le> i \<and> i < 2 ^ 31"

text \<open>\<open>operator +=\<close>, undefined when a component overflows.\<close>

definition Vector2D_add :: "Vector2D \<Rightarrow> Vector2D \<Rightarrow> Vector2D option" where
  "Vector2D_add lhs rhs =
     (if int32 (v_x lhs + v_x rhs) \<and> int32 (v_y lhs + v_y rhs)
      then Some (vec (v_x lhs + v_x rhs) (v_y lhs + v_y rhs)) else None)"

record 'w PixelWriter =
  pw_Write :: "int \<Rightarrow> int \<Rightarrow> PixelColor \<Rightarrow> 'w \<Rightarrow> 'w option"
  pw_Width :: int
  pw_Height :: int

text \<open>A call of \<open>Write\<close> whose arguments the caller has just computed.\<close>

definition call_Write :: "'w PixelWriter \<Rightarrow> int \<Rightarrow> int \<Rightarrow> PixelColor \<Rightarrow> 'w \<Rightarrow> 'w option" where
  "call_Write pw x y c w = (if int32 x \<and> int32 y then pw_Write pw x y c w else None)"

section \<open>Drawing routines\<close>

definition DrawRectangle ::
  "'w PixelWriter \<Rightarrow> Vector2D \<Rightarrow> Vector2D \<Rightarrow> PixelColor \<Rightarrow> 'w \<Rightarrow> 'w option" where
  "DrawRectangle writer pos sz c w =
     do {
       w \<leftarrow> foldM (\<lambda>dx w. do {
              w \<leftarrow> call_Write writer (v_x pos + dx) (v_y pos) c w;
              call_Write writer (v_x pos + dx) (v_y pos + v_y sz) c w
            }) [0..v_x sz - 1] w;
       foldM (\<lambda>dy w. do {
              w \<leftarrow> call_Write writer (v_x pos) (v_y pos + dy) c w;
              call_Write writer (v_x pos + v_x sz) (v_y pos + dy) c w
            }) [0..v_y sz - 1] w
     }"

definition FillRectangle ::
  "'w PixelWriter \<Rightarrow> Vector2D \<Rightarrow> Vector2D \<Rightarrow> PixelColor \<Rightarrow> 'w \<Rightarrow> 'w option" where
  "FillRectangle writer pos sz c =
     foldM (\<lambda>dy. foldM (\<lambda>dx. call_Write writer (v_x pos + dx) (v_y pos + dy) c) [0..v_x sz - 1])
       [0..v_y sz - 1]"

text \<open>C++ division truncates; widths are not negative, where it agrees with \<open>div\<close>.\<close>

definition DrawDesktop :: "'w PixelWriter \<Rightarrow> 'w \<Rightarrow> 'w option" where
  "DrawDesktop writer w =
     (let width = pw_Width writer; height = pw_Height writer in
      do {
        w \<leftarrow> FillRectangle writer (vec 0 0) (vec width (height - 50)) kDesktopBGColor w;
        w \<leftarrow> FillRectangle writer (vec 0 (height - 50)) (vec width 50) BLACK w;
        w \<leftarrow> FillRectangle writer (vec 0 (height - 50)) (vec (width div 5) 50) GLAY w;
        DrawRectangle writer (vec 10 (height - 40)) (vec 30 30) (RGB 160 160 160) w
      })"

section \<open>Frame-buffer writers\<close>

datatype PixelFormat = kPixelRGBResv8BitPerColor | kPixelBGRResv8BitPerColor

record FrameBufferConfig =
  fb_frame_buffer :: u64
  fb_pixels_per_scan_line :: u32
  fb_horizontal_resolution :: u32
  fb_vertical_resolution :: u32
  fb_pixel_format :: PixelFormat

text \<open>The offset is computed in \<open>uint32_t\<close>: \<open>y\<close> and \<open>x\<close> are converted to it.\<close>

definition PixelAt :: "FrameBufferConfig \<Rightarrow> int \<Rightarrow> int \<Rightarrow> u64" where
  "PixelAt config x y = fb_frame_buffer config +
     ucast (4 * (fb_pixels_per_scan_line config * word_of_int y + word_of_int x) :: u32)"

definition BGR_Write :: "FrameBufferConfig \<Rightarrow> int \<Rightarrow> int \<Rightarrow> PixelColor \<Rightarrow> mem \<Rightarrow> mem option" where
  "BGR_Write config x y c m =
     (let p = PixelAt config x y in Some (m(p := pc_b c, p + 1 := pc_g c, p + 2 := pc_r c)))"

definition RGB_Write :: "FrameBufferConfig \<Rightarrow> int \<Rightarrow> int \<Rightarrow> PixelColor \<Rightarrow> mem \<Rightarrow> mem option" where
  "RGB_Write config x y c m =
     (let p = PixelAt config x y in Some (m(p := pc_r c, p + 1 := pc_g c, p + 2 := pc_b c)))"

text \<open>\<open>KernelMainNewStack\<close> chooses the writer's class by the configuration's pixel format.\<close>

definition FrameBufferWriter :: "FrameBufferConfig \<Rightarrow> mem PixelWriter" where
  "FrameBufferWriter config =
     \<lparr>pw_Write = (case fb_pixel_format config of
          kPixelBGRResv8BitPerColor \<Rightarrow> BGR_Write config
        | kPixelRGBResv8BitPerColor \<Rightarrow> RGB_Write config),
      pw_Width = sint (fb_horizontal_resolution config),
      pw_Height = sint (fb_vertical_resolution config)\<rparr>"

section \<open>Sequences of writes\<close>

type_synonym pixel = "int \<times> int"
type_synonym image = "pixel \<Rightarrow> PixelColor"

definition writes :: "'w PixelWriter \<Rightarrow> (pixel \<times> PixelColor) list \<Rightarrow> 'w \<Rightarrow> 'w option" where
  "writes pw = foldM (\<lambda>((x, y), c). call_Write pw x y c)"

definition paint :: "(pixel \<times> PixelColor) list \<Rightarrow> image \<Rightarrow> image" where
  "paint = fold (\<lambda>(p, c) img. img(p := c))"

lemma writes_Nil [simp]: "writes pw [] w = Some w"
  by (simp add: writes_def)

lemma writes_append: "writes pw (ps @ qs) w = writes pw ps w \<bind> writes pw qs"
  by (simp add: writes_def foldM_append bind_def split: option.split)

lemma writes_Cons: "writes pw (((x, y), c) # ps) w = call_Write pw x y c w \<bind> writes pw ps"
  by (simp add: writes_def bind_def split: option.split)

lemma writes_concat: "foldM (\<lambda>a. writes pw (f a)) xs = writes pw (concat (map f xs))"
proof
  show "foldM (\<lambda>a. writes pw (f a)) xs w = writes pw (concat (map f xs)) w" for w
    by (induction xs arbitrary: w) (auto simp: writes_append split: option.split)
qed

lemma foldM_writes:
  assumes "\<And>a s. a \<in> set xs \<Longrightarrow> body a s = writes pw (f a) s"
  shows "foldM body xs s = writes pw (concat (map f xs)) s"
  using assms foldM_cong [of xs xs s s body "\<lambda>a. writes pw (f a)"] by (simp add: writes_concat)

lemma call_Write_writes: "call_Write pw x y c = writes pw [((x, y), c)]"
  by (rule ext) (simp add: writes_def split: option.split)

lemma concat_map_singleton [simp]: "concat (map (\<lambda>x. [g x]) xs) = map g xs"
  by (induction xs) auto

lemma paint_Nil [simp]: "paint [] img = img"
  by (simp add: paint_def)

lemma paint_append: "paint (ps @ qs) img = paint qs (paint ps img)"
  by (simp add: paint_def)

lemma paint_Cons: "paint ((p, c) # ps) img = paint ps (img(p := c))"
  by (simp add: paint_def)

text \<open>The last write to a pixel decides.\<close>

lemma paint_map_of: "paint ps img p = (case map_of (rev ps) p of None \<Rightarrow> img p | Some c \<Rightarrow> c)"
proof (induction ps rule: rev_induct)
  case (snoc a ps)
  then show ?case by (cases a) (simp add: paint_append paint_Cons)
qed simp

lemma paint_cong: "img q = img' q \<Longrightarrow> paint ps img q = paint ps img' q"
  by (simp add: paint_map_of split: option.split)

lemma paint_untouched: "p \<notin> fst ` set ps \<Longrightarrow> paint ps img p = img p"
  using map_of_eq_None_iff [of "rev ps" p] by (simp only: set_rev paint_map_of option.case simp_thms)

lemma paint_touched:
  assumes "(p, c) \<in> set ps" and "\<And>d. (p, d) \<in> set ps \<Longrightarrow> d = c"
  shows "paint ps img p = c"
proof -
  from assms(1) have "(p, c) \<in> set (rev ps)" by simp
  then have "map_of (rev ps) p \<noteq> None" by (metis map_of_eq_None_iff fst_conv image_eqI)
  then obtain d where d: "map_of (rev ps) p = Some d" by blast
  then have "(p, d) \<in> set ps" using map_of_SomeD by fastforce
  with assms(2) d show ?thesis by (simp add: paint_map_of)
qed

text \<open>Writes that agree with a partial image.\<close>

lemma paint_graph:
  assumes "\<And>p c. (p, c) \<in> set ps \<longleftrightarrow> f p = Some c"
  shows "paint ps img p = (case f p of None \<Rightarrow> img p | Some c \<Rightarrow> c)"
proof (cases "f p")
  case None
  then have "p \<notin> fst ` set ps" using assms by force
  from paint_untouched [OF this] None show ?thesis by simp
next
  case (Some c)
  have "paint ps img p = c"
    by (rule paint_touched) (use Some assms in auto)
  with Some show ?thesis by simp
qed

text \<open>One colour everywhere.\<close>

lemma paint_const:
  "paint (map (\<lambda>p. (p, c)) qs) img p = (if p \<in> set qs then c else img p)"
  by (auto intro: paint_touched paint_untouched)

section \<open>The pixels each routine writes\<close>

definition rect_pixels :: "Vector2D \<Rightarrow> Vector2D \<Rightarrow> pixel list" where
  "rect_pixels pos sz =
     concat (map (\<lambda>dy. map (\<lambda>dx. (v_x pos + dx, v_y pos + dy)) [0..v_x sz - 1]) [0..v_y sz - 1])"

definition frame_pixels :: "Vector2D \<Rightarrow> Vector2D \<Rightarrow> pixel list" where
  "frame_pixels pos sz =
     concat (map (\<lambda>dx. [(v_x pos + dx, v_y pos), (v_x pos + dx, v_y pos + v_y sz)]) [0..v_x sz - 1]) @
     concat (map (\<lambda>dy. [(v_x pos, v_y pos + dy), (v_x pos + v_x sz, v_y pos + dy)]) [0..v_y sz - 1])"

lemma ex_shift: "(\<exists>d. 0 \<le> d \<and> d \<le> n - 1 \<and> z = a + d) \<longleftrightarrow> a \<le> z \<and> z < a + (n :: int)"
  by (auto intro: exI [of _ "z - a"])

lemma mem_rect_pixels [simp]:
  "(x, y) \<in> set (rect_pixels pos sz) \<longleftrightarrow>
     v_x pos \<le> x \<and> x < v_x pos + v_x sz \<and> v_y pos \<le> y \<and> y < v_y pos + v_y sz"
proof -
  have "(x, y) \<in> set (rect_pixels pos sz) \<longleftrightarrow>
     (\<exists>e. (0 \<le> e \<and> e \<le> v_y sz - 1) \<and>
       (\<exists>d. (0 \<le> d \<and> d \<le> v_x sz - 1) \<and> x = v_x pos + d \<and> y = v_y pos + e))"
    by (auto simp: rect_pixels_def image_iff Bex_def)
  also have "\<dots> \<longleftrightarrow> (\<exists>d. 0 \<le> d \<and> d \<le> v_x sz - 1 \<and> x = v_x pos + d) \<and>
     (\<exists>e. 0 \<le> e \<and> e \<le> v_y sz - 1 \<and> y = v_y pos + e)"
    by blast
  finally show ?thesis unfolding ex_shift by simp
qed

text \<open>Note that \<open>DrawRectangle\<close> leaves out the corner opposite to \<open>pos\<close>.\<close>

lemma mem_frame_pixels [simp]:
  "(x, y) \<in> set (frame_pixels pos sz) \<longleftrightarrow>
     (v_x pos \<le> x \<and> x < v_x pos + v_x sz \<and> (y = v_y pos \<or> y = v_y pos + v_y sz)) \<or>
     (v_y pos \<le> y \<and> y < v_y pos + v_y sz \<and> (x = v_x pos \<or> x = v_x pos + v_x sz))"
proof -
  have "(x, y) \<in> set (frame_pixels pos sz) \<longleftrightarrow>
     ((\<exists>d. 0 \<le> d \<and> d \<le> v_x sz - 1 \<and> x = v_x pos + d) \<and> (y = v_y pos \<or> y = v_y pos + v_y sz)) \<or>
     ((\<exists>d. 0 \<le> d \<and> d \<le> v_y sz - 1 \<and> y = v_y pos + d) \<and> (x = v_x pos \<or> x = v_x pos + v_x sz))"
    unfolding frame_pixels_def by auto
  then show ?thesis unfolding ex_shift by simp
qed

lemma FillRectangle_writes:
  "FillRectangle pw pos sz c w = writes pw (map (\<lambda>p. (p, c)) (rect_pixels pos sz)) w"
  unfolding FillRectangle_def rect_pixels_def call_Write_writes
  by (simp add: writes_concat map_concat comp_def)

lemma DrawRectangle_writes:
  "DrawRectangle pw pos sz c w = writes pw (map (\<lambda>p. (p, c)) (frame_pixels pos sz)) w"
proof -
  have two: "do { w \<leftarrow> call_Write pw x y c w; call_Write pw x' y' c w } =
      writes pw [((x, y), c), ((x', y'), c)] w" for x y x' y' w
    by (cases "call_Write pw x y c w") (simp_all add: writes_def split: option.split)
  show ?thesis
    unfolding DrawRectangle_def frame_pixels_def two
    by (simp add: writes_concat map_concat comp_def writes_append)
qed

section \<open>What a writer promises\<close>

text \<open>
  \<open>px w\<close> is the image on the surface and \<open>inb\<close> the pixels that belong to it; \<open>inv\<close> may hold
  what the surface's state must keep.
\<close>

locale pixel_surface =
  fixes pw :: "'w PixelWriter" and px :: "'w \<Rightarrow> image" and inb :: "pixel \<Rightarrow> bool" and inv :: "'w \<Rightarrow> bool"
  assumes Write_in: "inv w \<Longrightarrow> inb (x, y) \<Longrightarrow>
      \<exists>w'. pw_Write pw x y c w = Some w' \<and> inv w' \<and>
        (\<forall>q. inb q \<longrightarrow> px w' q = ((px w)((x, y) := c)) q)"
    and inb_int32: "inb (x, y) \<Longrightarrow> int32 x \<and> int32 y"
begin

lemma writes_paint:
  assumes "inv w" and "\<forall>(p, c) \<in> set ps. inb p"
  shows "\<exists>w'. writes pw ps w = Some w' \<and> inv w' \<and> (\<forall>q. inb q \<longrightarrow> px w' q = paint ps (px w) q)"
  using assms
proof (induction ps arbitrary: w)
  case Nil
  then show ?case by simp
next
  case (Cons a ps)
  obtain x y c where a: "a = ((x, y), c)" by (metis surj_pair)
  have inb: "inb (x, y)" using Cons.prems(2) a by simp
  from Write_in [OF Cons.prems(1) this, of c] obtain w1 where
    w1: "pw_Write pw x y c w = Some w1" "inv w1" "\<forall>q. inb q \<longrightarrow> px w1 q = ((px w)((x, y) := c)) q"
    by blast
  from Cons.IH [OF w1(2)] Cons.prems(2) obtain w' where
    w': "writes pw ps w1 = Some w'" "inv w'" "\<forall>q. inb q \<longrightarrow> px w' q = paint ps (px w1) q" by auto
  have "\<forall>q. inb q \<longrightarrow> px w' q = paint ps ((px w)((x, y) := c)) q"
    using w'(3) w1(3) paint_cong by metis
  moreover have "writes pw (a # ps) w = Some w'"
    using w1(1) w'(1) inb_int32 [OF inb] by (simp add: a writes_Cons call_Write_def)
  ultimately show ?case using w'(2) by (simp add: a paint_Cons)
qed

lemma FillRectangle_paint:
  assumes "inv w" and "\<forall>p \<in> set (rect_pixels pos sz). inb p"
  shows "\<exists>w'. FillRectangle pw pos sz c w = Some w' \<and> inv w' \<and>
    (\<forall>q. inb q \<longrightarrow> px w' q = (if q \<in> set (rect_pixels pos sz) then c else px w q))"
  using writes_paint [OF assms(1), of "map (\<lambda>p. (p, c)) (rect_pixels pos sz)"] assms(2)
  by (simp add: FillRectangle_writes paint_const)

lemma DrawRectangle_paint:
  assumes "inv w" and "\<forall>p \<in> set (frame_pixels pos sz). inb p"
  shows "\<exists>w'. DrawRectangle pw pos sz c w = Some w' \<and> inv w' \<and>
    (\<forall>q. inb q \<longrightarrow> px w' q = (if q \<in> set (frame_pixels pos sz) then c else px w q))"
  using writes_paint [OF assms(1), of "map (\<lambda>p. (p, c)) (frame_pixels pos sz)"] assms(2)
  by (simp add: DrawRectangle_writes paint_const)

end

section \<open>The frame buffer is a surface\<close>

definition fb_wf :: "FrameBufferConfig \<Rightarrow> bool" where
  "fb_wf config \<longleftrightarrow> fb_horizontal_resolution config \<le> fb_pixels_per_scan_line config \<and>
     4 * unat (fb_pixels_per_scan_line config) * unat (fb_vertical_resolution config) \<le> 2 ^ 32 \<and>
     unat (fb_frame_buffer config) + 4 * unat (fb_pixels_per_scan_line config) *
       unat (fb_vertical_resolution config) \<le> 2 ^ 64"

definition fb_inb :: "FrameBufferConfig \<Rightarrow> pixel \<Rightarrow> bool" where
  "fb_inb config = (\<lambda>(x, y). 0 \<le> x \<and> x < sint (fb_horizontal_resolution config) \<and>
     0 \<le> y \<and> y < sint (fb_vertical_resolution config))"

definition fb_px :: "FrameBufferConfig \<Rightarrow> mem \<Rightarrow> image" where
  "fb_px config m = (\<lambda>(x, y). let p = PixelAt config x y in
     case fb_pixel_format config of
       kPixelBGRResv8BitPerColor \<Rightarrow> RGB (m (p + 2)) (m (p + 1)) (m p)
     | kPixelRGBResv8BitPerColor \<Rightarrow> RGB (m p) (m (p + 1)) (m (p + 2)))"

text \<open>The memory of the frame buffer, and memories that agree outside it.\<close>

definition fb_bytes :: "FrameBufferConfig \<Rightarrow> u64 set" where
  "fb_bytes config = {a. unat (fb_frame_buffer config) \<le> unat a \<and> unat a < unat (fb_frame_buffer config) +
     4 * unat (fb_pixels_per_scan_line config) * unat (fb_vertical_resolution config)}"

definition fb_only :: "FrameBufferConfig \<Rightarrow> mem \<Rightarrow> mem \<Rightarrow> bool" where
  "fb_only config m m' \<longleftrightarrow> (\<forall>a. a \<notin> fb_bytes config \<longrightarrow> m' a = m a)"

text \<open>The offset of a pixel from the start of the frame buffer.\<close>

definition fb_offset :: "FrameBufferConfig \<Rightarrow> pixel \<Rightarrow> nat" where
  "fb_offset config = (\<lambda>(x, y). 4 * (unat (fb_pixels_per_scan_line config) * nat y + nat x))"

lemma sint_pos_unat:
  assumes "0 \<le> i" and "i < sint (w :: 'a::len word)"
  shows "nat i < unat w"
proof -
  have "0 \<le> sint w" "sint w < 2 ^ LENGTH('a)"
    using assms sint_lt [of w] power_increasing [of "LENGTH('a) - 1" "LENGTH('a)" "2 :: int"]
    by linarith+
  then have "sint w = uint w" by (simp add: uint_sint take_bit_int_eq_self)
  then show ?thesis using assms by (simp add: nat_less_iff)
qed

lemma unat_PixelAt:
  assumes "fb_wf config" and "fb_inb config p"
  shows "unat (PixelAt config (fst p) (snd p)) = unat (fb_frame_buffer config) + fb_offset config p"
    and "fb_offset config p + 4 \<le>
      4 * unat (fb_pixels_per_scan_line config) * unat (fb_vertical_resolution config)"
proof -
  obtain x y where p: "p = (x, y)" by (cases p)
  let ?l = "unat (fb_pixels_per_scan_line config)" and ?v = "unat (fb_vertical_resolution config)"
  have x: "0 \<le> x" "nat x < ?l" and y: "0 \<le> y" "nat y < ?v"
    using assms sint_pos_unat [of x "fb_horizontal_resolution config"]
      sint_pos_unat [of y "fb_vertical_resolution config"]
    by (auto simp: p fb_inb_def fb_wf_def word_le_nat_alt)
  have "Suc (nat y) * ?l \<le> ?v * ?l" using y(2) by (intro mult_le_mono1) simp
  then have le: "?l * nat y + nat x + 1 \<le> ?l * ?v" using x(2) by (simp add: algebra_simps)
  then show off: "fb_offset config p + 4 \<le> 4 * ?l * ?v" by (simp add: fb_offset_def p)
  have wf: "4 * ?l * ?v \<le> 2 ^ 32" "unat (fb_frame_buffer config) + 4 * ?l * ?v \<le> 2 ^ 64"
    using assms(1) by (simp_all add: fb_wf_def)
  have "word_of_int y = (word_of_nat (nat y) :: u32)" "word_of_int x = (word_of_nat (nat x) :: u32)"
    using x(1) y(1) by simp_all
  then have "4 * (fb_pixels_per_scan_line config * word_of_int y + word_of_int x) =
      (word_of_nat (fb_offset config p) :: u32)"
    by (simp add: fb_offset_def p)
  then have "unat (4 * (fb_pixels_per_scan_line config * word_of_int y + word_of_int x) :: u32) =
      fb_offset config p"
    using off wf(1) by (simp add: unat_of_nat)
  then show "unat (PixelAt config (fst p) (snd p)) = unat (fb_frame_buffer config) + fb_offset config p"
    using off wf(2) by (simp add: PixelAt_def p unat_word_ariths unsigned_ucast_eq take_bit_nat_eq_self)
qed

lemma unat_byte:
  assumes "fb_wf config" and "fb_inb config (x, y)" and "j \<le> 3"
  shows "unat (PixelAt config x y + word_of_nat j) =
    unat (fb_frame_buffer config) + fb_offset config (x, y) + j"
proof -
  have "unat (fb_frame_buffer config) + fb_offset config (x, y) + j < 2 ^ 64"
    using unat_PixelAt(2) [OF assms(1,2)] assms(1,3) by (simp add: fb_wf_def)
  then show ?thesis
    using unat_PixelAt(1) [OF assms(1,2)] assms(3) by (simp add: unat_word_ariths unat_of_nat)
qed

lemma fb_offset_inj:
  assumes "fb_wf config" and "fb_inb config p" and "fb_inb config q"
    and "fb_offset config p = fb_offset config q"
  shows "p = q"
proof -
  obtain x y x' y' where p: "p = (x, y)" and q: "q = (x', y')" by (metis surj_pair)
  let ?l = "unat (fb_pixels_per_scan_line config)"
  have b: "0 \<le> x" "0 \<le> y" "0 \<le> x'" "0 \<le> y'" "nat x < ?l" "nat x' < ?l"
    using assms(1-3) sint_pos_unat [of x "fb_horizontal_resolution config"]
      sint_pos_unat [of x' "fb_horizontal_resolution config"]
    by (auto simp: p q fb_inb_def fb_wf_def word_le_nat_alt)
  have eq: "?l * nat y + nat x = ?l * nat y' + nat x'"
    using assms(4) by (simp add: fb_offset_def p q)
  then have "nat y = nat y'"
    using b(5,6) by (metis div_mult_self4 div_less add_0_right less_nat_zero_code not_gr_zero)
  with eq have "nat x = nat x'" by simp
  with \<open>nat y = nat y'\<close> b show ?thesis by (simp add: p q eq_nat_nat_iff)
qed

lemma byte_of_other_pixel:
  assumes "fb_wf config" and "fb_inb config (x, y)" and "fb_inb config (x', y')"
    and "i \<le> 3" and "j \<le> 3"
  shows "PixelAt config x' y' + word_of_nat i = PixelAt config x y + word_of_nat j \<longleftrightarrow>
    (x', y') = (x, y) \<and> i = j"
proof
  assume "PixelAt config x' y' + word_of_nat i = PixelAt config x y + word_of_nat j"
  then have "fb_offset config (x', y') + i = fb_offset config (x, y) + j"
    using unat_byte [OF assms(1,2,5)] unat_byte [OF assms(1,3,4)] by simp
  moreover have "fb_offset config (x', y') mod 4 = 0" "fb_offset config (x, y) mod 4 = 0"
    by (simp_all add: fb_offset_def)
  ultimately have "fb_offset config (x', y') = fb_offset config (x, y)" "i = j"
    using assms(4,5) by presburger+
  then show "(x', y') = (x, y) \<and> i = j"
    using fb_offset_inj [OF assms(1,3,2)] by simp
qed auto

lemma byte_of_other_pixel_012:
  assumes "fb_wf config" and "fb_inb config (x, y)" and "fb_inb config (x', y')"
  defines "p \<equiv> PixelAt config x y" and "q \<equiv> PixelAt config x' y'"
  shows "q = p \<longleftrightarrow> (x', y') = (x, y)" "q = p + 1 \<longleftrightarrow> False" "q = p + 2 \<longleftrightarrow> False"
    "q + 1 = p \<longleftrightarrow> False" "q + 1 = p + 2 \<longleftrightarrow> False"
    "q + 2 = p \<longleftrightarrow> False" "q + 2 = p + 1 \<longleftrightarrow> False"
  using byte_of_other_pixel [OF assms(1-3), of 0 0] byte_of_other_pixel [OF assms(1-3), of 0 1]
    byte_of_other_pixel [OF assms(1-3), of 0 2] byte_of_other_pixel [OF assms(1-3), of 1 0]
    byte_of_other_pixel [OF assms(1-3), of 1 2] byte_of_other_pixel [OF assms(1-3), of 2 0]
    byte_of_other_pixel [OF assms(1-3), of 2 1]
  by (simp_all add: p_def q_def)

lemma FrameBuffer_Write_in:
  assumes wf: "fb_wf config" and inb: "fb_inb config (x, y)" and only: "fb_only config m0 m"
  shows "\<exists>m'. pw_Write (FrameBufferWriter config) x y c m = Some m' \<and> fb_only config m0 m' \<and>
    (\<forall>q. fb_inb config q \<longrightarrow> fb_px config m' q = ((fb_px config m)((x, y) := c)) q)"
proof -
  obtain m' where m': "pw_Write (FrameBufferWriter config) x y c m = Some m'"
    by (cases "fb_pixel_format config")
      (simp_all add: FrameBufferWriter_def BGR_Write_def RGB_Write_def Let_def)
  have "fb_px config m' q = ((fb_px config m)((x, y) := c)) q" if q: "fb_inb config q" for q
  proof -
    obtain x' y' where q': "q = (x', y')" by (cases q)
    note other = byte_of_other_pixel_012 [OF wf inb q [unfolded q']]
    show ?thesis
      using m' other
      by (cases "fb_pixel_format config"; cases "(x', y') = (x, y)")
        (auto simp: q' FrameBufferWriter_def BGR_Write_def RGB_Write_def Let_def fb_px_def)
  qed
  moreover have "m' a = m0 a" if "a \<notin> fb_bytes config" for a
  proof -
    have "PixelAt config x y + word_of_nat j \<in> fb_bytes config" if "j \<le> 3" for j
      using unat_byte [OF wf inb that] unat_PixelAt(2) [OF wf inb] that by (simp add: fb_bytes_def)
    from this [of 0] this [of 1] this [of 2] have "a \<noteq> PixelAt config x y"
      "a \<noteq> PixelAt config x y + 1" "a \<noteq> PixelAt config x y + 2" using \<open>a \<notin> _\<close> by auto
    with m' have "m' a = m a"
      by (cases "fb_pixel_format config")
        (auto simp: FrameBufferWriter_def BGR_Write_def RGB_Write_def Let_def)
    with only that show ?thesis by (simp add: fb_only_def)
  qed
  ultimately show ?thesis using m' by (auto simp: fb_only_def)
qed

lemma fb_inb_int32: "fb_inb config (x, y) \<Longrightarrow> int32 x \<and> int32 y"
  using sint_lt [of "fb_horizontal_resolution config"] sint_lt [of "fb_vertical_resolution config"]
  by (simp add: fb_inb_def int32_def)

lemma fb_only_refl [simp]: "fb_only config m m"
  by (simp add: fb_only_def)

interpretation fb: pixel_surface "FrameBufferWriter config" "fb_px config" "fb_inb config"
    "\<lambda>m. fb_wf config \<and> fb_only config m0 m" for config m0
  by unfold_locales (use FrameBuffer_Write_in fb_inb_int32 in blast)+

section \<open>The desktop\<close>

definition desktop_color :: "int \<Rightarrow> int \<Rightarrow> image" where
  "desktop_color width height = (\<lambda>(x, y).
     if (x, y) \<in> set (frame_pixels (vec 10 (height - 40)) (vec 30 30)) then RGB 160 160 160
     else if height - 50 \<le> y then if x < width div 5 then GLAY else BLACK
     else kDesktopBGColor)"

text \<open>On any surface that holds the screen.\<close>

context pixel_surface
begin

lemma DrawDesktop_paint:
  assumes "inv w" and inb: "\<And>x y. 0 \<le> x \<Longrightarrow> x < pw_Width pw \<Longrightarrow> 0 \<le> y \<Longrightarrow> y < pw_Height pw \<Longrightarrow> inb (x, y)"
    and "41 \<le> pw_Width pw" and "50 \<le> pw_Height pw"
  shows "\<exists>w'. DrawDesktop pw w = Some w' \<and> inv w' \<and> (\<forall>x y. 0 \<le> x \<longrightarrow> x < pw_Width pw \<longrightarrow> 0 \<le> y \<longrightarrow> y < pw_Height pw \<longrightarrow>
    px w' (x, y) = desktop_color (pw_Width pw) (pw_Height pw) (x, y))"
proof -
  let ?w = "pw_Width pw" and ?h = "pw_Height pw"
  have in_screen: "\<forall>p \<in> set (rect_pixels (vec a b) (vec k l)). inb p"
    if "0 \<le> a" "0 \<le> b" "a + k \<le> ?w" "b + l \<le> ?h" for a b k l
    using that inb by auto
  have in_frame: "\<forall>p \<in> set (frame_pixels (vec 10 (?h - 40)) (vec 30 30)). inb p"
    using assms(3,4) inb by auto
  obtain w1 where w1: "FillRectangle pw (vec 0 0) (vec ?w (?h - 50)) kDesktopBGColor w = Some w1" "inv w1"
    "\<forall>q. inb q \<longrightarrow> px w1 q = (if q \<in> set (rect_pixels (vec 0 0) (vec ?w (?h - 50))) then kDesktopBGColor else px w q)"
    using FillRectangle_paint [OF assms(1) in_screen, of 0 0 ?w "?h - 50" kDesktopBGColor] by auto
  obtain w2 where w2: "FillRectangle pw (vec 0 (?h - 50)) (vec ?w 50) BLACK w1 = Some w2" "inv w2"
    "\<forall>q. inb q \<longrightarrow> px w2 q = (if q \<in> set (rect_pixels (vec 0 (?h - 50)) (vec ?w 50)) then BLACK else px w1 q)"
    using FillRectangle_paint [OF w1(2) in_screen, of 0 "?h - 50" ?w 50 BLACK] assms(4) by auto
  have "?w div 5 \<le> ?w" using assms(3) by linarith
  then obtain w3 where w3: "FillRectangle pw (vec 0 (?h - 50)) (vec (?w div 5) 50) GLAY w2 = Some w3" "inv w3"
    "\<forall>q. inb q \<longrightarrow> px w3 q = (if q \<in> set (rect_pixels (vec 0 (?h - 50)) (vec (?w div 5) 50)) then GLAY else px w2 q)"
    using FillRectangle_paint [OF w2(2) in_screen, of 0 "?h - 50" "?w div 5" 50 GLAY] assms(4) by auto
  obtain w4 where w4: "DrawRectangle pw (vec 10 (?h - 40)) (vec 30 30) (RGB 160 160 160) w3 = Some w4" "inv w4"
    "\<forall>q. inb q \<longrightarrow> px w4 q =
      (if q \<in> set (frame_pixels (vec 10 (?h - 40)) (vec 30 30)) then RGB 160 160 160 else px w3 q)"
    using DrawRectangle_paint [OF w3(2) in_frame, of "RGB 160 160 160"] by auto
  have "DrawDesktop pw w = Some w4"
    by (simp only: DrawDesktop_def Let_def w1(1) w2(1) w3(1) w4(1) Option.bind.simps)
  moreover have "px w4 (x, y) = desktop_color ?w ?h (x, y)" if "0 \<le> x" "x < ?w" "0 \<le> y" "y < ?h" for x y
  proof -
    note steps = w4(3) [rule_format, OF inb [OF that]] w3(3) [rule_format, OF inb [OF that]]
      w2(3) [rule_format, OF inb [OF that]] w1(3) [rule_format, OF inb [OF that]]
    show ?thesis using that unfolding steps desktop_color_def prod.case by auto
  qed
  ultimately show ?thesis using w4(2) by blast
qed

end

text \<open>The desktop on the frame buffer.\<close>

lemma DrawDesktop_image:
  assumes wf: "fb_wf config" and w: "41 \<le> sint (fb_horizontal_resolution config)"
    and h: "50 \<le> sint (fb_vertical_resolution config)"
  shows "\<exists>m'. DrawDesktop (FrameBufferWriter config) m = Some m' \<and> fb_only config m m' \<and>
    (\<forall>p. fb_inb config p \<longrightarrow> fb_px config m' p =
       desktop_color (sint (fb_horizontal_resolution config)) (sint (fb_vertical_resolution config)) p)"
proof -
  have dims: "pw_Width (FrameBufferWriter config) = sint (fb_horizontal_resolution config)"
    "pw_Height (FrameBufferWriter config) = sint (fb_vertical_resolution config)" by (simp_all add: FrameBufferWriter_def)
  have "fb_wf config \<and> fb_only config m m" using wf by simp
  from fb.DrawDesktop_paint [OF this] w h show ?thesis by (auto simp: dims fb_inb_def)
qed

end
