(* ===== verification/Window.thy ===== *)
theory Window
  imports Graphics
begin

text \<open>
  Windows (\<open>kernel/window\<close>): a window is a grid of colours with an optional transparent colour, its writer is a drawing
  surface, and \<open>DrawTo\<close> copies it to another surface. \<open>DrawTo\<close> is shown to be a sequence of
  writes, whose effect on the image the locale of theory \<open>Graphics\<close> gives.
\<close>

section \<open>Windows\<close>

text \<open>The writer of a window is the window itself, so it is no field here.\<close>

record Window =
  win_width :: int
  win_height :: int
  win_data :: "PixelColor list list"
  win_transparent_color :: "PixelColor option"

text \<open>
  A negative size would be converted to a huge \<open>size_t\<close>, which \<open>resize\<close> cannot provide. For other sizes the
  memory of the window is taken to be there: what \<open>resize\<close> does on an exhausted heap is not modelled.
\<close>

definition Window_new :: "int \<Rightarrow> int \<Rightarrow> Window option" where
  "Window_new width height =
     (if 0 \<le> width \<and> 0 \<le> height then
        Some \<lparr>win_width = width, win_height = height,
          win_data = replicate (nat height) (replicate (nat width) (RGB 0 0 0)),
          win_transparent_color = None\<rparr>
      else None)"

definition Window_At :: "Window \<Rightarrow> int \<Rightarrow> int \<Rightarrow> PixelColor option" where
  "Window_At w x y =
     (if 0 \<le> y \<and> nat y < length (win_data w) \<and> 0 \<le> x \<and> nat x < length (win_data w ! nat y)
      then Some (win_data w ! nat y ! nat x) else None)"

text \<open>\<open>At(x, y) = c\<close>, the assignment through the returned reference.\<close>

definition Window_At_assign :: "int \<Rightarrow> int \<Rightarrow> PixelColor \<Rightarrow> Window \<Rightarrow> Window option" where
  "Window_At_assign x y c w =
     (if 0 \<le> y \<and> nat y < length (win_data w) \<and> 0 \<le> x \<and> nat x < length (win_data w ! nat y)
      then Some (w\<lparr>win_data := (win_data w)[nat y := (win_data w ! nat y)[nat x := c]]\<rparr>) else None)"

definition Window_Width :: "Window \<Rightarrow> int" where
  "Window_Width w = win_width w"

definition Window_Height :: "Window \<Rightarrow> int" where
  "Window_Height w = win_height w"

definition Window_SetTransparentColor :: "PixelColor option \<Rightarrow> Window \<Rightarrow> Window" where
  "Window_SetTransparentColor c w = w\<lparr>win_transparent_color := c\<rparr>"

text \<open>\<open>WindowWriter\<close>: the sizes are those of the window it was made for.\<close>

definition WindowWriter :: "Window \<Rightarrow> Window PixelWriter" where
  "WindowWriter window =
     \<lparr>pw_Write = Window_At_assign, pw_Width = Window_Width window, pw_Height = Window_Height window\<rparr>"

definition Window_Writer :: "Window \<Rightarrow> Window PixelWriter" where
  "Window_Writer w = WindowWriter w"

definition Window_DrawTo :: "Window \<Rightarrow> 'w PixelWriter \<Rightarrow> Vector2D \<Rightarrow> 'w \<Rightarrow> 'w option" where
  "Window_DrawTo win writer position =
     (case win_transparent_color win of
        None \<Rightarrow>
          foldM (\<lambda>y. foldM (\<lambda>x s. do {
              c \<leftarrow> Window_At win x y;
              call_Write writer (v_x position + x) (v_y position + y) c s
            }) [0..Window_Width win - 1]) [0..Window_Height win - 1]
      | Some tc \<Rightarrow>
          foldM (\<lambda>y. foldM (\<lambda>x s. do {
              c \<leftarrow> Window_At win x y;
              if PixelColor_neq c tc
              then call_Write writer (v_x position + x) (v_y position + y) c s else Some s
            }) [0..Window_Width win - 1]) [0..Window_Height win - 1])"

section \<open>A window is a surface\<close>

definition win_wf :: "Window \<Rightarrow> bool" where
  "win_wf w \<longleftrightarrow> int32 (win_width w) \<and> int32 (win_height w) \<and> 0 \<le> win_width w \<and> 0 \<le> win_height w \<and>
     length (win_data w) = nat (win_height w) \<and> (\<forall>row \<in> set (win_data w). length row = nat (win_width w))"

definition win_inb :: "Window \<Rightarrow> pixel \<Rightarrow> bool" where
  "win_inb w = (\<lambda>(x, y). 0 \<le> x \<and> x < win_width w \<and> 0 \<le> y \<and> y < win_height w)"

definition win_px :: "Window \<Rightarrow> image" where
  "win_px w = (\<lambda>(x, y). win_data w ! nat y ! nat x)"

text \<open>Two windows of the same size and transparency.\<close>

definition win_same :: "Window \<Rightarrow> Window \<Rightarrow> bool" where
  "win_same w w' \<longleftrightarrow> win_width w' = win_width w \<and> win_height w' = win_height w \<and>
     win_transparent_color w' = win_transparent_color w"

lemma Window_new_wf:
  assumes "int32 width" "int32 height" "Window_new width height = Some w"
  shows "win_wf w" "win_width w = width" "win_height w = height" "win_transparent_color w = None"
    and "win_inb w p \<Longrightarrow> win_px w p = BLACK"
  using assms
  by (auto simp: Window_new_def win_wf_def win_inb_def win_px_def BLACK_def split: if_splits prod.splits)

lemma win_in_data:
  assumes "win_wf w" and "win_inb w (x, y)"
  shows "0 \<le> y" "nat y < length (win_data w)" "0 \<le> x" "nat x < length (win_data w ! nat y)"
proof -
  show y: "0 \<le> y" "nat y < length (win_data w)" "0 \<le> x"
    using assms by (simp_all add: win_wf_def win_inb_def)
  then have "win_data w ! nat y \<in> set (win_data w)" by simp
  then have "length (win_data w ! nat y) = nat (win_width w)"
    using assms(1) by (simp add: win_wf_def)
  then show "nat x < length (win_data w ! nat y)"
    using assms by (simp add: win_inb_def)
qed

lemma Window_At_eq: "win_wf w \<Longrightarrow> win_inb w (x, y) \<Longrightarrow> Window_At w x y = Some (win_px w (x, y))"
  using win_in_data [of w x y] by (simp add: Window_At_def win_px_def)

lemma win_inb_int32: "win_wf w \<Longrightarrow> win_inb w (x, y) \<Longrightarrow> int32 x \<and> int32 y"
  by (simp add: win_wf_def win_inb_def int32_def)

lemma Window_Write_in:
  assumes wf: "win_wf w" and inb: "win_inb w (x, y)"
  shows "\<exists>w'. Window_At_assign x y c w = Some w' \<and> win_wf w' \<and> win_same w w' \<and>
    (\<forall>q. win_inb w q \<longrightarrow> win_px w' q = ((win_px w)((x, y) := c)) q)"
proof -
  note d = win_in_data [OF wf inb]
  let ?w = "w\<lparr>win_data := (win_data w)[nat y := (win_data w ! nat y)[nat x := c]]\<rparr>"
  have "Window_At_assign x y c w = Some ?w" using d by (simp add: Window_At_assign_def)
  moreover have "win_wf ?w"
    using wf d by (auto simp: win_wf_def nth_list_update dest!: set_update_subset_insert [THEN subsetD])
  moreover have "win_px ?w q = ((win_px w)((x, y) := c)) q" if "win_inb w q" for q
  proof -
    obtain a b where q: "q = (a, b)" by (cases q)
    note e = win_in_data [OF wf that [unfolded q]]
    have "nat b = nat y \<longleftrightarrow> b = y" "nat a = nat x \<longleftrightarrow> a = x" using d e by auto
    then show ?thesis
      using d e by (cases "a = x"; cases "b = y") (auto simp: q win_px_def nth_list_update)
  qed
  ultimately show ?thesis by (auto simp: win_same_def)
qed

text \<open>The surface of a window \<open>w0\<close> and of every window it becomes by drawing on it.\<close>

interpretation win: pixel_surface "WindowWriter w0" win_px "\<lambda>p. win_wf w0 \<and> win_inb w0 p"
    "\<lambda>w. win_wf w \<and> win_same w0 w" for w0
proof unfold_locales
  fix w x y c assume w: "win_wf w \<and> win_same w0 w" and inb: "win_wf w0 \<and> win_inb w0 (x, y)"
  have same: "win_inb w = win_inb w0" using w by (auto simp: win_inb_def win_same_def)
  from w inb Window_Write_in [of w x y c] show "\<exists>w'. pw_Write (WindowWriter w0) x y c w = Some w' \<and>
      (win_wf w' \<and> win_same w0 w') \<and>
      (\<forall>q. win_wf w0 \<and> win_inb w0 q \<longrightarrow> win_px w' q = ((win_px w)((x, y) := c)) q)"
    unfolding same by (auto simp: WindowWriter_def win_same_def)
next
  fix x y assume "win_wf w0 \<and> win_inb w0 (x, y)"
  then show "int32 x \<and> int32 y" using win_inb_int32 by blast
qed

section \<open>What DrawTo writes\<close>

text \<open>The colour the window shows at a pixel of the surface it is drawn to, if any.\<close>

definition window_shows :: "Window \<Rightarrow> Vector2D \<Rightarrow> pixel \<Rightarrow> PixelColor option" where
  "window_shows win pos = (\<lambda>(x, y). let q = (x - v_x pos, y - v_y pos) in
     if win_inb win q \<and> win_transparent_color win \<noteq> Some (win_px win q) then Some (win_px win q) else None)"

definition window_writes :: "Window \<Rightarrow> Vector2D \<Rightarrow> (pixel \<times> PixelColor) list" where
  "window_writes win pos = concat (map (\<lambda>y. concat (map (\<lambda>x.
     if win_transparent_color win = Some (win_px win (x, y)) then []
     else [((v_x pos + x, v_y pos + y), win_px win (x, y))]) [0..win_width win - 1])) [0..win_height win - 1])"

lemma Window_DrawTo_writes:
  assumes "win_wf win"
  shows "Window_DrawTo win pw pos = writes pw (window_writes win pos)"
proof -
  have At: "Window_At win x y = Some (win_px win (x, y))"
    if "x \<in> set [0..win_width win - 1]" "y \<in> set [0..win_height win - 1]" for x y
    using that by (intro Window_At_eq [OF assms]) (auto simp: win_inb_def)
  show ?thesis
  proof
    fix s
    show "Window_DrawTo win pw pos s = writes pw (window_writes win pos) s"
    proof (cases "win_transparent_color win")
      case None
      show ?thesis
        unfolding Window_DrawTo_def window_writes_def None option.case Window_Width_def Window_Height_def
        by (intro foldM_writes) (simp add: At call_Write_writes del: set_upto)
    next
      case (Some tc)
      show ?thesis
        unfolding Window_DrawTo_def window_writes_def Some option.case Window_Width_def Window_Height_def
        by (intro foldM_writes) (simp add: At call_Write_writes del: set_upto)
    qed
  qed
qed

lemma mem_concat_map: "z \<in> set (concat (map f xs)) \<longleftrightarrow> (\<exists>x \<in> set xs. z \<in> set (f x))"
  by auto

lemma mem_window_writes:
  "(p, c) \<in> set (window_writes win pos) \<longleftrightarrow> window_shows win pos p = Some c"
proof -
  obtain a b where p: "p = (a, b)" by (cases p)
  let ?q = "(a - v_x pos, b - v_y pos)"
  have "((a, b), c) \<in> set (window_writes win pos) \<longleftrightarrow>
      win_inb win ?q \<and> win_transparent_color win \<noteq> Some (win_px win ?q) \<and> c = win_px win ?q"
    (is "?l \<longleftrightarrow> ?r")
  proof
    assume ?l
    then show ?r by (auto simp: window_writes_def win_inb_def split: if_splits)
  next
    assume ?r
    then have in_range: "a - v_x pos \<in> set [0..win_width win - 1]" "b - v_y pos \<in> set [0..win_height win - 1]"
      by (auto simp: win_inb_def)
    show ?l
      unfolding window_writes_def mem_concat_map
      by (rule bexI [OF bexI [OF _ in_range(1)] in_range(2)]) (use \<open>?r\<close> in simp)
  qed
  then show ?thesis by (auto simp: p window_shows_def Let_def)
qed

text \<open>What a surface shows after a window was drawn to it.\<close>

context pixel_surface
begin

lemma DrawTo_paint:
  assumes "inv w" and "win_wf win" and "\<And>p c. window_shows win pos p = Some c \<Longrightarrow> inb p"
  shows "\<exists>w'. Window_DrawTo win pw pos w = Some w' \<and> inv w' \<and> (\<forall>q. inb q \<longrightarrow>
    px w' q = (case window_shows win pos q of None \<Rightarrow> px w q | Some c \<Rightarrow> c))"
proof -
  have "\<forall>(p, c) \<in> set (window_writes win pos). inb p"
    using assms(3) by (auto simp: mem_window_writes)
  from writes_paint [OF assms(1) this] show ?thesis
    unfolding Window_DrawTo_writes [OF assms(2)]
    using paint_graph [of "window_writes win pos" "window_shows win pos"] mem_window_writes by auto
qed

end

end
