(* ===== verification/Glyphs.thy ===== *)
theory Glyphs
  imports Window
begin

text \<open>
  Character and cursor drawing (\<open>kernel/font\<close>, \<open>kernel/mouse\<close>). The glyph table
  \<open>_binary_hankaku_bin\<close>, which the build makes from a font file, is a parameter: a list of
  bytes, sixteen per character. A C string is a list of bytes that must contain its terminating
  zero; reading past the list is undefined.
\<close>

section \<open>Fonts\<close>

text \<open>\<open>GetFont\<close>: a \<open>char\<close> is signed, so its conversion to \<open>unsigned int\<close> extends the sign. The
  result is the table from the glyph on, \<open>None\<close> the null pointer.\<close>

definition GetFont :: "u8 list \<Rightarrow> u8 \<Rightarrow> u8 list option" where
  "GetFont font c =
     (let index = 16 * (scast c :: u32)
      in if length font \<le> unat index then None else Some (drop (unat index) font))"

definition WriteAscii ::
  "u8 list \<Rightarrow> 'w PixelWriter \<Rightarrow> int \<Rightarrow> int \<Rightarrow> u8 \<Rightarrow> PixelColor \<Rightarrow> 'w \<Rightarrow> 'w option" where
  "WriteAscii font_table writer x y c color w =
     (case GetFont font_table c of
        None \<Rightarrow> Some w
      | Some font \<Rightarrow>
          foldM (\<lambda>dx. foldM (\<lambda>dy s.
              if length font \<le> dy then None
              else if push_bit dx (ucast (font ! dy) :: u32) AND 0x80 \<noteq> 0
              then call_Write writer (x + int dx) (y + int dy) color s
              else Some s) [0..<16]) [0..<8] w)"

text \<open>\<open>WriteString\<close> from character number \<open>i\<close> on; the list is what the pointer can still read.\<close>

fun WriteString_from ::
  "u8 list \<Rightarrow> 'w PixelWriter \<Rightarrow> int \<Rightarrow> int \<Rightarrow> nat \<Rightarrow> u8 list \<Rightarrow> PixelColor \<Rightarrow> 'w \<Rightarrow> 'w option" where
  "WriteString_from font_table writer x y i [] color w = None"
| "WriteString_from font_table writer x y i (c # cs) color w =
     (if c = 0 then Some w
      else case WriteAscii font_table writer (x + 8 * int i) y c color w of
          None \<Rightarrow> None
        | Some w' \<Rightarrow> WriteString_from font_table writer x y (Suc i) cs color w')"

definition WriteString ::
  "u8 list \<Rightarrow> 'w PixelWriter \<Rightarrow> int \<Rightarrow> int \<Rightarrow> u8 list \<Rightarrow> PixelColor \<Rightarrow> 'w \<Rightarrow> 'w option" where
  "WriteString font_table writer x y s color w = WriteString_from font_table writer x y 0 s color w"

section \<open>The mouse cursor\<close>

definition kMouseCursorWidth :: int where "kMouseCursorWidth = 15"
definition kMouseCursorHeight :: int where "kMouseCursorHeight = 24"
definition kMouseTransparentColor :: PixelColor where "kMouseTransparentColor = RGB 0 0 1"

definition mouse_cursor_shape :: "string list" where
  "mouse_cursor_shape =
     [''@              '',
      ''@@             '',
      ''@.@            '',
      ''@..@           '',
      ''@...@          '',
      ''@....@         '',
      ''@.....@        '',
      ''@......@       '',
      ''@.......@      '',
      ''@........@     '',
      ''@.........@    '',
      ''@..........@   '',
      ''@...........@  '',
      ''@............@ '',
      ''@......@@@@@@@@'',
      ''@......@       '',
      ''@....@@.@      '',
      ''@...@ @.@      '',
      ''@..@   @.@     '',
      ''@.@    @.@     '',
      ''@@      @.@    '',
      ''@       @.@    '',
      ''         @.@   '',
      ''         @@@   '']"

definition DrawMouseCursor :: "'w PixelWriter \<Rightarrow> Vector2D \<Rightarrow> 'w \<Rightarrow> 'w option" where
  "DrawMouseCursor pixel_writer position =
     foldM (\<lambda>dx. foldM (\<lambda>dy.
         let ch = mouse_cursor_shape ! nat dy ! nat dx in
         if ch = CHR ''@'' then call_Write pixel_writer (v_x position + dx) (v_y position + dy) BLACK
         else if ch = CHR ''.'' then call_Write pixel_writer (v_x position + dx) (v_y position + dy) WHITE
         else call_Write pixel_writer (v_x position + dx) (v_y position + dy) kMouseTransparentColor)
       [0..kMouseCursorHeight - 1]) [0..kMouseCursorWidth - 1]"

section \<open>The pixels of a character\<close>

text \<open>The glyph of a character has its pixel in column \<open>dx\<close> and row \<open>dy\<close>.\<close>

definition glyph_bit :: "u8 list \<Rightarrow> u8 \<Rightarrow> nat \<Rightarrow> nat \<Rightarrow> bool" where
  "glyph_bit font c dx dy \<longleftrightarrow> c < 128 \<and> 16 * unat c < length font \<and> dx < 8 \<and> dy < 16 \<and>
     bit (font ! (16 * unat c + dy)) (7 - dx)"

text \<open>A table of whole glyphs.\<close>

definition font_wf :: "u8 list \<Rightarrow> bool" where
  "font_wf font \<longleftrightarrow> length font mod 16 = 0 \<and> length font \<le> 4096"

definition ascii_pixels :: "u8 list \<Rightarrow> int \<Rightarrow> int \<Rightarrow> u8 \<Rightarrow> pixel list" where
  "ascii_pixels font x y c = concat (map (\<lambda>dx. concat (map (\<lambda>dy.
     if glyph_bit font c dx dy then [(x + int dx, y + int dy)] else []) [0..<16])) [0..<8])"

text \<open>Characters from 128 on are negative: they index past every table and draw nothing.\<close>

lemma sint_u8: "sint (c :: u8) = (if c < 128 then int (unat c) else int (unat c) - 256)"
proof -
  have u: "uint c < 256" using uint_bounded [of c] by simp
  have "odd (uint c div 128) \<longleftrightarrow> 128 \<le> uint c"
  proof
    assume "128 \<le> uint c"
    then have "uint c div 128 = 1" using u by (simp add: int_div_pos_eq)
    then show "odd (uint c div 128)" by simp
  next
    assume *: "odd (uint c div 128)"
    show "128 \<le> uint c"
    proof (rule ccontr)
      assume "\<not> 128 \<le> uint c"
      then have "uint c div 128 = 0" using uint_nonnegative [of c] by simp
      with * show False by simp
    qed
  qed
  then have "bit (uint c) 7 \<longleftrightarrow> 128 \<le> uint c" by (simp add: bit_iff_odd)
  moreover have "c < 128 \<longleftrightarrow> uint c < 128" by (simp add: word_less_def)
  ultimately show ?thesis
    using u by (auto simp: sint_uint signed_take_bit_eq_take_bit_minus take_bit_int_eq_self)
qed

lemma GetFont_eq:
  assumes "font_wf font"
  shows "GetFont font c = (if c < 128 \<and> 16 * unat c < length font then Some (drop (16 * unat c) font) else None)"
proof -
  have s: "(scast c :: u32) = word_of_int (sint c)" by (rule scast_eq)
  have "unat c < 2 ^ LENGTH(8)" by (rule unsigned_less)
  then have u: "unat c < 256" by simp
  show ?thesis
  proof (cases "c < 128")
    case True
    then have "unat (16 * (scast c :: u32)) = 16 * unat c"
      using u unfolding s sint_u8 by (simp add: unat_word_ariths unsigned_ucast_eq take_bit_nat_eq_self)
    with True show ?thesis by (simp add: GetFont_def Let_def)
  next
    case False
    then have c: "128 \<le> unat c" by (simp add: word_less_nat_alt)
    have "16 * (scast c :: u32) = word_of_int (16 * (int (unat c) - 256))"
      using False unfolding s sint_u8 by simp
    also have "\<dots> = word_of_int (2 ^ 32 - 16 * (256 - int (unat c)))"
      by (simp add: word_of_int_eq_iff take_bit_eq_mod algebra_simps)
    finally have eq: "16 * (scast c :: u32) = word_of_int (2 ^ 32 - 16 * (256 - int (unat c)))" .
    have "uint (16 * (scast c :: u32)) = 2 ^ 32 - 16 * (256 - int (unat c))"
      unfolding eq uint_word_of_int using u c uint_bounded [of c] by (intro mod_pos_pos_trivial) simp_all
    then have "4096 \<le> uint (16 * (scast c :: u32))" using c by simp
    then have "4096 \<le> unat (16 * (scast c :: u32))"
      unfolding unat_eq_nat_uint by linarith
    with False assms show ?thesis by (simp add: GetFont_def Let_def font_wf_def)
  qed
qed

lemma mem_ascii_pixels:
  "(a, b) \<in> set (ascii_pixels font x y c) \<longleftrightarrow>
     x \<le> a \<and> y \<le> b \<and> glyph_bit font c (nat (a - x)) (nat (b - y))"
proof
  assume *: "x \<le> a \<and> y \<le> b \<and> glyph_bit font c (nat (a - x)) (nat (b - y))"
  then have "nat (a - x) \<in> set [0..<8]" "nat (b - y) \<in> set [0..<16]"
    by (simp_all add: glyph_bit_def)
  then show "(a, b) \<in> set (ascii_pixels font x y c)"
    unfolding ascii_pixels_def mem_concat_map by (intro bexI) (use * in auto)
qed (auto simp: ascii_pixels_def split: if_splits)

lemma font_byte_bit:
  "dx < 8 \<Longrightarrow> push_bit dx (ucast (v :: u8) :: u32) AND 0x80 \<noteq> 0 \<longleftrightarrow> bit v (7 - dx)"
proof -
  assume dx: "dx < 8"
  have m: "(0x80 :: u32) = push_bit 7 1" by simp
  have "push_bit dx (ucast v :: u32) AND push_bit 7 1 \<noteq> 0 \<longleftrightarrow> bit (push_bit dx (ucast v :: u32)) 7"
    by (simp only: bit_iff_and_push_bit_not_eq_0)
  also have "\<dots> \<longleftrightarrow> bit v (7 - dx)" using dx by (simp add: bit_push_bit_iff bit_ucast_iff less_imp_diff_less)
  finally show ?thesis unfolding m .
qed

lemma WriteAscii_writes:
  assumes "font_wf font"
  shows "WriteAscii font pw x y c color = writes pw (map (\<lambda>p. (p, color)) (ascii_pixels font x y c))"
proof
  fix w
  show "WriteAscii font pw x y c color w = writes pw (map (\<lambda>p. (p, color)) (ascii_pixels font x y c)) w"
  proof (cases "c < 128 \<and> 16 * unat c < length font")
    case False
    then have "ascii_pixels font x y c = []" by (auto simp: ascii_pixels_def glyph_bit_def)
    with False show ?thesis by (auto simp: WriteAscii_def GetFont_eq [OF assms])
  next
    case True
    have "16 * unat c < length font" "length font mod 16 = 0"
      using True assms by (simp_all add: font_wf_def)
    then have len: "16 * unat c + 16 \<le> length font" by presburger
    let ?f = "drop (16 * unat c) font"
    have body: "(if length ?f \<le> dy then None
        else if push_bit dx (ucast (?f ! dy) :: u32) AND 0x80 \<noteq> 0
        then call_Write pw (x + int dx) (y + int dy) color s else Some s) =
      writes pw (map (\<lambda>p. (p, color)) (if glyph_bit font c dx dy then [(x + int dx, y + int dy)] else [])) s"
      if "dx \<in> set [0..<8]" "dy \<in> set [0..<16]" for dx dy s
    proof -
      have dy: "\<not> length ?f \<le> dy" and dx: "dx < 8" using that len by auto
      have nth: "?f ! dy = font ! (16 * unat c + dy)" using len by simp
      have "bit (font ! (16 * unat c + dy)) (7 - dx) \<longleftrightarrow> glyph_bit font c dx dy"
        using True that by (simp add: glyph_bit_def)
      then show ?thesis
        unfolding nth font_byte_bit [OF dx] using dy by (simp add: call_Write_writes)
    qed
    have "foldM (\<lambda>dx. foldM (\<lambda>dy s. if length ?f \<le> dy then None
        else if push_bit dx (ucast (?f ! dy) :: u32) AND 0x80 \<noteq> 0
        then call_Write pw (x + int dx) (y + int dy) color s else Some s) [0..<16]) [0..<8] w =
      writes pw (concat (map (\<lambda>dx. concat (map (\<lambda>dy. map (\<lambda>p. (p, color))
        (if glyph_bit font c dx dy then [(x + int dx, y + int dy)] else [])) [0..<16])) [0..<8])) w"
      by (intro foldM_writes body)
    with True show ?thesis
      by (simp add: WriteAscii_def GetFont_eq [OF assms] ascii_pixels_def map_concat comp_def)
  qed
qed

text \<open>The cursor: its colour at column \<open>dx\<close> and row \<open>dy\<close>.\<close>

definition cursor_color :: "int \<Rightarrow> int \<Rightarrow> PixelColor" where
  "cursor_color dx dy =
     (let ch = mouse_cursor_shape ! nat dy ! nat dx in
      if ch = CHR ''@'' then BLACK else if ch = CHR ''.'' then WHITE else kMouseTransparentColor)"

definition cursor_writes :: "Vector2D \<Rightarrow> (pixel \<times> PixelColor) list" where
  "cursor_writes pos = concat (map (\<lambda>dx. map (\<lambda>dy. ((v_x pos + dx, v_y pos + dy), cursor_color dx dy))
     [0..kMouseCursorHeight - 1]) [0..kMouseCursorWidth - 1])"

lemma DrawMouseCursor_writes: "DrawMouseCursor pw pos = writes pw (cursor_writes pos)"
proof -
  have body: "(let ch = mouse_cursor_shape ! nat dy ! nat dx in
      if ch = CHR ''@'' then call_Write pw a b BLACK
      else if ch = CHR ''.'' then call_Write pw a b WHITE
      else call_Write pw a b kMouseTransparentColor) = writes pw [((a, b), cursor_color dx dy)]" for a b dx dy
    by (simp add: cursor_color_def call_Write_writes Let_def)
  show ?thesis
    unfolding DrawMouseCursor_def cursor_writes_def body writes_concat by simp
qed

lemma mem_cursor_writes:
  "((a, b), c) \<in> set (cursor_writes pos) \<longleftrightarrow>
     v_x pos \<le> a \<and> a < v_x pos + kMouseCursorWidth \<and> v_y pos \<le> b \<and> b < v_y pos + kMouseCursorHeight \<and>
     c = cursor_color (a - v_x pos) (b - v_y pos)" (is "?l \<longleftrightarrow> ?r")
proof
  assume ?r
  then have in_range: "a - v_x pos \<in> set [0..kMouseCursorWidth - 1]" "b - v_y pos \<in> set [0..kMouseCursorHeight - 1]"
    by auto
  show ?l
    unfolding cursor_writes_def mem_concat_map set_map
    by (rule bexI [OF image_eqI [OF _ in_range(2)] in_range(1)]) (use \<open>?r\<close> in simp)
qed (auto simp: cursor_writes_def)

text \<open>What the two routines do to a surface that holds all their pixels.\<close>

context pixel_surface
begin

lemma WriteAscii_paint:
  assumes "inv w" and "font_wf font" and "\<And>a b. glyph_bit font c a b \<Longrightarrow> inb (x + int a, y + int b)"
  shows "\<exists>w'. WriteAscii font pw x y c color w = Some w' \<and> inv w' \<and> (\<forall>q. inb q \<longrightarrow>
    px w' q = (if q \<in> set (ascii_pixels font x y c) then color else px w q))"
proof -
  have "inb p" if "p \<in> set (ascii_pixels font x y c)" for p
  proof -
    obtain a b where p: "p = (a, b)" by (cases p)
    with that have "x \<le> a" "y \<le> b" "glyph_bit font c (nat (a - x)) (nat (b - y))"
      by (simp_all add: mem_ascii_pixels)
    with assms(3) [of "nat (a - x)" "nat (b - y)"] show ?thesis by (simp add: p)
  qed
  then show ?thesis
    using writes_paint [OF assms(1), of "map (\<lambda>p. (p, color)) (ascii_pixels font x y c)"]
    by (simp add: WriteAscii_writes [OF assms(2)] paint_const)
qed

lemma DrawMouseCursor_paint:
  assumes "inv w" and "\<And>a b. v_x pos \<le> a \<Longrightarrow> a < v_x pos + kMouseCursorWidth \<Longrightarrow>
    v_y pos \<le> b \<Longrightarrow> b < v_y pos + kMouseCursorHeight \<Longrightarrow> inb (a, b)"
  shows "\<exists>w'. DrawMouseCursor pw pos w = Some w' \<and> inv w' \<and> (\<forall>a b. inb (a, b) \<longrightarrow>
    px w' (a, b) =
      (if v_x pos \<le> a \<and> a < v_x pos + kMouseCursorWidth \<and> v_y pos \<le> b \<and> b < v_y pos + kMouseCursorHeight
       then cursor_color (a - v_x pos) (b - v_y pos) else px w (a, b)))"
proof -
  define f where "f = (\<lambda>(a, b). if v_x pos \<le> a \<and> a < v_x pos + kMouseCursorWidth \<and>
    v_y pos \<le> b \<and> b < v_y pos + kMouseCursorHeight
    then Some (cursor_color (a - v_x pos) (b - v_y pos)) else None)"
  have graph: "(p, c) \<in> set (cursor_writes pos) \<longleftrightarrow> f p = Some c" for p c
    by (cases p) (auto simp: mem_cursor_writes f_def)
  have "\<forall>(p, c) \<in> set (cursor_writes pos). inb p"
    using assms(2) by (auto simp: mem_cursor_writes)
  from writes_paint [OF assms(1) this] obtain w' where
    w': "writes pw (cursor_writes pos) w = Some w'" "inv w'"
      "\<forall>q. inb q \<longrightarrow> px w' q = (case f q of None \<Rightarrow> px w q | Some c \<Rightarrow> c)"
    unfolding paint_graph [of "cursor_writes pos" f, OF graph] by blast
  have "px w' (a, b) = (if v_x pos \<le> a \<and> a < v_x pos + kMouseCursorWidth \<and>
      v_y pos \<le> b \<and> b < v_y pos + kMouseCursorHeight
      then cursor_color (a - v_x pos) (b - v_y pos) else px w (a, b))" if "inb (a, b)" for a b
    using w'(3) [rule_format, OF that] unfolding f_def prod.case case_option_if .
  with w'(1,2) show ?thesis unfolding DrawMouseCursor_writes by blast
qed

end

end
