(* ===== verification/Console.thy ===== *)
theory Console
  imports Glyphs
begin

text \<open>
  The text console (\<open>kernel/console\<close>). A \<open>PixelWriter*\<close> is a number that a table of writers
  resolves, so that \<open>SetWriter\<close> can compare pointers; \<open>None\<close> is the null pointer. What the code
  does after printing when a layer manager exists, its \<open>Draw\<close>, is the argument \<open>redraw\<close>.

  The specification is a terminal: a list of lines, of which the last is being written. The
  buffer refines it, and the console's area of the surface shows it.
\<close>

section \<open>The console\<close>

definition kRows :: nat where "kRows = 25"
definition kColumns :: nat where "kColumns = 80"

type_synonym writer_ptr = "nat option"

record Console =
  cs_writer :: writer_ptr
  cs_fg_color :: PixelColor
  cs_bg_color :: PixelColor
  cs_buffer :: "u8 list list"
  cs_cursor_row :: nat
  cs_cursor_column :: nat

definition Console_new :: "PixelColor \<Rightarrow> PixelColor \<Rightarrow> Console" where
  "Console_new fg_color bg_color =
     \<lparr>cs_writer = None, cs_fg_color = fg_color, cs_bg_color = bg_color,
      cs_buffer = replicate kRows (replicate (kColumns + 1) 0), cs_cursor_row = 0, cs_cursor_column = 0\<rparr>"

text \<open>The writer an access through \<open>writer_\<close> reaches.\<close>

definition deref :: "(nat \<Rightarrow> 'w PixelWriter) \<Rightarrow> Console \<Rightarrow> 'w PixelWriter option" where
  "deref writers cs = map_option writers (cs_writer cs)"

text \<open>One line is scrolled: the area is cleared, each row takes the next one's text and is drawn.\<close>

definition Newline ::
  "u8 list \<Rightarrow> (nat \<Rightarrow> 'w PixelWriter) \<Rightarrow> Console \<times> 'w \<Rightarrow> (Console \<times> 'w) option" where
  "Newline font writers = (\<lambda>(cs, w).
     let cs = cs\<lparr>cs_cursor_column := 0\<rparr> in
     if cs_cursor_row cs + 1 < kRows then Some (cs\<lparr>cs_cursor_row := cs_cursor_row cs + 1\<rparr>, w)
     else do {
       writer \<leftarrow> deref writers cs;
       w \<leftarrow> foldM (\<lambda>y. foldM (\<lambda>x. call_Write writer x y (cs_bg_color cs))
              [0..8 * int kColumns - 1]) [0..16 * int kRows - 1] w;
       (cs, w) \<leftarrow> foldM (\<lambda>row (cs, w).
              let cs = cs\<lparr>cs_buffer := (cs_buffer cs)[row := cs_buffer cs ! (row + 1)]\<rparr> in
              map_option (Pair cs) (WriteString font writer 0 (16 * int row) (cs_buffer cs ! row) (cs_fg_color cs) w))
            [0..<kRows - 1] (cs, w);
       Some (cs\<lparr>cs_buffer := (cs_buffer cs)[kRows - 1 := replicate (kColumns + 1) 0]\<rparr>, w)
     })"

text \<open>The loop of \<open>PutString\<close>; the list is what \<open>s\<close> can still read.\<close>

fun PutString_loop ::
  "u8 list \<Rightarrow> (nat \<Rightarrow> 'w PixelWriter) \<Rightarrow> u8 list \<Rightarrow> Console \<times> 'w \<Rightarrow> (Console \<times> 'w) option" where
  "PutString_loop font writers [] st = None"
| "PutString_loop font writers (c # s) (cs, w) =
     (if c = 0 then Some (cs, w)
      else if c = 10 \<or> kColumns \<le> cs_cursor_column cs
      then Newline font writers (cs, w) \<bind> PutString_loop font writers s
      else do {
        writer \<leftarrow> deref writers cs;
        w \<leftarrow> WriteAscii font writer (8 * int (cs_cursor_column cs)) (16 * int (cs_cursor_row cs)) c
              (cs_fg_color cs) w;
        PutString_loop font writers s
          (cs\<lparr>cs_buffer := (cs_buffer cs)[cs_cursor_row cs :=
                (cs_buffer cs ! cs_cursor_row cs)[cs_cursor_column cs := c]],
              cs_cursor_column := cs_cursor_column cs + 1\<rparr>, w)
      })"

definition PutString ::
  "u8 list \<Rightarrow> (nat \<Rightarrow> 'w PixelWriter) \<Rightarrow> ('w \<Rightarrow> 'w option) \<Rightarrow> u8 list \<Rightarrow> Console \<times> 'w \<Rightarrow> (Console \<times> 'w) option" where
  "PutString font writers redraw s st =
     (case PutString_loop font writers s st of
        None \<Rightarrow> None
      | Some (cs, w) \<Rightarrow> map_option (Pair cs) (redraw w))"

definition Refresh :: "u8 list \<Rightarrow> (nat \<Rightarrow> 'w PixelWriter) \<Rightarrow> Console \<Rightarrow> 'w \<Rightarrow> 'w option" where
  "Refresh font writers cs =
     foldM (\<lambda>row w. do {
       writer \<leftarrow> deref writers cs;
       WriteString font writer 0 (16 * int row) (cs_buffer cs ! row) (cs_fg_color cs) w
     }) [0..<kRows]"

definition Console_SetWriter ::
  "u8 list \<Rightarrow> (nat \<Rightarrow> 'w PixelWriter) \<Rightarrow> writer_ptr \<Rightarrow> Console \<times> 'w \<Rightarrow> (Console \<times> 'w) option" where
  "Console_SetWriter font writers writer = (\<lambda>(cs, w).
     if writer = cs_writer cs then Some (cs, w)
     else let cs = cs\<lparr>cs_writer := writer\<rparr> in map_option (Pair cs) (Refresh font writers cs w))"

section \<open>The terminal\<close>

text \<open>A character that arrives when the line is full starts a new line and is itself lost.\<close>

definition term_put :: "u8 \<Rightarrow> u8 list list \<Rightarrow> u8 list list" where
  "term_put c ls =
     (if c = 10 \<or> kColumns \<le> length (last ls)
      then if length ls < kRows then ls @ [[]] else tl ls @ [[]]
      else butlast ls @ [last ls @ [c]])"

text \<open>Whether the lines move up for the character, and whether they do for any of a list.\<close>

definition term_scrolls :: "u8 \<Rightarrow> u8 list list \<Rightarrow> bool" where
  "term_scrolls c ls \<longleftrightarrow> (c = 10 \<or> kColumns \<le> length (last ls)) \<and> \<not> length ls < kRows"

fun ever_scrolls :: "u8 list \<Rightarrow> u8 list list \<Rightarrow> bool" where
  "ever_scrolls [] ls = False"
| "ever_scrolls (c # s) ls = (term_scrolls c ls \<or> ever_scrolls s (term_put c ls))"

lemma ever_scrolls_append: "ever_scrolls (s @ t) ls = (ever_scrolls s ls \<or> ever_scrolls t (fold term_put s ls))"
  by (induction s arbitrary: ls) simp_all

definition c_string :: "u8 list \<Rightarrow> u8 list" where
  "c_string = takeWhile (\<lambda>c. c \<noteq> 0)"

definition console_text :: "Console \<Rightarrow> u8 list list" where
  "console_text cs = map c_string (take (Suc (cs_cursor_row cs)) (cs_buffer cs))"

definition cs_inv :: "Console \<Rightarrow> bool" where
  "cs_inv cs \<longleftrightarrow> length (cs_buffer cs) = kRows \<and> cs_cursor_row cs < kRows \<and> cs_cursor_column cs \<le> kColumns \<and>
     (\<forall>row \<in> set (cs_buffer cs). length row = kColumns + 1 \<and> row ! kColumns = 0) \<and>
     (\<forall>k < cs_cursor_column cs. cs_buffer cs ! cs_cursor_row cs ! k \<noteq> 0) \<and>
     (\<forall>k. cs_cursor_column cs \<le> k \<and> k \<le> kColumns \<longrightarrow> cs_buffer cs ! cs_cursor_row cs ! k = 0) \<and>
     (\<forall>r. cs_cursor_row cs < r \<and> r < kRows \<longrightarrow> cs_buffer cs ! r = replicate (kColumns + 1) 0)"

definition buf_wf :: "Console \<Rightarrow> bool" where
  "buf_wf cs \<longleftrightarrow> length (cs_buffer cs) = kRows \<and>
     (\<forall>row \<in> set (cs_buffer cs). length row = kColumns + 1 \<and> row ! kColumns = 0)"

lemma cs_inv_buf_wf: "cs_inv cs \<Longrightarrow> buf_wf cs"
  by (simp add: cs_inv_def buf_wf_def)

lemma Console_new_inv: "cs_inv (Console_new fg bg)"
  by (auto simp: cs_inv_def Console_new_def kRows_def kColumns_def)

lemma Console_new_text: "console_text (Console_new fg bg) = [[]]"
  by (simp add: console_text_def Console_new_def kRows_def kColumns_def c_string_def)

section \<open>Strings on a surface\<close>

definition string_pixels :: "u8 list \<Rightarrow> int \<Rightarrow> int \<Rightarrow> u8 list \<Rightarrow> pixel list" where
  "string_pixels font x y s =
     concat (map (\<lambda>i. ascii_pixels font (x + 8 * int i) y (s ! i)) [0..<length s])"

lemma WriteString_from_writes:
  assumes "font_wf font" and "0 \<in> set s"
  shows "WriteString_from font pw x y i s color = writes pw (map (\<lambda>p. (p, color))
    (concat (map (\<lambda>j. ascii_pixels font (x + 8 * int (i + j)) y (c_string s ! j)) [0..<length (c_string s)])))"
  using assms(2)
proof (induction s arbitrary: i)
  case (Cons c s)
  show ?case
  proof (cases "c = 0")
    case True
    then show ?thesis by (simp add: c_string_def fun_eq_iff)
  next
    case False
    with Cons.prems have "0 \<in> set s" by simp
    from Cons.IH [OF this] have IH: "WriteString_from font pw x y (Suc i) s color = writes pw (map (\<lambda>p. (p, color))
      (concat (map (\<lambda>j. ascii_pixels font (x + 8 * int (Suc i + j)) y (c_string s ! j)) [0..<length (c_string s)])))" .
    have str: "c_string (c # s) = c # c_string s" using False by (simp add: c_string_def)
    have "map (\<lambda>j. ascii_pixels font (x + 8 * int (i + j)) y (c_string (c # s) ! j)) [0..<length (c_string (c # s))] =
      ascii_pixels font (x + 8 * int i) y c #
        map (\<lambda>j. ascii_pixels font (x + 8 * int (Suc i + j)) y (c_string s ! j)) [0..<length (c_string s)]"
      unfolding str by (simp add: map_upt_Suc algebra_simps del: upt_Suc)
    then show ?thesis
      using False IH by (simp add: fun_eq_iff WriteAscii_writes [OF assms(1)] writes_append bind_def split: option.split)
  qed
qed simp

lemma WriteString_writes:
  "font_wf font \<Longrightarrow> 0 \<in> set s \<Longrightarrow>
    WriteString font pw x y s color = writes pw (map (\<lambda>p. (p, color)) (string_pixels font x y (c_string s)))"
  using WriteString_from_writes [of font s pw x y 0 color]
  by (simp add: WriteString_def string_pixels_def fun_eq_iff)

lemma div_cell:
  assumes "0 < n" and "n * i \<le> a" and "a - n * i < (n :: int)"
  shows "a div n = i \<and> a mod n = a - n * i"
  using int_div_pos_eq [of a n i "a - n * i"] int_mod_pos_eq [of a n i "a - n * i"] assms by simp

lemma mem_ascii_cell:
  "(a, b) \<in> set (ascii_pixels font (8 * int k) (16 * int r) c) \<longleftrightarrow>
     a div 8 = int k \<and> b div 16 = int r \<and> glyph_bit font c (nat (a mod 8)) (nat (b mod 16))"
  (is "?l \<longleftrightarrow> ?r")
proof
  assume ?l
  then have i: "8 * int k \<le> a" "16 * int r \<le> b" "glyph_bit font c (nat (a - 8 * int k)) (nat (b - 16 * int r))"
    by (simp_all add: mem_ascii_pixels)
  from i(3) have "nat (a - 8 * int k) < 8" "nat (b - 16 * int r) < 16" by (simp_all add: glyph_bit_def)
  then have "a - 8 * int k < 8" "b - 16 * int r < 16" by linarith+
  then have "a div 8 = int k" "a mod 8 = a - 8 * int k" "b div 16 = int r" "b mod 16 = b - 16 * int r"
    using i(1,2) div_cell [of 8 "int k" a] div_cell [of 16 "int r" b] by simp_all
  then show ?r using i by simp
next
  assume *: ?r
  then have a: "a - 8 * int k = a mod 8" and b: "b - 16 * int r = b mod 16"
    using minus_mult_div_eq_mod [of a 8] minus_mult_div_eq_mod [of b 16] by simp_all
  have "0 \<le> a mod 8" "0 \<le> b mod 16" by simp_all
  then have "8 * int k \<le> a" "16 * int r \<le> b" using a b by linarith+
  then show ?l unfolding mem_ascii_pixels a b using * by blast
qed

lemma mem_string_pixels:
  "(a, b) \<in> set (string_pixels font 0 (16 * int r) s) \<longleftrightarrow>
     0 \<le> a \<and> b div 16 = int r \<and> nat (a div 8) < length s \<and>
     glyph_bit font (s ! nat (a div 8)) (nat (a mod 8)) (nat (b mod 16))" (is "?l \<longleftrightarrow> ?r")
proof -
  have "?l \<longleftrightarrow> (\<exists>i < length s. a div 8 = int i \<and> b div 16 = int r \<and>
      glyph_bit font (s ! i) (nat (a mod 8)) (nat (b mod 16)))"
    by (auto simp: string_pixels_def mem_ascii_cell)
  also have "\<dots> \<longleftrightarrow> ?r"
  proof
    assume *: ?r
    then have "a div 8 = int (nat (a div 8))" by (simp add: pos_imp_zdiv_nonneg_iff)
    with * show "\<exists>i < length s. a div 8 = int i \<and> b div 16 = int r \<and>
      glyph_bit font (s ! i) (nat (a mod 8)) (nat (b mod 16))" by blast
  next
    assume "\<exists>i < length s. a div 8 = int i \<and> b div 16 = int r \<and>
      glyph_bit font (s ! i) (nat (a mod 8)) (nat (b mod 16))"
    then obtain i where "i < length s" "a div 8 = int i" "b div 16 = int r"
      "glyph_bit font (s ! i) (nat (a mod 8)) (nat (b mod 16))" by blast
    moreover from this(2) have "0 \<le> a" by (metis of_nat_0_le_iff pos_imp_zdiv_nonneg_iff zero_less_numeral)
    ultimately show ?r by simp
  qed
  finally show ?thesis .
qed

text \<open>The colour of a pixel of the console area for the lines \<open>ls\<close>.\<close>

definition text_color :: "u8 list \<Rightarrow> PixelColor \<Rightarrow> PixelColor \<Rightarrow> u8 list list \<Rightarrow> image" where
  "text_color font fg bg ls = (\<lambda>(x, y).
     let r = nat (y div 16); k = nat (x div 8) in
     if r < length ls \<and> k < length (ls ! r) \<and> glyph_bit font (ls ! r ! k) (nat (x mod 8)) (nat (y mod 16))
     then fg else bg)"

definition console_area :: "pixel \<Rightarrow> bool" where
  "console_area = (\<lambda>(x, y). 0 \<le> x \<and> x < 8 * int kColumns \<and> 0 \<le> y \<and> y < 16 * int kRows)"

section \<open>The buffer refines the terminal\<close>

lemma console_text_split:
  assumes "cs_inv cs"
  shows "console_text cs = map c_string (take (cs_cursor_row cs) (cs_buffer cs)) @
      [take (cs_cursor_column cs) (cs_buffer cs ! cs_cursor_row cs)]"
    and "length (console_text cs) = Suc (cs_cursor_row cs)"
    and "length (last (console_text cs)) = cs_cursor_column cs"
proof -
  let ?b = "cs_buffer cs" and ?r = "cs_cursor_row cs" and ?k = "cs_cursor_column cs"
  have r: "?r < length ?b" using assms by (simp add: cs_inv_def)
  then have len: "length (?b ! ?r) = kColumns + 1" using assms by (simp add: cs_inv_def)
  have "c_string (?b ! ?r) = take ?k (?b ! ?r)"
    unfolding c_string_def
    by (rule takeWhile_eq_take_P_nth) (use assms len in \<open>auto simp: cs_inv_def\<close>)
  then show split: "console_text cs = map c_string (take ?r ?b) @ [take ?k (?b ! ?r)]"
    using r by (simp add: console_text_def take_Suc_conv_app_nth)
  show "length (console_text cs) = Suc ?r" using r by (simp add: console_text_def)
  show "length (last (console_text cs)) = ?k"
    using len assms by (simp add: split cs_inv_def)
qed

text \<open>A character in a line that is not full.\<close>

lemma put_char_refines:
  assumes "cs_inv cs" and "c \<noteq> 0" and "c \<noteq> 10" and "cs_cursor_column cs < kColumns"
  defines "cs' \<equiv> cs\<lparr>cs_buffer := (cs_buffer cs)[cs_cursor_row cs :=
                (cs_buffer cs ! cs_cursor_row cs)[cs_cursor_column cs := c]],
              cs_cursor_column := cs_cursor_column cs + 1\<rparr>"
  shows "cs_inv cs'" and "console_text cs' = term_put c (console_text cs)"
proof -
  let ?b = "cs_buffer cs" and ?r = "cs_cursor_row cs" and ?k = "cs_cursor_column cs"
  have r: "?r < length ?b" using assms(1) by (simp add: cs_inv_def)
  then have len: "length (?b ! ?r) = kColumns + 1" "?b ! ?r ! kColumns = 0"
    using assms(1) by (simp_all add: cs_inv_def)
  show inv: "cs_inv cs'"
    using assms(1,2,4) r len
    by (auto simp: cs'_def cs_inv_def nth_list_update less_Suc_eq dest!: set_update_subset_insert [THEN subsetD])
  have "console_text cs' = map c_string (take ?r ?b) @ [take ?k (?b ! ?r) @ [c]]"
    unfolding console_text_split(1) [OF inv]
    using r len assms(4) by (simp add: cs'_def take_Suc_conv_app_nth nth_list_update)
  moreover have "term_put c (console_text cs) =
      butlast (console_text cs) @ [last (console_text cs) @ [c]]"
    using assms(3,4) console_text_split(3) [OF assms(1)] by (simp add: term_put_def)
  ultimately show "console_text cs' = term_put c (console_text cs)"
    by (simp add: console_text_split(1) [OF assms(1)])
qed

text \<open>A new line below the last, and one that scrolls.\<close>

lemma newline_refines:
  assumes "cs_inv cs" and "cs_cursor_row cs + 1 < kRows"
  defines "cs' \<equiv> cs\<lparr>cs_cursor_column := 0, cs_cursor_row := cs_cursor_row cs + 1\<rparr>"
  shows "cs_inv cs'" and "console_text cs' = console_text cs @ [[]]"
proof -
  show inv: "cs_inv cs'"
    using assms(1,2) by (auto simp: cs'_def cs_inv_def kColumns_def kRows_def nth_Cons split: nat.split)
  have "Suc (cs_cursor_row cs) < length (cs_buffer cs)" using assms(1,2) by (simp add: cs_inv_def)
  then show "console_text cs' = console_text cs @ [[]]"
    using console_text_split(1) [OF inv] by (simp add: cs'_def console_text_def)
qed

definition scrolled :: "Console \<Rightarrow> Console" where
  "scrolled cs = cs\<lparr>cs_cursor_column := 0, cs_buffer := tl (cs_buffer cs) @ [replicate (kColumns + 1) 0]\<rparr>"

lemma scroll_refines:
  assumes "cs_inv cs" and "\<not> cs_cursor_row cs + 1 < kRows"
  shows "cs_inv (scrolled cs)" and "console_text (scrolled cs) = tl (console_text cs) @ [[]]"
proof -
  have row: "cs_cursor_row cs = 24" and len: "length (cs_buffer cs) = 25"
    using assms by (simp_all add: cs_inv_def kRows_def)
  then obtain b0 bs where b: "cs_buffer cs = b0 # bs" "length bs = 24" by (cases "cs_buffer cs") auto
  show inv: "cs_inv (scrolled cs)"
    using assms(1) row b by (auto simp: scrolled_def cs_inv_def kRows_def kColumns_def nth_append)
  have "map c_string (take 25 (cs_buffer cs)) = c_string b0 # map c_string bs"
    using b by simp
  then show "console_text (scrolled cs) = tl (console_text cs) @ [[]]"
    using console_text_split(1) [OF inv] row b by (simp add: scrolled_def console_text_def)
qed

section \<open>The surface shows the terminal\<close>

lemma nth_put:
  assumes "length ini = r" and "length l = k"
  shows "R < Suc r \<and> K < length ((ini @ [l @ [c]]) ! R) \<and> G ((ini @ [l @ [c]]) ! R ! K) \<longleftrightarrow>
    (K = k \<and> R = r \<and> G c) \<or> (R < Suc r \<and> K < length ((ini @ [l]) ! R) \<and> G ((ini @ [l]) ! R ! K))"
proof (cases "R = r")
  case True
  then show ?thesis using assms by (cases "K = k") (auto simp: nth_append less_Suc_eq)
next
  case False
  then show ?thesis using assms by (cases "R < r") (auto simp: nth_append)
qed

lemma text_color_put:
  assumes "length ls = Suc r" and "length (last ls) = k" and "0 \<le> x" and "0 \<le> y"
  shows "text_color font fg bg (butlast ls @ [last ls @ [c]]) (x, y) =
    (if (x, y) \<in> set (ascii_pixels font (8 * int k) (16 * int r) c) then fg else text_color font fg bg ls (x, y))"
proof -
  obtain ini l where ls: "ls = ini @ [l]" using assms(1) by (metis length_Suc_conv_rev)
  have len: "length ini = r" "length l = k" using assms(1,2) ls by simp_all
  have x: "x div 8 = int k \<longleftrightarrow> nat (x div 8) = k" and y: "y div 16 = int r \<longleftrightarrow> nat (y div 16) = r"
    using assms(3,4) by (auto simp: pos_imp_zdiv_nonneg_iff)
  show ?thesis
    unfolding mem_ascii_cell x y text_color_def prod.case Let_def ls
    using nth_put [OF len, of "nat (y div 16)" "nat (x div 8)" c
        "\<lambda>c. glyph_bit font c (nat (x mod 8)) (nat (y mod 16))"] len by auto
qed

lemma text_color_newline: "text_color font fg bg (ls @ [[]]) = text_color font fg bg ls"
  by (rule ext) (auto simp: text_color_def Let_def nth_append split: prod.split)

text \<open>The row loop of a scroll, stopped after \<open>n\<close> rows.\<close>

definition scroll_row ::
  "u8 list \<Rightarrow> 'w PixelWriter \<Rightarrow> nat \<Rightarrow> Console \<times> 'w \<Rightarrow> (Console \<times> 'w) option" where
  "scroll_row font writer row = (\<lambda>(cs, w).
     let cs = cs\<lparr>cs_buffer := (cs_buffer cs)[row := cs_buffer cs ! (row + 1)]\<rparr> in
     map_option (Pair cs) (WriteString font writer 0 (16 * int row) (cs_buffer cs ! row) (cs_fg_color cs) w))"

definition shows_text :: "u8 list \<Rightarrow> Console \<Rightarrow> image \<Rightarrow> bool" where
  "shows_text font cs img \<longleftrightarrow> (\<forall>q. console_area q \<longrightarrow>
     img q = text_color font (cs_fg_color cs) (cs_bg_color cs) (console_text cs) q)"

text \<open>The text over a picture, and the picture once the console has cleared its area.\<close>

definition text_over :: "u8 list \<Rightarrow> image \<Rightarrow> Console \<Rightarrow> image" where
  "text_over font base cs q =
     (if console_area q then text_color font (cs_fg_color cs) (base q) (console_text cs) q else base q)"

definition cleared :: "PixelColor \<Rightarrow> image \<Rightarrow> image" where
  "cleared bg base q = (if console_area q then bg else base q)"

definition behind :: "PixelColor \<Rightarrow> image \<Rightarrow> u8 list \<Rightarrow> u8 list list \<Rightarrow> image" where
  "behind bg base s ls = (if ever_scrolls s ls then cleared bg base else base)"

definition shows_over :: "u8 list \<Rightarrow> image \<Rightarrow> Console \<Rightarrow> (pixel \<Rightarrow> bool) \<Rightarrow> image \<Rightarrow> bool" where
  "shows_over font base cs inb img \<longleftrightarrow> (\<forall>q. inb q \<longrightarrow> img q = text_over font base cs q)"

lemma cleared_cleared [simp]: "cleared bg (cleared bg' base) = cleared bg base"
  by (auto simp: cleared_def)

lemma behind_Nil [simp]: "behind bg base [] ls = base"
  by (simp add: behind_def)

lemma behind_Cons:
  "behind bg base (c # s) ls = behind bg (if term_scrolls c ls then cleared bg base else base) s (term_put c ls)"
  by (simp add: behind_def)

lemma behind_append: "behind bg base (s @ t) ls = behind bg (behind bg base s ls) t (fold term_put s ls)"
  by (simp add: behind_def ever_scrolls_append)

lemma behind_cleared [simp]: "behind bg (cleared bg base) s ls = cleared bg base"
  by (simp add: behind_def)

lemma shows_text_over:
  assumes "\<And>q. console_area q \<Longrightarrow> inb q"
  shows "shows_over font (cleared (cs_bg_color cs) base) cs inb img \<Longrightarrow> shows_text font cs img"
    and "shows_text font cs img \<Longrightarrow> shows_over font (cleared (cs_bg_color cs) img) cs inb img"
  using assms by (auto simp: shows_over_def shows_text_def text_over_def cleared_def)

text \<open>The rows of the buffer are the lines of the terminal, and empty rows.\<close>

lemma text_color_rows:
  assumes "cs_inv cs" and "console_area q"
  shows "text_color font fg bg (console_text cs) q =
    (if \<exists>r < kRows. q \<in> set (string_pixels font 0 (16 * int r) (c_string (cs_buffer cs ! r))) then fg else bg)"
proof -
  obtain a b where q: "q = (a, b)" by (cases q)
  let ?G = "\<lambda>s. nat (a div 8) < length s \<and> glyph_bit font (s ! nat (a div 8)) (nat (a mod 8)) (nat (b mod 16))"
  have ab: "0 \<le> a" "0 \<le> b" "nat (b div 16) < kRows"
    using assms(2) by (auto simp: q console_area_def kRows_def)
  have row: "b div 16 = int r \<longleftrightarrow> r = nat (b div 16)" for r using ab(2) by (auto simp: pos_imp_zdiv_nonneg_iff)
  have "(\<exists>r < kRows. q \<in> set (string_pixels font 0 (16 * int r) (c_string (cs_buffer cs ! r)))) \<longleftrightarrow>
      ?G (c_string (cs_buffer cs ! nat (b div 16)))"
    using ab by (auto simp: q mem_string_pixels row)
  also have "\<dots> \<longleftrightarrow> nat (b div 16) < length (console_text cs) \<and> ?G (console_text cs ! nat (b div 16))"
  proof (cases "nat (b div 16) \<le> cs_cursor_row cs")
    case True
    then show ?thesis using assms(1) by (auto simp: console_text_def cs_inv_def)
  next
    case False
    then have "cs_buffer cs ! nat (b div 16) = replicate (kColumns + 1) 0"
      using assms(1) ab(3) by (auto simp: cs_inv_def)
    with False show ?thesis by (simp add: console_text_def c_string_def)
  qed
  finally show ?thesis by (simp add: q text_color_def Let_def)
qed

lemma area_string_pixels:
  assumes "length s \<le> kColumns" and "r < kRows" and "q \<in> set (string_pixels font 0 (16 * int r) s)"
  shows "console_area q"
proof -
  obtain a b where q: "q = (a, b)" by (cases q)
  with assms have *: "0 \<le> a" "b div 16 = int r" "nat (a div 8) < kColumns"
    by (auto simp: mem_string_pixels)
  then have "a div 8 < int kColumns" by linarith
  moreover have "a = 8 * (a div 8) + a mod 8" "a mod 8 < 8" "b = 16 * (b div 16) + b mod 16"
    "b mod 16 < 16" "0 \<le> b mod 16" by simp_all
  ultimately show ?thesis using * assms(2) unfolding q console_area_def prod.case by linarith
qed

lemma c_string_length:
  assumes "buf_wf cs" and "row \<in> set (cs_buffer cs)"
  shows "0 \<in> set row" and "length (c_string row) \<le> kColumns"
proof -
  have row: "length row = kColumns + 1" "row ! kColumns = 0" using assms by (auto simp: buf_wf_def)
  then show "0 \<in> set row" by (metis less_add_one nth_mem)
  show "length (c_string row) \<le> kColumns"
  proof (rule ccontr)
    assume "\<not> ?thesis"
    then have "kColumns < length (c_string row)" by simp
    then have "c_string row ! kColumns \<in> set (c_string row)" by (rule nth_mem)
    then have "c_string row ! kColumns \<noteq> 0" by (auto simp: c_string_def dest: set_takeWhileD)
    moreover have "c_string row ! kColumns = row ! kColumns"
      using \<open>kColumns < _\<close> unfolding c_string_def by (rule takeWhile_nth)
    ultimately show False using row by simp
  qed
qed

lemma scroll_row_eq:
  assumes "cs_buffer cs = B" and "B[row := B ! (row + 1)] = B'" and "B' ! row = s"
    and "WriteString font writer 0 (16 * int row) s (cs_fg_color cs) w = Some w'"
  shows "scroll_row font writer row (cs, w) = Some (cs\<lparr>cs_buffer := B'\<rparr>, w')"
  using assms by (simp add: scroll_row_def Let_def)

lemma shift_rows_step:
  assumes "Suc n < length b"
  shows "(take n (tl b) @ drop n b)[n := (take n (tl b) @ drop n b) ! (n + 1)] = take (Suc n) (tl b) @ drop (Suc n) b"
proof -
  obtain x xs where b: "b = x # xs" using assms by (cases b) auto
  have n: "n < length xs" using assms b by simp
  have nth: "(take n (tl b) @ drop n b) ! (n + 1) = xs ! n"
    using n by (simp add: b nth_append)
  have "drop n b = b ! n # drop (Suc n) b" using assms by (simp add: Cons_nth_drop_Suc)
  then have "(take n (tl b) @ drop n b)[n := xs ! n] = take n xs @ xs ! n # drop (Suc n) b"
    using n by (simp add: b list_update_append)
  then show ?thesis unfolding nth using n by (simp add: b take_Suc_conv_app_nth)
qed

context pixel_surface
begin

lemma WriteString_paint:
  assumes "inv w" and "font_wf font" and "0 \<in> set s" and "length (c_string s) \<le> kColumns" and "r < kRows"
    and "\<And>q. console_area q \<Longrightarrow> inb q"
  shows "\<exists>w'. WriteString font pw 0 (16 * int r) s color w = Some w' \<and> inv w' \<and> (\<forall>q. inb q \<longrightarrow>
    px w' q = (if q \<in> set (string_pixels font 0 (16 * int r) (c_string s)) then color else px w q))"
proof -
  have "inb q" if "q \<in> set (string_pixels font 0 (16 * int r) (c_string s))" for q
    using assms(6) area_string_pixels [OF assms(4,5) that] by blast
  then show ?thesis
    unfolding WriteString_writes [OF assms(2,3)]
    using writes_paint [OF assms(1), of "map (\<lambda>p. (p, color)) (string_pixels font 0 (16 * int r) (c_string s))"]
    by (simp add: paint_const)
qed

lemma Refresh_paint:
  assumes "inv w" and "font_wf font" and "buf_wf cs" and "\<And>q. console_area q \<Longrightarrow> inb q" and "deref writers cs = Some pw"
  shows "\<exists>w'. Refresh font writers cs w = Some w' \<and> inv w' \<and> (\<forall>q. inb q \<longrightarrow> px w' q =
    (if \<exists>r < kRows. q \<in> set (string_pixels font 0 (16 * int r) (c_string (cs_buffer cs ! r))) then cs_fg_color cs else px w q))"
proof -
  let ?f = "\<lambda>row. WriteString font pw 0 (16 * int row) (cs_buffer cs ! row) (cs_fg_color cs)"
  have "\<exists>w'. foldM ?f [0..<n] w = Some w' \<and> inv w' \<and> (\<forall>q. inb q \<longrightarrow> px w' q =
    (if \<exists>r < n. q \<in> set (string_pixels font 0 (16 * int r) (c_string (cs_buffer cs ! r))) then cs_fg_color cs else px w q))"
    if "n \<le> kRows" for n
    using that
  proof (induction n)
    case 0
    then show ?case using assms(1) by simp
  next
    case (Suc n)
    then obtain w1 where w1: "foldM ?f [0..<n] w = Some w1" "inv w1" "\<forall>q. inb q \<longrightarrow> px w1 q =
      (if \<exists>r < n. q \<in> set (string_pixels font 0 (16 * int r) (c_string (cs_buffer cs ! r))) then cs_fg_color cs else px w q)"
      by auto
    have row: "cs_buffer cs ! n \<in> set (cs_buffer cs)" using Suc.prems assms(3) by (simp add: buf_wf_def)
    have "n < kRows" using Suc.prems by simp
    then obtain w2 where w2: "WriteString font pw 0 (16 * int n) (cs_buffer cs ! n) (cs_fg_color cs) w1 = Some w2" "inv w2"
      "\<forall>q. inb q \<longrightarrow> px w2 q =
        (if q \<in> set (string_pixels font 0 (16 * int n) (c_string (cs_buffer cs ! n))) then cs_fg_color cs else px w1 q)"
      using WriteString_paint [OF w1(2) assms(2) c_string_length [OF assms(3) row] _ assms(4)] by blast
    have "foldM ?f [0..<Suc n] w = Some w2" using w2(1) by (simp add: foldM_append w1(1))
    with w2(2,3) w1(3) show ?case by (auto simp: less_Suc_eq)
  qed
  from this [of kRows] show ?thesis by (simp add: Refresh_def assms(5))
qed

lemma scroll_rows_paint:
  assumes "inv w" and "font_wf font" and "buf_wf cs" and "\<And>q. console_area q \<Longrightarrow> inb q"
  shows "n < kRows \<Longrightarrow> \<exists>w'. foldM (scroll_row font pw) [0..<n] (cs, w) =
      Some (cs\<lparr>cs_buffer := take n (tl (cs_buffer cs)) @ drop n (cs_buffer cs)\<rparr>, w') \<and> inv w' \<and>
    (\<forall>q. inb q \<longrightarrow> px w' q =
      (if \<exists>r < n. q \<in> set (string_pixels font 0 (16 * int r) (c_string (cs_buffer cs ! Suc r)))
       then cs_fg_color cs else px w q))"
proof (induction n)
  case 0
  then show ?case using assms(1) by simp
next
  case (Suc n)
  let ?b = "cs_buffer cs"
  have len: "length ?b = kRows" using assms(3) by (simp add: buf_wf_def)
  from Suc obtain w1 where w1: "foldM (scroll_row font pw) [0..<n] (cs, w) =
      Some (cs\<lparr>cs_buffer := take n (tl ?b) @ drop n ?b\<rparr>, w1)" "inv w1"
    "\<forall>q. inb q \<longrightarrow> px w1 q =
      (if \<exists>r < n. q \<in> set (string_pixels font 0 (16 * int r) (c_string (?b ! Suc r))) then cs_fg_color cs else px w q)"
    by auto
  let ?s = "?b ! Suc n"
  have s: "?s \<in> set ?b" using Suc.prems len by simp
  have "n < kRows" using Suc.prems by simp
  then obtain w2 where w2: "WriteString font pw 0 (16 * int n) ?s (cs_fg_color cs) w1 = Some w2" "inv w2"
    "\<forall>q. inb q \<longrightarrow> px w2 q =
      (if q \<in> set (string_pixels font 0 (16 * int n) (c_string ?s)) then cs_fg_color cs else px w1 q)"
    using WriteString_paint [OF w1(2) assms(2) c_string_length [OF assms(3) s] _ assms(4), of n "cs_fg_color cs"]
    by blast
  have buf: "(take n (tl ?b) @ drop n ?b)[n := (take n (tl ?b) @ drop n ?b) ! (n + 1)] =
      take (Suc n) (tl ?b) @ drop (Suc n) ?b"
    using shift_rows_step [of n ?b] Suc.prems len by simp
  have nth: "(take (Suc n) (tl ?b) @ drop (Suc n) ?b) ! n = ?s"
    using Suc.prems len by (simp add: nth_append nth_tl)
  have "scroll_row font pw n (cs\<lparr>cs_buffer := take n (tl ?b) @ drop n ?b\<rparr>, w1) =
      Some (cs\<lparr>cs_buffer := take (Suc n) (tl ?b) @ drop (Suc n) ?b\<rparr>, w2)"
    using scroll_row_eq [of "cs\<lparr>cs_buffer := take n (tl ?b) @ drop n ?b\<rparr>", OF _ buf nth, of font pw w1 w2] w2(1)
    by simp
  then have "foldM (scroll_row font pw) [0..<Suc n] (cs, w) =
      Some (cs\<lparr>cs_buffer := take (Suc n) (tl ?b) @ drop (Suc n) ?b\<rparr>, w2)"
    by (simp add: foldM_append w1(1))
  moreover have "\<forall>q. inb q \<longrightarrow> px w2 q =
      (if \<exists>r < Suc n. q \<in> set (string_pixels font 0 (16 * int r) (c_string (?b ! Suc r)))
       then cs_fg_color cs else px w q)"
    using w2(3) w1(3) by (auto simp: less_Suc_eq)
  ultimately show ?case using w2(2) by blast
qed

text \<open>A line is scrolled: the area shows the text, what is outside it stays.\<close>

lemma Newline_scrolls:
  assumes "inv w" and "font_wf font" and "cs_inv cs" and "\<And>q. console_area q \<Longrightarrow> inb q" and "deref writers cs = Some pw"
    and "\<not> cs_cursor_row cs + 1 < kRows"
  shows "\<exists>w'. Newline font writers (cs, w) = Some (scrolled cs, w') \<and> inv w' \<and> (\<forall>q. inb q \<longrightarrow> px w' q =
    (if console_area q then text_color font (cs_fg_color cs) (cs_bg_color cs) (console_text (scrolled cs)) q else px w q))"
proof -
  let ?b = "cs_buffer cs" and ?fg = "cs_fg_color cs" and ?bg = "cs_bg_color cs"
  let ?cs0 = "cs\<lparr>cs_cursor_column := 0\<rparr>"
  have row: "cs_cursor_row cs = kRows - 1" and len: "length ?b = kRows"
    using assms(3,6) by (auto simp: cs_inv_def)
  have buf: "buf_wf ?cs0" using cs_inv_buf_wf [OF assms(3)] by (simp add: buf_wf_def)
  obtain w1 where w1: "FillRectangle pw (vec 0 0) (vec (8 * int kColumns) (16 * int kRows)) ?bg w = Some w1"
    "inv w1" "\<forall>q. inb q \<longrightarrow> px w1 q =
      (if q \<in> set (rect_pixels (vec 0 0) (vec (8 * int kColumns) (16 * int kRows))) then ?bg else px w q)"
    using FillRectangle_paint [OF assms(1), of "vec 0 0" "vec (8 * int kColumns) (16 * int kRows)" ?bg] assms(4)
    by (force simp: console_area_def)
  have "kRows - 1 < kRows" by (simp add: kRows_def)
  have sel0: "cs_fg_color ?cs0 = ?fg" "cs_buffer ?cs0 = ?b" by simp_all
  from scroll_rows_paint [OF w1(2) assms(2) buf assms(4) \<open>kRows - 1 < kRows\<close>, unfolded sel0] obtain w2 where
    w2: "foldM (scroll_row font pw) [0..<kRows - 1] (?cs0, w1) =
      Some (?cs0\<lparr>cs_buffer := take (kRows - 1) (tl ?b) @ drop (kRows - 1) ?b\<rparr>, w2)" "inv w2"
    "\<forall>q. inb q \<longrightarrow> px w2 q =
      (if \<exists>r < kRows - 1. q \<in> set (string_pixels font 0 (16 * int r) (c_string (?b ! Suc r))) then ?fg else px w1 q)"
    by blast
  have rows: "take (kRows - 1) (tl ?b) @ drop (kRows - 1) ?b = tl ?b @ [?b ! (kRows - 1)]"
    using len Cons_nth_drop_Suc [of 24 ?b] by (simp add: kRows_def)
  have last: "(tl ?b @ [?b ! (kRows - Suc 0)])[kRows - Suc 0 := z] = tl ?b @ [z]" for z
    using len by (simp add: kRows_def list_update_append)
  have scrolled_area: "px w2 q = text_color font ?fg ?bg (console_text (scrolled cs)) q" if q: "console_area q" for q
  proof -
    obtain x y where xy: "q = (x, y)" by (cases q)
    then have pos: "0 \<le> x" "0 \<le> y div 16" and rect:
      "q \<in> set (rect_pixels (vec 0 0) (vec (8 * int kColumns) (16 * int kRows)))"
      using q by (simp_all add: console_area_def pos_imp_zdiv_nonneg_iff)
    let ?R = "nat (y div 16)" and ?K = "nat (x div 8)"
    let ?G = "\<lambda>c. glyph_bit font c (nat (x mod 8)) (nat (y mod 16))"
    have "px w2 q = (if \<exists>r < kRows - 1. y div 16 = int r \<and> ?K < length (c_string (?b ! Suc r)) \<and>
        ?G (c_string (?b ! Suc r) ! ?K) then ?fg else ?bg)"
      using w2(3) w1(3) assms(4) [OF q] rect pos unfolding xy by (simp only: mem_string_pixels simp_thms if_True)
    also have "(\<exists>r < kRows - 1. y div 16 = int r \<and> ?K < length (c_string (?b ! Suc r)) \<and>
        ?G (c_string (?b ! Suc r) ! ?K)) \<longleftrightarrow>
      ?R < kRows - 1 \<and> ?K < length (c_string (?b ! Suc ?R)) \<and> ?G (c_string (?b ! Suc ?R) ! ?K)"
      using pos(2) by (auto intro!: exI [of _ ?R])
    also have "\<dots> \<longleftrightarrow> ?R < length ls \<and> ?K < length (ls ! ?R) \<and> ?G (ls ! ?R ! ?K)"
      if "ls = map c_string (tl ?b) @ [[]]" for ls
      unfolding that using len by (cases "?R < kRows - 1") (auto simp: nth_append nth_tl)
    finally have "px w2 q = text_color font ?fg ?bg (map c_string (tl ?b) @ [[]]) q"
      by (simp add: xy text_color_def Let_def)
    moreover have "console_text (scrolled cs) = map c_string (tl ?b) @ [[]]"
      using scroll_refines(2) [OF assms(3) assms(6)] row len by (simp add: console_text_def map_tl kRows_def)
    ultimately show ?thesis by simp
  qed
  have newline: "Newline font writers (cs, w) = Some (scrolled cs, w2)"
  proof -
    have "foldM (\<lambda>y. foldM (\<lambda>x. call_Write pw x y ?bg) [0..8 * int kColumns - 1]) [0..16 * int kRows - 1] w = Some w1"
      using w1(1) by (simp add: FillRectangle_def)
    moreover have "deref writers ?cs0 = Some pw" using assms(5) by (simp add: deref_def)
    ultimately show ?thesis
      using assms(6) w2(1) unfolding scroll_row_def rows by (simp add: Newline_def Let_def last scrolled_def)
  qed
  have "px w2 q = px w q" if q: "inb q" "\<not> console_area q" for q
  proof -
    have "q \<notin> set (string_pixels font 0 (16 * int r) (c_string (?b ! Suc r)))" if "r < kRows - 1" for r
    proof -
      have "?b ! Suc r \<in> set ?b" and "r < kRows" using that len by simp_all
      from area_string_pixels [OF c_string_length(2) [OF cs_inv_buf_wf [OF assms(3)] this(1)] this(2)] q(2)
      show ?thesis by blast
    qed
    moreover have "q \<notin> set (rect_pixels (vec 0 0) (vec (8 * int kColumns) (16 * int kRows)))"
      using q(2) by (cases q) (auto simp: console_area_def)
    ultimately show ?thesis using w2(3) [rule_format, OF q(1)] w1(3) [rule_format, OF q(1)] by auto
  qed
  with newline w2(2) scrolled_area show ?thesis by (intro exI [of _ w2]) simp
qed

lemma Newline_paint:
  assumes "inv w" and "font_wf font" and "cs_inv cs" and "\<And>q. console_area q \<Longrightarrow> inb q"
    and "deref writers cs = Some pw" and "shows_over font base cs inb (px w)"
  shows "\<exists>cs' w'. Newline font writers (cs, w) = Some (cs', w') \<and> inv w' \<and> cs_inv cs' \<and>
    cs_writer cs' = cs_writer cs \<and> cs_fg_color cs' = cs_fg_color cs \<and> cs_bg_color cs' = cs_bg_color cs \<and>
    console_text cs' = (if length (console_text cs) < kRows then console_text cs @ [[]] else tl (console_text cs) @ [[]]) \<and>
    shows_over font (if length (console_text cs) < kRows then base else cleared (cs_bg_color cs) base) cs' inb (px w')"
proof (cases "cs_cursor_row cs + 1 < kRows")
  case True
  let ?cs' = "cs\<lparr>cs_cursor_column := 0, cs_cursor_row := cs_cursor_row cs + 1\<rparr>"
  note ref = newline_refines [OF assms(3) True]
  have "length (console_text cs) < kRows" using True console_text_split(2) [OF assms(3)] by simp
  moreover have "Newline font writers (cs, w) = Some (?cs', w)"
    using True by (simp add: Newline_def)
  moreover have "shows_over font base ?cs' inb (px w)"
    using assms(6) ref(2) unfolding shows_over_def text_over_def by (simp add: text_color_newline)
  ultimately show ?thesis using assms(1) ref by (intro exI [of _ ?cs'] exI [of _ w]) simp
next
  case False
  from Newline_scrolls [OF assms(1-5) False] obtain w' where
    w': "Newline font writers (cs, w) = Some (scrolled cs, w')" "inv w'" "\<forall>q. inb q \<longrightarrow> px w' q =
      (if console_area q then text_color font (cs_fg_color cs) (cs_bg_color cs) (console_text (scrolled cs)) q else px w q)"
    by blast
  have "shows_over font (cleared (cs_bg_color cs) base) (scrolled cs) inb (px w')"
    using w'(3) assms(6) by (simp add: shows_over_def text_over_def cleared_def scrolled_def)
  moreover have "\<not> length (console_text cs) < kRows" using False console_text_split(2) [OF assms(3)] by simp
  ultimately show ?thesis
    using w'(1,2) scroll_refines [OF assms(3) False]
    by (intro exI [of _ "scrolled cs"] exI [of _ w']) (simp add: scrolled_def)
qed

lemma put_char_paint:
  assumes "inv w" and "font_wf font" and "cs_inv cs" and "\<And>q. console_area q \<Longrightarrow> inb q"
    and "shows_over font base cs inb (px w)" and "c \<noteq> 0" and "c \<noteq> 10" and "cs_cursor_column cs < kColumns"
  defines "cs' \<equiv> cs\<lparr>cs_buffer := (cs_buffer cs)[cs_cursor_row cs :=
                (cs_buffer cs ! cs_cursor_row cs)[cs_cursor_column cs := c]],
              cs_cursor_column := cs_cursor_column cs + 1\<rparr>"
  shows "\<exists>w'. WriteAscii font pw (8 * int (cs_cursor_column cs)) (16 * int (cs_cursor_row cs)) c (cs_fg_color cs) w =
      Some w' \<and> inv w' \<and> shows_over font base cs' inb (px w')"
proof -
  let ?r = "cs_cursor_row cs" and ?k = "cs_cursor_column cs"
  have r: "?r < kRows" using assms(3) by (simp add: cs_inv_def)
  have area: "console_area (8 * int ?k + int a, 16 * int ?r + int b)" if "glyph_bit font c a b" for a b
    using that r assms(8) by (auto simp: glyph_bit_def console_area_def)
  from WriteAscii_paint [OF assms(1,2) assms(4) [OF area]] obtain w' where
    w': "WriteAscii font pw (8 * int ?k) (16 * int ?r) c (cs_fg_color cs) w = Some w'" "inv w'"
    "\<forall>q. inb q \<longrightarrow> px w' q =
      (if q \<in> set (ascii_pixels font (8 * int ?k) (16 * int ?r) c) then cs_fg_color cs else px w q)"
    by blast
  note lines = put_char_refines(2) [OF assms(3,6,7,8), folded cs'_def]
  note lens = console_text_split(2,3) [OF assms(3)]
  have put: "term_put c (console_text cs) = butlast (console_text cs) @ [last (console_text cs) @ [c]]"
    using assms(7,8) lens by (simp add: term_put_def)
  have "px w' q = text_over font base cs' q" if q: "inb q" for q
  proof (cases "console_area q")
    case True
    obtain x y where xy: "q = (x, y)" by (cases q)
    then have pos: "0 \<le> x" "0 \<le> y" using True by (simp_all add: console_area_def)
    have "px w' q = (if q \<in> set (ascii_pixels font (8 * int ?k) (16 * int ?r) c) then cs_fg_color cs
        else text_color font (cs_fg_color cs) (base q) (console_text cs) q)"
      using w'(3) [rule_format, OF q] assms(5) [unfolded shows_over_def, rule_format, OF q] True
      by (simp only: text_over_def if_True)
    then show ?thesis
      unfolding text_over_def lines put xy text_color_put [OF lens pos] using True by (simp add: cs'_def xy)
  next
    case False
    then have "q \<notin> set (ascii_pixels font (8 * int ?k) (16 * int ?r) c)"
      using area by (cases q) (force simp: mem_ascii_pixels)
    then show ?thesis
      using w'(3) [rule_format, OF q] assms(5) [unfolded shows_over_def, rule_format, OF q] False
      by (simp only: text_over_def if_False)
  qed
  then have "shows_over font base cs' inb (px w')" by (simp add: shows_over_def)
  with w' show ?thesis by blast
qed

text \<open>One character, which is not the end of the string.\<close>

lemma put_step_paint:
  assumes "inv w" and "font_wf font" and "cs_inv cs" and "\<And>q. console_area q \<Longrightarrow> inb q" and "deref writers cs = Some pw"
    and "shows_over font base cs inb (px w)" and "c \<noteq> 0"
  shows "\<exists>cs1 w1. (\<forall>s. PutString_loop font writers (c # s) (cs, w) = PutString_loop font writers s (cs1, w1)) \<and>
    inv w1 \<and> cs_inv cs1 \<and> cs_writer cs1 = cs_writer cs \<and> cs_fg_color cs1 = cs_fg_color cs \<and> cs_bg_color cs1 = cs_bg_color cs \<and>
    console_text cs1 = term_put c (console_text cs) \<and>
    shows_over font (if term_scrolls c (console_text cs) then cleared (cs_bg_color cs) base else base) cs1 inb (px w1)"
proof (cases "c = 10 \<or> kColumns \<le> cs_cursor_column cs")
  case True
  from Newline_paint [OF assms(1-6)] obtain cs1 w1 where
    1: "Newline font writers (cs, w) = Some (cs1, w1)" "inv w1" "cs_inv cs1" "cs_writer cs1 = cs_writer cs"
      "cs_fg_color cs1 = cs_fg_color cs" "cs_bg_color cs1 = cs_bg_color cs"
      "shows_over font (if length (console_text cs) < kRows then base else cleared (cs_bg_color cs) base) cs1 inb (px w1)"
      "console_text cs1 = (if length (console_text cs) < kRows then console_text cs @ [[]] else tl (console_text cs) @ [[]])"
    by blast
  have "console_text cs1 = term_put c (console_text cs)"
    and "term_scrolls c (console_text cs) \<longleftrightarrow> \<not> length (console_text cs) < kRows"
    using 1(8) True console_text_split(3) [OF assms(3)] by (simp_all add: term_put_def term_scrolls_def)
  with 1 True assms(7) show ?thesis by (intro exI [of _ cs1] exI [of _ w1]) auto
next
  case False
  then have c: "c \<noteq> 10" "cs_cursor_column cs < kColumns" by simp_all
  define cs1 where "cs1 = cs\<lparr>cs_buffer := (cs_buffer cs)[cs_cursor_row cs :=
            (cs_buffer cs ! cs_cursor_row cs)[cs_cursor_column cs := c]],
          cs_cursor_column := cs_cursor_column cs + 1\<rparr>"
  note ref = put_char_refines [OF assms(3,7) c, folded cs1_def]
  from put_char_paint [OF assms(1-4,6,7) c, folded cs1_def] obtain w1 where
    1: "WriteAscii font pw (8 * int (cs_cursor_column cs)) (16 * int (cs_cursor_row cs)) c (cs_fg_color cs) w = Some w1"
      "inv w1" "shows_over font base cs1 inb (px w1)" by blast
  have "\<not> term_scrolls c (console_text cs)"
    using False console_text_split(3) [OF assms(3)] by (simp add: term_scrolls_def)
  moreover have "PutString_loop font writers (c # s) (cs, w) = PutString_loop font writers s (cs1, w1)" for s
    using False assms(5,7) 1(1) by (simp add: cs1_def)
  ultimately show ?thesis using 1(2,3) ref by (intro exI [of _ cs1] exI [of _ w1]) (simp add: cs1_def)
qed

lemma PutString_loop_paint:
  assumes "font_wf font" and "\<And>q. console_area q \<Longrightarrow> inb q" and "0 \<in> set s"
    and "inv w" and "cs_inv cs" and "deref writers cs = Some pw" and "shows_over font base cs inb (px w)"
  shows "\<exists>cs' w'. PutString_loop font writers s (cs, w) = Some (cs', w') \<and> inv w' \<and> cs_inv cs' \<and>
    cs_writer cs' = cs_writer cs \<and> cs_fg_color cs' = cs_fg_color cs \<and> cs_bg_color cs' = cs_bg_color cs \<and>
    console_text cs' = fold term_put (c_string s) (console_text cs) \<and>
    shows_over font (behind (cs_bg_color cs) base (c_string s) (console_text cs)) cs' inb (px w')"
  using assms(3-)
proof (induction s arbitrary: base cs w)
  case (Cons c s)
  show ?case
  proof (cases "c = 0")
    case True
    then show ?thesis using Cons.prems by (intro exI [of _ cs] exI [of _ w]) (simp add: c_string_def)
  next
    case False
    then have s: "0 \<in> set s" "c_string (c # s) = c # c_string s" using Cons.prems(1) by (auto simp: c_string_def)
    from put_step_paint [OF Cons.prems(2) assms(1) Cons.prems(3) assms(2) Cons.prems(4,5) False] obtain cs1 w1 where
      1: "PutString_loop font writers (c # s) (cs, w) = PutString_loop font writers s (cs1, w1)" "inv w1" "cs_inv cs1"
        "cs_writer cs1 = cs_writer cs" "cs_fg_color cs1 = cs_fg_color cs" "cs_bg_color cs1 = cs_bg_color cs"
        "console_text cs1 = term_put c (console_text cs)"
        "shows_over font (if term_scrolls c (console_text cs) then cleared (cs_bg_color cs) base else base) cs1 inb (px w1)"
      by blast
    have "deref writers cs1 = Some pw" using Cons.prems(4) 1(4) by (simp add: deref_def)
    from Cons.IH [OF s(1) 1(2,3) this 1(8)] show ?thesis by (simp only: 1(1,4-7) s(2) fold_simps behind_Cons)
  qed
qed simp

text \<open>What is printed does not depend on the picture: also on a surface that does not show the text.\<close>

lemma Newline_returns:
  assumes "inv w" and "font_wf font" and "cs_inv cs" and "\<And>q. console_area q \<Longrightarrow> inb q" and "deref writers cs = Some pw"
  shows "\<exists>cs' w'. Newline font writers (cs, w) = Some (cs', w') \<and> inv w' \<and> cs_inv cs' \<and> cs_writer cs' = cs_writer cs \<and>
    cs_fg_color cs' = cs_fg_color cs \<and> cs_bg_color cs' = cs_bg_color cs \<and>
    console_text cs' = (if length (console_text cs) < kRows then console_text cs @ [[]] else tl (console_text cs) @ [[]])"
proof (cases "cs_cursor_row cs + 1 < kRows")
  case True
  have "length (console_text cs) < kRows" using True console_text_split(2) [OF assms(3)] by simp
  then show ?thesis using True assms(1) newline_refines [OF assms(3) True]
    by (intro exI [of _ "cs\<lparr>cs_cursor_column := 0, cs_cursor_row := cs_cursor_row cs + 1\<rparr>"] exI [of _ w]) (simp add: Newline_def)
next
  case False
  have "\<not> length (console_text cs) < kRows" using False console_text_split(2) [OF assms(3)] by simp
  moreover obtain w' where "Newline font writers (cs, w) = Some (scrolled cs, w')" "inv w'"
    using Newline_scrolls [OF assms False] by blast
  ultimately show ?thesis using scroll_refines [OF assms(3) False]
    by (intro exI [of _ "scrolled cs"] exI [of _ w']) (simp add: scrolled_def)
qed

lemma WriteAscii_at_cursor:
  assumes "inv w" and "font_wf font" and "cs_inv cs" and "\<And>q. console_area q \<Longrightarrow> inb q" and "cs_cursor_column cs < kColumns"
  shows "\<exists>w'. WriteAscii font pw (8 * int (cs_cursor_column cs)) (16 * int (cs_cursor_row cs)) c color w = Some w' \<and> inv w' \<and>
    (\<forall>q. inb q \<longrightarrow> px w' q =
      (if q \<in> set (ascii_pixels font (8 * int (cs_cursor_column cs)) (16 * int (cs_cursor_row cs)) c) then color else px w q))"
proof -
  have "cs_cursor_row cs < kRows" using assms(3) by (simp add: cs_inv_def)
  then have "console_area (8 * int (cs_cursor_column cs) + int a, 16 * int (cs_cursor_row cs) + int b)"
    if "glyph_bit font c a b" for a b
    using that assms(5) by (auto simp: glyph_bit_def console_area_def)
  from WriteAscii_paint [OF assms(1,2) assms(4) [OF this]] show ?thesis by blast
qed

lemma put_step_returns:
  assumes "inv w" and "font_wf font" and "cs_inv cs" and "\<And>q. console_area q \<Longrightarrow> inb q" and "deref writers cs = Some pw"
    and "c \<noteq> 0"
  shows "\<exists>cs1 w1. (\<forall>s. PutString_loop font writers (c # s) (cs, w) = PutString_loop font writers s (cs1, w1)) \<and>
    inv w1 \<and> cs_inv cs1 \<and> cs_writer cs1 = cs_writer cs \<and> cs_fg_color cs1 = cs_fg_color cs \<and> cs_bg_color cs1 = cs_bg_color cs \<and>
    console_text cs1 = term_put c (console_text cs)"
proof (cases "c = 10 \<or> kColumns \<le> cs_cursor_column cs")
  case True
  from Newline_returns [OF assms(1-5)] obtain cs1 w1 where
    1: "Newline font writers (cs, w) = Some (cs1, w1)" "inv w1" "cs_inv cs1" "cs_writer cs1 = cs_writer cs"
      "cs_fg_color cs1 = cs_fg_color cs" "cs_bg_color cs1 = cs_bg_color cs"
      "console_text cs1 = (if length (console_text cs) < kRows then console_text cs @ [[]] else tl (console_text cs) @ [[]])"
    by blast
  have "console_text cs1 = term_put c (console_text cs)"
    using 1(7) True console_text_split(3) [OF assms(3)] by (simp add: term_put_def)
  with 1 True assms(6) show ?thesis by (intro exI [of _ cs1] exI [of _ w1]) auto
next
  case False
  then have c: "c \<noteq> 10" "cs_cursor_column cs < kColumns" by simp_all
  from WriteAscii_at_cursor [OF assms(1-4) c(2)] obtain w1 where
    1: "WriteAscii font pw (8 * int (cs_cursor_column cs)) (16 * int (cs_cursor_row cs)) c (cs_fg_color cs) w = Some w1"
      "inv w1" by blast
  define cs1 where "cs1 = cs\<lparr>cs_buffer := (cs_buffer cs)[cs_cursor_row cs :=
            (cs_buffer cs ! cs_cursor_row cs)[cs_cursor_column cs := c]],
          cs_cursor_column := cs_cursor_column cs + 1\<rparr>"
  have "PutString_loop font writers (c # s) (cs, w) = PutString_loop font writers s (cs1, w1)" for s
    using False assms(5,6) 1(1) by (simp add: cs1_def)
  then show ?thesis using 1(2) put_char_refines [OF assms(3,6) c, folded cs1_def]
    by (intro exI [of _ cs1] exI [of _ w1]) (simp add: cs1_def)
qed

lemma PutString_loop_returns:
  assumes "font_wf font" and "\<And>q. console_area q \<Longrightarrow> inb q" and "0 \<in> set s"
    and "inv w" and "cs_inv cs" and "deref writers cs = Some pw"
  shows "\<exists>cs' w'. PutString_loop font writers s (cs, w) = Some (cs', w') \<and> inv w' \<and> cs_inv cs' \<and>
    cs_writer cs' = cs_writer cs \<and> cs_fg_color cs' = cs_fg_color cs \<and> cs_bg_color cs' = cs_bg_color cs \<and>
    console_text cs' = fold term_put (c_string s) (console_text cs)"
  using assms(3-)
proof (induction s arbitrary: cs w)
  case (Cons c s)
  show ?case
  proof (cases "c = 0")
    case True
    then show ?thesis using Cons.prems by (intro exI [of _ cs] exI [of _ w]) (simp add: c_string_def)
  next
    case False
    then have s: "0 \<in> set s" "c_string (c # s) = c # c_string s" using Cons.prems(1) by (auto simp: c_string_def)
    from put_step_returns [OF Cons.prems(2) assms(1) Cons.prems(3) assms(2) Cons.prems(4) False] obtain cs1 w1 where
      1: "PutString_loop font writers (c # s) (cs, w) = PutString_loop font writers s (cs1, w1)" "inv w1" "cs_inv cs1"
        "cs_writer cs1 = cs_writer cs" "cs_fg_color cs1 = cs_fg_color cs" "cs_bg_color cs1 = cs_bg_color cs"
        "console_text cs1 = term_put c (console_text cs)" by blast
    have "deref writers cs1 = Some pw" using Cons.prems(4) 1(4) by (simp add: deref_def)
    from Cons.IH [OF s(1) 1(2,3) this] show ?thesis by (simp only: 1(1,4-7) s(2) fold_simps)
  qed
qed simp

end

section \<open>Properties\<close>

text \<open>
  C15. The console refines the terminal, and the screen shows it: on a frame buffer of at least 640
  by 400 pixels whose console area shows the buffer's text, \<open>PutString\<close> of any terminated string
  completes; the buffer's lines become those of the terminal fed with the characters (wrapping,
  scrolling and dropping the character that causes a wrap), the console area shows exactly these
  lines, the rest of the screen stays as it was, and no memory outside the frame buffer is written.
\<close>

theorem PutString_refines_terminal:
  assumes "fb_wf config" and "640 \<le> sint (fb_horizontal_resolution config)"
    and "400 \<le> sint (fb_vertical_resolution config)" and "font_wf font" and "0 \<in> set s"
    and "cs_inv cs" and "deref writers cs = Some (FrameBufferWriter config)"
    and "shows_text font cs (fb_px config m)"
  shows "\<exists>cs' m'. PutString font writers Some s (cs, m) = Some (cs', m') \<and> cs_inv cs' \<and>
    console_text cs' = fold term_put (c_string s) (console_text cs) \<and>
    shows_text font cs' (fb_px config m') \<and> fb_only config m m' \<and>
    (\<forall>p. fb_inb config p \<longrightarrow> \<not> console_area p \<longrightarrow> fb_px config m' p = fb_px config m p)"
proof -
  have area: "fb_inb config q" if "console_area q" for q
    using that assms(2,3) by (auto simp: console_area_def fb_inb_def kColumns_def kRows_def)
  have inv: "fb_wf config \<and> fb_only config m m" using assms(1) by simp
  let ?base = "cleared (cs_bg_color cs) (fb_px config m)"
  have "shows_over font ?base cs (fb_inb config) (fb_px config m)" by (rule shows_text_over(2) [OF area assms(8)])
  from fb.PutString_loop_paint [OF assms(4) area assms(5) inv assms(6,7) this] obtain cs' m' where
    *: "PutString_loop font writers s (cs, m) = Some (cs', m')" "fb_only config m m'" "cs_inv cs'"
      "cs_bg_color cs' = cs_bg_color cs" "console_text cs' = fold term_put (c_string s) (console_text cs)"
      "shows_over font ?base cs' (fb_inb config) (fb_px config m')" by auto
  have "shows_text font cs' (fb_px config m')"
    by (rule shows_text_over(1) [OF area]) (use *(4,6) in simp_all)
  moreover have "\<forall>p. fb_inb config p \<longrightarrow> \<not> console_area p \<longrightarrow> fb_px config m' p = fb_px config m p"
    using *(6) by (simp add: shows_over_def text_over_def cleared_def)
  ultimately show ?thesis using * by (simp add: PutString_def)
qed

theorem PutString_refines_terminal_witness:
  "\<exists>cs' m'. PutString (replicate 4096 255) (\<lambda>_. FrameBufferWriter
       \<lparr>fb_frame_buffer = 0x80000000, fb_pixels_per_scan_line = 800, fb_horizontal_resolution = 800,
        fb_vertical_resolution = 600, fb_pixel_format = kPixelBGRResv8BitPerColor\<rparr>) Some [65, 10, 66, 0]
       ((Console_new WHITE BLACK)\<lparr>cs_writer := Some 0\<rparr>, \<lambda>_. 0) = Some (cs', m') \<and>
     console_text cs' = [[65], [66]]"
proof -
  let ?config = "\<lparr>fb_frame_buffer = 0x80000000, fb_pixels_per_scan_line = 800, fb_horizontal_resolution = 800,
        fb_vertical_resolution = 600, fb_pixel_format = kPixelBGRResv8BitPerColor\<rparr>"
  let ?cs = "(Console_new WHITE BLACK)\<lparr>cs_writer := Some 0\<rparr>"
  have wf: "fb_wf ?config" by (simp add: fb_wf_def)
  have inv: "cs_inv ?cs" using Console_new_inv [of WHITE BLACK] by (simp add: cs_inv_def)
  have lines: "console_text ?cs = [[]]"
    using Console_new_text [of WHITE BLACK] by (simp add: console_text_def)
  have "shows_text (replicate 4096 255) ?cs (fb_px ?config (\<lambda>_. 0))"
    unfolding shows_text_def lines
    by (auto simp: text_color_def Let_def fb_px_def Console_new_def BLACK_def)
  moreover have "deref (\<lambda>_. FrameBufferWriter ?config) ?cs = Some (FrameBufferWriter ?config)"
    by (simp add: deref_def)
  ultimately show ?thesis
    using PutString_refines_terminal [OF wf _ _ _ _ inv, of "replicate 4096 255" "[65, 10, 66, 0]"
        "\<lambda>_. FrameBufferWriter ?config" "\<lambda>_. 0"]
    by (auto simp: lines font_wf_def c_string_def term_put_def kColumns_def kRows_def)
qed

end
