(* ===== verification/Logger.thy ===== *)
theory Logger
  imports Console
begin

text \<open>
  The log (\<open>kernel/logger.hpp\<close>, \<open>kernel/logger.cpp\<close>) and \<open>printk\<close> of \<open>kernel/main/main.cpp\<close>. What
  \<open>vsprintf\<close> makes of the format and the arguments, with its terminating zero, is an argument; it is
  written to a buffer of 1024 characters without a check.
\<close>

datatype LogLevel = kError | kWarn | kInfo | kDebug

definition LogLevel_code :: "LogLevel \<Rightarrow> nat" where
  "LogLevel_code l = (case l of kError \<Rightarrow> 3 | kWarn \<Rightarrow> 4 | kInfo \<Rightarrow> 6 | kDebug \<Rightarrow> 7)"

lemma LogLevel_code_inj: "LogLevel_code a = LogLevel_code b \<longleftrightarrow> a = b"
  by (cases a; cases b) (simp_all add: LogLevel_code_def)

text \<open>The enumeration is compared as a number.\<close>

instantiation LogLevel :: linorder
begin

definition less_eq_LogLevel :: "LogLevel \<Rightarrow> LogLevel \<Rightarrow> bool" where
  "a \<le> b \<longleftrightarrow> LogLevel_code a \<le> LogLevel_code b"

definition less_LogLevel :: "LogLevel \<Rightarrow> LogLevel \<Rightarrow> bool" where
  "a < b \<longleftrightarrow> LogLevel_code a < LogLevel_code b"

instance
  by standard (auto simp: less_eq_LogLevel_def less_LogLevel_def LogLevel_code_inj)

end

text \<open>The value of \<open>log_level\<close> before the first \<open>SetLogLevel\<close>.\<close>

definition initial_log_level :: LogLevel where "initial_log_level = kWarn"

definition SetLogLevel :: "LogLevel \<Rightarrow> LogLevel \<Rightarrow> LogLevel" where
  "SetLogLevel level log_level = level"

definition kMessageBufferSize :: nat where "kMessageBufferSize = 1024"

text \<open>\<open>printk\<close>, and \<open>Log\<close> for the current level; they return the number of characters.\<close>

definition printk ::
  "u8 list \<Rightarrow> (nat \<Rightarrow> 'w PixelWriter) \<Rightarrow> ('w \<Rightarrow> 'w option) \<Rightarrow> u8 list \<Rightarrow> Console \<times> 'w \<Rightarrow> (nat \<times> Console \<times> 'w) option" where
  "printk font writers redraw s st =
     (if kMessageBufferSize < length s then None
      else map_option (Pair (length s - 1)) (PutString font writers redraw s st))"

definition Log ::
  "u8 list \<Rightarrow> (nat \<Rightarrow> 'w PixelWriter) \<Rightarrow> ('w \<Rightarrow> 'w option) \<Rightarrow> LogLevel \<Rightarrow> LogLevel \<Rightarrow> u8 list \<Rightarrow> Console \<times> 'w \<Rightarrow>
     (nat \<times> Console \<times> 'w) option" where
  "Log font writers redraw log_level level s st =
     (if log_level < level then Some (0, st)
      else if kMessageBufferSize < length s then None
      else map_option (Pair (length s - 1)) (PutString font writers redraw s st))"

lemma Log_is_printk: "Log font writers redraw log_level level s st =
    (if level \<le> log_level then printk font writers redraw s st else Some (0, st))"
  by (auto simp: Log_def printk_def)

text \<open>At the level the kernel sets, warnings and errors are printed and nothing else.\<close>

lemma Log_at_kWarn:
  "level \<in> {kInfo, kDebug} \<Longrightarrow> Log font writers redraw (SetLogLevel kWarn l) level s st = Some (0, st)"
  "level \<in> {kError, kWarn} \<Longrightarrow> Log font writers redraw (SetLogLevel kWarn l) level s st = printk font writers redraw s st"
  by (auto simp: Log_is_printk SetLogLevel_def less_eq_LogLevel_def LogLevel_code_def)

end
