(* ===== verification/Layer.thy ===== *)
theory Layer
  imports Glyphs
begin

text \<open>
  Layers and the layer manager (\<open>kernel/layer\<close>) and the mouse observer of \<open>kernel/main\<close>. A
  \<open>shared_ptr<Window>\<close> is an address in a store of windows, a \<open>Layer*\<close> an index into the
  manager's \<open>layers_\<close>, whose elements never move, or \<open>None\<close> for the null pointer. The position
  of a layer is indeterminate until the first \<open>Move\<close>. Iterators into \<open>layer_stack_\<close> are
  positions, as they are for \<open>std::vector\<close>.

  Proved: \<open>UpDown\<close> and \<open>Hide\<close> move one layer and keep the order of the others, and \<open>Draw\<close> gives
  every pixel the colour of the topmost visible layer that shows one there.
\<close>

section \<open>Layers\<close>

type_synonym window_ptr = nat
type_synonym layer_ptr = "nat option"
type_synonym window_store = "window_ptr \<Rightarrow> Window"

record Layer =
  ly_id :: u32
  ly_pos :: "Vector2D option"
  ly_window :: "window_ptr option"

definition Layer_new :: "u32 \<Rightarrow> Layer" where
  "Layer_new i = \<lparr>ly_id = i, ly_pos = None, ly_window = None\<rparr>"

definition Layer_ID :: "Layer \<Rightarrow> u32" where
  "Layer_ID l = ly_id l"

definition Layer_GetWindow :: "Layer \<Rightarrow> window_ptr option" where
  "Layer_GetWindow l = ly_window l"

definition Layer_SetWindow :: "window_ptr option \<Rightarrow> Layer \<Rightarrow> Layer" where
  "Layer_SetWindow window l = l\<lparr>ly_window := window\<rparr>"

definition Layer_Move :: "Vector2D \<Rightarrow> Layer \<Rightarrow> Layer" where
  "Layer_Move pos l = l\<lparr>ly_pos := Some pos\<rparr>"

definition Layer_MoveRelative :: "Vector2D \<Rightarrow> Layer \<Rightarrow> Layer option" where
  "Layer_MoveRelative pos_diff l =
     do { p \<leftarrow> ly_pos l; p' \<leftarrow> Vector2D_add p pos_diff; Some (l\<lparr>ly_pos := Some p'\<rparr>) }"

definition Layer_DrawTo :: "window_store \<Rightarrow> Layer \<Rightarrow> 'w PixelWriter \<Rightarrow> 'w \<Rightarrow> 'w option" where
  "Layer_DrawTo ws l writer w =
     (case ly_window l of
        None \<Rightarrow> Some w
      | Some a \<Rightarrow> do { pos \<leftarrow> ly_pos l; Window_DrawTo (ws a) writer pos w })"

section \<open>The layer manager\<close>

record 'w LayerManager =
  lm_writer :: "'w PixelWriter option"
  lm_layers :: "Layer list"
  lm_layer_stack :: "layer_ptr list"
  lm_latest_id :: u32

definition LayerManager_new :: "'w LayerManager" where
  "LayerManager_new = \<lparr>lm_writer = None, lm_layers = [], lm_layer_stack = [], lm_latest_id = 0\<rparr>"

definition LayerManager_SetWriter :: "'w PixelWriter option \<Rightarrow> 'w LayerManager \<Rightarrow> 'w LayerManager" where
  "LayerManager_SetWriter writer lm = lm\<lparr>lm_writer := writer\<rparr>"

text \<open>The index of the new layer stands for the returned reference.\<close>

definition LayerManager_NewLayer :: "'w LayerManager \<Rightarrow> nat \<times> 'w LayerManager" where
  "LayerManager_NewLayer lm =
     (let i = lm_latest_id lm + 1
      in (length (lm_layers lm), lm\<lparr>lm_latest_id := i, lm_layers := lm_layers lm @ [Layer_new i]\<rparr>))"

text \<open>\<open>std::find_if\<close> and \<open>std::find\<close>: the first matching position, if any.\<close>

fun find_index :: "('a \<Rightarrow> bool) \<Rightarrow> 'a list \<Rightarrow> nat option" where
  "find_index P [] = None"
| "find_index P (x # xs) = (if P x then Some 0 else map_option Suc (find_index P xs))"

definition FindLayer :: "u32 \<Rightarrow> 'w LayerManager \<Rightarrow> layer_ptr" where
  "FindLayer i lm = find_index (\<lambda>elem. Layer_ID elem = i) (lm_layers lm)"

text \<open>A member function called through a \<open>Layer*\<close>.\<close>

definition at_layer :: "layer_ptr \<Rightarrow> (Layer \<Rightarrow> Layer option) \<Rightarrow> 'w LayerManager \<Rightarrow> 'w LayerManager option" where
  "at_layer p f lm =
     (case p of
        None \<Rightarrow> None
      | Some k \<Rightarrow>
          if k < length (lm_layers lm)
          then do { l \<leftarrow> f (lm_layers lm ! k); Some (lm\<lparr>lm_layers := (lm_layers lm)[k := l]\<rparr>) }
          else None)"

definition LayerManager_Draw :: "window_store \<Rightarrow> 'w LayerManager \<Rightarrow> 'w \<Rightarrow> 'w option" where
  "LayerManager_Draw ws lm =
     foldM (\<lambda>layer w.
       case (layer, lm_writer lm) of
         (Some k, Some writer) \<Rightarrow>
           if k < length (lm_layers lm) then Layer_DrawTo ws (lm_layers lm ! k) writer w else None
       | _ \<Rightarrow> None) (lm_layer_stack lm)"

definition LayerManager_Move :: "u32 \<Rightarrow> Vector2D \<Rightarrow> 'w LayerManager \<Rightarrow> 'w LayerManager option" where
  "LayerManager_Move i new_position lm =
     at_layer (FindLayer i lm) (\<lambda>l. Some (Layer_Move new_position l)) lm"

definition LayerManager_MoveRelative :: "u32 \<Rightarrow> Vector2D \<Rightarrow> 'w LayerManager \<Rightarrow> 'w LayerManager option" where
  "LayerManager_MoveRelative i pos_diff lm =
     at_layer (FindLayer i lm) (Layer_MoveRelative pos_diff) lm"

definition vector_erase :: "nat \<Rightarrow> 'a list \<Rightarrow> 'a list" where
  "vector_erase k xs = take k xs @ drop (Suc k) xs"

definition vector_insert :: "nat \<Rightarrow> 'a \<Rightarrow> 'a list \<Rightarrow> 'a list" where
  "vector_insert k x xs = take k xs @ x # drop k xs"

definition Hide :: "u32 \<Rightarrow> 'w LayerManager \<Rightarrow> 'w LayerManager" where
  "Hide i lm =
     (let layer = FindLayer i lm in
      case find_index (\<lambda>l. l = layer) (lm_layer_stack lm) of
        None \<Rightarrow> lm
      | Some pos \<Rightarrow> lm\<lparr>lm_layer_stack := vector_erase pos (lm_layer_stack lm)\<rparr>)"

definition UpDown :: "u32 \<Rightarrow> int \<Rightarrow> 'w LayerManager \<Rightarrow> 'w LayerManager" where
  "UpDown i new_height lm =
     (if new_height < 0 then Hide i lm
      else
        let stack = lm_layer_stack lm;
            h = (if length stack < nat new_height then length stack else nat new_height);
            layer = FindLayer i lm
        in case find_index (\<lambda>l. l = layer) stack of
             None \<Rightarrow> lm\<lparr>lm_layer_stack := vector_insert h layer stack\<rparr>
           | Some old_pos \<Rightarrow>
               let new_pos = (if h = length stack then h - 1 else h)
               in lm\<lparr>lm_layer_stack := vector_insert new_pos layer (vector_erase old_pos stack)\<rparr>)"

text \<open>\<open>MouseObserver\<close> of \<open>main.cpp\<close>: the displacements are signed bytes.\<close>

definition MouseObserver ::
  "window_store \<Rightarrow> u32 \<Rightarrow> u8 \<Rightarrow> u8 \<Rightarrow> 'w LayerManager \<times> 'w \<Rightarrow> ('w LayerManager \<times> 'w) option" where
  "MouseObserver ws mouse_layer_id displacement_x displacement_y = (\<lambda>(lm, w).
     do {
       lm' \<leftarrow> LayerManager_MoveRelative mouse_layer_id (vec (sint displacement_x) (sint displacement_y)) lm;
       w' \<leftarrow> LayerManager_Draw ws lm' w;
       Some (lm', w')
     })"

section \<open>The order of the layers\<close>

text \<open>Every layer of the stack exists and occurs once, and no two layers have the same number.\<close>

definition lm_wf :: "'w LayerManager \<Rightarrow> bool" where
  "lm_wf lm \<longleftrightarrow> distinct (map ly_id (lm_layers lm)) \<and> distinct (lm_layer_stack lm) \<and>
     (\<forall>p \<in> set (lm_layer_stack lm). \<exists>k < length (lm_layers lm). p = Some k)"

lemma find_index_None: "find_index P xs = None \<longleftrightarrow> (\<forall>x \<in> set xs. \<not> P x)"
  by (induction xs) auto

lemma find_index_Some:
  "find_index P xs = Some k \<longleftrightarrow> k < length xs \<and> P (xs ! k) \<and> (\<forall>j < k. \<not> P (xs ! j))"
proof (induction xs arbitrary: k)
  case (Cons x xs)
  then show ?case by (cases k) (auto simp: All_less_Suc2)
qed simp

lemma find_index_erase:
  "find_index (\<lambda>y. y = x) xs = Some k \<Longrightarrow> vector_erase k xs = remove1 x xs"
  by (induction xs arbitrary: k) (auto simp: vector_erase_def split: if_splits)

lemma FindLayer_Some: "FindLayer i lm = Some k \<Longrightarrow> k < length (lm_layers lm) \<and> ly_id (lm_layers lm ! k) = i"
  by (simp add: FindLayer_def find_index_Some Layer_ID_def)

lemma FindLayer_unique:
  "distinct (map ly_id (lm_layers lm)) \<Longrightarrow> k < length (lm_layers lm) \<Longrightarrow> ly_id (lm_layers lm ! k) = i \<Longrightarrow>
    FindLayer i lm = Some k"
  by (auto simp: FindLayer_def find_index_Some Layer_ID_def distinct_conv_nth)

lemma Hide_stack: "lm_layer_stack (Hide i lm) = remove1 (FindLayer i lm) (lm_layer_stack lm)"
  by (auto simp: Hide_def Let_def find_index_erase find_index_None remove1_idem split: option.split)

text \<open>What \<open>UpDown\<close> does to the stack, in one equation.\<close>

lemma UpDown_stack:
  fixes i :: u32
  assumes "0 \<le> h" and "distinct (lm_layer_stack lm)"
  defines "rest \<equiv> remove1 (FindLayer i lm) (lm_layer_stack lm)"
  shows "lm_layer_stack (UpDown i h lm) =
    vector_insert (min (nat h) (length rest)) (FindLayer i lm) rest"
proof (cases "find_index (\<lambda>l. l = FindLayer i lm) (lm_layer_stack lm)")
  case None
  then have "rest = lm_layer_stack lm" by (auto simp: rest_def find_index_None remove1_idem)
  with None assms(1) show ?thesis by (simp add: UpDown_def Let_def min_def)
next
  case (Some k)
  then have k: "k < length (lm_layer_stack lm)" "lm_layer_stack lm ! k = FindLayer i lm"
    by (simp_all add: find_index_Some)
  have mem: "FindLayer i lm \<in> set (lm_layer_stack lm)"
    using nth_mem [OF k(1)] unfolding k(2) .
  then have len: "length rest = length (lm_layer_stack lm) - 1" "0 < length (lm_layer_stack lm)"
    by (auto simp: rest_def length_remove1)
  have erase: "vector_erase k (lm_layer_stack lm) = rest"
    unfolding rest_def by (rule find_index_erase [OF Some])
  have "lm_layer_stack (UpDown i h lm) = vector_insert
      (if min (nat h) (length (lm_layer_stack lm)) = length (lm_layer_stack lm)
       then min (nat h) (length (lm_layer_stack lm)) - 1
       else min (nat h) (length (lm_layer_stack lm))) (FindLayer i lm) rest"
    using assms(1) by (simp add: UpDown_def Some erase Let_def min_def)
  also have "(if min (nat h) (length (lm_layer_stack lm)) = length (lm_layer_stack lm)
       then min (nat h) (length (lm_layer_stack lm)) - 1
       else min (nat h) (length (lm_layer_stack lm))) = min (nat h) (length rest)"
    using len by auto
  finally show ?thesis .
qed

lemma set_vector_insert [simp]: "set (vector_insert k x xs) = insert x (set xs)"
proof -
  have "set (ys @ x # zs) = insert x (set (ys @ zs))" for ys zs by auto
  from this [of "take k xs" "drop k xs"] show ?thesis by (simp add: vector_insert_def del: set_append)
qed

lemma distinct_vector_insert [simp]: "distinct (vector_insert k x xs) \<longleftrightarrow> x \<notin> set xs \<and> distinct xs"
proof -
  have "distinct (ys @ x # zs) \<longleftrightarrow> x \<notin> set (ys @ zs) \<and> distinct (ys @ zs)" for ys zs by auto
  from this [of "take k xs" "drop k xs"] show ?thesis
    by (simp add: vector_insert_def del: set_append distinct_append)
qed

lemma nth_vector_insert [simp]: "k \<le> length xs \<Longrightarrow> vector_insert k x xs ! k = x"
  by (simp add: vector_insert_def nth_append)

lemma remove1_vector_insert: "x \<notin> set xs \<Longrightarrow> remove1 x (vector_insert k x xs) = xs"
proof -
  assume "x \<notin> set xs"
  then have "x \<notin> set (take k xs)" by (meson in_set_takeD)
  then show ?thesis by (simp add: vector_insert_def remove1_append)
qed

lemma Hide_layers [simp]: "lm_layers (Hide i lm) = lm_layers lm"
  by (simp add: Hide_def Let_def split: option.split)

lemma UpDown_layers [simp]: "lm_layers (UpDown i h lm) = lm_layers lm"
  by (simp add: UpDown_def Let_def split: option.split)

lemma Hide_wf: "lm_wf lm \<Longrightarrow> lm_wf (Hide i lm)"
  using set_remove1_subset [of "FindLayer i lm" "lm_layer_stack lm"]
  by (auto simp: lm_wf_def Hide_stack)

lemma UpDown_wf:
  assumes "lm_wf lm" and "FindLayer i lm \<noteq> None"
  shows "lm_wf (UpDown i h lm)"
proof (cases "h < 0")
  case True
  then show ?thesis using Hide_wf [OF assms(1)] by (simp add: UpDown_def)
next
  case False
  obtain k where k: "FindLayer i lm = Some k" using assms(2) by blast
  then have "k < length (lm_layers lm)" using FindLayer_Some by blast
  moreover have "distinct (lm_layer_stack lm)" using assms(1) by (simp add: lm_wf_def)
  ultimately show ?thesis
    using assms(1) False UpDown_stack [of h lm i] k set_remove1_subset [of "Some k" "lm_layer_stack lm"]
    by (auto simp: lm_wf_def)
qed

lemma at_layer_stack: "at_layer p f lm = Some lm' \<Longrightarrow> lm_layer_stack lm' = lm_layer_stack lm"
  by (auto simp: at_layer_def bind_eq_Some_conv split: ub_splits)

lemma NewLayer_wf:
  assumes "lm_wf lm" and "lm_latest_id lm + 1 \<notin> ly_id ` set (lm_layers lm)"
  shows "lm_wf (snd (LayerManager_NewLayer lm))"
  using assms by (auto simp: lm_wf_def LayerManager_NewLayer_def Let_def Layer_new_def less_Suc_eq)

section \<open>What Draw shows\<close>

definition layer_shows :: "window_store \<Rightarrow> Layer \<Rightarrow> pixel \<Rightarrow> PixelColor option" where
  "layer_shows ws l p =
     (case (ly_window l, ly_pos l) of (Some a, Some pos) \<Rightarrow> window_shows (ws a) pos p | _ \<Rightarrow> None)"

text \<open>The colour that the last layer of the list, bottom to top, with one at \<open>p\<close> shows there.\<close>

fun topmost :: "window_store \<Rightarrow> Layer list \<Rightarrow> pixel \<Rightarrow> PixelColor option" where
  "topmost ws [] p = None"
| "topmost ws (l # ls) p = (case topmost ws ls p of None \<Rightarrow> layer_shows ws l p | Some c \<Rightarrow> Some c)"

definition visible_layers :: "'w LayerManager \<Rightarrow> Layer list" where
  "visible_layers lm = map (\<lambda>p. lm_layers lm ! the p) (lm_layer_stack lm)"

text \<open>A layer that can be drawn: its window is well formed and it has a position.\<close>

definition layer_ready :: "window_store \<Rightarrow> Layer \<Rightarrow> bool" where
  "layer_ready ws l \<longleftrightarrow> (case ly_window l of None \<Rightarrow> True | Some a \<Rightarrow> win_wf (ws a) \<and> ly_pos l \<noteq> None)"

lemma topmost_shows: "topmost ws ls p = Some c \<Longrightarrow> \<exists>l \<in> set ls. layer_shows ws l p = Some c"
  by (induction ls) (auto split: option.splits)

context pixel_surface
begin

lemma Layer_DrawTo_paint:
  assumes "inv w" and "layer_ready ws l" and "\<And>p c. layer_shows ws l p = Some c \<Longrightarrow> inb p"
  shows "\<exists>w'. Layer_DrawTo ws l pw w = Some w' \<and> inv w' \<and> (\<forall>q. inb q \<longrightarrow>
    px w' q = (case layer_shows ws l q of None \<Rightarrow> px w q | Some c \<Rightarrow> c))"
proof (cases "ly_window l")
  case None
  then show ?thesis using assms(1) by (simp add: Layer_DrawTo_def layer_shows_def)
next
  case (Some a)
  then obtain pos where pos: "ly_pos l = Some pos" "win_wf (ws a)"
    using assms(2) by (auto simp: layer_ready_def)
  have lshows: "layer_shows ws l = window_shows (ws a) pos"
    by (rule ext) (simp add: layer_shows_def Some pos)
  from DrawTo_paint [OF assms(1) pos(2), of pos] assms(3) show ?thesis
    by (simp add: Layer_DrawTo_def Some pos lshows)
qed

lemma Draw_layers_paint:
  assumes "inv w" and "\<forall>k \<in> set ks. k < length layers \<and> layer_ready ws (layers ! k)"
    and "\<And>k p c. k \<in> set ks \<Longrightarrow> layer_shows ws (layers ! k) p = Some c \<Longrightarrow> inb p"
  shows "\<exists>w'. foldM (\<lambda>k w. if k < length layers then Layer_DrawTo ws (layers ! k) pw w else None) ks w = Some w' \<and>
    inv w' \<and> (\<forall>q. inb q \<longrightarrow>
      px w' q = (case topmost ws (map ((!) layers) ks) q of None \<Rightarrow> px w q | Some c \<Rightarrow> c))"
  using assms
proof (induction ks arbitrary: w)
  case Nil
  then show ?case by simp
next
  case (Cons k ks)
  have k: "k < length layers" "layer_ready ws (layers ! k)" using Cons.prems(2) by simp_all
  have in_k: "layer_shows ws (layers ! k) p = Some c \<Longrightarrow> inb p" for p c
    by (rule Cons.prems(3) [of k]) simp_all
  have "\<exists>w1. Layer_DrawTo ws (layers ! k) pw w = Some w1 \<and> inv w1 \<and> (\<forall>q. inb q \<longrightarrow>
      px w1 q = (case layer_shows ws (layers ! k) q of None \<Rightarrow> px w q | Some c \<Rightarrow> c))"
    by (rule Layer_DrawTo_paint [OF Cons.prems(1) k(2)]) (rule in_k)
  then obtain w1 where
    w1: "Layer_DrawTo ws (layers ! k) pw w = Some w1" "inv w1"
      "\<forall>q. inb q \<longrightarrow> px w1 q = (case layer_shows ws (layers ! k) q of None \<Rightarrow> px w q | Some c \<Rightarrow> c)"
    by blast
  have "\<exists>w'. foldM (\<lambda>k w. if k < length layers then Layer_DrawTo ws (layers ! k) pw w else None) ks w1 = Some w' \<and>
    inv w' \<and> (\<forall>q. inb q \<longrightarrow>
      px w' q = (case topmost ws (map ((!) layers) ks) q of None \<Rightarrow> px w1 q | Some c \<Rightarrow> c))"
    by (rule Cons.IH [OF w1(2)]) (use Cons.prems(2,3) in auto)
  then obtain w' where w': "foldM (\<lambda>k w. if k < length layers then Layer_DrawTo ws (layers ! k) pw w else None) ks w1 = Some w'"
    "inv w'" "\<forall>q. inb q \<longrightarrow>
      px w' q = (case topmost ws (map ((!) layers) ks) q of None \<Rightarrow> px w1 q | Some c \<Rightarrow> c)" by blast
  have "px w' q = (case topmost ws (map ((!) layers) (k # ks)) q of None \<Rightarrow> px w q | Some c \<Rightarrow> c)" if "inb q" for q
    using w'(3) [rule_format, OF that] w1(3) [rule_format, OF that] by (simp split: option.split)
  with w'(1,2) w1(1) k(1) show ?case by simp
qed

lemma Draw_paint:
  assumes "inv w" and "lm_wf lm" and "lm_writer lm = Some pw"
    and "\<forall>l \<in> set (visible_layers lm). layer_ready ws l \<and> (\<forall>p c. layer_shows ws l p = Some c \<longrightarrow> inb p)"
  shows "\<exists>w'. LayerManager_Draw ws lm w = Some w' \<and> inv w' \<and> (\<forall>q. inb q \<longrightarrow>
    px w' q = (case topmost ws (visible_layers lm) q of None \<Rightarrow> px w q | Some c \<Rightarrow> c))"
proof -
  define ks where "ks = map the (lm_layer_stack lm)"
  have stack: "lm_layer_stack lm = map Some ks"
    using assms(2) unfolding lm_wf_def ks_def by (auto intro!: map_idI [symmetric] simp: comp_def)
  have ks: "\<forall>k \<in> set ks. k < length (lm_layers lm)"
    using assms(2) by (auto simp: lm_wf_def stack)
  have vis: "visible_layers lm = map ((!) (lm_layers lm)) ks"
    by (simp add: visible_layers_def stack)
  have draw: "LayerManager_Draw ws lm w =
      foldM (\<lambda>k w. if k < length (lm_layers lm) then Layer_DrawTo ws (lm_layers lm ! k) pw w else None) ks w" for w
    unfolding LayerManager_Draw_def stack assms(3)
    by (induction ks arbitrary: w) (simp_all split: option.split)
  show ?thesis
    unfolding draw vis
    by (rule Draw_layers_paint [OF assms(1)]) (use ks assms(4) vis in auto)
qed

end

section \<open>Properties\<close>

text \<open>
  C28. \<open>UpDown\<close> with a known number and a height that is not negative puts that layer at that
  height, or on top if the height is too large, whether it was hidden or shown, and keeps the
  order of the other layers; the stack stays well formed.
\<close>

theorem UpDown_places_layer:
  assumes "lm_wf lm" and "FindLayer i lm = Some k" and "0 \<le> h"
  shows "lm_wf (UpDown i h lm) \<and>
    lm_layer_stack (UpDown i h lm) !
      min (nat h) (length (remove1 (Some k) (lm_layer_stack lm))) = Some k \<and>
    remove1 (Some k) (lm_layer_stack (UpDown i h lm)) = remove1 (Some k) (lm_layer_stack lm)"
proof -
  have d: "distinct (lm_layer_stack lm)" using assms(1) by (simp add: lm_wf_def)
  then have "Some k \<notin> set (remove1 (Some k) (lm_layer_stack lm))" by simp
  then show ?thesis
    using UpDown_wf [OF assms(1)] assms(2) UpDown_stack [OF assms(3) d, of i]
    by (simp add: remove1_vector_insert)
qed

text \<open>A manager with two layers on a frame buffer of 8 by 2 pixels: a red window below a blue one.\<close>

definition sample_fb :: FrameBufferConfig where
  "sample_fb = \<lparr>fb_frame_buffer = 0x1000, fb_pixels_per_scan_line = 8, fb_horizontal_resolution = 8,
     fb_vertical_resolution = 2, fb_pixel_format = kPixelRGBResv8BitPerColor\<rparr>"

definition sample_windows :: window_store where
  "sample_windows = (\<lambda>_. \<lparr>win_width = 1, win_height = 1, win_data = [[RGB 0 0 255]], win_transparent_color = None\<rparr>)
     (0 := \<lparr>win_width = 2, win_height = 1, win_data = [[RGB 255 0 0, RGB 255 0 0]], win_transparent_color = None\<rparr>)"

definition sample_lm :: "mem LayerManager" where
  "sample_lm = \<lparr>lm_writer = Some (FrameBufferWriter sample_fb),
     lm_layers = [\<lparr>ly_id = 1, ly_pos = Some (vec 3 1), ly_window = Some 0\<rparr>,
       \<lparr>ly_id = 2, ly_pos = Some (vec 4 1), ly_window = Some 1\<rparr>],
     lm_layer_stack = [Some 0, Some 1], lm_latest_id = 2\<rparr>"

lemma sample_lm_wf: "lm_wf sample_lm"
  by (auto simp: lm_wf_def sample_lm_def)

theorem UpDown_places_layer_witness:
  "lm_wf (UpDown 1 7 sample_lm) \<and> lm_layer_stack (UpDown 1 7 sample_lm) ! 1 = Some 0"
proof -
  have "FindLayer 1 sample_lm = Some 0" by (simp add: FindLayer_def sample_lm_def Layer_ID_def)
  from UpDown_places_layer [OF sample_lm_wf this, of 7] show ?thesis
    by (simp add: sample_lm_def)
qed

text \<open>
  C16. When every visible layer has a position and its window lies on the screen, \<open>Draw\<close> onto a frame
  buffer completes, gives each pixel the colour of the topmost layer that is not transparent
  there, leaves a pixel no layer covers as it was, and writes only into the frame buffer.
\<close>

theorem Draw_shows_topmost:
  assumes "fb_wf config" and "lm_wf lm" and "lm_writer lm = Some (FrameBufferWriter config)"
    and "\<forall>l \<in> set (visible_layers lm). layer_ready ws l \<and>
      (\<forall>p c. layer_shows ws l p = Some c \<longrightarrow> fb_inb config p)"
  shows "\<exists>m'. LayerManager_Draw ws lm m = Some m' \<and> fb_only config m m' \<and>
    (\<forall>p. fb_inb config p \<longrightarrow> fb_px config m' p =
      (case topmost ws (visible_layers lm) p of None \<Rightarrow> fb_px config m p | Some c \<Rightarrow> c))"
proof -
  have "fb_wf config \<and> fb_only config m m" using assms(1) by simp
  from fb.Draw_paint [OF this assms(2-4)] show ?thesis by blast
qed

theorem Draw_shows_topmost_witness:
  "\<exists>m'. LayerManager_Draw sample_windows sample_lm (\<lambda>_. 0) = Some m' \<and>
     fb_px sample_fb m' (3, 1) = RGB 255 0 0 \<and> fb_px sample_fb m' (4, 1) = RGB 0 0 255 \<and>
     fb_px sample_fb m' (5, 1) = RGB 0 0 0"
proof -
  have wf: "fb_wf sample_fb" by (simp add: fb_wf_def sample_fb_def)
  have writer: "lm_writer sample_lm = Some (FrameBufferWriter sample_fb)" by (simp add: sample_lm_def)
  have vis: "visible_layers sample_lm = [\<lparr>ly_id = 1, ly_pos = Some (vec 3 1), ly_window = Some 0\<rparr>,
       \<lparr>ly_id = 2, ly_pos = Some (vec 4 1), ly_window = Some 1\<rparr>]"
    by (simp add: visible_layers_def sample_lm_def)
  have ready: "\<forall>l \<in> set (visible_layers sample_lm). layer_ready sample_windows l \<and>
      (\<forall>p c. layer_shows sample_windows l p = Some c \<longrightarrow> fb_inb sample_fb p)"
    unfolding vis
    by (auto simp: layer_ready_def sample_windows_def win_wf_def int32_def layer_shows_def
        window_shows_def win_inb_def Let_def fb_inb_def sample_fb_def split: if_splits)
  from Draw_shows_topmost [OF wf sample_lm_wf writer ready, of "\<lambda>_. 0"] obtain m' where
    m': "LayerManager_Draw sample_windows sample_lm (\<lambda>_. 0) = Some m'"
    "\<forall>p. fb_inb sample_fb p \<longrightarrow> fb_px sample_fb m' p =
      (case topmost sample_windows (visible_layers sample_lm) p of
         None \<Rightarrow> fb_px sample_fb (\<lambda>_. 0) p | Some c \<Rightarrow> c)" by blast
  have "fb_inb sample_fb (3, 1)" "fb_inb sample_fb (4, 1)" "fb_inb sample_fb (5, 1)"
    by (simp_all add: fb_inb_def sample_fb_def)
  then have "fb_px sample_fb m' (3, 1) = RGB 255 0 0 \<and> fb_px sample_fb m' (4, 1) = RGB 0 0 255 \<and>
     fb_px sample_fb m' (5, 1) = RGB 0 0 0"
    using m'(2) unfolding vis
    by (simp add: layer_shows_def window_shows_def sample_windows_def win_inb_def win_px_def fb_px_def
        sample_fb_def Let_def)
  with m'(1) show ?thesis by blast
qed

text \<open>
  \<open>UpDown\<close> does not check its number: for a number no layer has it puts a null pointer on the
  stack, and every later \<open>Draw\<close> dereferences it.
\<close>

lemma UpDown_unknown_breaks_Draw:
  assumes "FindLayer i lm = None" and "0 \<le> h" and "distinct (lm_layer_stack lm)"
  shows "LayerManager_Draw ws (UpDown i h lm) w = None"
proof -
  have "None \<in> set (lm_layer_stack (UpDown i h lm))"
    using UpDown_stack [OF assms(2,3), of i] assms(1) by simp
  then show ?thesis
    unfolding LayerManager_Draw_def by (rule foldM_None [where P = "\<lambda>_. True"]) simp_all
qed

lemma UpDown_unknown_breaks_Draw_witness:
  "LayerManager_Draw sample_windows (UpDown 9 0 sample_lm) (\<lambda>_. 0) = None"
  by (rule UpDown_unknown_breaks_Draw) (simp_all add: FindLayer_def sample_lm_def Layer_ID_def)

text \<open>
  C29. Neither \<open>DrawTo\<close> nor the frame-buffer writer clips: a one-pixel window whose layer is moved to
  the row just below the screen is written to memory past the end of the frame buffer.
\<close>

theorem DrawTo_below_screen_escapes:
  assumes "Window_new 1 1 = Some win" and "fb_wf config"
    and "0 \<le> sint (fb_vertical_resolution config)"
    and "4 * unat (fb_pixels_per_scan_line config) * unat (fb_vertical_resolution config) < 2 ^ 32"
    and "unat (fb_frame_buffer config) + 2 ^ 32 \<le> 2 ^ 64"
  shows "\<exists>a m'. Window_DrawTo win (FrameBufferWriter config) (vec 0 (sint (fb_vertical_resolution config))) m = Some m' \<and>
    a \<notin> fb_bytes config \<and> m' a = 0"
proof -
  let ?v = "fb_vertical_resolution config" and ?l = "fb_pixels_per_scan_line config"
  have int32: "int32 (sint ?v)" using assms(3) sint_lt [of ?v] by (simp add: int32_def)
  have win: "win_width win = 1" "win_height win = 1" "win_data win = [[RGB 0 0 0]]" "win_transparent_color win = None"
    using assms(1) by (auto simp: Window_new_def)
  let ?a = "PixelAt config 0 (sint ?v)"
  have draw: "Window_DrawTo win (FrameBufferWriter config) (vec 0 (sint ?v)) m =
      pw_Write (FrameBufferWriter config) 0 (sint ?v) (RGB 0 0 0) m"
    using int32 by (simp add: Window_DrawTo_def win Window_Width_def Window_Height_def Window_At_def
        call_Write_def int32_def split: option.split)
  obtain m' where m': "pw_Write (FrameBufferWriter config) 0 (sint ?v) (RGB 0 0 0) m = Some m'" "m' ?a = 0"
    by (cases "fb_pixel_format config")
      (auto simp: FrameBufferWriter_def BGR_Write_def RGB_Write_def Let_def)
  have "unat (4 * (?l * ?v) :: u32) = 4 * unat ?l * unat ?v"
    using assms(4) by (simp add: unat_word_ariths mult.assoc)
  then have "unat ?a = unat (fb_frame_buffer config) + 4 * unat ?l * unat ?v"
    using assms(4,5) by (simp add: PixelAt_def unat_word_ariths unsigned_ucast_eq take_bit_nat_eq_self)
  then have "?a \<notin> fb_bytes config" by (simp add: fb_bytes_def)
  with m' draw show ?thesis by auto
qed

theorem DrawTo_below_screen_escapes_witness:
  "\<exists>win a m'. Window_new 1 1 = Some win \<and>
     Window_DrawTo win (FrameBufferWriter sample_fb) (vec 0 2) (\<lambda>_. 7) = Some m' \<and>
     a \<notin> fb_bytes sample_fb \<and> m' a = 0"
proof -
  obtain win where win: "Window_new 1 1 = Some win" by (simp add: Window_new_def)
  have "fb_wf sample_fb" by (simp add: fb_wf_def sample_fb_def)
  from DrawTo_below_screen_escapes [OF win this, of "\<lambda>_. 7"] win show ?thesis
    by (simp add: sample_fb_def)
qed

end
