(* ===== verification/Desktop.thy ===== *)
theory Desktop
  imports Logger Layer
begin

text \<open>
  The picture the kernel starts with (\<open>kernel/main/main.cpp\<close>, \<open>KernelMainNewStack\<close>): a window with the
  desktop and the console's text below one with the mouse cursor, drawn to the frame buffer by a
  new layer manager. The writers have the numbers 0, the frame buffer, and 1, the desktop window.
  Allocation of the windows, layers and the manager is taken to succeed.
\<close>

definition bgwriter_ptr :: nat where "bgwriter_ptr = 1"

text \<open>\<open>NewLayer().SetWindow(window).Move(pos).ID()\<close>\<close>

definition NewLayerWith :: "window_ptr \<Rightarrow> Vector2D \<Rightarrow> 'w LayerManager \<Rightarrow> (u32 \<times> 'w LayerManager) option" where
  "NewLayerWith window pos lm =
     (let (k, lm) = LayerManager_NewLayer lm in do {
        lm \<leftarrow> at_layer (Some k) (\<lambda>l. Some (Layer_Move pos (Layer_SetWindow (Some window) l))) lm;
        Some (Layer_ID (lm_layers lm ! k), lm)
      })"

text \<open>The windows, the manager, the number of the cursor's layer, the console and the screen.\<close>

definition SetupDesktop ::
  "u8 list \<Rightarrow> FrameBufferConfig \<Rightarrow> 'w PixelWriter \<Rightarrow> Console \<times> 'w \<Rightarrow>
     (window_store \<times> 'w LayerManager \<times> u32 \<times> Console \<times> 'w) option" where
  "SetupDesktop font config pixel_writer = (\<lambda>(console, w). do {
     let kFrameWidth = sint (fb_horizontal_resolution config);
     let kFrameHeight = sint (fb_vertical_resolution config);
     bgwindow \<leftarrow> Window_new kFrameWidth kFrameHeight;
     let bgwriter = Window_Writer bgwindow;
     bgwindow \<leftarrow> DrawDesktop bgwriter bgwindow;
     (console, bgwindow) \<leftarrow> Console_SetWriter font (\<lambda>_. bgwriter) (Some bgwriter_ptr) (console, bgwindow);
     mouse_window \<leftarrow> Window_new kMouseCursorWidth kMouseCursorHeight;
     let mouse_window = Window_SetTransparentColor (Some kMouseTransparentColor) mouse_window;
     mouse_window \<leftarrow> DrawMouseCursor (Window_Writer mouse_window) (vec 0 0) mouse_window;
     let windows = (\<lambda>a. if a = 0 then bgwindow else mouse_window);
     let layer_manager = LayerManager_SetWriter (Some pixel_writer) LayerManager_new;
     (bglayer_id, layer_manager) \<leftarrow> NewLayerWith 0 (vec 0 0) layer_manager;
     (mouse_layer_id, layer_manager) \<leftarrow> NewLayerWith 1 (vec 200 200) layer_manager;
     let layer_manager = UpDown mouse_layer_id 1 (UpDown bglayer_id 0 layer_manager);
     w \<leftarrow> LayerManager_Draw windows layer_manager w;
     Some (windows, layer_manager, mouse_layer_id, console, w)
   })"


section \<open>The layers\<close>

definition desktop_manager :: "'w PixelWriter \<Rightarrow> Vector2D \<Rightarrow> 'w LayerManager" where
  "desktop_manager pixel_writer pos = \<lparr>lm_writer = Some pixel_writer,
     lm_layers = [\<lparr>ly_id = 1, ly_pos = Some (vec 0 0), ly_window = Some 0\<rparr>,
       \<lparr>ly_id = 2, ly_pos = Some pos, ly_window = Some 1\<rparr>],
     lm_layer_stack = [Some 0, Some 1], lm_latest_id = 2\<rparr>"

lemma desktop_layers:
  "do {
     (bglayer_id, layer_manager) \<leftarrow> NewLayerWith 0 (vec 0 0) (LayerManager_SetWriter (Some pixel_writer) LayerManager_new);
     (mouse_layer_id, layer_manager) \<leftarrow> NewLayerWith 1 (vec 200 200) layer_manager;
     Some (mouse_layer_id, UpDown mouse_layer_id 1 (UpDown bglayer_id 0 layer_manager))
   } = Some (2, desktop_manager pixel_writer (vec 200 200))"
  by (simp add: NewLayerWith_def LayerManager_NewLayer_def LayerManager_SetWriter_def LayerManager_new_def at_layer_def
    Layer_new_def Layer_Move_def Layer_SetWindow_def Layer_ID_def UpDown_def FindLayer_def vector_insert_def Let_def desktop_manager_def)

lemma desktop_manager_wf: "lm_wf (desktop_manager pw pos)"
  by (auto simp: lm_wf_def desktop_manager_def)

lemma desktop_visible:
  "visible_layers (desktop_manager pw pos) = [\<lparr>ly_id = 1, ly_pos = Some (vec 0 0), ly_window = Some 0\<rparr>,
     \<lparr>ly_id = 2, ly_pos = Some pos, ly_window = Some 1\<rparr>]"
  by (simp add: visible_layers_def desktop_manager_def)

section \<open>The windows\<close>

text \<open>The colour of the cursor at a pixel of the screen, if it shows one there.\<close>

definition cursor_at :: "Vector2D \<Rightarrow> pixel \<Rightarrow> PixelColor option" where
  "cursor_at pos = (\<lambda>(x, y). let c = cursor_color (x - v_x pos) (y - v_y pos) in
     if v_x pos \<le> x \<and> x < v_x pos + kMouseCursorWidth \<and> v_y pos \<le> y \<and> y < v_y pos + kMouseCursorHeight \<and>
       c \<noteq> kMouseTransparentColor then Some c else None)"

text \<open>The desktop with the text of the console on it.\<close>

definition desktop_with_text :: "u8 list \<Rightarrow> Console \<Rightarrow> int \<Rightarrow> int \<Rightarrow> image" where
  "desktop_with_text font cs width height = text_over font (desktop_color width height) cs"

lemma background_window:
  assumes "int32 width" and "int32 height" and "640 \<le> width" and "400 \<le> height"
    and "font_wf font" and "cs_inv cs" and "cs_writer cs \<noteq> Some bgwriter_ptr"
  shows "\<exists>win0 win1 win2. Window_new width height = Some win0 \<and> DrawDesktop (Window_Writer win0) win0 = Some win1 \<and>
    Console_SetWriter font (\<lambda>_. Window_Writer win0) (Some bgwriter_ptr) (cs, win1) =
      Some (cs\<lparr>cs_writer := Some bgwriter_ptr\<rparr>, win2) \<and>
    win_wf win2 \<and> win_width win2 = width \<and> win_height win2 = height \<and> win_transparent_color win2 = None \<and>
    (\<forall>p. win_inb win2 p \<longrightarrow> win_px win2 p = desktop_with_text font cs width height p)"
proof -
  obtain win0 where win0: "Window_new width height = Some win0" using assms(3,4) by (simp add: Window_new_def)
  note wf = Window_new_wf [OF assms(1,2) win0]
  let ?pw = "WindowWriter win0"
  have dims: "pw_Width ?pw = width" "pw_Height ?pw = height"
    using wf by (simp_all add: WindowWriter_def Window_Width_def Window_Height_def)
  have inb: "win_wf win0 \<and> win_inb win0 (x, y)" if "0 \<le> x" "x < width" "0 \<le> y" "y < height" for x y
    using that wf by (simp add: win_inb_def)
  have start: "win_wf win0 \<and> win_same win0 win0" using wf(1) by (simp add: win_same_def)
  obtain win1 where win1: "DrawDesktop ?pw win0 = Some win1" "win_wf win1 \<and> win_same win0 win1"
    "\<forall>x y. 0 \<le> x \<longrightarrow> x < width \<longrightarrow> 0 \<le> y \<longrightarrow> y < height \<longrightarrow> win_px win1 (x, y) = desktop_color width height (x, y)"
    using win.DrawDesktop_paint [OF start, unfolded dims, OF inb] assms(3,4) by auto
  have area: "win_wf win0 \<and> win_inb win0 q" if "console_area q" for q
    using that wf assms(3,4) by (auto simp: console_area_def win_inb_def kColumns_def kRows_def)
  let ?cs = "cs\<lparr>cs_writer := Some bgwriter_ptr\<rparr>"
  have buf: "buf_wf ?cs" using cs_inv_buf_wf [OF assms(6)] by (simp add: buf_wf_def)
  have deref: "deref (\<lambda>_. ?pw) ?cs = Some ?pw" by (simp add: deref_def)
  obtain win2 where win2: "Refresh font (\<lambda>_. ?pw) ?cs win1 = Some win2" "win_wf win2 \<and> win_same win0 win2"
    "\<forall>q. win_wf win0 \<and> win_inb win0 q \<longrightarrow> win_px win2 q =
      (if \<exists>r < kRows. q \<in> set (string_pixels font 0 (16 * int r) (c_string (cs_buffer ?cs ! r)))
       then cs_fg_color ?cs else win_px win1 q)"
    using win.Refresh_paint [OF win1(2) assms(5) buf area deref] by blast
  have image: "win_px win2 p = desktop_with_text font cs width height p" if p: "win_inb win2 p" for p
  proof -
    have q: "win_inb win0 p" using p win2(2) by (auto simp: win_inb_def win_same_def)
    have "win_px win1 p = desktop_color width height p"
      using win1(3) q wf(2,3) by (cases p) (simp add: win_inb_def)
    then have px: "win_px win2 p =
      (if \<exists>r < kRows. p \<in> set (string_pixels font 0 (16 * int r) (c_string (cs_buffer cs ! r)))
       then cs_fg_color cs else desktop_color width height p)" using win2(3) [rule_format, of p] q wf(1) by auto
    show ?thesis
    proof (cases "console_area p")
      case True
      with px text_color_rows [OF assms(6) True] show ?thesis by (simp add: desktop_with_text_def text_over_def)
    next
      case False
      have "p \<notin> set (string_pixels font 0 (16 * int r) (c_string (cs_buffer cs ! r)))" if "r < kRows" for r
      proof -
        have "cs_buffer cs ! r \<in> set (cs_buffer cs)" using that assms(6) by (simp add: cs_inv_def)
        from area_string_pixels [OF c_string_length(2) [OF cs_inv_buf_wf [OF assms(6)] this] that] False
        show ?thesis by blast
      qed
      with px False show ?thesis by (auto simp: desktop_with_text_def text_over_def)
    qed
  qed
  have "Console_SetWriter font (\<lambda>_. ?pw) (Some bgwriter_ptr) (cs, win1) = Some (?cs, win2)"
    using assms(7) win2(1) by (simp add: Console_SetWriter_def Let_def)
  with win0 win1(1) win2(2) wf image show ?thesis by (auto simp: Window_Writer_def win_same_def)
qed

lemma cursor_window:
  "\<exists>win0 win2. Window_new kMouseCursorWidth kMouseCursorHeight = Some win0 \<and>
    DrawMouseCursor (Window_Writer (Window_SetTransparentColor (Some kMouseTransparentColor) win0)) (vec 0 0)
      (Window_SetTransparentColor (Some kMouseTransparentColor) win0) = Some win2 \<and> win_wf win2 \<and>
    (\<forall>pos p. window_shows win2 pos p = cursor_at pos p)"
proof -
  obtain win0 where win0: "Window_new kMouseCursorWidth kMouseCursorHeight = Some win0"
    by (simp add: Window_new_def kMouseCursorWidth_def kMouseCursorHeight_def)
  have size: "int32 kMouseCursorWidth" "int32 kMouseCursorHeight"
    by (simp_all add: int32_def kMouseCursorWidth_def kMouseCursorHeight_def)
  note wf = Window_new_wf [OF size win0]
  let ?win = "Window_SetTransparentColor (Some kMouseTransparentColor) win0"
  have wf': "win_wf ?win \<and> win_same ?win ?win" "win_width ?win = kMouseCursorWidth" "win_height ?win = kMouseCursorHeight"
    "win_transparent_color ?win = Some kMouseTransparentColor"
    using wf by (simp_all add: Window_SetTransparentColor_def win_wf_def win_same_def)
  have inb: "win_wf ?win \<and> win_inb ?win (a, b)"
    if "v_x (vec 0 0) \<le> a" "a < v_x (vec 0 0) + kMouseCursorWidth" "v_y (vec 0 0) \<le> b" "b < v_y (vec 0 0) + kMouseCursorHeight" for a b
    using that wf' by (simp add: win_inb_def)
  obtain win2 where win2: "DrawMouseCursor (WindowWriter ?win) (vec 0 0) ?win = Some win2" "win_wf win2 \<and> win_same ?win win2"
    "\<forall>a b. win_wf ?win \<and> win_inb ?win (a, b) \<longrightarrow> win_px win2 (a, b) =
      (if v_x (vec 0 0) \<le> a \<and> a < v_x (vec 0 0) + kMouseCursorWidth \<and> v_y (vec 0 0) \<le> b \<and> b < v_y (vec 0 0) + kMouseCursorHeight
       then cursor_color (a - v_x (vec 0 0)) (b - v_y (vec 0 0)) else win_px ?win (a, b))"
    using win.DrawMouseCursor_paint [OF wf'(1) inb] by blast
  have "window_shows win2 pos p = cursor_at pos p" for pos p
    using win2(2,3) wf' by (cases p) (auto simp: window_shows_def cursor_at_def Let_def win_inb_def win_same_def)
  with win0 win2(1,2) show ?thesis by (auto simp: Window_Writer_def)
qed


text \<open>With its windows drawn, the set-up is the drawing of the layers.\<close>

lemma SetupDesktop_draws_layers:
  assumes "Window_new (sint (fb_horizontal_resolution config)) (sint (fb_vertical_resolution config)) = Some bg0"
    and "DrawDesktop (Window_Writer bg0) bg0 = Some bg1"
    and "Console_SetWriter font (\<lambda>_. Window_Writer bg0) (Some bgwriter_ptr) (cs, bg1) = Some (cs', bg)"
    and "Window_new kMouseCursorWidth kMouseCursorHeight = Some mouse0"
    and "DrawMouseCursor (Window_Writer (Window_SetTransparentColor (Some kMouseTransparentColor) mouse0)) (vec 0 0)
      (Window_SetTransparentColor (Some kMouseTransparentColor) mouse0) = Some mouse"
    and "LayerManager_Draw (\<lambda>a. if a = 0 then bg else mouse) (desktop_manager pw (vec 200 200)) m = Some m'"
  shows "SetupDesktop font config pw (cs, m) = Some (\<lambda>a. if a = 0 then bg else mouse, desktop_manager pw (vec 200 200), 2, cs', m')"
proof -
  obtain i lm1 lm2 where "NewLayerWith 0 (vec 0 0) (LayerManager_SetWriter (Some pw) LayerManager_new) = Some (i, lm1)"
    "NewLayerWith 1 (vec 200 200) lm1 = Some (2, lm2)" "UpDown 2 1 (UpDown i 0 lm2) = desktop_manager pw (vec 200 200)"
    using desktop_layers [of pw] by (auto split: bind_splits prod.splits)
  then show ?thesis by (simp add: SetupDesktop_def assms)
qed

section \<open>The screen\<close>

text \<open>The cursor's window lies on the screen, and what the screen shows of a cursor over a picture.\<close>

definition on_screen :: "FrameBufferConfig \<Rightarrow> Vector2D \<Rightarrow> bool" where
  "on_screen config pos \<longleftrightarrow> 0 \<le> v_x pos \<and> v_x pos + kMouseCursorWidth \<le> sint (fb_horizontal_resolution config) \<and>
     0 \<le> v_y pos \<and> v_y pos + kMouseCursorHeight \<le> sint (fb_vertical_resolution config)"

definition cursor_over :: "Vector2D \<Rightarrow> image \<Rightarrow> image" where
  "cursor_over pos picture p = (case cursor_at pos p of Some c \<Rightarrow> c | None \<Rightarrow> picture p)"

text \<open>The two windows of the desktop: a picture that fills the screen, and the cursor.\<close>

definition desktop_windows :: "FrameBufferConfig \<Rightarrow> image \<Rightarrow> window_store \<Rightarrow> bool" where
  "desktop_windows config picture ws \<longleftrightarrow>
     win_wf (ws 0) \<and> win_width (ws 0) = sint (fb_horizontal_resolution config) \<and>
     win_height (ws 0) = sint (fb_vertical_resolution config) \<and> win_transparent_color (ws 0) = None \<and>
     (\<forall>p. fb_inb config p \<longrightarrow> win_px (ws 0) p = picture p) \<and>
     win_wf (ws 1) \<and> (\<forall>pos p. window_shows (ws 1) pos p = cursor_at pos p)"

lemma cursor_on_screen: "on_screen config pos \<Longrightarrow> cursor_at pos p = Some c \<Longrightarrow> fb_inb config p"
  by (cases p) (auto simp: on_screen_def cursor_at_def fb_inb_def Let_def split: if_splits)

lemma win_inb_screen:
  "win_width win = sint (fb_horizontal_resolution config) \<Longrightarrow> win_height win = sint (fb_vertical_resolution config) \<Longrightarrow>
    win_inb win p = fb_inb config p"
  by (cases p) (simp add: win_inb_def fb_inb_def)

lemma desktop_windows_show:
  assumes "desktop_windows config picture ws"
  shows "window_shows (ws 0) (vec 0 0) p = (if fb_inb config p then Some (picture p) else None)"
    and "window_shows (ws 1) pos p = cursor_at pos p"
  using assms by (cases p, auto simp: desktop_windows_def window_shows_def win_inb_def fb_inb_def)

lemma Draw_desktop:
  assumes "fb_wf config" and "desktop_windows config picture ws" and "on_screen config pos"
  shows "\<exists>m'. LayerManager_Draw ws (desktop_manager (FrameBufferWriter config) pos) m = Some m' \<and> fb_only config m m' \<and>
    (\<forall>p. fb_inb config p \<longrightarrow> fb_px config m' p = cursor_over pos picture p)"
proof -
  let ?lm = "desktop_manager (FrameBufferWriter config) pos"
  note windows = desktop_windows_show [OF assms(2), unfolded One_nat_def]
  have wf: "win_wf (ws 0)" "win_wf (ws (Suc 0))" using assms(2) by (simp_all add: desktop_windows_def)
  have ready: "\<forall>l \<in> set (visible_layers ?lm). layer_ready ws l \<and> (\<forall>p c. layer_shows ws l p = Some c \<longrightarrow> fb_inb config p)"
    using wf cursor_on_screen [OF assms(3)] unfolding desktop_visible
    by (auto simp: layer_ready_def layer_shows_def windows split: if_splits)
  have "fb_wf config \<and> fb_only config m m" using assms(1) by simp
  from fb.Draw_paint [OF this desktop_manager_wf _ ready] obtain m' where
    m': "LayerManager_Draw ws ?lm m = Some m'" "fb_only config m m'"
      "\<forall>q. fb_inb config q \<longrightarrow> fb_px config m' q =
        (case topmost ws (visible_layers ?lm) q of None \<Rightarrow> fb_px config m q | Some c \<Rightarrow> c)"
    by (auto simp: desktop_manager_def)
  have "fb_px config m' q = cursor_over pos picture q" if "fb_inb config q" for q
    using m'(3) [rule_format, OF that] that unfolding desktop_visible
    by (auto simp: layer_shows_def windows cursor_over_def split: option.split)
  with m'(1,2) show ?thesis by blast
qed

lemma SetupDesktop_windows:
  assumes "fb_wf config" and "640 \<le> sint (fb_horizontal_resolution config)" and "400 \<le> sint (fb_vertical_resolution config)"
    and "font_wf font" and "cs_inv cs" and "cs_writer cs \<noteq> Some bgwriter_ptr"
  shows "\<exists>ws m'. SetupDesktop font config (FrameBufferWriter config) (cs, m) =
      Some (ws, desktop_manager (FrameBufferWriter config) (vec 200 200), 2, cs\<lparr>cs_writer := Some bgwriter_ptr\<rparr>, m') \<and>
    fb_only config m m' \<and>
    desktop_windows config (desktop_with_text font cs (sint (fb_horizontal_resolution config)) (sint (fb_vertical_resolution config))) ws \<and>
    (\<forall>p. fb_inb config p \<longrightarrow> fb_px config m' p = cursor_over (vec 200 200)
      (desktop_with_text font cs (sint (fb_horizontal_resolution config)) (sint (fb_vertical_resolution config))) p)"
proof -
  let ?w = "sint (fb_horizontal_resolution config)" and ?h = "sint (fb_vertical_resolution config)"
  let ?cs = "cs\<lparr>cs_writer := Some bgwriter_ptr\<rparr>" and ?lm = "desktop_manager (FrameBufferWriter config) (vec 200 200)"
  have "int32 ?w" "int32 ?h"
    using sint_lt [of "fb_horizontal_resolution config"] sint_lt [of "fb_vertical_resolution config"] assms(2,3)
    by (simp_all add: int32_def)
  from background_window [OF this assms(2-6)] obtain bg0 bg1 bg where
    bg: "Window_new ?w ?h = Some bg0" "DrawDesktop (Window_Writer bg0) bg0 = Some bg1"
      "Console_SetWriter font (\<lambda>_. Window_Writer bg0) (Some bgwriter_ptr) (cs, bg1) = Some (?cs, bg)"
      "win_wf bg" "win_width bg = ?w" "win_height bg = ?h" "win_transparent_color bg = None"
      "\<And>p. win_inb bg p \<Longrightarrow> win_px bg p = desktop_with_text font cs ?w ?h p" by blast
  from cursor_window obtain mouse0 mouse where
    mouse: "Window_new kMouseCursorWidth kMouseCursorHeight = Some mouse0"
      "DrawMouseCursor (Window_Writer (Window_SetTransparentColor (Some kMouseTransparentColor) mouse0)) (vec 0 0)
        (Window_SetTransparentColor (Some kMouseTransparentColor) mouse0) = Some mouse" "win_wf mouse"
      "\<And>pos p. window_shows mouse pos p = cursor_at pos p" by blast
  let ?ws = "\<lambda>a :: nat. if a = 0 then bg else mouse"
  have windows: "desktop_windows config (desktop_with_text font cs ?w ?h) ?ws"
    using bg(4-7) mouse(3,4) bg(8) by (simp add: desktop_windows_def win_inb_screen)
  have "on_screen config (vec 200 200)"
    using assms(2,3) by (simp add: on_screen_def kMouseCursorWidth_def kMouseCursorHeight_def)
  from Draw_desktop [OF assms(1) windows this] obtain m' where m': "LayerManager_Draw ?ws ?lm m = Some m'" "fb_only config m m'"
    "\<forall>p. fb_inb config p \<longrightarrow> fb_px config m' p = cursor_over (vec 200 200) (desktop_with_text font cs ?w ?h) p" by blast
  from SetupDesktop_draws_layers [OF bg(1-3) mouse(1,2) m'(1)] m'(2,3) windows show ?thesis by blast
qed

end
