(* ===== verification/Session.thy ===== *)
theory Session
  imports Desktop
begin

text \<open>
  The desktop while the kernel runs: mouse reports move the cursor (\<open>MouseObserver\<close> in
  \<open>kernel/main/main.cpp\<close>) and log messages are typed on the console, which draws into the desktop's
  window and has the layer manager draw the screen again. The events come in any order; what the
  screen shows after them is derived from the pieces: console, window, layers and frame buffer.
\<close>

section \<open>Events\<close>

record Desktop =
  dk_windows :: window_store
  dk_manager :: "mem LayerManager"
  dk_console :: Console
  dk_screen :: mem

datatype DesktopEvent = MouseMoved u8 u8 | Logged LogLevel "u8 list"

text \<open>The writer of the desktop's window, which is one in the store of windows.\<close>

definition bgwriter :: "Window \<Rightarrow> (window_store \<times> mem) PixelWriter" where
  "bgwriter bgwindow =
     \<lparr>pw_Write = (\<lambda>x y c (ws, m). map_option (\<lambda>win. (ws(0 := win), m)) (pw_Write (Window_Writer bgwindow) x y c (ws 0))),
      pw_Width = pw_Width (Window_Writer bgwindow), pw_Height = pw_Height (Window_Writer bgwindow)\<rparr>"

text \<open>\<open>layer_manager->Draw()\<close> at the end of \<open>PutString\<close>.\<close>

definition redraw :: "mem LayerManager \<Rightarrow> window_store \<times> mem \<Rightarrow> (window_store \<times> mem) option" where
  "redraw lm = (\<lambda>(ws, m). map_option (Pair ws) (LayerManager_Draw ws lm m))"

fun desktop_event :: "u8 list \<Rightarrow> LogLevel \<Rightarrow> u32 \<Rightarrow> DesktopEvent \<Rightarrow> Desktop \<Rightarrow> Desktop option" where
  "desktop_event font log_level mouse_layer_id (MouseMoved dx dy) d = do {
     (lm, m) \<leftarrow> MouseObserver (dk_windows d) mouse_layer_id dx dy (dk_manager d, dk_screen d);
     Some (d\<lparr>dk_manager := lm, dk_screen := m\<rparr>)
   }"
| "desktop_event font log_level mouse_layer_id (Logged level s) d = do {
     (n, console, ws, m) \<leftarrow> Log font (\<lambda>_. bgwriter (dk_windows d 0)) (redraw (dk_manager d)) log_level level s
       (dk_console d, dk_windows d, dk_screen d);
     Some (d\<lparr>dk_console := console, dk_windows := ws, dk_screen := m\<rparr>)
   }"

section \<open>What the events mean\<close>

text \<open>The positions the cursor takes and the characters that are printed.\<close>

fun cursor_path :: "Vector2D \<Rightarrow> DesktopEvent list \<Rightarrow> Vector2D list" where
  "cursor_path pos [] = []"
| "cursor_path pos (MouseMoved dx dy # es) =
     (let pos = vec (v_x pos + sint dx) (v_y pos + sint dy) in pos # cursor_path pos es)"
| "cursor_path pos (Logged level s # es) = cursor_path pos es"

fun printed :: "LogLevel \<Rightarrow> DesktopEvent list \<Rightarrow> u8 list" where
  "printed log_level [] = []"
| "printed log_level (MouseMoved dx dy # es) = printed log_level es"
| "printed log_level (Logged level s # es) = (if level \<le> log_level then c_string s else []) @ printed log_level es"

text \<open>A message is a terminated string that fits the buffer it is formatted in.\<close>

fun message_fits :: "DesktopEvent \<Rightarrow> bool" where
  "message_fits (MouseMoved dx dy) = True"
| "message_fits (Logged level s) = (0 \<in> set s \<and> length s \<le> kMessageBufferSize)"

section \<open>The console on the desktop's window\<close>

text \<open>Drawing on the desktop's window leaves the other windows and the screen alone.\<close>

definition only_bgwindow :: "window_store \<times> mem \<Rightarrow> window_store \<times> mem \<Rightarrow> bool" where
  "only_bgwindow s0 s \<longleftrightarrow> win_wf (fst s 0) \<and> win_same (fst s0 0) (fst s 0) \<and>
     (\<forall>a. a \<noteq> 0 \<longrightarrow> fst s a = fst s0 a) \<and> snd s = snd s0"

interpretation desk: pixel_surface "bgwriter (fst s0 0)" "\<lambda>s. win_px (fst s 0)"
    "\<lambda>p. win_wf (fst s0 0) \<and> win_inb (fst s0 0) p" "only_bgwindow s0" for s0
proof unfold_locales
  fix s x y c
  assume s: "only_bgwindow s0 s" and inb: "win_wf (fst s0 0) \<and> win_inb (fst s0 0) (x, y)"
  then have "win_wf (fst s 0) \<and> win_same (fst s0 0) (fst s 0)" by (simp add: only_bgwindow_def)
  from win.Write_in [OF this inb] obtain win where
    "pw_Write (WindowWriter (fst s0 0)) x y c (fst s 0) = Some win" "win_wf win" "win_same (fst s0 0) win"
    "\<forall>q. win_wf (fst s0 0) \<and> win_inb (fst s0 0) q \<longrightarrow> win_px win q = ((win_px (fst s 0))((x, y) := c)) q" by blast
  with s show "\<exists>s'. pw_Write (bgwriter (fst s0 0)) x y c s = Some s' \<and> only_bgwindow s0 s' \<and>
      (\<forall>q. win_wf (fst s0 0) \<and> win_inb (fst s0 0) q \<longrightarrow> win_px (fst s' 0) q = ((win_px (fst s 0))((x, y) := c)) q)"
    by (intro exI [of _ "((fst s)(0 := win), snd s)"])
      (auto simp: bgwriter_def Window_Writer_def only_bgwindow_def split: prod.split)
next
  fix x y assume "win_wf (fst s0 0) \<and> win_inb (fst s0 0) (x, y)"
  then show "int32 x \<and> int32 y" using win_inb_int32 by blast
qed

section \<open>What the screen shows\<close>

text \<open>
  The state between events: the console's text stands on \<open>base\<close>, in the window and, with the cursor
  at \<open>pos\<close> over it, on the screen.
\<close>

definition desktop_inv ::
  "u8 list \<Rightarrow> FrameBufferConfig \<Rightarrow> mem \<Rightarrow> image \<Rightarrow> Vector2D \<Rightarrow> Desktop \<Rightarrow> bool" where
  "desktop_inv font config m0 base pos d \<longleftrightarrow>
     on_screen config pos \<and> dk_manager d = desktop_manager (FrameBufferWriter config) pos \<and>
     cs_inv (dk_console d) \<and> cs_writer (dk_console d) = Some bgwriter_ptr \<and>
     desktop_windows config (text_over font base (dk_console d)) (dk_windows d) \<and> fb_only config m0 (dk_screen d) \<and>
     (\<forall>p. fb_inb config p \<longrightarrow> fb_px config (dk_screen d) p = cursor_over pos (text_over font base (dk_console d)) p)"

lemma fb_only_trans: "fb_only config m m1 \<Longrightarrow> fb_only config m1 m2 \<Longrightarrow> fb_only config m m2"
  by (simp add: fb_only_def)

lemma MouseObserver_moves:
  assumes "int32 (v_x pos + sint dx)" and "int32 (v_y pos + sint dy)"
  shows "MouseObserver ws 2 dx dy (desktop_manager pw pos, w) =
    map_option (Pair (desktop_manager pw (vec (v_x pos + sint dx) (v_y pos + sint dy))))
      (LayerManager_Draw ws (desktop_manager pw (vec (v_x pos + sint dx) (v_y pos + sint dy))) w)"
proof -
  have "LayerManager_MoveRelative 2 (vec (sint dx) (sint dy)) (desktop_manager pw pos) =
      Some (desktop_manager pw (vec (v_x pos + sint dx) (v_y pos + sint dy)))"
    using assms by (simp add: LayerManager_MoveRelative_def at_layer_def FindLayer_def Layer_ID_def desktop_manager_def
      Layer_MoveRelative_def Vector2D_add_def)
  then show ?thesis
    by (cases "LayerManager_Draw ws (desktop_manager pw (vec (v_x pos + sint dx) (v_y pos + sint dy))) w")
      (simp_all add: MouseObserver_def)
qed

lemma on_screen_int32: "on_screen config pos \<Longrightarrow> int32 (v_x pos) \<and> int32 (v_y pos)"
  using sint_lt [of "fb_horizontal_resolution config"] sint_lt [of "fb_vertical_resolution config"]
  by (simp add: on_screen_def int32_def kMouseCursorWidth_def kMouseCursorHeight_def)

lemma MouseMoved_inv:
  assumes "fb_wf config" and inv: "desktop_inv font config m0 base pos d"
    and pos': "pos' = vec (v_x pos + sint dx) (v_y pos + sint dy)" and on: "on_screen config pos'"
  shows "\<exists>d'. desktop_event font log_level 2 (MouseMoved dx dy) d = Some d' \<and> desktop_inv font config m0 base pos' d' \<and>
    dk_console d' = dk_console d"
proof -
  have windows: "desktop_windows config (text_over font base (dk_console d)) (dk_windows d)"
    using inv by (simp add: desktop_inv_def)
  from Draw_desktop [OF assms(1) windows on, of "dk_screen d"] obtain m' where
    m': "LayerManager_Draw (dk_windows d) (desktop_manager (FrameBufferWriter config) pos') (dk_screen d) = Some m'"
      "fb_only config (dk_screen d) m'"
      "\<forall>p. fb_inb config p \<longrightarrow> fb_px config m' p = cursor_over pos' (text_over font base (dk_console d)) p" by blast
  have "MouseObserver (dk_windows d) 2 dx dy (dk_manager d, dk_screen d) =
      Some (desktop_manager (FrameBufferWriter config) pos', m')"
    using on_screen_int32 [OF on] inv m'(1) by (simp add: MouseObserver_moves desktop_inv_def pos')
  then show ?thesis
    using inv on windows m'(2,3) by (auto simp: desktop_inv_def intro: fb_only_trans)
qed

text \<open>A message that is printed: through the window to the screen.\<close>

lemma PutString_inv:
  assumes "fb_wf config" and size: "640 \<le> sint (fb_horizontal_resolution config)" "400 \<le> sint (fb_vertical_resolution config)"
    and "font_wf font" and "0 \<in> set s" and inv: "desktop_inv font config m0 base pos d"
  shows "\<exists>cs' ws' m'. PutString font (\<lambda>_. bgwriter (dk_windows d 0)) (redraw (dk_manager d)) s
      (dk_console d, dk_windows d, dk_screen d) = Some (cs', ws', m') \<and>
    cs_bg_color cs' = cs_bg_color (dk_console d) \<and>
    console_text cs' = fold term_put (c_string s) (console_text (dk_console d)) \<and>
    desktop_inv font config m0 (behind (cs_bg_color (dk_console d)) base (c_string s) (console_text (dk_console d))) pos
      (d\<lparr>dk_console := cs', dk_windows := ws', dk_screen := m'\<rparr>)"
proof -
  let ?cs = "dk_console d" and ?ws = "dk_windows d" and ?m = "dk_screen d"
  let ?base' = "behind (cs_bg_color ?cs) base (c_string s) (console_text ?cs)"
  let ?s0 = "(?ws, ?m)"
  have windows: "desktop_windows config (text_over font base ?cs) ?ws" and cs: "cs_inv ?cs" "cs_writer ?cs = Some bgwriter_ptr"
    and on: "on_screen config pos" and lm: "dk_manager d = desktop_manager (FrameBufferWriter config) pos"
    using inv by (simp_all add: desktop_inv_def)
  have inb: "win_wf (fst ?s0 0) \<and> win_inb (fst ?s0 0) p \<longleftrightarrow> fb_inb config p" for p
    using windows by (simp add: desktop_windows_def win_inb_screen)
  have area: "win_wf (fst ?s0 0) \<and> win_inb (fst ?s0 0) q" if "console_area q" for q
    using that size unfolding inb by (auto simp: console_area_def fb_inb_def kColumns_def kRows_def)
  have start: "only_bgwindow ?s0 ?s0" using windows by (simp add: only_bgwindow_def desktop_windows_def win_same_def)
  have deref: "deref (\<lambda>_. bgwriter (fst ?s0 0)) ?cs = Some (bgwriter (fst ?s0 0))" using cs(2) by (simp add: deref_def)
  have drawn: "shows_over font base ?cs (\<lambda>p. win_wf (fst ?s0 0) \<and> win_inb (fst ?s0 0) p) (win_px (fst ?s0 0))"
    using windows unfolding shows_over_def inb by (simp add: desktop_windows_def)
  from desk.PutString_loop_paint [OF assms(4) area assms(5) start cs(1) deref drawn] obtain cs' s' where
    1: "PutString_loop font (\<lambda>_. bgwriter (fst ?s0 0)) s (?cs, ?s0) = Some (cs', s')" "only_bgwindow ?s0 s'" "cs_inv cs'"
      "cs_writer cs' = cs_writer ?cs" "cs_bg_color cs' = cs_bg_color ?cs"
      "console_text cs' = fold term_put (c_string s) (console_text ?cs)"
      "shows_over font ?base' cs' (\<lambda>p. win_wf (fst ?s0 0) \<and> win_inb (fst ?s0 0) p) (win_px (fst s' 0))" by blast
  obtain ws' where s': "s' = (ws', ?m)" using 1(2) by (cases s') (simp add: only_bgwindow_def)
  have windows': "desktop_windows config (text_over font ?base' cs') ws'"
    using windows 1(2,7) unfolding shows_over_def inb by (auto simp: s' only_bgwindow_def desktop_windows_def win_same_def)
  from Draw_desktop [OF assms(1) windows' on, of ?m] obtain m' where
    m': "LayerManager_Draw ws' (dk_manager d) ?m = Some m'" "fb_only config ?m m'"
      "\<forall>p. fb_inb config p \<longrightarrow> fb_px config m' p = cursor_over pos (text_over font ?base' cs') p" unfolding lm by blast
  have "PutString font (\<lambda>_. bgwriter (?ws 0)) (redraw (dk_manager d)) s (?cs, ?ws, ?m) = Some (cs', ws', m')"
    using 1(1) m'(1) by (simp add: PutString_def redraw_def s')
  moreover have "desktop_inv font config m0 ?base' pos (d\<lparr>dk_console := cs', dk_windows := ws', dk_screen := m'\<rparr>)"
    using inv 1(3,4) windows' m'(2,3) by (auto simp: desktop_inv_def intro: fb_only_trans)
  ultimately show ?thesis using 1(5,6) by blast
qed

lemma Logged_inv:
  assumes "fb_wf config" and "640 \<le> sint (fb_horizontal_resolution config)" "400 \<le> sint (fb_vertical_resolution config)"
    and "font_wf font" and fits: "message_fits (Logged level s)" and inv: "desktop_inv font config m0 base pos d"
  shows "\<exists>d'. desktop_event font log_level 2 (Logged level s) d = Some d' \<and> cs_bg_color (dk_console d') = cs_bg_color (dk_console d) \<and>
    console_text (dk_console d') = fold term_put (if level \<le> log_level then c_string s else []) (console_text (dk_console d)) \<and>
    desktop_inv font config m0 (behind (cs_bg_color (dk_console d)) base (if level \<le> log_level then c_string s else [])
      (console_text (dk_console d))) pos d'"
proof (cases "level \<le> log_level")
  case True
  have "0 \<in> set s" and len: "\<not> kMessageBufferSize < length s" using fits by simp_all
  from PutString_inv [OF assms(1-4) this(1) inv] obtain cs' ws' m' where
    1: "PutString font (\<lambda>_. bgwriter (dk_windows d 0)) (redraw (dk_manager d)) s (dk_console d, dk_windows d, dk_screen d)
        = Some (cs', ws', m')" and
    2: "cs_bg_color cs' = cs_bg_color (dk_console d)"
      "console_text cs' = fold term_put (c_string s) (console_text (dk_console d))"
      "desktop_inv font config m0 (behind (cs_bg_color (dk_console d)) base (c_string s) (console_text (dk_console d))) pos
        (d\<lparr>dk_console := cs', dk_windows := ws', dk_screen := m'\<rparr>)" by blast
  have "desktop_event font log_level 2 (Logged level s) d = Some (d\<lparr>dk_console := cs', dk_windows := ws', dk_screen := m'\<rparr>)"
    using 1 len True by (simp add: Log_is_printk printk_def)
  with 2 True show ?thesis by (intro exI conjI) simp_all
next
  case False
  then show ?thesis using inv by (intro exI [of _ d]) (simp add: Log_is_printk)
qed

text \<open>Any sequence of events.\<close>

fun desktop_run :: "u8 list \<Rightarrow> LogLevel \<Rightarrow> u32 \<Rightarrow> DesktopEvent list \<Rightarrow> Desktop \<Rightarrow> Desktop option" where
  "desktop_run font log_level mouse_layer_id [] d = Some d"
| "desktop_run font log_level mouse_layer_id (e # es) d = do {
     d \<leftarrow> desktop_event font log_level mouse_layer_id e d;
     desktop_run font log_level mouse_layer_id es d
   }"

lemma desktop_run_inv:
  assumes "fb_wf config" and "640 \<le> sint (fb_horizontal_resolution config)" "400 \<le> sint (fb_vertical_resolution config)"
    and "font_wf font" and "\<forall>p\<in>set (cursor_path pos es). on_screen config p" and "\<forall>e\<in>set es. message_fits e"
    and "desktop_inv font config m0 base pos d"
  shows "\<exists>d'. desktop_run font log_level 2 es d = Some d' \<and>
    console_text (dk_console d') = fold term_put (printed log_level es) (console_text (dk_console d)) \<and>
    desktop_inv font config m0 (behind (cs_bg_color (dk_console d)) base (printed log_level es) (console_text (dk_console d)))
      (last (pos # cursor_path pos es)) d'"
  using assms(5-)
proof (induction es arbitrary: pos base d)
  case (Cons e es)
  show ?case
  proof (cases e)
    case (MouseMoved dx dy)
    let ?pos = "vec (v_x pos + sint dx) (v_y pos + sint dy)"
    have on: "on_screen config ?pos" and path: "\<forall>p\<in>set (cursor_path ?pos es). on_screen config p"
      and fits: "\<forall>e\<in>set es. message_fits e"
      using Cons.prems(1,2) by (simp_all add: MouseMoved Let_def)
    from MouseMoved_inv [OF assms(1) Cons.prems(3) refl on] obtain d1 where
      d1: "desktop_event font log_level 2 (MouseMoved dx dy) d = Some d1" "desktop_inv font config m0 base ?pos d1"
        "dk_console d1 = dk_console d" by blast
    from Cons.IH [OF path fits d1(2)] d1(1,3) show ?thesis by (simp add: MouseMoved Let_def)
  next
    case (Logged level s)
    have path: "\<forall>p\<in>set (cursor_path pos es). on_screen config p"
      and fits: "message_fits (Logged level s)" "\<forall>e\<in>set es. message_fits e"
      using Cons.prems(1,2) by (simp_all add: Logged)
    let ?new = "if level \<le> log_level then c_string s else []"
    from Logged_inv [OF assms(1-4) fits(1) Cons.prems(3)] obtain d1 where
      d1: "desktop_event font log_level 2 (Logged level s) d = Some d1" "cs_bg_color (dk_console d1) = cs_bg_color (dk_console d)"
        "console_text (dk_console d1) = fold term_put ?new (console_text (dk_console d))"
        "desktop_inv font config m0 (behind (cs_bg_color (dk_console d)) base ?new (console_text (dk_console d))) pos d1"
      by blast
    have "printed log_level (e # es) = ?new @ printed log_level es" by (simp add: Logged)
    with Cons.IH [OF path fits(2) d1(4)] d1(1) show ?thesis
      unfolding d1(2,3) by (simp add: Logged behind_append del: printed.simps)
  qed
qed (auto)

text \<open>What the console holds does not depend on where it draws.\<close>

lemma console_text_writer: "console_text (cs\<lparr>cs_writer := pw\<rparr>) = console_text cs"
  by (simp add: console_text_def)

lemma cs_inv_writer: "cs_inv (cs\<lparr>cs_writer := pw\<rparr>) = cs_inv cs"
  by (simp add: cs_inv_def)

lemma text_over_writer: "text_over font base (cs\<lparr>cs_writer := pw\<rparr>) = text_over font base cs"
  by (rule ext) (simp add: text_over_def console_text_writer)

text \<open>Without messages the picture and the text stay.\<close>

lemma moves_keep_picture:
  assumes "fb_wf config" and "\<forall>p\<in>set (cursor_path pos es). on_screen config p" and "\<forall>e\<in>set es. \<exists>dx dy. e = MouseMoved dx dy"
    and "desktop_inv font config m0 base pos d"
  shows "\<exists>d'. desktop_run font log_level 2 es d = Some d' \<and> dk_console d' = dk_console d \<and>
    desktop_inv font config m0 base (last (pos # cursor_path pos es)) d'"
  using assms(2-)
proof (induction es arbitrary: pos d)
  case (Cons e es)
  then obtain dx dy where e: "e = MouseMoved dx dy" by auto
  let ?pos = "vec (v_x pos + sint dx) (v_y pos + sint dy)"
  have on: "on_screen config ?pos" and path: "\<forall>p\<in>set (cursor_path ?pos es). on_screen config p"
    and moves: "\<forall>e\<in>set es. \<exists>dx dy. e = MouseMoved dx dy"
    using Cons.prems(1,2) by (simp_all add: e Let_def)
  from MouseMoved_inv [OF assms(1) Cons.prems(3) refl on] obtain d1 where
    "desktop_event font log_level 2 (MouseMoved dx dy) d = Some d1" "desktop_inv font config m0 base ?pos d1"
      "dk_console d1 = dk_console d" by blast
  with Cons.IH [OF path moves, of d1] show ?case by (simp add: e Let_def)
qed simp

text \<open>The set-up establishes the invariant.\<close>

lemma SetupDesktop_inv:
  assumes "fb_wf config" and "640 \<le> sint (fb_horizontal_resolution config)" and "400 \<le> sint (fb_vertical_resolution config)"
    and "font_wf font" and "cs_inv cs" and "cs_writer cs \<noteq> Some bgwriter_ptr"
  shows "\<exists>ws m'. SetupDesktop font config (FrameBufferWriter config) (cs, m) =
      Some (ws, desktop_manager (FrameBufferWriter config) (vec 200 200), 2, cs\<lparr>cs_writer := Some bgwriter_ptr\<rparr>, m') \<and>
    desktop_inv font config m
      (desktop_color (sint (fb_horizontal_resolution config)) (sint (fb_vertical_resolution config))) (vec 200 200)
      \<lparr>dk_windows = ws, dk_manager = desktop_manager (FrameBufferWriter config) (vec 200 200),
       dk_console = cs\<lparr>cs_writer := Some bgwriter_ptr\<rparr>, dk_screen = m'\<rparr>"
proof -
  let ?base = "desktop_color (sint (fb_horizontal_resolution config)) (sint (fb_vertical_resolution config))"
  from SetupDesktop_windows [OF assms, of m] obtain ws m' where
    1: "SetupDesktop font config (FrameBufferWriter config) (cs, m) =
      Some (ws, desktop_manager (FrameBufferWriter config) (vec 200 200), 2, cs\<lparr>cs_writer := Some bgwriter_ptr\<rparr>, m')" and
    2: "fb_only config m m'" "desktop_windows config (text_over font ?base cs) ws"
      "\<forall>p. fb_inb config p \<longrightarrow> fb_px config m' p = cursor_over (vec 200 200) (text_over font ?base cs) p"
    unfolding desktop_with_text_def by blast
  have "on_screen config (vec 200 200)"
    using assms(2,3) by (simp add: on_screen_def kMouseCursorWidth_def kMouseCursorHeight_def)
  with 1 2 assms(5) show ?thesis by (simp add: desktop_inv_def text_over_writer cs_inv_writer)
qed

section \<open>Properties\<close>

text \<open>
  C6. The screen while the kernel runs. After the set-up of the desktop, any sequence of mouse reports
  and log messages is handled without failure, provided the cursor's window stays on the screen and
  each message is terminated and fits the message buffer. At the end the console holds what a
  terminal would hold after the messages of level warning or above, in order; and every pixel of the
  screen shows the mouse cursor at the place the reports add up to, else the console's text, else the
  desktop, whose console area has become plain background exactly if the text has scrolled. Nothing outside the
  frame buffer changes.
\<close>

theorem desktop_session:
  assumes "fb_wf config" and "640 \<le> sint (fb_horizontal_resolution config)" and "400 \<le> sint (fb_vertical_resolution config)"
    and "font_wf font" and "cs_inv cs" and "cs_writer cs \<noteq> Some bgwriter_ptr"
    and "\<forall>p\<in>set (cursor_path (vec 200 200) events). on_screen config p" and "\<forall>e\<in>set events. message_fits e"
  shows "\<exists>windows lm mouse_id cs' m' d.
    SetupDesktop font config (FrameBufferWriter config) (cs, m) = Some (windows, lm, mouse_id, cs', m') \<and>
    desktop_run font kWarn mouse_id events
      \<lparr>dk_windows = windows, dk_manager = lm, dk_console = cs', dk_screen = m'\<rparr> = Some d \<and>
    fb_only config m (dk_screen d) \<and>
    console_text (dk_console d) = fold term_put (printed kWarn events) (console_text cs) \<and>
    (\<forall>p. fb_inb config p \<longrightarrow> fb_px config (dk_screen d) p =
      cursor_over (last (vec 200 200 # cursor_path (vec 200 200) events)) (text_over font
        (behind (cs_bg_color cs) (desktop_color (sint (fb_horizontal_resolution config)) (sint (fb_vertical_resolution config)))
          (printed kWarn events) (console_text cs)) (dk_console d)) p)"
proof -
  let ?cs = "cs\<lparr>cs_writer := Some bgwriter_ptr\<rparr>" and ?lm = "desktop_manager (FrameBufferWriter config) (vec 200 200)"
  let ?base = "desktop_color (sint (fb_horizontal_resolution config)) (sint (fb_vertical_resolution config))"
  from SetupDesktop_inv [OF assms(1-6), of m] obtain ws m' where
    1: "SetupDesktop font config (FrameBufferWriter config) (cs, m) = Some (ws, ?lm, 2, ?cs, m')" and
    inv: "desktop_inv font config m ?base (vec 200 200) \<lparr>dk_windows = ws, dk_manager = ?lm, dk_console = ?cs, dk_screen = m'\<rparr>"
    by blast
  let ?d = "\<lparr>dk_windows = ws, dk_manager = ?lm, dk_console = ?cs, dk_screen = m'\<rparr>"
  let ?base' = "behind (cs_bg_color cs) ?base (printed kWarn events) (console_text cs)"
  from desktop_run_inv [OF assms(1-4,7,8) inv, of kWarn] obtain d where
    3: "desktop_run font kWarn 2 events ?d = Some d"
      "console_text (dk_console d) = fold term_put (printed kWarn events) (console_text cs)"
      "desktop_inv font config m ?base' (last (vec 200 200 # cursor_path (vec 200 200) events)) d"
    by (auto simp: console_text_writer)
  then have "fb_only config m (dk_screen d) \<and> (\<forall>p. fb_inb config p \<longrightarrow> fb_px config (dk_screen d) p =
      cursor_over (last (vec 200 200 # cursor_path (vec 200 200) events)) (text_over font ?base' (dk_console d)) p)"
    unfolding desktop_inv_def by blast
  with 1 3(1,2) show ?thesis by blast
qed

theorem desktop_session_witness:
  "\<exists>windows lm mouse_id cs' m' d.
    SetupDesktop (replicate 4096 255) \<lparr>fb_frame_buffer = 0x80000000, fb_pixels_per_scan_line = 800,
       fb_horizontal_resolution = 800, fb_vertical_resolution = 600, fb_pixel_format = kPixelBGRResv8BitPerColor\<rparr>
       (FrameBufferWriter \<lparr>fb_frame_buffer = 0x80000000, fb_pixels_per_scan_line = 800,
         fb_horizontal_resolution = 800, fb_vertical_resolution = 600, fb_pixel_format = kPixelBGRResv8BitPerColor\<rparr>)
       ((Console_new WHITE BLUE)\<lparr>cs_writer := Some 0\<rparr>, \<lambda>_. 0) = Some (windows, lm, mouse_id, cs', m') \<and>
    desktop_run (replicate 4096 255) kWarn mouse_id
      [Logged kWarn [72, 105, 10, 0], MouseMoved 5 (- 3), Logged kDebug [120, 0], Logged kError [33, 0]]
      \<lparr>dk_windows = windows, dk_manager = lm, dk_console = cs', dk_screen = m'\<rparr> = Some d \<and>
    console_text (dk_console d) = fold term_put [72, 105, 10, 33] (console_text (Console_new WHITE BLUE)) \<and>
    fb_px \<lparr>fb_frame_buffer = 0x80000000, fb_pixels_per_scan_line = 800, fb_horizontal_resolution = 800,
       fb_vertical_resolution = 600, fb_pixel_format = kPixelBGRResv8BitPerColor\<rparr> (dk_screen d) (205, 197) = BLACK"
proof -
  let ?c = "\<lparr>fb_frame_buffer = 0x80000000, fb_pixels_per_scan_line = 800, fb_horizontal_resolution = 800,
    fb_vertical_resolution = 600, fb_pixel_format = kPixelBGRResv8BitPerColor\<rparr>"
  let ?cs = "(Console_new WHITE BLUE)\<lparr>cs_writer := Some 0\<rparr>"
  let ?events = "[Logged kWarn [72, 105, 10, 0], MouseMoved 5 (- 3), Logged kDebug [120, 0], Logged kError [33, 0]]"
  have wf: "fb_wf ?c" by (simp add: fb_wf_def)
  have size: "640 \<le> sint (fb_horizontal_resolution ?c)" "400 \<le> sint (fb_vertical_resolution ?c)" by simp_all
  have font: "font_wf (replicate 4096 255)" by (simp add: font_wf_def)
  have cs: "cs_inv ?cs" "cs_writer ?cs \<noteq> Some bgwriter_ptr"
    using Console_new_inv [of WHITE BLUE] by (simp_all add: cs_inv_def bgwriter_ptr_def)
  have path: "cursor_path (vec 200 200) ?events = [vec 205 197]" by code_simp
  have on: "\<forall>p\<in>set (cursor_path (vec 200 200) ?events). on_screen ?c p"
    unfolding path by (simp add: on_screen_def kMouseCursorWidth_def kMouseCursorHeight_def)
  have fits: "\<forall>e\<in>set ?events. message_fits e" by (simp add: kMessageBufferSize_def)
  have printed: "printed kWarn ?events = [72, 105, 10, 33]" by code_simp
  have console: "console_text ?cs = console_text (Console_new WHITE BLUE)" by (rule console_text_writer)
  have at: "cursor_at (vec 205 197) (205, 197) = Some BLACK" by code_simp
  from desktop_session [OF wf size font cs on fits, of "\<lambda>_. 0"] obtain windows lm mouse_id cs' m' d where
    1: "SetupDesktop (replicate 4096 255) ?c (FrameBufferWriter ?c) (?cs, \<lambda>_. 0) = Some (windows, lm, mouse_id, cs', m')"
      "desktop_run (replicate 4096 255) kWarn mouse_id ?events
        \<lparr>dk_windows = windows, dk_manager = lm, dk_console = cs', dk_screen = m'\<rparr> = Some d"
      "console_text (dk_console d) = fold term_put (printed kWarn ?events) (console_text ?cs)" and
    px: "\<forall>p. fb_inb ?c p \<longrightarrow> fb_px ?c (dk_screen d) p =
        cursor_over (last (vec 200 200 # cursor_path (vec 200 200) ?events)) (text_over (replicate 4096 255)
          (behind (cs_bg_color ?cs) (desktop_color (sint (fb_horizontal_resolution ?c)) (sint (fb_vertical_resolution ?c)))
            (printed kWarn ?events) (console_text ?cs)) (dk_console d)) p"
    by blast
  have "fb_px ?c (dk_screen d) (205, 197) = BLACK"
    using px [rule_format, of "(205, 197)"] unfolding path by (simp add: fb_inb_def cursor_over_def at)
  with 1 show ?thesis unfolding printed console by blast
qed

end
