(* ===== verification/MemoryManager.thy ===== *)
theory MemoryManager
  imports KernelError
begin

text \<open>
  The physical frame allocator \<open>BitmapMemoryManager\<close> (\<open>kernel/memory_manager\<close>), the kernel heap
  that \<open>InitializeHeap\<close> carves out of it, and \<open>sbrk\<close> (\<open>kernel/newlib_support.c\<close>), through which
  the C library grows into that heap. The bitmap is a list of 64-bit lines indexed as in the
  source; an index past the array is undefined. The specification is the set \<open>allocated m\<close> of
  frames in use: marking, freeing and first-fit allocation are proved against it.
\<close>

section \<open>Constants\<close>

definition KiB :: "nat \<Rightarrow> nat" where
  "KiB kib = mul64 kib 1024"

definition MiB :: "nat \<Rightarrow> nat" where
  "MiB mib = mul64 mib (KiB 1024)"

definition GiB :: "nat \<Rightarrow> nat" where
  "GiB gib = mul64 gib (MiB 1024)"

definition kBytesPerFrame :: size_t where
  "kBytesPerFrame = KiB 4"

definition kMaxPhysicalMemoryBytes :: size_t where
  "kMaxPhysicalMemoryBytes = GiB 128"

definition kFrameCount :: size_t where
  "kFrameCount = kMaxPhysicalMemoryBytes div kBytesPerFrame"

text \<open>\<open>8 * sizeof(unsigned long)\<close>: the x86-64 target's \<open>unsigned long\<close> has 8 bytes.\<close>

definition kBitsPerMapLine :: size_t where
  "kBitsPerMapLine = 8 * 8"

lemma kBytesPerFrame_eq: "kBytesPerFrame = 4096"
  by (simp add: kBytesPerFrame_def KiB_def mul64_def)

lemma kFrameCount_eq: "kFrameCount = 33554432"
  by (simp add: kFrameCount_def kMaxPhysicalMemoryBytes_def GiB_def MiB_def KiB_def mul64_def
      kBytesPerFrame_eq)

lemma kBitsPerMapLine_eq: "kBitsPerMapLine = 64"
  by (simp add: kBitsPerMapLine_def)

section \<open>Frame numbers\<close>

type_synonym FrameID = size_t

text \<open>\<open>FrameID::Frame\<close>: the address of the frame.\<close>

definition FrameID_Frame :: "FrameID \<Rightarrow> size_t" where
  "FrameID_Frame f = mul64 f kBytesPerFrame"

definition kNullFrame :: FrameID where
  "kNullFrame = size_max"

section \<open>The allocator\<close>

record BitmapMemoryManager =
  mm_alloc_map :: "u64 list"
  mm_range_begin :: FrameID
  mm_range_end :: FrameID

definition BitmapMemoryManager_new :: BitmapMemoryManager where
  "BitmapMemoryManager_new =
     \<lparr>mm_alloc_map = replicate (kFrameCount div kBitsPerMapLine) 0,
      mm_range_begin = 0, mm_range_end = kFrameCount\<rparr>"

definition GetBit :: "BitmapMemoryManager \<Rightarrow> FrameID \<Rightarrow> bool option" where
  "GetBit m frame =
     (let line_index = frame div kBitsPerMapLine; bit_index = frame mod kBitsPerMapLine
      in if line_index < length (mm_alloc_map m)
         then Some ((mm_alloc_map m ! line_index) AND push_bit bit_index 1 \<noteq> 0)
         else None)"

definition SetBit :: "FrameID \<Rightarrow> bool \<Rightarrow> BitmapMemoryManager \<Rightarrow> BitmapMemoryManager option" where
  "SetBit frame allocated' m =
     (let line_index = frame div kBitsPerMapLine; bit_index = frame mod kBitsPerMapLine
      in if line_index < length (mm_alloc_map m)
         then Some (if allocated'
           then m\<lparr>mm_alloc_map := (mm_alloc_map m)
             [line_index := (mm_alloc_map m ! line_index) OR push_bit bit_index 1]\<rparr>
           else m\<lparr>mm_alloc_map := (mm_alloc_map m)
             [line_index := (mm_alloc_map m ! line_index) AND NOT (push_bit bit_index 1)]\<rparr>)
         else None)"

definition MarkAllocated ::
  "FrameID \<Rightarrow> size_t \<Rightarrow> BitmapMemoryManager \<Rightarrow> BitmapMemoryManager option" where
  "MarkAllocated start_frame num_frames m =
     foldM (\<lambda>i. SetBit (add64 start_frame i) True) [0..<num_frames] m"

definition Free ::
  "FrameID \<Rightarrow> size_t \<Rightarrow> BitmapMemoryManager \<Rightarrow> (Code \<times> BitmapMemoryManager) option" where
  "Free start_frame num_frames m =
     (case foldM (\<lambda>i. SetBit i False) [start_frame..<add64 start_frame num_frames] m of
        None \<Rightarrow> None
      | Some m' \<Rightarrow> Some (kSuccess, m'))"

definition SetMemoryRange ::
  "FrameID \<Rightarrow> FrameID \<Rightarrow> BitmapMemoryManager \<Rightarrow> BitmapMemoryManager" where
  "SetMemoryRange range_begin range_end m = m\<lparr>mm_range_begin := range_begin, mm_range_end := range_end\<rparr>"

text \<open>
  The inner \<open>for\<close> of \<open>Allocate\<close> from index \<open>i\<close>: \<open>Some None\<close> is its \<open>return\<close> of
  \<open>kNoEnoughMemory\<close>, \<open>Some (Some i)\<close> the index at which it was left (by \<open>break\<close> or at its end).
\<close>

function Allocate_scan ::
  "BitmapMemoryManager \<Rightarrow> size_t \<Rightarrow> FrameID \<Rightarrow> size_t \<Rightarrow> size_t option option" where
  "Allocate_scan m num_frames start_frame_id i =
     (if i < num_frames then
        if mm_range_end m \<le> add64 i start_frame_id then Some None
        else (case GetBit m (add64 i start_frame_id) of
            None \<Rightarrow> None
          | Some True \<Rightarrow> Some (Some i)
          | Some False \<Rightarrow> Allocate_scan m num_frames start_frame_id (Suc i))
      else Some (Some i))"
  by pat_completeness auto
termination
  by (relation "measure (\<lambda>(m, n, s, i). n - i)") auto

declare Allocate_scan.simps [simp del]

text \<open>The outer \<open>while (true)\<close>, from the current \<open>start_frame_id\<close>.\<close>

partial_function (option) Allocate_from ::
  "BitmapMemoryManager \<Rightarrow> size_t \<Rightarrow> FrameID \<Rightarrow> (FrameID Either \<times> BitmapMemoryManager) option" where
  "Allocate_from m num_frames start_frame_id =
     (case Allocate_scan m num_frames start_frame_id 0 of
        None \<Rightarrow> None
      | Some r \<Rightarrow>
          (case r of
             None \<Rightarrow> Some (\<lparr>either_value = kNullFrame, either_error = kNoEnoughMemory\<rparr>, m)
           | Some i \<Rightarrow>
               if i = num_frames then
                 (case MarkAllocated start_frame_id num_frames m of
                    None \<Rightarrow> None
                  | Some m' \<Rightarrow> Some (\<lparr>either_value = start_frame_id, either_error = kSuccess\<rparr>, m'))
               else Allocate_from m num_frames (add64 start_frame_id (add64 i 1))))"

definition Allocate ::
  "size_t \<Rightarrow> BitmapMemoryManager \<Rightarrow> (FrameID Either \<times> BitmapMemoryManager) option" where
  "Allocate num_frames m = Allocate_from m num_frames (mm_range_begin m)"

section \<open>The set of allocated frames\<close>

definition frame_bit :: "BitmapMemoryManager \<Rightarrow> FrameID \<Rightarrow> bool" where
  "frame_bit m f \<longleftrightarrow> bit (mm_alloc_map m ! (f div 64)) (f mod 64)"

definition allocated :: "BitmapMemoryManager \<Rightarrow> FrameID set" where
  "allocated m = {f. f < kFrameCount \<and> frame_bit m f}"

text \<open>The manager's bitmap has its declared length and its range lies within the bitmap.\<close>

definition mm_wf :: "BitmapMemoryManager \<Rightarrow> bool" where
  "mm_wf m \<longleftrightarrow> length (mm_alloc_map m) = kFrameCount div kBitsPerMapLine \<and> mm_range_end m \<le> kFrameCount"

lemma line_index_less: "f < kFrameCount \<Longrightarrow> f div 64 < kFrameCount div kBitsPerMapLine"
  by (simp add: kFrameCount_eq kBitsPerMapLine_eq)

lemma and_push_bit_one: "(w :: u64) AND push_bit k 1 \<noteq> 0 \<longleftrightarrow> bit w k"
proof
  assume "w AND push_bit k 1 \<noteq> 0"
  then obtain n where "bit (w AND push_bit k 1) n" using bit_eqI by (metis bit_0_eq bot_apply bot_bool_def)
  then show "bit w k" by (auto simp: bit_simps)
next
  assume "bit w k"
  then have "bit (w AND push_bit k 1) k" by (auto simp: bit_simps dest: bit_imp_le_length)
  then show "w AND push_bit k 1 \<noteq> 0" by (metis bit_0_eq bot_apply bot_bool_def)
qed

lemma GetBit_eq: "mm_wf m \<Longrightarrow> f < kFrameCount \<Longrightarrow> GetBit m f = Some (f \<in> allocated m)"
  using line_index_less [of f]
  by (simp add: GetBit_def allocated_def frame_bit_def mm_wf_def kBitsPerMapLine_eq and_push_bit_one [simplified] Let_def)

lemma GetBit_out_of_range:
  "mm_wf m \<Longrightarrow> kFrameCount \<le> f \<Longrightarrow> GetBit m f = None"
  by (simp add: GetBit_def mm_wf_def kBitsPerMapLine_eq kFrameCount_eq Let_def)

text \<open>One bit changes, the others and the range stay.\<close>

lemma SetBit_spec:
  assumes wf: "mm_wf m" and f: "f < kFrameCount"
  shows "\<exists>m'. SetBit f b m = Some m' \<and> mm_wf m' \<and>
    allocated m' = (if b then insert f (allocated m) else allocated m - {f}) \<and>
    mm_range_begin m' = mm_range_begin m \<and> mm_range_end m' = mm_range_end m"
proof -
  let ?l = "f div 64" and ?k = "f mod 64"
  have l: "?l < length (mm_alloc_map m)"
    using wf line_index_less [OF f] by (simp add: mm_wf_def)
  have k: "?k < LENGTH(64)" by simp
  obtain m' where m': "SetBit f b m = Some m'"
    using l by (simp add: SetBit_def kBitsPerMapLine_eq Let_def)
  have range: "mm_range_begin m' = mm_range_begin m" "mm_range_end m' = mm_range_end m"
    and len: "length (mm_alloc_map m') = length (mm_alloc_map m)"
    using m' by (auto simp: SetBit_def Let_def split: if_splits)
  have bit: "frame_bit m' g \<longleftrightarrow> (if g = f then b else frame_bit m g)" if "g < kFrameCount" for g
  proof -
    have "g div 64 = ?l \<and> g mod 64 = ?k \<longleftrightarrow> g = f" by (metis div_mult_mod_eq)
    then show ?thesis
      using m' l k
      by (auto simp: SetBit_def Let_def kBitsPerMapLine_eq frame_bit_def nth_list_update bit_simps
          split: if_splits)
  qed
  have "allocated m' = (if b then insert f (allocated m) else allocated m - {f})"
    using bit f by (auto simp: allocated_def split: if_splits)
  moreover have "mm_wf m'" using wf range len by (simp add: mm_wf_def)
  ultimately show ?thesis using m' range by blast
qed

text \<open>A loop of \<open>SetBit\<close> over any frames inside the bitmap.\<close>

lemma SetBit_loop_spec:
  assumes wf: "mm_wf m" and fs: "\<forall>i \<in> set xs. g i < kFrameCount"
  shows "\<exists>m'. foldM (\<lambda>i. SetBit (g i) b) xs m = Some m' \<and> mm_wf m' \<and>
    allocated m' = (if b then allocated m \<union> g ` set xs else allocated m - g ` set xs) \<and>
    mm_range_begin m' = mm_range_begin m \<and> mm_range_end m' = mm_range_end m"
proof -
  let ?I = "\<lambda>ys t. mm_wf t \<and>
    allocated t = (if b then allocated m \<union> g ` set ys else allocated m - g ` set ys) \<and>
    mm_range_begin t = mm_range_begin m \<and> mm_range_end t = mm_range_end m"
  have "\<exists>t. foldM (\<lambda>i. SetBit (g i) b) xs m = Some t \<and> ?I xs t"
  proof (rule foldM_rule)
    show "?I [] m" using wf by simp
  next
    fix ys x zs t assume xs: "xs = ys @ x # zs" and I: "?I ys t"
    from fs xs have "g x < kFrameCount" by simp
    from SetBit_spec [OF conjunct1 [OF I] this, of b] I
    show "\<exists>t'. SetBit (g x) b t = Some t' \<and> ?I (ys @ [x]) t'" by auto
  qed
  then show ?thesis by blast
qed

lemma MarkAllocated_spec:
  assumes "mm_wf m" and "s + n \<le> kFrameCount"
  shows "\<exists>m'. MarkAllocated s n m = Some m' \<and> mm_wf m' \<and>
    allocated m' = allocated m \<union> {s..<s + n} \<and>
    mm_range_begin m' = mm_range_begin m \<and> mm_range_end m' = mm_range_end m"
proof -
  have small: "add64 s i = s + i" if "i < n" for i
    using that assms(2) by (simp add: kFrameCount_eq)
  have "add64 s ` {0..<n} = (+) s ` {0..<n}"
    using small by (intro image_cong) auto
  then have img: "add64 s ` {0..<n} = {s..<s + n}"
    by (simp add: add.commute)
  have "\<forall>i \<in> set [0..<n]. add64 s i < kFrameCount"
    using small assms(2) by simp
  from SetBit_loop_spec [OF assms(1) this, of True] show ?thesis
    by (simp add: MarkAllocated_def img)
qed

lemma Free_spec:
  assumes "mm_wf m" and "s + n \<le> kFrameCount"
  shows "\<exists>m'. Free s n m = Some (kSuccess, m') \<and> mm_wf m' \<and>
    allocated m' = allocated m - {s..<s + n} \<and>
    mm_range_begin m' = mm_range_begin m \<and> mm_range_end m' = mm_range_end m"
proof -
  have "\<forall>i \<in> set [s..<s + n]. i < kFrameCount"
    using assms(2) by simp
  from SetBit_loop_spec [OF assms(1), of "[s..<s + n]" "\<lambda>i. i" False, OF this] show ?thesis
    using assms(2) by (auto simp: Free_def kFrameCount_eq)
qed

lemma BitmapMemoryManager_new_wf: "mm_wf BitmapMemoryManager_new"
  by (simp add: mm_wf_def BitmapMemoryManager_new_def)

lemma BitmapMemoryManager_new_allocated: "allocated BitmapMemoryManager_new = {}"
  using line_index_less by (auto simp: allocated_def frame_bit_def BitmapMemoryManager_new_def)

lemma SetMemoryRange_wf: "mm_wf m \<Longrightarrow> e \<le> kFrameCount \<Longrightarrow> mm_wf (SetMemoryRange b e m)"
  by (simp add: mm_wf_def SetMemoryRange_def)

lemma SetMemoryRange_allocated [simp]: "allocated (SetMemoryRange b e m) = allocated m"
  by (simp add: allocated_def frame_bit_def SetMemoryRange_def)

section \<open>First-fit allocation\<close>

text \<open>A run of \<open>n\<close> frames from \<open>s\<close> that lies below the range's end and is free.\<close>

definition fits :: "BitmapMemoryManager \<Rightarrow> FrameID \<Rightarrow> size_t \<Rightarrow> bool" where
  "fits m s n \<longleftrightarrow> (\<forall>i < n. s + i < mm_range_end m \<and> s + i \<notin> allocated m)"

lemma fits_zero [simp]: "fits m s 0"
  by (simp add: fits_def)

text \<open>What leaves the inner loop, from any index whose predecessors were free.\<close>

lemma Allocate_scan_spec:
  assumes "mm_wf m" and "s \<le> kFrameCount" and "i \<le> n" and "fits m s i"
  shows "(\<exists>j. i \<le> j \<and> j < n \<and> mm_range_end m \<le> s + j \<and> Allocate_scan m n s i = Some None) \<or>
    (\<exists>j. i \<le> j \<and> j < n \<and> s + j < mm_range_end m \<and> s + j \<in> allocated m \<and>
       Allocate_scan m n s i = Some (Some j)) \<or>
    (fits m s n \<and> Allocate_scan m n s i = Some (Some n))"
  using assms
proof (induction m n s i rule: Allocate_scan.induct)
  case (1 m n s i)
  have end_le: "mm_range_end m \<le> kFrameCount" using "1.prems"(1) by (simp add: mm_wf_def)
  show ?case
  proof (cases "i < n")
    case False
    with "1.prems"(3) have "Allocate_scan m n s i = Some (Some n)" and "i = n"
      by (subst Allocate_scan.simps, simp_all)
    with "1.prems"(4) show ?thesis by blast
  next
    case i: True
    have "s + i \<le> 2 * kFrameCount"
    proof (cases i)
      case (Suc k)
      with "1.prems"(4) have "s + k < mm_range_end m" by (simp add: fits_def)
      with Suc end_le show ?thesis by (simp add: kFrameCount_eq)
    qed (use "1.prems" in simp)
    then have add: "add64 i s = s + i" by (simp add: kFrameCount_eq add.commute)
    show ?thesis
    proof (cases "mm_range_end m \<le> s + i")
      case True
      with i add show ?thesis by (auto simp: Allocate_scan.simps [of m n s i])
    next
      case False
      then have in_range: "s + i < mm_range_end m" "s + i < kFrameCount" using end_le by simp_all
      have bit: "GetBit m (s + i) = Some (s + i \<in> allocated m)"
        by (rule GetBit_eq [OF "1.prems"(1) in_range(2)])
      show ?thesis
      proof (cases "s + i \<in> allocated m")
        case True
        with i add False bit in_range show ?thesis by (auto simp: Allocate_scan.simps [of m n s i])
      next
        case free: False
        then have "fits m s (Suc i)"
          using "1.prems"(4) in_range by (auto simp: fits_def less_Suc_eq)
        with "1.IH" [OF i, unfolded add, OF False bit] "1.prems" i free add bit False
        show ?thesis by (auto simp: Allocate_scan.simps [of m n s i] Suc_le_eq intro: less_imp_le)
      qed
    qed
  qed
qed

text \<open>
  The whole search. The state of the loop is the start frame; every smaller start in the range
  has been ruled out.
\<close>

lemma Allocate_from_spec:
  assumes "mm_wf m" and "s \<le> kFrameCount" and "\<forall>t. mm_range_begin m \<le> t \<and> t < s \<longrightarrow> \<not> fits m t n"
    and "mm_range_begin m \<le> s"
  shows "(\<exists>t m'. Allocate_from m n s = Some (\<lparr>either_value = t, either_error = kSuccess\<rparr>, m') \<and>
      mm_range_begin m \<le> t \<and> fits m t n \<and> (\<forall>u. mm_range_begin m \<le> u \<and> u < t \<longrightarrow> \<not> fits m u n) \<and>
      MarkAllocated t n m = Some m') \<or>
    (Allocate_from m n s = Some (\<lparr>either_value = kNullFrame, either_error = kNoEnoughMemory\<rparr>, m) \<and>
      (\<forall>t. mm_range_begin m \<le> t \<longrightarrow> \<not> fits m t n))"
  using assms(2-4)
proof (induction "kFrameCount - s" arbitrary: s rule: less_induct)
  case less
  have end_le: "mm_range_end m \<le> kFrameCount" using assms(1) by (simp add: mm_wf_def)
  consider (full) j where "j < n" "mm_range_end m \<le> s + j" "Allocate_scan m n s 0 = Some None"
    | (used) j where "j < n" "s + j < mm_range_end m" "s + j \<in> allocated m"
        "Allocate_scan m n s 0 = Some (Some j)"
    | (found) "fits m s n" "Allocate_scan m n s 0 = Some (Some n)"
    using Allocate_scan_spec [OF assms(1) less.prems(1), of 0 n] by auto
  then show ?case
  proof cases
    case full
    have "\<not> fits m t n" if "mm_range_begin m \<le> t" for t
    proof (cases "t < s")
      case False
      with full show ?thesis by (auto simp: fits_def not_less intro!: exI [of _ j])
    qed (use less.prems(2) that in blast)
    with full(3) show ?thesis by (simp add: Allocate_from.simps [of m n s])
  next
    case found
    have "s + n \<le> kFrameCount"
    proof (cases n)
      case (Suc k)
      with found(1) have "s + k < mm_range_end m" by (simp add: fits_def)
      with Suc end_le show ?thesis by simp
    qed (use less.prems(1) in simp)
    from MarkAllocated_spec [OF assms(1) this] obtain m' where "MarkAllocated s n m = Some m'" by blast
    with found less.prems show ?thesis by (auto simp: Allocate_from.simps [of m n s])
  next
    case used
    let ?s' = "s + (j + 1)"
    have s': "?s' \<le> kFrameCount" using used(2) end_le by simp
    then have add: "add64 s (add64 j 1) = ?s'" by (simp add: kFrameCount_eq)
    have unfold: "Allocate_from m n s = Allocate_from m n ?s'"
      using used(1,4) add by (simp add: Allocate_from.simps [of m n s])
    have "\<not> fits m t n" if "mm_range_begin m \<le> t" "t < ?s'" for t
    proof (cases "t < s")
      case False
      then have "s + j - t < n" "t + (s + j - t) = s + j" using that used(1) by simp_all
      with used(3) show ?thesis by (metis fits_def)
    qed (use less.prems(2) that in blast)
    moreover have "kFrameCount - ?s' < kFrameCount - s" using used(2) end_le by simp
    ultimately show ?thesis
      using less.hyps [of ?s'] s' less.prems(3) unfold by auto
  qed
qed

lemma Allocate_cases:
  assumes "mm_wf m" and "mm_range_begin m \<le> kFrameCount"
  obtains (success) t m' where
      "Allocate n m = Some (\<lparr>either_value = t, either_error = kSuccess\<rparr>, m')"
      "mm_range_begin m \<le> t" "fits m t n" "\<forall>u. mm_range_begin m \<le> u \<and> u < t \<longrightarrow> \<not> fits m u n"
      "mm_wf m'" "allocated m' = allocated m \<union> {t..<t + n}" "t + n \<le> kFrameCount"
      "mm_range_begin m' = mm_range_begin m" "mm_range_end m' = mm_range_end m"
    | (failure)
      "Allocate n m = Some (\<lparr>either_value = kNullFrame, either_error = kNoEnoughMemory\<rparr>, m)"
      "\<forall>t. mm_range_begin m \<le> t \<longrightarrow> \<not> fits m t n"
proof -
  have none: "\<forall>t. mm_range_begin m \<le> t \<and> t < mm_range_begin m \<longrightarrow> \<not> fits m t n"
    by auto
  from Allocate_from_spec [OF assms none le_refl] consider
      (s) t m' where "Allocate n m = Some (\<lparr>either_value = t, either_error = kSuccess\<rparr>, m')"
        "mm_range_begin m \<le> t" "fits m t n" "\<forall>u. mm_range_begin m \<le> u \<and> u < t \<longrightarrow> \<not> fits m u n"
        "MarkAllocated t n m = Some m'"
    | (f) "Allocate n m = Some (\<lparr>either_value = kNullFrame, either_error = kNoEnoughMemory\<rparr>, m)"
        "\<forall>t. mm_range_begin m \<le> t \<longrightarrow> \<not> fits m t n"
    by (auto simp: Allocate_def)
  then show thesis
  proof cases
    case s
    have "t + n \<le> kFrameCount"
    proof (cases n)
      case 0
      have "t \<le> mm_range_begin m" using s(4) 0 by (metis fits_zero le_refl not_less)
      with 0 assms(2) show ?thesis by simp
    next
      case (Suc k)
      with s(3) have "t + k < mm_range_end m" by (simp add: fits_def)
      with Suc assms(1) show ?thesis by (simp add: mm_wf_def)
    qed
    with MarkAllocated_spec [OF assms(1) this] s success show ?thesis by auto
  next
    case f
    with failure show ?thesis by blast
  qed
qed

section \<open>The kernel heap and sbrk\<close>

text \<open>The C library's globals. \<open>errno\<close> keeps the name of the last error.\<close>

datatype errno = ENOMEM | EINVAL

record Heap =
  hp_program_break :: u64
  hp_program_break_end :: u64
  hp_errno :: "errno option"

definition kHeapFrames :: size_t where
  "kHeapFrames = 64 * 512"

definition InitializeHeap ::
  "BitmapMemoryManager \<times> Heap \<Rightarrow> (Code \<times> BitmapMemoryManager \<times> Heap) option" where
  "InitializeHeap = (\<lambda>(m, h).
     case Allocate kHeapFrames m of
       None \<Rightarrow> None
     | Some (heap_start, m') \<Rightarrow>
         if either_error heap_start \<noteq> kSuccess then Some (either_error heap_start, m', h)
         else
           let program_break = word_of_nat (mul64 (either_value heap_start) kBytesPerFrame)
           in Some (kSuccess, m', h\<lparr>hp_program_break := program_break,
             hp_program_break_end := program_break + word_of_nat (mul64 kHeapFrames kBytesPerFrame)\<rparr>))"

text \<open>\<open>incr\<close> is a signed 32-bit integer; pointers are compared as addresses.\<close>

definition sbrk :: "u32 \<Rightarrow> Heap \<Rightarrow> u64 \<times> Heap" where
  "sbrk incr h =
     (if hp_program_break h = 0 \<or> hp_program_break_end h \<le> hp_program_break h + scast incr
      then (-1, h\<lparr>hp_errno := Some ENOMEM\<rparr>)
      else (hp_program_break h, h\<lparr>hp_program_break := hp_program_break h + scast incr\<rparr>))"

definition getpid :: int where
  "getpid = 1"

definition kill :: "int \<Rightarrow> int \<Rightarrow> Heap \<Rightarrow> int \<times> Heap" where
  "kill pid sig h = (-1, h\<lparr>hp_errno := Some EINVAL\<rparr>)"

text \<open>
  \<open>_exit\<close> and \<open>__cxa_pure_virtual\<close> are endless loops around \<open>hlt\<close>: \<open>None\<close>, as for a loop that does not
  end. Of the C++ support, there is no new-handler and no aligned allocation.
\<close>

definition libc_exit :: "Heap \<Rightarrow> Heap option" where
  "libc_exit h = None"

definition cxa_pure_virtual :: "Heap \<Rightarrow> Heap option" where
  "cxa_pure_virtual h = None"

definition get_new_handler :: "u64" where
  "get_new_handler = 0"

definition posix_memalign :: "u64 \<Rightarrow> u64 \<Rightarrow> u64 \<Rightarrow> errno" where
  "posix_memalign memptr alignment size_arg = ENOMEM"

text \<open>The blocks \<open>(address, length)\<close> that a run of calls hands out; a failed call gives none.\<close>

fun sbrk_blocks :: "u32 list \<Rightarrow> Heap \<Rightarrow> (nat \<times> nat) list \<times> Heap" where
  "sbrk_blocks [] h = ([], h)"
| "sbrk_blocks (incr # incrs) h =
     (let (p, h1) = sbrk incr h; (bs, h2) = sbrk_blocks incrs h1
      in (if p = -1 then bs else (unat p, nat (sint incr)) # bs, h2))"

lemma unat_add_scast:
  assumes "0 \<le> sint (incr :: u32)" and "unat (p :: u64) + 2 ^ 31 \<le> 2 ^ 64"
  shows "unat (p + scast incr) = unat p + nat (sint incr)"
proof -
  have "sint incr < 2 ^ 31" using sint_lt [of incr] by simp
  then have s: "nat (sint incr) < 2 ^ 31" by simp
  have "scast incr = (word_of_nat (nat (sint incr)) :: u64)"
    unfolding scast_eq using assms(1) by (rule of_nat_nat [symmetric])
  then show ?thesis
    using s assms(2) by (simp add: unat_word_ariths unat_of_nat)
qed

text \<open>One call with an increment that is not negative.\<close>

lemma sbrk_cases:
  assumes "0 \<le> sint incr" and "unat (hp_program_break_end h) + 2 ^ 31 \<le> 2 ^ 64"
    and "hp_program_break h \<le> hp_program_break_end h"
  obtains (failed) h' where "sbrk incr h = (-1, h')" "hp_program_break h' = hp_program_break h"
      "hp_program_break_end h' = hp_program_break_end h"
    | (granted) h' where "sbrk incr h = (hp_program_break h, h')" "hp_program_break h \<noteq> -1"
      "unat (hp_program_break h') = unat (hp_program_break h) + nat (sint incr)"
      "hp_program_break_end h' = hp_program_break_end h"
      "hp_program_break h' < hp_program_break_end h'"
proof (cases "hp_program_break h = 0 \<or> hp_program_break_end h \<le> hp_program_break h + scast incr")
  case True
  then show ?thesis by (intro failed [of "h\<lparr>hp_errno := Some ENOMEM\<rparr>"]) (simp_all add: sbrk_def)
next
  case False
  from assms have b: "unat (hp_program_break h) + 2 ^ 31 \<le> 2 ^ 64"
    by (simp add: word_le_nat_alt)
  then have "hp_program_break h \<noteq> -1" by (auto simp: unsigned_minus_1_eq_mask mask_eq_exp_minus_1)
  with False unat_add_scast [OF assms(1) b] show ?thesis
    by (intro granted [of "h\<lparr>hp_program_break := hp_program_break h + scast incr\<rparr>"])
      (auto simp: sbrk_def)
qed

lemma sbrk_blocks_spec:
  assumes "\<forall>i \<in> set incrs. 0 \<le> sint i" and "unat (hp_program_break_end h) + 2 ^ 31 \<le> 2 ^ 64"
    and "hp_program_break h \<le> hp_program_break_end h"
  shows "(\<forall>(p, l) \<in> set (fst (sbrk_blocks incrs h)).
      unat (hp_program_break h) \<le> p \<and> p + l < unat (hp_program_break_end h)) \<and>
    sorted_wrt (\<lambda>(p, l) (q, k). p + l \<le> q) (fst (sbrk_blocks incrs h))"
  using assms
proof (induction incrs arbitrary: h)
  case Nil
  then show ?case by simp
next
  case (Cons i incrs)
  from Cons.prems(1) have i: "0 \<le> sint i" by simp
  from i Cons.prems(2,3) show ?case
  proof (cases rule: sbrk_cases)
    case (failed h')
    with Cons.IH [of h'] Cons.prems show ?thesis by (simp add: case_prod_unfold Let_def)
  next
    case (granted h')
    then have "hp_program_break h' \<le> hp_program_break_end h'" by simp
    with Cons.IH [of h'] Cons.prems granted
    have IH: "\<forall>(p, l) \<in> set (fst (sbrk_blocks incrs h')).
        unat (hp_program_break h) + nat (sint i) \<le> p \<and> p + l < unat (hp_program_break_end h)"
      "sorted_wrt (\<lambda>(p, l) (q, k). p + l \<le> q) (fst (sbrk_blocks incrs h'))"
      by simp_all
    have "unat (hp_program_break h') < unat (hp_program_break_end h)"
      using granted by (simp add: word_less_nat_alt)
    with IH granted show ?thesis by (fastforce simp: case_prod_unfold Let_def)
  qed
qed

lemma InitializeHeap_cases:
  assumes "mm_wf m" and "mm_range_begin m \<le> kFrameCount"
  obtains (success) s m' h' where "InitializeHeap (m, h) = Some (kSuccess, m', h')"
      "mm_range_begin m \<le> s" "fits m s kHeapFrames" "s + kHeapFrames \<le> kFrameCount"
      "mm_wf m'" "allocated m' = allocated m \<union> {s..<s + kHeapFrames}"
      "unat (hp_program_break h') = 4096 * s"
      "unat (hp_program_break_end h') = 4096 * (s + kHeapFrames)"
      "mm_range_begin m' = mm_range_begin m" "mm_range_end m' = mm_range_end m"
    | (failure) "InitializeHeap (m, h) = Some (kNoEnoughMemory, m, h)"
      "\<forall>t. mm_range_begin m \<le> t \<longrightarrow> \<not> fits m t kHeapFrames"
  using assms
proof (cases rule: Allocate_cases [of m kHeapFrames])
  case (success s m')
  define h' where "h' = h\<lparr>hp_program_break := word_of_nat (mul64 s kBytesPerFrame),
    hp_program_break_end := word_of_nat (mul64 s kBytesPerFrame) + word_of_nat (mul64 kHeapFrames kBytesPerFrame)\<rparr>"
  have bound: "s + 32768 \<le> 33554432"
    using success(7) by (simp add: kHeapFrames_def kFrameCount_eq)
  then have m64: "mul64 s 4096 = s * 4096" by simp
  have "unat (hp_program_break h') = 4096 * s"
    using bound by (simp add: h'_def kBytesPerFrame_eq m64 unat_of_nat del: of_nat_mult)
  moreover have "unat (hp_program_break_end h') = 4096 * (s + kHeapFrames)"
    using bound by (simp add: h'_def kBytesPerFrame_eq kHeapFrames_def m64 unat_word_ariths unat_of_nat
        del: of_nat_mult)
  moreover have "InitializeHeap (m, h) = Some (kSuccess, m', h')"
    using success(1) by (simp add: InitializeHeap_def h'_def Let_def)
  ultimately show ?thesis using success that(1) by blast
next
  case failure
  then show ?thesis using that(2) by (simp add: InitializeHeap_def)
qed

text \<open>A manager just constructed and given a range.\<close>

lemma fresh_range:
  assumes "b \<le> kFrameCount" and "e \<le> kFrameCount"
  shows "mm_wf (SetMemoryRange b e BitmapMemoryManager_new)"
    and "mm_range_begin (SetMemoryRange b e BitmapMemoryManager_new) \<le> kFrameCount"
  using assms SetMemoryRange_wf [OF BitmapMemoryManager_new_wf] by (simp_all add: SetMemoryRange_def)

lemma fresh_range_fits:
  "s + n \<le> e \<Longrightarrow> fits (SetMemoryRange b e BitmapMemoryManager_new) s n"
  unfolding fits_def SetMemoryRange_allocated BitmapMemoryManager_new_allocated
  by (simp add: SetMemoryRange_def)

lemma SetMemoryRange_begin [simp]: "mm_range_begin (SetMemoryRange b e m) = b"
  by (simp add: SetMemoryRange_def)

section \<open>Properties\<close>

text \<open>
  C12. \<open>Allocate\<close> always returns on a well-formed manager and never indexes past the bitmap. If
  some run of \<open>num_frames\<close> free frames lies in the range, it returns the lowest one and marks
  exactly its frames; otherwise it returns \<open>kNoEnoughMemory\<close> with the null frame and changes nothing.
\<close>

theorem Allocate_first_fit:
  assumes "mm_wf m" and "mm_range_begin m \<le> kFrameCount"
  shows "\<exists>r m'. Allocate n m = Some (r, m') \<and> mm_wf m' \<and>
    (if \<exists>s. mm_range_begin m \<le> s \<and> fits m s n
     then either_error r = kSuccess \<and>
       either_value r = (LEAST s. mm_range_begin m \<le> s \<and> fits m s n) \<and>
       allocated m' = allocated m \<union> {either_value r..<either_value r + n}
     else either_error r = kNoEnoughMemory \<and> either_value r = kNullFrame \<and> m' = m)"
  using assms
proof (cases rule: Allocate_cases [of m n])
  case (success t m')
  then have "(LEAST s. mm_range_begin m \<le> s \<and> fits m s n) = t"
    by (intro Least_equality) (auto simp: not_less [symmetric])
  with success show ?thesis by (auto intro!: exI [of _ t])
qed (use assms in auto)

theorem Allocate_first_fit_witness:
  "\<exists>r m'. Allocate 3 (SetMemoryRange 1 100 BitmapMemoryManager_new) = Some (r, m') \<and>
     either_value r = 1 \<and> allocated m' = {1, 2, 3}"
proof -
  let ?m = "SetMemoryRange 1 100 BitmapMemoryManager_new"
  have wf: "mm_wf ?m" "mm_range_begin ?m \<le> kFrameCount"
    by (rule fresh_range; simp add: kFrameCount_eq)+
  have f: "fits ?m 1 3"
    by (simp_all add: fresh_range_fits)
  have l: "(LEAST s. mm_range_begin ?m \<le> s \<and> fits ?m s 3) = 1"
    using f by (intro Least_equality) auto
  have ex: "\<exists>s. mm_range_begin ?m \<le> s \<and> fits ?m s 3"
    using f by (intro exI [of _ 1]) simp
  have "{1..<1 + 3} = {1, 2, 3 :: nat}" by auto
  with Allocate_first_fit [OF wf, of 3, unfolded if_P [OF ex] l] show ?thesis
    by (metis BitmapMemoryManager_new_allocated SetMemoryRange_allocated sup_bot_left)
qed

text \<open>
  C25. Freeing an allocation undoes it: after \<open>Allocate\<close> succeeded, \<open>Free\<close> of the returned
  frames succeeds and the frames in use are exactly those before.
\<close>

theorem Free_undoes_Allocate:
  assumes "mm_wf m" and "mm_range_begin m \<le> kFrameCount"
    and "Allocate n m = Some (r, m1)" and "either_error r = kSuccess"
  shows "\<exists>m2. Free (either_value r) n m1 = Some (kSuccess, m2) \<and> allocated m2 = allocated m"
  using assms(1,2)
proof (cases rule: Allocate_cases [of m n])
  case (success t m')
  from success(3) have "{t..<t + n} \<inter> allocated m = {}"
    by (auto simp: fits_def) (metis le_add_diff_inverse nat_add_left_cancel_less)
  moreover have "r = \<lparr>either_value = t, either_error = kSuccess\<rparr>" "m1 = m'"
    using success(1) assms(3) by simp_all
  ultimately show ?thesis
    using Free_spec [OF success(5,7)] success(6) by auto
qed (use assms in auto)

theorem Free_undoes_Allocate_witness:
  "\<exists>r m1 m2. Allocate 3 (SetMemoryRange 1 100 BitmapMemoryManager_new) = Some (r, m1) \<and>
     Free (either_value r) 3 m1 = Some (kSuccess, m2) \<and> allocated m2 = {}"
proof -
  let ?m = "SetMemoryRange 1 100 BitmapMemoryManager_new"
  have wf: "mm_wf ?m" "mm_range_begin ?m \<le> kFrameCount"
    by (rule fresh_range; simp add: kFrameCount_eq)+
  have "fits ?m 1 3" "mm_range_begin ?m \<le> 1"
    by (simp_all add: fresh_range_fits)
  with wf obtain r m1 where r: "Allocate 3 ?m = Some (r, m1)" "either_error r = kSuccess"
    by (cases rule: Allocate_cases [of ?m 3]) auto
  from Free_undoes_Allocate [OF wf this] r show ?thesis
    by (auto simp: BitmapMemoryManager_new_allocated)
qed

text \<open>
  C26. Once \<open>InitializeHeap\<close> succeeded, every block that a sequence of \<open>sbrk\<close> calls with
  non-negative increments hands out lies in frames the heap took from the free memory, and the
  blocks do not overlap: each starts at or after the end of the ones before it.
\<close>

theorem sbrk_blocks_in_heap:
  assumes "mm_wf m" and "mm_range_begin m \<le> kFrameCount"
    and "InitializeHeap (m, h) = Some (kSuccess, m', h')"
    and "\<forall>i \<in> set incrs. 0 \<le> sint i"
  shows "(\<forall>(p, l) \<in> set (fst (sbrk_blocks incrs h')). \<forall>a. p \<le> a \<and> a < p + l \<longrightarrow>
      a div kBytesPerFrame \<in> allocated m' - allocated m) \<and>
    sorted_wrt (\<lambda>(p, l) (q, k). p + l \<le> q) (fst (sbrk_blocks incrs h'))"
  using assms(1,2)
proof (cases rule: InitializeHeap_cases [of m h])
  case (success s m0 h0)
  then have eq: "m0 = m'" "h0 = h'" using assms(3) by simp_all
  let ?n = kHeapFrames
  have bound: "4096 * (s + ?n) + 2 ^ 31 \<le> 2 ^ 64"
    using success(4) by (simp add: kFrameCount_eq)
  have blocks: "(\<forall>(p, l) \<in> set (fst (sbrk_blocks incrs h')).
      4096 * s \<le> p \<and> p + l < 4096 * (s + ?n)) \<and>
    sorted_wrt (\<lambda>(p, l) (q, k). p + l \<le> q) (fst (sbrk_blocks incrs h'))"
    using sbrk_blocks_spec [of incrs h', OF assms(4)] success(7,8) bound eq
    by (simp add: word_le_nat_alt)
  have "a div 4096 \<in> allocated m' - allocated m" if "4096 * s \<le> a" "a < 4096 * (s + ?n)" for a
  proof -
    have "s \<le> a div 4096" "a div 4096 < s + ?n" using that by auto
    moreover from this have "a div 4096 \<notin> allocated m"
      using success(3) by (auto simp: fits_def) (metis le_add_diff_inverse nat_add_left_cancel_less)
    ultimately show ?thesis using success(6) eq by simp
  qed
  with blocks show ?thesis by (fastforce simp: kBytesPerFrame_eq)
qed (use assms in simp)

theorem sbrk_blocks_in_heap_witness:
  "\<exists>m' h'. InitializeHeap (SetMemoryRange 1 40000 BitmapMemoryManager_new,
       \<lparr>hp_program_break = 0, hp_program_break_end = 0, hp_errno = None\<rparr>) = Some (kSuccess, m', h') \<and>
     sorted_wrt (\<lambda>(p, l) (q, k). p + l \<le> q) (fst (sbrk_blocks [16, 32] h'))"
proof -
  let ?m = "SetMemoryRange 1 40000 BitmapMemoryManager_new"
  let ?h = "\<lparr>hp_program_break = 0, hp_program_break_end = 0, hp_errno = None\<rparr>"
  have wf: "mm_wf ?m" "mm_range_begin ?m \<le> kFrameCount"
    by (rule fresh_range; simp add: kFrameCount_eq)+
  have "fits ?m 1 kHeapFrames" "mm_range_begin ?m \<le> 1"
    by (simp_all add: fresh_range_fits kHeapFrames_def)
  with wf obtain m' h' where h': "InitializeHeap (?m, ?h) = Some (kSuccess, m', h')"
    by (cases rule: InitializeHeap_cases [of ?m ?h]) auto
  have "\<forall>i \<in> set [16, 32 :: u32]. 0 \<le> sint i" by simp
  from sbrk_blocks_in_heap [OF wf h' this] h' show ?thesis by blast
qed

end
