(* ===== verification/MemoryMap.thy ===== *)
theory MemoryMap
  imports MemoryManager
begin

text \<open>
  The UEFI memory map (\<open>kernel/memory_map/memory_map.hpp\<close>) and the part of \<open>KernelMainNewStack\<close>
  (\<open>kernel/main/main.cpp\<close>, lines 139 to 180) that turns it into the state of the frame allocator.
  Descriptors are read from byte memory at the C layout's offsets. The specification is the set
  of frames of the descriptors whose type is available: on a sorted map the allocator is left
  with exactly the other frames in use, so neither the heap nor a later allocation can take one.
\<close>

section \<open>Descriptors\<close>

record MemoryMap =
  mmap_buffer_size :: u64
  mmap_buffer :: u64
  mmap_map_size :: u64
  mmap_map_key :: u64
  mmap_descriptor_size :: u64
  mmap_descriptor_version :: u32

record MemoryDescriptor =
  md_type :: u32
  md_physical_start :: u64
  md_virtual_start :: u64
  md_number_of_pages :: u64
  md_attribute :: u64

datatype MemoryType =
    kEfiReservedMemoryType | kEfiLoaderCode | kEfiLoaderData | kEfiBootServicesCode
  | kEfiBootServicesData | kEfiRuntimeServicesCode | kEfiRuntimeServicesData
  | kEfiConventionalMemory | kEfiUnusableMemory | kEfiACPIReclaimMemory | kEfiACPIMemoryNVS
  | kEfiMemoryMappedIO | kEfiMemoryMappedIOPortSpace | kEfiPalCode | kEfiPersistentMemory
  | kEfiMaxMemoryType

fun MemoryType_code :: "MemoryType \<Rightarrow> u32" where
  "MemoryType_code kEfiReservedMemoryType = 0"
| "MemoryType_code kEfiLoaderCode = 1"
| "MemoryType_code kEfiLoaderData = 2"
| "MemoryType_code kEfiBootServicesCode = 3"
| "MemoryType_code kEfiBootServicesData = 4"
| "MemoryType_code kEfiRuntimeServicesCode = 5"
| "MemoryType_code kEfiRuntimeServicesData = 6"
| "MemoryType_code kEfiConventionalMemory = 7"
| "MemoryType_code kEfiUnusableMemory = 8"
| "MemoryType_code kEfiACPIReclaimMemory = 9"
| "MemoryType_code kEfiACPIMemoryNVS = 10"
| "MemoryType_code kEfiMemoryMappedIO = 11"
| "MemoryType_code kEfiMemoryMappedIOPortSpace = 12"
| "MemoryType_code kEfiPalCode = 13"
| "MemoryType_code kEfiPersistentMemory = 14"
| "MemoryType_code kEfiMaxMemoryType = 15"

definition MemoryType_eq :: "u32 \<Rightarrow> MemoryType \<Rightarrow> bool" where
  "MemoryType_eq lhs rhs \<longleftrightarrow> lhs = MemoryType_code rhs"

text \<open>The argument is the number the descriptor holds, which the source casts to the enumeration.\<close>

definition IsAvailable :: "u32 \<Rightarrow> bool" where
  "IsAvailable memory_type \<longleftrightarrow>
     MemoryType_eq memory_type kEfiBootServicesCode \<or>
     MemoryType_eq memory_type kEfiBootServicesData \<or>
     MemoryType_eq memory_type kEfiConventionalMemory"

definition kUEFIPageSize :: u64 where
  "kUEFIPageSize = 4096"

text \<open>\<open>reinterpret_cast<const MemoryDescriptor*>(iter)\<close>: four bytes of padding follow the type.\<close>

definition load_descriptor :: "mem \<Rightarrow> u64 \<Rightarrow> MemoryDescriptor" where
  "load_descriptor m a =
     \<lparr>md_type = load32 m a, md_physical_start = load64 m (a + 8), md_virtual_start = load64 m (a + 16),
      md_number_of_pages = load64 m (a + 24), md_attribute = load64 m (a + 32)\<rparr>"

section \<open>The scan of the map\<close>

text \<open>The loop's body; the state is \<open>available_end\<close> and the allocator.\<close>

definition scan_descriptor ::
  "MemoryDescriptor \<Rightarrow> u64 \<times> BitmapMemoryManager \<Rightarrow> (u64 \<times> BitmapMemoryManager) option" where
  "scan_descriptor desc = (\<lambda>(available_end, m).
     case (if available_end < md_physical_start desc
           then MarkAllocated (unat available_end div kBytesPerFrame)
             (unat (md_physical_start desc - available_end) div kBytesPerFrame) m
           else Some m) of
       None \<Rightarrow> None
     | Some m1 \<Rightarrow>
         let physical_end = md_physical_start desc + md_number_of_pages desc * kUEFIPageSize in
         if IsAvailable (md_type desc) then Some (physical_end, m1)
         else (case MarkAllocated (unat (md_physical_start desc) div kBytesPerFrame)
                 (unat (md_number_of_pages desc * kUEFIPageSize) div kBytesPerFrame) m1 of
             None \<Rightarrow> None
           | Some m2 \<Rightarrow> Some (available_end, m2)))"

partial_function (option) scan_memory_map ::
  "mem \<Rightarrow> u64 \<Rightarrow> u64 \<Rightarrow> u64 \<Rightarrow> u64 \<times> BitmapMemoryManager \<Rightarrow> (u64 \<times> BitmapMemoryManager) option" where
  "scan_memory_map mem descriptor_size buffer_end iter s =
     (if iter < buffer_end then
        (case scan_descriptor (load_descriptor mem iter) s of
           None \<Rightarrow> None
         | Some s' \<Rightarrow> scan_memory_map mem descriptor_size buffer_end (iter + descriptor_size) s')
      else Some s)"

text \<open>The allocator from its construction to the heap; the code of \<open>InitializeHeap\<close> is kept.\<close>

definition SetupMemory ::
  "mem \<Rightarrow> MemoryMap \<Rightarrow> Heap \<Rightarrow> (Code \<times> BitmapMemoryManager \<times> Heap) option" where
  "SetupMemory mem mmap h =
     (case scan_memory_map mem (mmap_descriptor_size mmap) (mmap_buffer mmap + mmap_map_size mmap)
             (mmap_buffer mmap) (0, BitmapMemoryManager_new) of
        None \<Rightarrow> None
      | Some (available_end, m) \<Rightarrow>
          InitializeHeap (SetMemoryRange 1 (unat available_end div kBytesPerFrame) m, h))"

section \<open>What a memory map says\<close>

definition desc_start :: "MemoryDescriptor \<Rightarrow> nat" where
  "desc_start d = unat (md_physical_start d) div 4096"

definition desc_end :: "MemoryDescriptor \<Rightarrow> nat" where
  "desc_end d = desc_start d + unat (md_number_of_pages d)"

definition available_frames :: "MemoryDescriptor list \<Rightarrow> nat set" where
  "available_frames ds = (\<Union>d \<in> set (filter (IsAvailable \<circ> md_type) ds). {desc_start d..<desc_end d})"

text \<open>Page-aligned regions in ascending order, without overlap, below \<open>kMaxPhysicalMemoryBytes\<close>.\<close>

fun sorted_map :: "nat \<Rightarrow> MemoryDescriptor list \<Rightarrow> bool" where
  "sorted_map l [] \<longleftrightarrow> l \<le> kFrameCount"
| "sorted_map l (d # ds) \<longleftrightarrow> 4096 dvd unat (md_physical_start d) \<and> l \<le> desc_start d \<and>
     desc_end d \<le> kFrameCount \<and> sorted_map (desc_end d) ds"

definition map_descriptors :: "mem \<Rightarrow> MemoryMap \<Rightarrow> nat \<Rightarrow> MemoryDescriptor list" where
  "map_descriptors mem mmap n =
     map (\<lambda>i. load_descriptor mem (mmap_buffer mmap + word_of_nat i * mmap_descriptor_size mmap)) [0..<n]"

text \<open>\<open>n\<close> descriptors fill the map, and the buffer does not wrap around the address space.\<close>

definition map_layout :: "MemoryMap \<Rightarrow> nat \<Rightarrow> bool" where
  "map_layout mmap n \<longleftrightarrow> 0 < unat (mmap_descriptor_size mmap) \<and>
     unat (mmap_map_size mmap) = n * unat (mmap_descriptor_size mmap) \<and>
     unat (mmap_buffer mmap) + unat (mmap_map_size mmap) < 2 ^ 64"

lemma sorted_map_le: "sorted_map l ds \<Longrightarrow> l \<le> kFrameCount"
  by (cases ds) (auto simp: desc_end_def)

lemma available_frames_Nil [simp]: "available_frames [] = {}"
  by (simp add: available_frames_def)

lemma available_frames_Cons [simp]:
  "available_frames (d # ds) =
     (if IsAvailable (md_type d) then {desc_start d..<desc_end d} else {}) \<union> available_frames ds"
  by (simp add: available_frames_def)

lemma available_frames_append [simp]:
  "available_frames (ds @ es) = available_frames ds \<union> available_frames es"
  by (auto simp: available_frames_def)

section \<open>The loop visits the descriptors in order and returns\<close>

lemma scan_memory_map_foldM:
  assumes dz: "0 < unat dz" and e: "unat iter + n * unat dz < 2 ^ 64"
  shows "scan_memory_map mem dz (iter + word_of_nat n * dz) iter s =
    foldM scan_descriptor (map (\<lambda>i. load_descriptor mem (iter + word_of_nat i * dz)) [0..<n]) s"
  using e
proof (induction n arbitrary: iter s)
  case 0
  then show ?case by (simp add: scan_memory_map.simps)
next
  case (Suc n)
  have lt: "iter < iter + word_of_nat (Suc n) * dz"
  proof -
    have "unat (iter + word_of_nat (Suc n) * dz) = unat iter + Suc n * unat dz"
      using Suc.prems dz
      by (simp add: unat_word_ariths unat_of_nat mod_mult_left_eq mod_add_right_eq del: of_nat_Suc)
    with dz show ?thesis by (simp add: word_less_nat_alt)
  qed
  have it: "unat (iter + dz) = unat iter + unat dz"
    using Suc.prems by (simp add: unat_word_ariths)
  have shift: "iter + word_of_nat (Suc i) * dz = (iter + dz) + word_of_nat i * dz" for i
    by (simp add: algebra_simps)
  have list: "map (\<lambda>i. load_descriptor mem (iter + word_of_nat i * dz)) [0..<Suc n] =
    load_descriptor mem iter # map (\<lambda>i. load_descriptor mem ((iter + dz) + word_of_nat i * dz)) [0..<n]"
    unfolding shift [symmetric] by (simp add: map_upt_Suc del: upt_Suc of_nat_Suc)
  have IH: "scan_memory_map mem dz (iter + dz + word_of_nat n * dz) (iter + dz) t =
    foldM scan_descriptor (map (\<lambda>i. load_descriptor mem (iter + dz + word_of_nat i * dz)) [0..<n]) t" for t
    by (rule Suc.IH) (use Suc.prems it in simp)
  have "scan_memory_map mem dz (iter + word_of_nat (Suc n) * dz) iter s =
    (case scan_descriptor (load_descriptor mem iter) s of None \<Rightarrow> None
     | Some t \<Rightarrow> scan_memory_map mem dz (iter + word_of_nat (Suc n) * dz) (iter + dz) t)"
    using lt by (subst scan_memory_map.simps) simp
  then show ?case unfolding list shift IH by simp
qed

lemma map_layout_foldM:
  assumes "map_layout mmap n"
  shows "scan_memory_map mem (mmap_descriptor_size mmap) (mmap_buffer mmap + mmap_map_size mmap)
    (mmap_buffer mmap) s = foldM scan_descriptor (map_descriptors mem mmap n) s"
proof -
  have "word_of_nat (unat (mmap_map_size mmap)) =
      (word_of_nat (n * unat (mmap_descriptor_size mmap)) :: u64)"
    using assms by (simp only: map_layout_def)
  then have "mmap_map_size mmap = word_of_nat n * mmap_descriptor_size mmap" by simp
  moreover have "unat (mmap_buffer mmap) + n * unat (mmap_descriptor_size mmap) < 2 ^ 64"
    using assms by (simp add: map_layout_def)
  ultimately show ?thesis
    using assms by (simp add: map_layout_def map_descriptors_def scan_memory_map_foldM)
qed

section \<open>The state of the allocator along the scan\<close>

text \<open>
  After the descriptors \<open>ds\<close>, which end at frame \<open>l\<close>, exactly the frames below \<open>l\<close> that no
  available descriptor covers are in use, and \<open>available_end\<close> bounds the available ones.
\<close>

definition scan_inv :: "nat \<Rightarrow> nat set \<Rightarrow> u64 \<times> BitmapMemoryManager \<Rightarrow> bool" where
  "scan_inv l avail = (\<lambda>(e, m). mm_wf m \<and> l \<le> kFrameCount \<and> 4096 dvd unat e \<and> unat e div 4096 \<le> l \<and>
     avail \<subseteq> {..<unat e div 4096} \<and> allocated m = {..<l} - avail)"

lemma physical_end:
  assumes "4096 dvd unat (md_physical_start d)" and "desc_end d \<le> kFrameCount"
  shows "unat (md_number_of_pages d * kUEFIPageSize) = 4096 * unat (md_number_of_pages d)"
    and "unat (md_physical_start d + md_number_of_pages d * kUEFIPageSize) = 4096 * desc_end d"
proof -
  have p: "unat (md_number_of_pages d) \<le> 33554432" "unat (md_physical_start d) = 4096 * desc_start d"
    using assms by (simp_all add: desc_end_def desc_start_def kFrameCount_eq)
  then show *: "unat (md_number_of_pages d * kUEFIPageSize) = 4096 * unat (md_number_of_pages d)"
    by (simp add: kUEFIPageSize_def unat_word_ariths)
  show "unat (md_physical_start d + md_number_of_pages d * kUEFIPageSize) = 4096 * desc_end d"
    using assms(2) p by (simp add: unat_word_ariths(1) * desc_end_def kFrameCount_eq)
qed

lemma scan_descriptor_inv:
  assumes inv: "scan_inv l avail (e, m)" and al: "4096 dvd unat (md_physical_start d)"
    and le: "l \<le> desc_start d" and en: "desc_end d \<le> kFrameCount"
  shows "\<exists>s'. scan_descriptor d (e, m) = Some s' \<and>
    scan_inv (desc_end d) (avail \<union> (if IsAvailable (md_type d) then {desc_start d..<desc_end d} else {})) s'"
proof -
  let ?s = "desc_start d" and ?e = "unat e div 4096"
  have wf: "mm_wf m" and e4: "unat e = 4096 * ?e" and e_le: "?e \<le> l"
    and av: "avail \<subseteq> {..<?e}" and al_m: "allocated m = {..<l} - avail"
    using inv by (simp_all add: scan_inv_def)
  have st: "unat (md_physical_start d) = 4096 * ?s" using al by (simp add: desc_start_def)
  have se: "?s \<le> desc_end d" by (simp add: desc_end_def)
  have less: "e < md_physical_start d \<longleftrightarrow> ?e < ?s"
    by (simp add: word_less_nat_alt st) (use e4 in linarith)
  obtain m1 where m1: "(if e < md_physical_start d
      then MarkAllocated (unat e div 4096) (unat (md_physical_start d - e) div 4096) m
      else Some m) = Some m1"
    "mm_wf m1" "allocated m1 = {..<?s} - avail"
  proof (cases "?e < ?s")
    case True
    then have "e \<le> md_physical_start d" using less by simp
    then have "unat (md_physical_start d - e) = 4096 * ?s - 4096 * ?e"
      using st e4 by (simp add: unat_sub)
    then have d: "unat (md_physical_start d - e) div 4096 = ?s - ?e"
      by (simp flip: diff_mult_distrib2)
    have "?e + (?s - ?e) \<le> kFrameCount" using True se en by simp
    from MarkAllocated_spec [OF wf this] obtain m' where m': "MarkAllocated ?e (?s - ?e) m = Some m'"
      "mm_wf m'" "allocated m' = allocated m \<union> {?e..<?e + (?s - ?e)}" by blast
    have "allocated m' = {..<?s} - avail"
      using m'(3) al_m av le e_le True by auto
    with m' True less d show thesis by (intro that [of m']) simp_all
  next
    case False
    with le e_le have "l = ?s" by simp
    with False wf al_m less show thesis by (intro that [of m]) simp_all
  qed
  show ?thesis
  proof (cases "IsAvailable (md_type d)")
    case True
    have "scan_descriptor d (e, m) =
      Some (md_physical_start d + md_number_of_pages d * kUEFIPageSize, m1)"
      unfolding scan_descriptor_def kBytesPerFrame_eq prod.case m1(1) by (simp add: True Let_def)
    moreover have "{..<?s} - avail = {..<desc_end d} - (avail \<union> {?s..<desc_end d})"
      using se by auto
    moreover have "avail \<union> {?s..<desc_end d} \<subseteq> {..<desc_end d}"
      using av e_le le se by auto
    ultimately show ?thesis
      using True m1 en by (simp add: scan_inv_def physical_end(2) [OF al en])
  next
    case False
    have n: "unat (md_number_of_pages d * kUEFIPageSize) div 4096 = unat (md_number_of_pages d)"
      by (simp add: physical_end(1) [OF al en])
    have "?s + unat (md_number_of_pages d) \<le> kFrameCount" using en by (simp add: desc_end_def)
    from MarkAllocated_spec [OF m1(2) this] obtain m2 where
      m2: "MarkAllocated ?s (unat (md_number_of_pages d)) m1 = Some m2" "mm_wf m2"
        "allocated m2 = allocated m1 \<union> {?s..<desc_end d}"
      by (auto simp: desc_end_def)
    have "scan_descriptor d (e, m) = Some (e, m2)"
      unfolding scan_descriptor_def kBytesPerFrame_eq prod.case m1(1)
      using m2(1) n by (simp add: False Let_def flip: desc_start_def)
    moreover have "allocated m2 = {..<desc_end d} - avail"
      using m2(3) m1(3) av e_le le se by auto
    moreover have "4096 dvd unat e" using e4 by (metis dvd_triv_left)
    ultimately show ?thesis
      using False m2(2) en av e_le le se by (simp add: scan_inv_def)
  qed
qed

lemma scan_descriptors_inv:
  assumes "scan_inv l avail s" and "sorted_map l ds"
  shows "\<exists>l' s'. foldM scan_descriptor ds s = Some s' \<and> scan_inv l' (avail \<union> available_frames ds) s'"
  using assms
proof (induction ds arbitrary: l avail s)
  case Nil
  then show ?case by auto
next
  case (Cons d ds)
  obtain e m where s: "s = (e, m)" by (cases s)
  from Cons.prems s scan_descriptor_inv [of l avail e m d] obtain s1 where
    s1: "scan_descriptor d s = Some s1"
      "scan_inv (desc_end d) (avail \<union> (if IsAvailable (md_type d) then {desc_start d..<desc_end d} else {})) s1"
    by auto
  from Cons.IH [OF s1(2)] Cons.prems(2) s1(1) show ?case by (simp add: Un_assoc)
qed

lemma scan_inv_init: "scan_inv 0 {} (0, BitmapMemoryManager_new)"
  by (simp add: scan_inv_def BitmapMemoryManager_new_wf BitmapMemoryManager_new_allocated)

text \<open>The frames that the configured range offers are available ones.\<close>

lemma scan_inv_range:
  assumes "scan_inv l avail (e, m)"
  defines "m' \<equiv> SetMemoryRange 1 (unat e div kBytesPerFrame) m"
  shows "mm_wf m'" and "f < mm_range_end m' \<Longrightarrow> f \<notin> allocated m' \<Longrightarrow> f \<in> avail"
    and "f \<in> avail \<Longrightarrow> f < mm_range_end m' \<and> f \<notin> allocated m'"
proof -
  have *: "mm_wf m" "unat e div 4096 \<le> kFrameCount" "allocated m = {..<l} - avail" "unat e div 4096 \<le> l"
    "avail \<subseteq> {..<unat e div 4096}"
    using assms(1) by (auto simp: scan_inv_def)
  from * show "mm_wf m'" by (simp add: m'_def kBytesPerFrame_eq SetMemoryRange_wf)
  have range_end: "mm_range_end m' = unat e div 4096" by (simp add: m'_def SetMemoryRange_def kBytesPerFrame_eq)
  show "f < mm_range_end m' \<Longrightarrow> f \<notin> allocated m' \<Longrightarrow> f \<in> avail"
    using * range_end by (simp add: m'_def)
  show "f \<in> avail \<Longrightarrow> f < mm_range_end m' \<and> f \<notin> allocated m'"
    using * range_end by (auto simp: m'_def)
qed

text \<open>The frames a later \<open>Allocate\<close> can take.\<close>

definition offered :: "BitmapMemoryManager \<Rightarrow> nat set" where
  "offered m = {f. mm_range_begin m \<le> f \<and> f < mm_range_end m \<and> f \<notin> allocated m}"

lemma fits_offered:
  assumes "mm_range_begin m \<le> s"
  shows "fits m s n \<longleftrightarrow> {s..<s + n} \<subseteq> offered m"
proof
  assume *: "fits m s n"
  show "{s..<s + n} \<subseteq> offered m"
  proof
    fix f assume "f \<in> {s..<s + n}"
    then have "f - s < n" "s + (f - s) = f" by auto
    with * assms \<open>f \<in> _\<close> show "f \<in> offered m" by (auto simp: fits_def offered_def)
  qed
next
  assume *: "{s..<s + n} \<subseteq> offered m"
  show "fits m s n"
    unfolding fits_def
  proof (intro allI impI)
    fix i assume "i < n"
    then have "s + i \<in> offered m" using * by auto
    then show "s + i < mm_range_end m \<and> s + i \<notin> allocated m" by (simp add: offered_def)
  qed
qed

section \<open>Regions past the bitmap\<close>

lemma SetBit_wf: "SetBit f b m = Some m' \<Longrightarrow> mm_wf m \<Longrightarrow> mm_wf m'"
  by (auto simp: SetBit_def mm_wf_def Let_def split: if_splits)

lemma MarkAllocated_wf: "MarkAllocated s n m = Some m' \<Longrightarrow> mm_wf m \<Longrightarrow> mm_wf m'"
  unfolding MarkAllocated_def by (erule foldM_invariant) (auto intro: SetBit_wf)

lemma scan_descriptor_wf:
  "scan_descriptor d s = Some s' \<Longrightarrow> mm_wf (snd s) \<Longrightarrow> mm_wf (snd s')"
  by (cases s) (auto simp: scan_descriptor_def Let_def split: ub_splits intro: MarkAllocated_wf)

lemma MarkAllocated_out_of_range:
  assumes "mm_wf m" and "0 < n" and "kFrameCount \<le> s" and "s < 2 ^ 64"
  shows "MarkAllocated s n m = None"
  unfolding MarkAllocated_def
proof (rule foldM_None [where x = 0 and P = mm_wf])
  fix t assume "mm_wf t"
  with assms(3,4) show "SetBit (add64 s 0) True t = None"
    by (simp add: SetBit_def mm_wf_def kFrameCount_eq kBitsPerMapLine_eq Let_def)
qed (use assms SetBit_wf in auto)

section \<open>Properties\<close>

text \<open>The allocator when the scan is over and the range is set, before the heap is taken from it.\<close>

lemma scanned_memory:
  assumes "map_layout mmap n" and "sorted_map 0 (map_descriptors mem mmap n)"
  obtains m where "mm_wf m" and "mm_range_begin m = 1"
    and "offered m = available_frames (map_descriptors mem mmap n) - {0}"
    and "\<And>h. SetupMemory mem mmap h = InitializeHeap (m, h)"
proof -
  let ?ds = "map_descriptors mem mmap n"
  from scan_descriptors_inv [OF scan_inv_init assms(2)] obtain l e m0 where
    scan: "foldM scan_descriptor ?ds (0, BitmapMemoryManager_new) = Some (e, m0)"
    and inv: "scan_inv l (available_frames ?ds) (e, m0)" by auto
  define m where "m = SetMemoryRange 1 (unat e div kBytesPerFrame) m0"
  have range_begin: "mm_range_begin m = 1" by (simp add: m_def)
  show ?thesis
  proof (rule that [OF _ range_begin])
    show "mm_wf m" using scan_inv_range(1) [OF inv] by (simp add: m_def)
    show "offered m = available_frames ?ds - {0}"
      using scan_inv_range(2,3) [OF inv] range_begin
      by (auto simp: offered_def m_def Suc_le_eq simp del: SetMemoryRange_allocated)
    show "SetupMemory mem mmap h = InitializeHeap (m, h)" for h
      using scan by (simp add: SetupMemory_def map_layout_foldM [OF assms(1)] m_def)
  qed
qed

lemma frames_from_1: "{s..<s + kHeapFrames} \<subseteq> A - {0} \<Longrightarrow> 1 \<le> s"
proof (rule ccontr)
  assume sub: "{s..<s + kHeapFrames} \<subseteq> A - {0}" and "\<not> 1 \<le> s"
  then have "s = 0" by linarith
  then have "0 \<in> {s..<s + kHeapFrames}" by (simp add: kHeapFrames_def)
  with sub show False by blast
qed

text \<open>The allocator and the heap after the set-up.\<close>

lemma SetupMemory_offered:
  assumes "map_layout mmap n" and "sorted_map 0 (map_descriptors mem mmap n)"
  defines "avail \<equiv> available_frames (map_descriptors mem mmap n) - {0}"
  shows "\<exists>c m h'. SetupMemory mem mmap h = Some (c, m, h') \<and> mm_wf m \<and>
    (if \<exists>s. {s..<s + kHeapFrames} \<subseteq> avail
     then c = kSuccess \<and> (\<exists>s. {s..<s + kHeapFrames} \<subseteq> avail \<and>
       unat (hp_program_break h') = 4096 * s \<and>
       unat (hp_program_break_end h') = 4096 * (s + kHeapFrames) \<and>
       offered m = avail - {s..<s + kHeapFrames})
     else c = kNoEnoughMemory \<and> h' = h \<and> offered m = avail)"
proof -
  from scanned_memory [OF assms(1,2)] obtain m1 where wf: "mm_wf m1" and range_begin: "mm_range_begin m1 = 1"
    and off: "offered m1 = avail" and run: "\<And>h. SetupMemory mem mmap h = InitializeHeap (m1, h)"
    unfolding avail_def by blast
  have fits: "fits m1 s kHeapFrames \<longleftrightarrow> {s..<s + kHeapFrames} \<subseteq> avail" if "1 \<le> s" for s
    using that by (simp add: fits_offered range_begin flip: off)
  have "mm_range_begin m1 \<le> kFrameCount" by (simp add: range_begin kFrameCount_eq)
  with wf show ?thesis
  proof (cases rule: InitializeHeap_cases [of m1 h])
    case (success s m' h')
    have sub: "{s..<s + kHeapFrames} \<subseteq> avail" using fits success(2,3) range_begin by simp
    have "offered m' = offered m1 - {s..<s + kHeapFrames}"
      unfolding offered_def success(6,9,10) by blast
    then have "offered m' = avail - {s..<s + kHeapFrames}" by (simp only: off)
    with sub success(7,8) have "\<exists>s. {s..<s + kHeapFrames} \<subseteq> avail \<and> unat (hp_program_break h') = 4096 * s \<and>
       unat (hp_program_break_end h') = 4096 * (s + kHeapFrames) \<and> offered m' = avail - {s..<s + kHeapFrames}"
      by blast
    moreover have "\<exists>s. {s..<s + kHeapFrames} \<subseteq> avail" using sub by blast
    ultimately show ?thesis
      using success(1,5) by (intro exI [of _ kSuccess] exI [of _ m'] exI [of _ h']) (simp only: run if_True simp_thms)
  next
    case failure
    have "\<not> (\<exists>s. {s..<s + kHeapFrames} \<subseteq> avail)"
      using frames_from_1 fits failure(2) range_begin unfolding avail_def by metis
    with failure(1) wf off show ?thesis
      by (intro exI [of _ kNoEnoughMemory] exI [of _ m1] exI [of _ h]) (simp only: run if_False simp_thms)
  qed
qed

text \<open>
  C17. On a UEFI memory map whose regions are page-aligned, in ascending order, disjoint and below
  128 GiB, the boot code never leaves the bitmap and returns. The frames the allocator then
  offers are exactly those of the available regions without frame 0, less the 32768 consecutive
  ones the heap took; if no such run exists the heap is not set up and nothing is taken.
\<close>

theorem SetupMemory_offers_available:
  assumes "map_layout mmap n" and "sorted_map 0 (map_descriptors mem mmap n)"
  defines "avail \<equiv> available_frames (map_descriptors mem mmap n) - {0}"
  shows "\<exists>c m h'. SetupMemory mem mmap h = Some (c, m, h') \<and> mm_wf m \<and>
    (if \<exists>s. {s..<s + kHeapFrames} \<subseteq> avail
     then c = kSuccess \<and> (\<exists>s. {s..<s + kHeapFrames} \<subseteq> avail \<and>
       unat (hp_program_break h') = 4096 * s \<and>
       unat (hp_program_break_end h') = 4096 * (s + kHeapFrames) \<and>
       offered m = avail - {s..<s + kHeapFrames})
     else c = kNoEnoughMemory \<and> h' = h \<and> offered m = avail)"
  unfolding avail_def by (rule SetupMemory_offered [OF assms(1,2)])

text \<open>
  A map of two descriptors of 48 bytes at address 256: a reserved page at 0, then 40000 pages of
  conventional memory from 0x1000; and one whose only region is reserved and starts at 1 TiB.
\<close>

definition sample_map :: MemoryMap where
  "sample_map = \<lparr>mmap_buffer_size = 4096, mmap_buffer = 256, mmap_map_size = 96, mmap_map_key = 0,
     mmap_descriptor_size = 48, mmap_descriptor_version = 1\<rparr>"

definition sample_mem :: mem where
  "sample_mem = (\<lambda>_. 0)(280 := 1, 304 := 7, 313 := 16, 328 := 0x40, 329 := 0x9c)"

definition high_mem :: mem where
  "high_mem = (\<lambda>_. 0)(269 := 1, 280 := 1, 304 := 7, 313 := 16, 328 := 1)"

lemma two_descriptors:
  "map_descriptors m sample_map 2 = [load_descriptor m 256, load_descriptor m 304]"
  by (simp add: map_descriptors_def sample_map_def numeral_2_eq_2)

lemma sample_descriptors:
  "map_descriptors sample_mem sample_map 2 =
     [\<lparr>md_type = 0, md_physical_start = 0, md_virtual_start = 0, md_number_of_pages = 1, md_attribute = 0\<rparr>,
      \<lparr>md_type = 7, md_physical_start = 4096, md_virtual_start = 0, md_number_of_pages = 40000, md_attribute = 0\<rparr>]"
  unfolding two_descriptors
  by (simp add: load_descriptor_def load64_def load32_def sample_mem_def)

theorem SetupMemory_offers_available_witness:
  "\<exists>m h'. SetupMemory sample_mem sample_map
       \<lparr>hp_program_break = 0, hp_program_break_end = 0, hp_errno = None\<rparr> = Some (kSuccess, m, h') \<and>
     (\<exists>s. 1 \<le> s \<and> s + kHeapFrames \<le> 40001 \<and> unat (hp_program_break h') = 4096 * s)"
proof -
  let ?h = "\<lparr>hp_program_break = 0, hp_program_break_end = 0, hp_errno = None\<rparr>"
  have lay: "map_layout sample_map 2" by (simp add: map_layout_def sample_map_def)
  have sorted: "sorted_map 0 (map_descriptors sample_mem sample_map 2)"
    unfolding sample_descriptors by (simp add: desc_start_def desc_end_def kFrameCount_eq)
  have av: "available_frames (map_descriptors sample_mem sample_map 2) - {0} = {1..<40001}"
    unfolding sample_descriptors
    by (simp add: desc_start_def desc_end_def IsAvailable_def MemoryType_eq_def)
  have "\<exists>s. {s..<s + kHeapFrames} \<subseteq> {1..<40001}"
    by (intro exI [of _ 1]) (simp add: kHeapFrames_def)
  with SetupMemory_offers_available [OF lay sorted, of ?h, unfolded av] obtain m h' s where
    *: "SetupMemory sample_mem sample_map ?h = Some (kSuccess, m, h')"
      "{s..<s + kHeapFrames} \<subseteq> {1..<40001}" "unat (hp_program_break h') = 4096 * s"
    by auto
  then have "1 \<le> s \<and> s + kHeapFrames \<le> 40001" by (auto simp: kHeapFrames_def ivl_subset)
  with * show ?thesis by blast
qed

text \<open>
  C27. The scan does not check a region against the bitmap's 128 GiB: a single region of a type
  that is not available which starts at or above that limit makes the boot code write outside
  the bitmap, whatever the rest of the map.
\<close>

theorem SetupMemory_high_region_undefined:
  assumes "map_layout mmap n" and "d \<in> set (map_descriptors mem mmap n)"
    and "\<not> IsAvailable (md_type d)" and "kFrameCount \<le> desc_start d"
    and "0 < unat (md_number_of_pages d * kUEFIPageSize) div kBytesPerFrame"
  shows "SetupMemory mem mmap h = None"
proof -
  have "foldM scan_descriptor (map_descriptors mem mmap n) (0, BitmapMemoryManager_new) = None"
  proof (rule foldM_None [where x = d and P = "\<lambda>s. mm_wf (snd s)"])
    fix s :: "u64 \<times> BitmapMemoryManager" assume wf: "mm_wf (snd s)"
    have "unat (md_physical_start d) < 2 ^ LENGTH(64)" by (rule unsigned_less)
    then have "desc_start d < 2 ^ 64" by (simp add: desc_start_def)
    then have none: "MarkAllocated (desc_start d) (unat (md_number_of_pages d * kUEFIPageSize) div 4096) m = None"
      if "mm_wf m" for m
      using MarkAllocated_out_of_range [OF that _ assms(4)] assms(5) by (simp add: kBytesPerFrame_eq)
    obtain e m where s: "s = (e, m)" by (cases s)
    show "scan_descriptor d s = None"
    proof (cases "if e < md_physical_start d
        then MarkAllocated (unat e div 4096) (unat (md_physical_start d - e) div 4096) m else Some m")
      case None
      then show ?thesis unfolding scan_descriptor_def s kBytesPerFrame_eq prod.case None by simp
    next
      case (Some m1)
      then have "mm_wf m1" using wf s by (auto split: if_splits intro: MarkAllocated_wf)
      from none [OF this] show ?thesis
        unfolding scan_descriptor_def s kBytesPerFrame_eq prod.case Some
        by (simp add: assms(3) Let_def flip: desc_start_def)
    qed
  qed (use assms(2) scan_descriptor_wf BitmapMemoryManager_new_wf in auto)
  then show ?thesis by (simp add: SetupMemory_def map_layout_foldM [OF assms(1)])
qed

theorem SetupMemory_high_region_undefined_witness:
  "SetupMemory high_mem sample_map
     \<lparr>hp_program_break = 0, hp_program_break_end = 0, hp_errno = None\<rparr> = None"
proof -
  let ?d = "\<lparr>md_type = 0, md_physical_start = 0x10000000000, md_virtual_start = 0,
    md_number_of_pages = 1, md_attribute = 0\<rparr>"
  have lay: "map_layout sample_map 2" by (simp add: map_layout_def sample_map_def)
  have "load_descriptor high_mem 256 = ?d"
    by (simp add: load_descriptor_def load64_def load32_def high_mem_def)
  then have d: "?d \<in> set (map_descriptors high_mem sample_map 2)"
    by (simp add: two_descriptors)
  show ?thesis
    by (rule SetupMemory_high_region_undefined [OF lay d])
      (simp_all add: IsAvailable_def MemoryType_eq_def desc_start_def kFrameCount_eq kBytesPerFrame_eq
        kUEFIPageSize_def)
qed

end
