(* ===== verification/Startup.thy ===== *)
theory Startup
  imports MainLoop Session MemoryMap
begin

text \<open>
  The start of the kernel (\<open>KernelMainNewStack\<close> in \<open>kernel/main/main.cpp\<close>, up to its greeting): the
  console on the frame buffer, the processor's tables, the memory map and the heap, the desktop and
  the queue of messages. The parts are those of their theories; here they share one memory, in
  which the frame buffer and the memory map lie.
\<close>

section \<open>Strings\<close>

definition c_literal :: "string \<Rightarrow> u8 list" where
  "c_literal s = map of_char s @ [0]"

definition greeting :: "u8 list" where
  "greeting = c_literal (''Welcome to tommyOS!'' @ [CHR 0x0A])"

section \<open>The kernel's objects\<close>

record KernelObjects =
  ko_console :: Console
  ko_log_level :: LogLevel
  ko_gdt :: "SegmentDescriptor list"
  ko_cpu :: Processor
  ko_page_tables :: PageTables
  ko_memory_manager :: BitmapMemoryManager
  ko_heap :: Heap
  ko_main_queue :: "Message ArrayQueue"
  ko_memory :: mem

definition pixel_writer_ptr :: nat where "pixel_writer_ptr = 0"

text \<open>
  \<open>memory_map_line\<close> and \<open>failure_line\<close> are what \<open>vsprintf\<close> makes of the two messages with arguments;
  \<open>exit\<close> does not return. There is no layer manager yet to draw.
\<close>

definition KernelStart ::
  "u8 list \<Rightarrow> FrameBufferConfig \<Rightarrow> MemoryMap \<Rightarrow> u8 list \<Rightarrow> (Code \<Rightarrow> u8 list) \<Rightarrow> u64 \<Rightarrow> SegmentDescriptor list \<Rightarrow> PageTables \<Rightarrow>
     Heap \<Rightarrow> Message list \<Rightarrow> mem \<Rightarrow> KernelObjects option" where
  "KernelStart font frame_buffer_config memory_map memory_map_line failure_line gdt_address gdt pt heap main_queue_data m =
   (let pixel_writer = FrameBufferWriter frame_buffer_config; writers = (\<lambda>_. pixel_writer);
        console = Console_new kDesktopFGColor kDesktopBGColor in do {
      (console, m) \<leftarrow> Console_SetWriter font writers (Some pixel_writer_ptr) (console, m);
      let log_level = SetLogLevel kWarn initial_log_level;
      let (gdt, cpu, pt) = SetupProcessor gdt_address gdt pt;
      (n, console, m) \<leftarrow> printk font writers Some memory_map_line (console, m);
      (err, memory_manager, heap) \<leftarrow> SetupMemory m memory_map heap;
      (console, heap, m) \<leftarrow>
        (if err = kSuccess then Some (console, heap, m)
         else do {
           (n, console, m) \<leftarrow> Log font writers Some log_level kError (failure_line err) (console, m);
           heap \<leftarrow> libc_exit heap;
           Some (console, heap, m)
         });
      m \<leftarrow> DrawDesktop pixel_writer m;
      let main_queue = ArrayQueue_of_array main_queue_data;
      (n, console, m) \<leftarrow> printk font writers Some greeting (console, m);
      Some \<lparr>ko_console = console, ko_log_level = log_level, ko_gdt = gdt, ko_cpu = cpu, ko_page_tables = pt,
        ko_memory_manager = memory_manager, ko_heap = heap, ko_main_queue = main_queue, ko_memory = m\<rparr>
    })"

section \<open>The steps\<close>

lemma printk_on_screen:
  assumes "fb_wf config" and "640 \<le> sint (fb_horizontal_resolution config)" and "400 \<le> sint (fb_vertical_resolution config)"
    and "font_wf font" and "0 \<in> set s" and "length s \<le> kMessageBufferSize" and "cs_inv cs" and "cs_writer cs \<noteq> None"
    and "fb_only config m0 m"
  shows "\<exists>cs' m'. printk font (\<lambda>_. FrameBufferWriter config) Some s (cs, m) = Some (length s - 1, cs', m') \<and> fb_only config m0 m' \<and>
    cs_inv cs' \<and> cs_writer cs' = cs_writer cs \<and> cs_fg_color cs' = cs_fg_color cs \<and> cs_bg_color cs' = cs_bg_color cs \<and>
    console_text cs' = fold term_put (c_string s) (console_text cs)"
proof -
  have area: "fb_inb config q" if "console_area q" for q
    using that assms(2,3) by (auto simp: console_area_def fb_inb_def kColumns_def kRows_def)
  have "fb_wf config \<and> fb_only config m0 m" using assms(1,9) by simp
  moreover have "deref (\<lambda>_. FrameBufferWriter config) cs = Some (FrameBufferWriter config)"
    using assms(8) by (auto simp: deref_def)
  ultimately show ?thesis
    using fb.PutString_loop_returns [OF assms(4) area assms(5) _ assms(7)] assms(6)
    unfolding printk_def PutString_def by fastforce
qed

text \<open>What lies outside the frame buffer is read as before.\<close>

lemma load32_cong:
  assumes "\<And>k. k < 4 \<Longrightarrow> m' (a + word_of_nat k) = m (a + word_of_nat k)"
  shows "load32 m' a = load32 m a"
  using assms [of 0] assms [of 1] assms [of 2] assms [of 3] by (simp add: load32_def)

lemma load64_cong:
  assumes "\<And>k. k < 8 \<Longrightarrow> m' (a + word_of_nat k) = m (a + word_of_nat k)"
  shows "load64 m' a = load64 m a"
proof -
  have "load32 m' a = load32 m a" by (rule load32_cong) (simp add: assms)
  moreover have "load32 m' (a + 4) = load32 m (a + 4)"
    by (rule load32_cong) (use assms [of "4 + k" for k] in \<open>simp add: add.assoc\<close>)
  ultimately show ?thesis by (simp add: load64_def)
qed

definition map_bytes :: "MemoryMap \<Rightarrow> nat \<Rightarrow> u64 set" where
  "map_bytes mmap n = {mmap_buffer mmap + word_of_nat i * mmap_descriptor_size mmap + word_of_nat k | i k. i < n \<and> k < 40}"

lemma map_descriptors_outside_screen:
  assumes "fb_only config m m'" and "map_bytes mmap n \<inter> fb_bytes config = {}"
  shows "map_descriptors m' mmap n = map_descriptors m mmap n"
proof -
  have "load_descriptor m' a = load_descriptor m a"
    if a: "a = mmap_buffer mmap + word_of_nat i * mmap_descriptor_size mmap" "i < n" for a i
  proof -
    have same: "m' (a + word_of_nat k) = m (a + word_of_nat k)" if "k < 40" for k
    proof -
      have "a + word_of_nat k \<in> map_bytes mmap n" unfolding map_bytes_def using a that by blast
      with assms(2) have "a + word_of_nat k \<notin> fb_bytes config" by blast
      then show ?thesis using assms(1) by (simp add: fb_only_def)
    qed
    have word: "load64 m' (a + word_of_nat j) = load64 m (a + word_of_nat j)" if "j \<le> 32" for j
      by (rule load64_cong) (use same [of "j + k" for k] that in \<open>simp add: add.assoc\<close>)
    have "load32 m' a = load32 m a" by (rule load32_cong) (simp add: same)
    then show ?thesis using word [of 8] word [of 16] word [of 24] word [of 32] by (simp add: load_descriptor_def)
  qed
  then show ?thesis by (simp add: map_descriptors_def)
qed

lemma Console_SetWriter_on_screen:
  assumes "fb_wf config" and "640 \<le> sint (fb_horizontal_resolution config)" and "400 \<le> sint (fb_vertical_resolution config)"
    and "font_wf font" and "cs_inv cs" and "cs_writer cs = None"
  shows "\<exists>m'. Console_SetWriter font (\<lambda>_. FrameBufferWriter config) (Some ptr) (cs, m) = Some (cs\<lparr>cs_writer := Some ptr\<rparr>, m') \<and>
    fb_only config m m'"
proof -
  let ?cs = "cs\<lparr>cs_writer := Some ptr\<rparr>"
  have area: "fb_inb config q" if "console_area q" for q
    using that assms(2,3) by (auto simp: console_area_def fb_inb_def kColumns_def kRows_def)
  have start: "fb_wf config \<and> fb_only config m m" using assms(1) by simp
  have buf: "buf_wf ?cs" using cs_inv_buf_wf [OF assms(5)] by (simp add: buf_wf_def)
  have "deref (\<lambda>_. FrameBufferWriter config) ?cs = Some (FrameBufferWriter config)" by (simp add: deref_def)
  from fb.Refresh_paint [OF start assms(4) buf area this] show ?thesis
    using assms(6) by (auto simp: Console_SetWriter_def)
qed

lemma greeting_string: "0 \<in> set greeting" "length greeting \<le> kMessageBufferSize"
  by (simp_all add: greeting_def c_literal_def kMessageBufferSize_def)

lemma KernelStart_objects:
  assumes screen: "fb_wf config" "640 \<le> sint (fb_horizontal_resolution config)" "400 \<le> sint (fb_vertical_resolution config)" "font_wf font"
    and line: "0 \<in> set memory_map_line" "length memory_map_line \<le> kMessageBufferSize"
    and "map_layout memory_map n" and "sorted_map 0 (map_descriptors m memory_map n)"
    and disjoint: "map_bytes memory_map n \<inter> fb_bytes config = {}"
  defines "avail \<equiv> available_frames (map_descriptors m memory_map n) - {0}"
  assumes room: "\<exists>s. {s..<s + kHeapFrames} \<subseteq> avail"
  obtains k s where
    "KernelStart font config memory_map memory_map_line failure_line gdt_address gdt pt heap main_queue_data m = Some k"
    "cs_inv (ko_console k)" "cs_writer (ko_console k) = Some pixel_writer_ptr" "ko_log_level k = kWarn"
    "console_text (ko_console k) = fold term_put (c_string memory_map_line @ c_string greeting) [[]]"
    "SetupProcessor gdt_address gdt pt = (ko_gdt k, ko_cpu k, ko_page_tables k)"
    "ko_main_queue k = ArrayQueue_of_array main_queue_data" "fb_only config m (ko_memory k)"
    "{s..<s + kHeapFrames} \<subseteq> avail" "unat (hp_program_break (ko_heap k)) = 4096 * s"
    "unat (hp_program_break_end (ko_heap k)) = 4096 * (s + kHeapFrames)"
    "offered (ko_memory_manager k) = avail - {s..<s + kHeapFrames}"
proof -
  let ?pw = "FrameBufferWriter config" and ?cs0 = "Console_new kDesktopFGColor kDesktopBGColor"
  let ?cs1 = "?cs0\<lparr>cs_writer := Some pixel_writer_ptr\<rparr>"
  have "cs_writer ?cs0 = None" by (simp add: Console_new_def)
  from Console_SetWriter_on_screen [OF screen Console_new_inv this] obtain m1 where
    1: "Console_SetWriter font (\<lambda>_. ?pw) (Some pixel_writer_ptr) (?cs0, m) = Some (?cs1, m1)" "fb_only config m m1" by blast
  have cs1: "cs_inv ?cs1" "cs_writer ?cs1 \<noteq> None" "console_text ?cs1 = [[]]"
    using Console_new_inv [of kDesktopFGColor kDesktopBGColor] by (simp_all add: cs_inv_writer console_text_writer Console_new_text)
  from printk_on_screen [OF screen line cs1(1,2) 1(2)] obtain cs2 m2 where
    2: "printk font (\<lambda>_. ?pw) Some memory_map_line (?cs1, m1) = Some (length memory_map_line - 1, cs2, m2)" "fb_only config m m2"
      "cs_inv cs2" "cs_writer cs2 = Some pixel_writer_ptr" "console_text cs2 = fold term_put (c_string memory_map_line) [[]]"
    unfolding cs1(3) by auto
  have same: "map_descriptors m2 memory_map n = map_descriptors m memory_map n"
    by (rule map_descriptors_outside_screen [OF 2(2) disjoint])
  from SetupMemory_offered [of memory_map n m2 heap, unfolded same, OF assms(7,8), folded avail_def] room obtain mm heap' s where
    3: "SetupMemory m2 memory_map heap = Some (kSuccess, mm, heap')" "{s..<s + kHeapFrames} \<subseteq> avail"
      "unat (hp_program_break heap') = 4096 * s" "unat (hp_program_break_end heap') = 4096 * (s + kHeapFrames)"
      "offered mm = avail - {s..<s + kHeapFrames}" by auto
  have "41 \<le> sint (fb_horizontal_resolution config)" "50 \<le> sint (fb_vertical_resolution config)" using screen(2,3) by simp_all
  from DrawDesktop_image [OF screen(1) this, of m2] obtain m3 where
    4: "DrawDesktop ?pw m2 = Some m3" "fb_only config m2 m3" by blast
  have "cs_writer cs2 \<noteq> None" using 2(4) by simp
  from printk_on_screen [OF screen greeting_string 2(3) this fb_only_trans [OF 2(2) 4(2)]] obtain cs3 m4 where
    5: "printk font (\<lambda>_. ?pw) Some greeting (cs2, m3) = Some (length greeting - 1, cs3, m4)" "fb_only config m m4"
      "cs_inv cs3" "cs_writer cs3 = Some pixel_writer_ptr" "console_text cs3 = fold term_put (c_string greeting) (console_text cs2)"
    unfolding 2(4) by blast
  obtain gdt' cpu pt' where cpu: "SetupProcessor gdt_address gdt pt = (gdt', cpu, pt')" by (metis prod.exhaust)
  have "KernelStart font config memory_map memory_map_line failure_line gdt_address gdt pt heap main_queue_data m =
    Some \<lparr>ko_console = cs3, ko_log_level = kWarn, ko_gdt = gdt', ko_cpu = cpu, ko_page_tables = pt', ko_memory_manager = mm,
      ko_heap = heap', ko_main_queue = ArrayQueue_of_array main_queue_data, ko_memory = m4\<rparr>"
    unfolding KernelStart_def Let_def using 1(1) 2(1) 3(1) 4(1) 5(1) cpu by (simp add: SetLogLevel_def)
  then show thesis by (rule that) (use 2(5) 3 5 cpu in simp_all)
qed

section \<open>Properties\<close>

text \<open>
  C5. The kernel starts. On a screen of at least 640 by 400 pixels, with a memory map that is sorted,
  lies outside the frame buffer and has room for the heap, the start up to the greeting returns and
  the desktop can be set up: every pixel of the screen then shows the mouse cursor, else the
  two messages of the start, else the desktop. Drawing has not disturbed the memory map: the
  allocator offers exactly the available frames less the heap, which the C library has got.
  Only warnings and errors are logged from then on, and no memory outside the frame buffer has been
  drawn on.
\<close>

theorem kernel_starts:
  assumes "fb_wf config" and "640 \<le> sint (fb_horizontal_resolution config)" and "400 \<le> sint (fb_vertical_resolution config)"
    and "font_wf font" and "0 \<in> set memory_map_line" and "length memory_map_line \<le> kMessageBufferSize"
    and "map_layout memory_map n" and "sorted_map 0 (map_descriptors m memory_map n)"
    and "map_bytes memory_map n \<inter> fb_bytes config = {}"
    and "\<exists>s. {s..<s + kHeapFrames} \<subseteq> available_frames (map_descriptors m memory_map n) - {0}"
  shows "\<exists>k s windows lm mouse_id console m'.
    KernelStart font config memory_map memory_map_line failure_line gdt_address gdt pt heap main_queue_data m = Some k \<and>
    SetupDesktop font config (FrameBufferWriter config) (ko_console k, ko_memory k) = Some (windows, lm, mouse_id, console, m') \<and>
    console_text console = fold term_put (c_string memory_map_line @ c_string greeting) [[]] \<and>
    (\<forall>p. fb_inb config p \<longrightarrow> fb_px config m' p = cursor_over (vec 200 200) (text_over font
      (desktop_color (sint (fb_horizontal_resolution config)) (sint (fb_vertical_resolution config))) console) p) \<and>
    fb_only config m m' \<and> ko_log_level k = kWarn \<and>
    {s..<s + kHeapFrames} \<subseteq> available_frames (map_descriptors m memory_map n) - {0} \<and>
    unat (hp_program_break (ko_heap k)) = 4096 * s \<and> unat (hp_program_break_end (ko_heap k)) = 4096 * (s + kHeapFrames) \<and>
    offered (ko_memory_manager k) = available_frames (map_descriptors m memory_map n) - {0} - {s..<s + kHeapFrames}"
proof (rule KernelStart_objects [OF assms])
  fix k s
  let ?desktop = "desktop_color (sint (fb_horizontal_resolution config)) (sint (fb_vertical_resolution config))"
  assume k: "KernelStart font config memory_map memory_map_line failure_line gdt_address gdt pt heap main_queue_data m = Some k"
      "cs_inv (ko_console k)" "cs_writer (ko_console k) = Some pixel_writer_ptr" "ko_log_level k = kWarn"
      "console_text (ko_console k) = fold term_put (c_string memory_map_line @ c_string greeting) [[]]"
      "fb_only config m (ko_memory k)"
    and s: "{s..<s + kHeapFrames} \<subseteq> available_frames (map_descriptors m memory_map n) - {0}"
      "unat (hp_program_break (ko_heap k)) = 4096 * s" "unat (hp_program_break_end (ko_heap k)) = 4096 * (s + kHeapFrames)"
      "offered (ko_memory_manager k) = available_frames (map_descriptors m memory_map n) - {0} - {s..<s + kHeapFrames}"
  have "cs_writer (ko_console k) \<noteq> Some bgwriter_ptr" using k(3) by (simp add: pixel_writer_ptr_def bgwriter_ptr_def)
  from SetupDesktop_windows [OF assms(1-4) k(2) this, of "ko_memory k"] obtain ws m' where
    d: "SetupDesktop font config (FrameBufferWriter config) (ko_console k, ko_memory k) =
        Some (ws, desktop_manager (FrameBufferWriter config) (vec 200 200), 2, (ko_console k)\<lparr>cs_writer := Some bgwriter_ptr\<rparr>, m')"
      "fb_only config (ko_memory k) m'"
      "\<forall>p. fb_inb config p \<longrightarrow> fb_px config m' p = cursor_over (vec 200 200) (text_over font ?desktop (ko_console k)) p"
    unfolding desktop_with_text_def by blast
  let ?cs = "(ko_console k)\<lparr>cs_writer := Some bgwriter_ptr\<rparr>"
  have "console_text ?cs = fold term_put (c_string memory_map_line @ c_string greeting) [[]]"
    "\<forall>p. fb_inb config p \<longrightarrow> fb_px config m' p = cursor_over (vec 200 200) (text_over font ?desktop ?cs) p"
    using k(5) d(3) unfolding console_text_writer text_over_writer by simp_all
  with k(1,4) s d(1) fb_only_trans [OF k(6) d(2)] show ?thesis by blast
qed

text \<open>A screen in the memory of the sample map, which lies below it.\<close>

definition sample_screen :: FrameBufferConfig where
  "sample_screen = \<lparr>fb_frame_buffer = 0x80000000, fb_pixels_per_scan_line = 800, fb_horizontal_resolution = 800,
     fb_vertical_resolution = 600, fb_pixel_format = kPixelBGRResv8BitPerColor\<rparr>"

lemma sample_map_below_screen: "map_bytes sample_map 2 \<inter> fb_bytes sample_screen = {}"
proof -
  have "unat (256 + word_of_nat i * 48 + word_of_nat k :: u64) < 0x80000000" if "i < 2" "k < 40" for i k :: nat
  proof -
    have "(256 + word_of_nat i * 48 + word_of_nat k :: u64) = word_of_nat (256 + i * 48 + k)" by simp
    also have "unat \<dots> = 256 + i * 48 + k" using that by (simp only: unsigned_of_nat) (simp add: take_bit_nat_eq_self)
    finally show ?thesis using that by simp
  qed
  then show ?thesis by (fastforce simp: map_bytes_def sample_map_def fb_bytes_def sample_screen_def)
qed

theorem kernel_starts_witness:
  "\<exists>k windows lm mouse_id console m'.
    KernelStart (replicate 4096 255) sample_screen sample_map (c_literal (''memory_map: 0x100'' @ [CHR 0x0A])) (\<lambda>_. [0]) 0x5000
      [0, 0, 0] sample_tables \<lparr>hp_program_break = 0, hp_program_break_end = 0, hp_errno = None\<rparr>
      (replicate 32 \<lparr>msg_type = kInterruptXHCI\<rparr>) sample_mem = Some k \<and>
    SetupDesktop (replicate 4096 255) sample_screen (FrameBufferWriter sample_screen) (ko_console k, ko_memory k) =
      Some (windows, lm, mouse_id, console, m') \<and>
    console_text console = [map of_char ''memory_map: 0x100'', map of_char ''Welcome to tommyOS!'', []] \<and>
    fb_px sample_screen m' (200, 200) = BLACK"
proof -
  have screen: "fb_wf sample_screen" "640 \<le> sint (fb_horizontal_resolution sample_screen)"
    "400 \<le> sint (fb_vertical_resolution sample_screen)" by (simp_all add: fb_wf_def sample_screen_def)
  have font: "font_wf (replicate 4096 255)" by (simp add: font_wf_def)
  let ?line = "c_literal (''memory_map: 0x100'' @ [CHR 0x0A])"
  have line: "0 \<in> set ?line" "length ?line \<le> kMessageBufferSize" by (simp_all add: c_literal_def kMessageBufferSize_def)
  have lay: "map_layout sample_map 2" by (simp add: map_layout_def sample_map_def)
  have sorted: "sorted_map 0 (map_descriptors sample_mem sample_map 2)"
    unfolding sample_descriptors by (simp add: desc_start_def desc_end_def kFrameCount_eq)
  have "available_frames (map_descriptors sample_mem sample_map 2) - {0} = {1..<40001}"
    unfolding sample_descriptors
    by (simp add: desc_start_def desc_end_def IsAvailable_def MemoryType_eq_def)
  then have room: "\<exists>s. {s..<s + kHeapFrames} \<subseteq> available_frames (map_descriptors sample_mem sample_map 2) - {0}"
    by (intro exI [of _ 1]) (simp add: kHeapFrames_def)
  have lines: "fold term_put (c_string ?line @ c_string greeting) [[]] =
      [map of_char ''memory_map: 0x100'', map of_char ''Welcome to tommyOS!'', []]" by code_simp
  have at: "cursor_at (vec 200 200) (200, 200) = Some BLACK" by code_simp
  from kernel_starts [OF screen font line lay sorted sample_map_below_screen room, of "\<lambda>_. [0]" "0x5000" "[0, 0, 0]"
    sample_tables "\<lparr>hp_program_break = 0, hp_program_break_end = 0, hp_errno = None\<rparr>" "replicate 32 \<lparr>msg_type = kInterruptXHCI\<rparr>"]
  obtain k windows lm mouse_id console m' where
    k: "KernelStart (replicate 4096 255) sample_screen sample_map ?line (\<lambda>_. [0]) 0x5000 [0, 0, 0] sample_tables
        \<lparr>hp_program_break = 0, hp_program_break_end = 0, hp_errno = None\<rparr> (replicate 32 \<lparr>msg_type = kInterruptXHCI\<rparr>) sample_mem = Some k"
      "SetupDesktop (replicate 4096 255) sample_screen (FrameBufferWriter sample_screen) (ko_console k, ko_memory k) =
        Some (windows, lm, mouse_id, console, m')"
      "console_text console = fold term_put (c_string ?line @ c_string greeting) [[]]" and
    px: "\<forall>p. fb_inb sample_screen p \<longrightarrow> fb_px sample_screen m' p = cursor_over (vec 200 200) (text_over (replicate 4096 255)
      (desktop_color (sint (fb_horizontal_resolution sample_screen)) (sint (fb_vertical_resolution sample_screen))) console) p"
    by (elim exE conjE) (rule that; assumption)
  have "fb_px sample_screen m' (200, 200) = BLACK"
    using px [rule_format, of "(200, 200)"] by (simp add: fb_inb_def sample_screen_def cursor_over_def at)
  with k show ?thesis unfolding lines by blast
qed

end
