(* ===== verification/HidReports.thy ===== *)
theory HidReports
  imports UsbDevice
begin

text \<open>
  A keyboard or mouse at work: the controller puts a report in the driver's buffer and a transfer
  event in its ring, the device object passes it to the class driver, which tells its observers and
  asks for the next report (\<open>usb/xhci/device.cpp\<close>, \<open>usb/device.cpp\<close>, \<open>usb/classdriver\<close>). Here the reports
  are taken one after the other, with the ring of the endpoint going round.
\<close>

section \<open>Reports and notifications\<close>

text \<open>The request for a report, as \<open>InterruptIn\<close> makes it.\<close>

definition report_request :: "u64 \<Rightarrow> int \<Rightarrow> TRB" where
  "report_request buf len =
     wr NormalTRB ''interrupt_on_completion'' 1 (wr NormalTRB ''interrupt_on_short_packet'' 1
       (wr NormalTRB ''trb_transfer_length'' (of_int len) (NormalTRB_SetPointer buf NormalTRB_new)))"

text \<open>
  What the observers are told of a report: of the keys in bytes 2 to 7 that the bytes kept from
  before do not contain, each to every observer; or of the two displacements.
\<close>

definition notifications :: "HIDKind \<Rightarrow> nat list \<Rightarrow> buffer \<Rightarrow> buffer \<Rightarrow> Notification list" where
  "notifications kind observers prev buf = (case kind of
     HIDKeyboard \<Rightarrow> concat (map (\<lambda>key. map (\<lambda>ob. KeyPush ob key) observers)
       (filter (\<lambda>key. key \<noteq> 0 \<and> key \<notin> set prev) (take 6 (drop 2 buf))))
   | HIDMouse \<Rightarrow> map (\<lambda>ob. MouseMove ob (buf ! 1) (buf ! 2)) observers)"

text \<open>The bytes kept: a report replaces as many as it has.\<close>

definition kept :: "nat \<Rightarrow> buffer \<Rightarrow> buffer \<Rightarrow> buffer" where
  "kept n buf prev = take n buf @ drop n prev"

fun all_notifications :: "HIDKind \<Rightarrow> nat list \<Rightarrow> buffer \<Rightarrow> (nat \<times> buffer) list \<Rightarrow> Notification list" where
  "all_notifications kind observers prev [] = []"
| "all_notifications kind observers prev ((n, buf) # reports) =
     notifications kind observers prev buf @ all_notifications kind observers (kept n buf prev) reports"

text \<open>The controller fills the buffer at \<open>addr\<close> and reports the event; the result is in each case \<open>kSuccess\<close>.\<close>

fun receive_reports :: "'hw Mmio \<Rightarrow> u64 \<Rightarrow> (TRB \<times> buffer) list \<Rightarrow> 'hw dstate \<Rightarrow> 'hw dstate option" where
  "receive_reports io addr [] s = Some s"
| "receive_reports io addr ((ev, buf) # reports) s = do {
     (err, s) \<leftarrow> OnTransferEventReceived io ev (fst s, (snd s)\<lparr>w_bytes := (w_bytes (snd s))(addr := buf)\<rparr>);
     if err = kSuccess then receive_reports io addr reports s else None
   }"

section \<open>The request\<close>

lemma report_request_positions:
  "wr NormalTRB ''interrupt_on_completion'' = bf_set 101 1" "wr NormalTRB ''interrupt_on_short_packet'' = bf_set 98 1"
  "wr NormalTRB ''trb_transfer_length'' = bf_set 64 17" "rd NormalTRB ''trb_transfer_length'' = bf_get 64 17"
proof -
  have "map (\<lambda>f. (offset_of NormalTRB f, width_of NormalTRB f))
      [''interrupt_on_completion'', ''interrupt_on_short_packet'', ''trb_transfer_length''] = [(101, 1), (98, 1), (64, 17)]"
    by code_simp
  then show "wr NormalTRB ''interrupt_on_completion'' = bf_set 101 1" "wr NormalTRB ''interrupt_on_short_packet'' = bf_set 98 1"
    "wr NormalTRB ''trb_transfer_length'' = bf_set 64 17" "rd NormalTRB ''trb_transfer_length'' = bf_get 64 17"
    by (simp_all add: wr_def rd_def fun_eq_iff)
qed

lemma report_request_fields:
  fixes c :: bool
  assumes "0 \<le> len" and "len < 2 ^ 17"
  shows "TRBDynamicCast NormalTRB_Type (with_cycle c (report_request p len)) = Some (with_cycle c (report_request p len))"
    and "rd NormalTRB ''trb_transfer_length'' (with_cycle c (report_request p len)) = of_int len"
proof -
  let ?t = "with_cycle c (report_request p len)"
  have in_types: "(NormalTRB, NormalTRB_Type) \<in> set trb_types" by (simp add: trb_types_def)
  have t1: "take_bit 6 (1 :: TRB) = 1" using of_nat_type_take_bit [of 1] by simp
  have "rd TRB ''trb_type'' ?t = 1"
    unfolding report_request_def trb_type_position NormalTRB_SetPointer_def NormalTRB_new_def report_request_positions
    by (simp add: trb_field_positions trb_type_rd [OF in_types] bf_get_with_cycle bf_simps t1 NormalTRB_Type_def)
  then show "TRBDynamicCast NormalTRB_Type ?t = Some ?t" by (simp add: TRBDynamicCast_def NormalTRB_Type_def)
  show "rd NormalTRB ''trb_transfer_length'' ?t = of_int len"
    unfolding report_request_def NormalTRB_SetPointer_def report_request_positions
    by (simp add: trb_field_positions bf_get_with_cycle bf_simps take_bit_length_field [OF assms])
qed

lemma InterruptIn_pushes:
  assumes "1 \<le> DeviceContextIndex_of_ep ep" and inv: "transfer_ring_inv (nat (DeviceContextIndex_of_ep ep - 1)) l b hist (dev, w)"
  obtains rs m hw where
    "InterruptIn io ep buf len (dev, w) = Some (kSuccess, dev\<lparr>dev_transfer_rings := rs\<rparr>, w\<lparr>w_mem := m, w_hw := hw\<rparr>)"
    "transfer_ring_inv (nat (DeviceContextIndex_of_ep ep - 1)) l b (hist @ [report_request buf len])
      (dev\<lparr>dev_transfer_rings := rs\<rparr>, w\<lparr>w_mem := m, w_hw := hw\<rparr>)"
proof -
  define i where "i = nat (DeviceContextIndex_of_ep ep - 1)"
  have ring: "i < length (dev_transfer_rings dev)" "dev_transfer_rings dev ! i \<noteq> None"
    using inv by (auto simp: transfer_ring_inv_def i_def split: option.splits)
  have go: "\<not> (DeviceContextIndex_of_ep ep < 1 \<or> length (dev_transfer_rings dev) < nat (DeviceContextIndex_of_ep ep))"
    using assms(1) ring(1) by (auto simp: i_def)
  from push_transfer_ring [OF inv [folded i_def], of "report_request buf len"] obtain rs m where
    "push_transfer i (report_request buf len) (dev, w) =
      Some (slot b (of_nat (length hist mod l)), dev\<lparr>dev_transfer_rings := rs\<rparr>, w\<lparr>w_mem := m\<rparr>)"
    "transfer_ring_inv i l b (hist @ [report_request buf len]) (dev\<lparr>dev_transfer_rings := rs\<rparr>, w\<lparr>w_mem := m\<rparr>)" by blast
  then show thesis
    using that [of rs "DoorbellRegister_Ring io (dev_dbreg dev) (of_int (DeviceContextIndex_of_ep ep)) 0 (w_hw w)" m]
    unfolding InterruptIn_def Let_def i_def [symmetric] prod.case if_not_P [OF go] if_not_P [OF ring(2)] report_request_def
    by (simp add: ring_doorbell_def transfer_ring_inv_def cong: option.case_cong)
qed

section \<open>One report\<close>

lemma pushed_keys_in_report:
  assumes "length buf = kHIDBufferSize"
  shows "pushed_keys buf prev = filter (\<lambda>key. key \<noteq> 0 \<and> key \<notin> set prev) (take 6 (drop 2 buf))"
proof -
  have "map ((!) buf) [2..<8] = map ((!) (drop 2 buf)) [0..<6]" using assms by (simp add: upt_rec kHIDBufferSize_def)
  also have "\<dots> = take 6 (drop 2 buf)" using assms by (intro nth_equalityI) (simp_all add: kHIDBufferSize_def)
  finally show ?thesis by (simp only: pushed_keys_def)
qed

lemma fold_Notify:
  "fold (\<lambda>key. Notify (\<lambda>ob. KeyPush ob key) h) ks w =
    w\<lparr>w_notified := w_notified w @ concat (map (\<lambda>key. map (\<lambda>ob. KeyPush ob key) (hid_observers h)) ks)\<rparr>"
  by (induction ks arbitrary: w) (simp_all add: Notify_def)

lemma HID_OnDataReceived_notifies:
  assumes "length (w_bytes w (hid_addr (dev_drivers dev ! d))) = kHIDBufferSize"
  shows "HID_OnDataReceived d (dev, w) = (dev, w\<lparr>w_notified := w_notified w @
    notifications (hid_kind (dev_drivers dev ! d)) (hid_observers (dev_drivers dev ! d)) (hid_previous_buf (dev_drivers dev ! d))
      (w_bytes w (hid_addr (dev_drivers dev ! d)))\<rparr>)"
proof (cases "hid_kind (dev_drivers dev ! d)")
  case HIDKeyboard
  then show ?thesis
    by (simp only: HID_OnDataReceived_def Let_def prod.case HIDKind.case notifications_def fold_Notify pushed_keys_in_report [OF assms])
next
  case HIDMouse
  then show ?thesis
    by (simp only: HID_OnDataReceived_def Let_def prod.case HIDKind.case notifications_def Notify_def)
qed

text \<open>The driver \<open>h\<close>, at \<open>d\<close> in the device's store, takes the reports of the endpoint \<open>ep\<close>.\<close>

definition takes_reports :: "Device_usb \<Rightarrow> EndpointID \<Rightarrow> nat \<Rightarrow> HIDDriver \<Rightarrow> bool" where
  "takes_reports dev ep d h \<longleftrightarrow> nat (EndpointID_Number ep) < length (dev_class_drivers dev) \<and>
     dev_class_drivers dev ! nat (EndpointID_Number ep) = Some d \<and> d < length (dev_drivers dev) \<and> dev_drivers dev ! d = h \<and>
     hid_ep_interrupt_in h = ep \<and> EndpointID_IsIn ep \<and> 1 \<le> DeviceContextIndex_of_ep ep \<and>
     0 \<le> hid_in_packet_size h \<and> hid_in_packet_size h \<le> int kHIDBufferSize"

text \<open>The event of a report that has come for the request at \<open>p\<close>; its size.\<close>

definition report_event :: "EndpointID \<Rightarrow> u64 \<Rightarrow> TRB \<Rightarrow> bool" where
  "report_event ep p ev \<longleftrightarrow> TransferEventTRB_Pointer ev = p \<and> TransferEventTRB_EndpointID ev = ep \<and>
     unat (rd TransferEventTRB ''completion_code'' ev) \<in> {1, 13}"

definition report_size :: "HIDDriver \<Rightarrow> TRB \<Rightarrow> nat" where
  "report_size h ev = nat (hid_in_packet_size h - uint (rd TransferEventTRB ''trb_transfer_length'' ev))"

abbreviation ep_ring :: "EndpointID \<Rightarrow> nat" where
  "ep_ring ep \<equiv> nat (DeviceContextIndex_of_ep ep - 1)"

abbreviation next_request :: "HIDDriver \<Rightarrow> TRB" where
  "next_request h \<equiv> report_request (hid_addr h) (hid_in_packet_size h)"

lemma transfer_ring_inv_cong:
  "dev_transfer_rings dev' = dev_transfer_rings dev \<Longrightarrow> w_mem w' = w_mem w \<Longrightarrow>
    transfer_ring_inv i l b hist (dev', w') = transfer_ring_inv i l b hist (dev, w)"
  by (simp add: transfer_ring_inv_def cong: option.case_cong)

lemma OnTransferEventReceived_report:
  assumes driver: "takes_reports dev ep d h" and inv: "transfer_ring_inv (ep_ring ep) l b hist (dev, w)"
    and request: "trb_at (w_mem w) p = with_cycle c (next_request h)" and ev: "report_event ep p ev"
    and buf: "w_bytes w (hid_addr h) = buf" "length buf = kHIDBufferSize"
  obtains rs dev' w' where "OnTransferEventReceived io ev (dev, w) = Some (kSuccess, dev', w')"
    "dev' = (update_driver d (\<lambda>h'. h'\<lparr>hid_previous_buf := kept (report_size h ev) buf (hid_previous_buf h')\<rparr>) dev)
      \<lparr>dev_transfer_rings := rs\<rparr>"
    "w_notified w' = w_notified w @ notifications (hid_kind h) (hid_observers h) (hid_previous_buf h) buf"
    "transfer_ring_inv (ep_ring ep) l b (hist @ [next_request h]) (dev', w')"
proof -
  let ?len = "hid_in_packet_size h" and ?n = "report_size h ev"
  have len: "0 \<le> ?len" "?len < 2 ^ 17" using driver by (simp_all add: takes_reports_def kHIDBufferSize_def)
  have codes: "\<not> length kTRBCompletionCodeToName \<le> unat (rd TransferEventTRB ''completion_code'' ev)"
    "\<not> (unat (rd TransferEventTRB ''completion_code'' ev) \<noteq> 1 \<and> unat (rd TransferEventTRB ''completion_code'' ev) \<noteq> 13)"
    "TransferEventTRB_Pointer ev = p" "TransferEventTRB_EndpointID ev = ep"
    using ev by (auto simp: report_event_def completion_codes_named)
  have dispatch: "OnTransferEventReceived io ev (dev, w) = OnInterruptCompleted io ep
      (?len - uint (rd TransferEventTRB ''trb_transfer_length'' ev)) (dev, w)"
    unfolding OnTransferEventReceived_def Let_def prod.case if_not_P [OF codes(1)] if_not_P [OF codes(2)] codes(3,4) request
      report_request_fields [OF len] option.case transferred_length [OF len] ..
  have n_le: "?n \<le> kHIDBufferSize"
    using driver unsigned_greater_eq [of "rd TransferEventTRB ''trb_transfer_length'' ev", where 'a=int]
    unfolding report_size_def takes_reports_def by linarith
  let ?dev = "update_driver d (\<lambda>h'. h'\<lparr>hid_previous_buf := kept (report_size h ev) buf (hid_previous_buf h')\<rparr>) dev"
  let ?w = "w\<lparr>w_notified := w_notified w @ notifications (hid_kind h) (hid_observers h) (hid_previous_buf h) buf\<rparr>"
  have h: "dev_drivers dev ! d = h" using driver by (simp add: takes_reports_def)
  have received: "HID_OnDataReceived d (dev, w) = (dev, ?w)"
    using HID_OnDataReceived_notifies [of w dev d] buf by (simp add: h)
  have kept: "update_driver d (\<lambda>h. h\<lparr>hid_previous_buf := take ?n buf @ drop ?n (hid_previous_buf h)\<rparr>) dev = ?dev"
    by (simp add: update_driver_def h kept_def)
  have h': "dev_drivers ?dev ! d = h\<lparr>hid_previous_buf := kept ?n buf (hid_previous_buf h)\<rparr>"
    using driver by (simp add: update_driver_def takes_reports_def)
  have "transfer_ring_inv (ep_ring ep) l b hist (?dev, ?w)"
    using inv transfer_ring_inv_cong [of ?dev dev ?w w] by (simp add: update_driver_def)
  moreover have "1 \<le> DeviceContextIndex_of_ep ep" using driver by (simp add: takes_reports_def)
  ultimately obtain rs m hw where
    pushed: "InterruptIn io ep (hid_addr h) ?len (?dev, ?w) =
        Some (kSuccess, ?dev\<lparr>dev_transfer_rings := rs\<rparr>, ?w\<lparr>w_mem := m, w_hw := hw\<rparr>)"
      "transfer_ring_inv (ep_ring ep) l b (hist @ [next_request h]) (?dev\<lparr>dev_transfer_rings := rs\<rparr>, ?w\<lparr>w_mem := m, w_hw := hw\<rparr>)"
    using InterruptIn_pushes [of ep l b hist ?dev ?w io "hid_addr h" ?len] by blast
  have "OnTransferEventReceived io ev (dev, w) = InterruptIn io ep (hid_addr h) ?len (?dev, ?w)"
    unfolding dispatch OnInterruptCompleted_def HID_OnInterruptCompleted_def Let_def report_size_def [symmetric]
    using driver n_le buf by (simp add: takes_reports_def received h kept h')
  with pushed show thesis by (intro that) simp_all
qed

section \<open>Reports one after the other\<close>

text \<open>Each event is that of the request pushed last, the ring of \<open>l\<close> slots being used from slot \<open>k\<close> on.\<close>

fun report_events :: "EndpointID \<Rightarrow> nat \<Rightarrow> u64 \<Rightarrow> nat \<Rightarrow> (TRB \<times> buffer) list \<Rightarrow> bool" where
  "report_events ep l b k [] = True"
| "report_events ep l b k ((ev, buf) # reports) =
     (report_event ep (slot b (of_nat (k mod l))) ev \<and> length buf = kHIDBufferSize \<and> report_events ep l b (Suc k) reports)"

lemma last_request:
  assumes "transfer_ring_inv i l b (hist @ [t]) (dev, w)"
  shows "\<exists>c. trb_at (w_mem w) (slot b (of_nat (length hist mod l))) = with_cycle c t"
proof -
  obtain r where r: "ring_inv l b (hist @ [t]) r (w_mem w)" using assms by (auto simp: transfer_ring_inv_def split: option.splits)
  then have "0 < l" by (simp add: ring_inv_def Let_def)
  then show ?thesis using ring_inv_trb [OF r, of "length hist"] by auto
qed

lemma takes_reports_after:
  assumes "takes_reports dev ep d h"
  shows "takes_reports ((update_driver d (\<lambda>h. h\<lparr>hid_previous_buf := f (hid_previous_buf h)\<rparr>) dev)\<lparr>dev_transfer_rings := rs\<rparr>)
    ep d (h\<lparr>hid_previous_buf := f (hid_previous_buf h)\<rparr>)"
  using assms by (simp add: takes_reports_def update_driver_def)

lemma receive_reports_notify:
  assumes "takes_reports dev ep d h" and "transfer_ring_inv (ep_ring ep) l b (hist @ [next_request h]) (dev, w)"
    and "report_events ep l b (length hist) reports"
  shows "\<exists>dev' w'. receive_reports io (hid_addr h) reports (dev, w) = Some (dev', w') \<and>
    w_notified w' = w_notified w @ all_notifications (hid_kind h) (hid_observers h) (hid_previous_buf h)
      (map (\<lambda>(ev, buf). (report_size h ev, buf)) reports) \<and>
    transfer_ring_inv (ep_ring ep) l b (hist @ replicate (length reports + 1) (next_request h)) (dev', w')"
  using assms
proof (induction reports arbitrary: dev h hist w)
  case (Cons report reports)
  obtain ev buf where report: "report = (ev, buf)" by (cases report)
  have ev: "report_event ep (slot b (of_nat (length hist mod l))) ev" "length buf = kHIDBufferSize"
    and rest: "report_events ep l b (length (hist @ [next_request h])) reports"
    using Cons.prems(3) by (simp_all add: report)
  let ?w = "w\<lparr>w_bytes := (w_bytes w)(hid_addr h := buf)\<rparr>"
  let ?h = "h\<lparr>hid_previous_buf := kept (report_size h ev) buf (hid_previous_buf h)\<rparr>"
  obtain c where c: "trb_at (w_mem ?w) (slot b (of_nat (length hist mod l))) = with_cycle c (next_request h)"
    using last_request [OF Cons.prems(2)] by auto
  have inv: "transfer_ring_inv (ep_ring ep) l b (hist @ [next_request h]) (dev, ?w)"
    using Cons.prems(2) transfer_ring_inv_cong [of dev dev ?w w] by simp
  have buffer: "w_bytes ?w (hid_addr h) = buf" by simp
  obtain rs dev1 w1 where
    1: "OnTransferEventReceived io ev (dev, ?w) = Some (kSuccess, dev1, w1)"
      "dev1 = (update_driver d (\<lambda>h'. h'\<lparr>hid_previous_buf := kept (report_size h ev) buf (hid_previous_buf h')\<rparr>) dev)
        \<lparr>dev_transfer_rings := rs\<rparr>"
      "w_notified w1 = w_notified ?w @ notifications (hid_kind h) (hid_observers h) (hid_previous_buf h) buf"
      "transfer_ring_inv (ep_ring ep) l b ((hist @ [next_request h]) @ [next_request h]) (dev1, w1)"
    by (rule OnTransferEventReceived_report [where io = io, OF Cons.prems(1) inv c ev(1) buffer ev(2)]) (rule that)
  have driver: "takes_reports dev1 ep d ?h" unfolding 1(2) by (rule takes_reports_after [OF Cons.prems(1)])
  have same: "hid_addr ?h = hid_addr h" "hid_in_packet_size ?h = hid_in_packet_size h" "hid_kind ?h = hid_kind h"
    "hid_observers ?h = hid_observers h" "report_size ?h = report_size h"
    by (simp_all add: report_size_def fun_eq_iff)
  from Cons.IH [OF driver, unfolded same, OF 1(4) rest] obtain dev' w' where
    2: "receive_reports io (hid_addr h) reports (dev1, w1) = Some (dev', w')"
      "w_notified w' = w_notified w1 @ all_notifications (hid_kind h) (hid_observers h) (hid_previous_buf ?h)
        (map (\<lambda>(ev, buf). (report_size h ev, buf)) reports)"
      "transfer_ring_inv (ep_ring ep) l b ((hist @ [next_request h]) @ replicate (length reports + 1) (next_request h)) (dev', w')"
    by blast
  show ?case using 1(1,3) 2 by (intro exI [of _ dev'] exI [of _ w']) (simp add: report)
qed simp

section \<open>Properties\<close>

text \<open>
  C8. Keyboards and mice are heard. Once a request for a report stands in the ring of a driver's
  endpoint, every sequence of reports, of any length and so any number of rounds of the ring, is taken
  without error: the observers are told of every report in order, a keyboard's of the keys that
  the bytes kept from before do not contain and a mouse's of its displacements; and a new
  request is put in the ring after each report, so that the next one can come.
\<close>

theorem HID_reports_reach_observers:
  assumes "takes_reports dev ep d h" and "transfer_ring_inv (ep_ring ep) l b (hist @ [next_request h]) (dev, w)"
    and "report_events ep l b (length hist) reports"
  shows "\<exists>dev' w'. receive_reports io (hid_addr h) reports (dev, w) = Some (dev', w') \<and>
    w_notified w' = w_notified w @ all_notifications (hid_kind h) (hid_observers h) (hid_previous_buf h)
      (map (\<lambda>(ev, buf). (report_size h ev, buf)) reports) \<and>
    transfer_ring_inv (ep_ring ep) l b (hist @ replicate (length reports + 1) (next_request h)) (dev', w')"
  by (rule receive_reports_notify [OF assms])

text \<open>A mouse with one observer on endpoint 1, and two reports.\<close>

definition sample_mouse :: HIDDriver where
  "sample_mouse = (HIDDriver_new HIDMouse 0x4018 0)\<lparr>hid_ep_interrupt_in := EndpointID_of 1 True, hid_observers := [7]\<rparr>"

definition sample_mouse_dev :: Device_usb where
  "sample_mouse_dev = (Device_new 0x9000 1 0xf0000104)\<lparr>dev_class_drivers := (replicate 16 None)[1 := Some 0],
     dev_drivers := [sample_mouse], dev_transfer_rings := (replicate 31 None)
       [2 := Some \<lparr>ring_buf = Some 0x200000, ring_buf_size = 4, ring_cycle_bit = True, ring_write_index = 0\<rparr>]\<rparr>"

definition sample_report_event :: "u64 \<Rightarrow> TRB" where
  "sample_report_event p = wr TransferEventTRB ''endpoint_id'' 3 (wr TransferEventTRB ''completion_code'' 1
     (TransferEventTRB_SetPointer p TransferEventTRB_new))"

definition sample_report :: "u64 \<Rightarrow> u8 \<Rightarrow> u8 \<Rightarrow> TRB \<times> buffer" where
  "sample_report p dx dy = (sample_report_event p, [0, dx, dy] @ replicate 1021 0)"

lemma sample_report_event: "report_event 3 p (sample_report_event p)"
proof -
  have "map (\<lambda>f. (offset_of TransferEventTRB f, width_of TransferEventTRB f)) [''endpoint_id'', ''completion_code''] =
      [(112, 5), (88, 8)]"
    by code_simp
  then have pos: "wr TransferEventTRB ''endpoint_id'' = bf_set 112 5" "rd TransferEventTRB ''endpoint_id'' = bf_get 112 5"
    "wr TransferEventTRB ''completion_code'' = bf_set 88 8" "rd TransferEventTRB ''completion_code'' = bf_get 88 8"
    by (simp_all add: wr_def rd_def fun_eq_iff)
  have words: "take_bit 5 (3 :: TRB) = 3" "take_bit 8 (1 :: TRB) = 1" by code_simp+
  show ?thesis
    by (simp add: report_event_def sample_report_event_def TransferEventTRB_Pointer_def TransferEventTRB_EndpointID_def
      TransferEventTRB_SetPointer_def pos trb_field_positions bf_simps words long_pointer_field)
qed

abbreviation sample_reports :: "(TRB \<times> buffer) list" where
  "sample_reports \<equiv> [sample_report 0x200000 5 (- 3), sample_report 0x200010 1 1]"

lemma sample_mouse_fields:
  "hid_addr sample_mouse = 0x4018" "hid_in_packet_size sample_mouse = 3" "hid_kind sample_mouse = HIDMouse"
  "hid_observers sample_mouse = [7]" "hid_ep_interrupt_in sample_mouse = 3"
proof -
  have "EndpointID_of 1 True = 3" by code_simp
  then show "hid_addr sample_mouse = 0x4018" "hid_in_packet_size sample_mouse = 3" "hid_kind sample_mouse = HIDMouse"
    "hid_observers sample_mouse = [7]" "hid_ep_interrupt_in sample_mouse = 3"
    by (simp_all add: sample_mouse_def HIDDriver_new_def)
qed

lemma sample_report_events: "report_events 3 3 0x200000 (length ([] :: TRB list)) sample_reports"
  by (simp add: sample_report_event sample_report_def slot_def kHIDBufferSize_def sizeof_TRB_def)

text \<open>The mouse once its first report has been asked for.\<close>

lemma sample_mouse_asked:
  obtains dev w where "InterruptIn erdp_io 3 0x4018 3 (sample_mouse_dev, sample_world) = Some (kSuccess, dev, w)"
    "takes_reports dev 3 0 sample_mouse" "transfer_ring_inv (ep_ring 3) 3 0x200000 ([] @ [next_request sample_mouse]) (dev, w)"
    "w_notified w = []"
proof -
  have ep: "EndpointID_Number 3 = 1" "EndpointID_IsIn 3" "DeviceContextIndex_of_ep 3 = 3" by code_simp+
  have "(0x200000 :: u64) AND NOT (mask 4) = 0x200000" by (simp add: mask_eq_exp_minus_1)
  then have start: "transfer_ring_inv (ep_ring 3) 3 0x200000 [] (sample_mouse_dev, sample_world)"
    by (simp add: transfer_ring_inv_def sample_mouse_dev_def sample_world_def Device_new_def ring_inv_def trb_type_position
      trb_at_def ep)
  have one: "1 \<le> DeviceContextIndex_of_ep 3" by (simp add: ep)
  obtain rs m hw where
    asked: "InterruptIn erdp_io 3 0x4018 3 (sample_mouse_dev, sample_world) =
        Some (kSuccess, sample_mouse_dev\<lparr>dev_transfer_rings := rs\<rparr>, sample_world\<lparr>w_mem := m, w_hw := hw\<rparr>)"
      "transfer_ring_inv (ep_ring 3) 3 0x200000 ([] @ [report_request 0x4018 3])
        (sample_mouse_dev\<lparr>dev_transfer_rings := rs\<rparr>, sample_world\<lparr>w_mem := m, w_hw := hw\<rparr>)"
    by (rule InterruptIn_pushes [OF one start, of erdp_io "0x4018" 3])
  moreover have "takes_reports (sample_mouse_dev\<lparr>dev_transfer_rings := rs\<rparr>) 3 0 sample_mouse"
    by (simp add: takes_reports_def sample_mouse_fields ep sample_mouse_dev_def Device_new_def kHIDBufferSize_def)
  moreover have "w_notified (sample_world\<lparr>w_mem := m, w_hw := hw\<rparr>) = []" by (simp add: sample_world_def)
  ultimately show thesis using that unfolding sample_mouse_fields by blast
qed

theorem HID_reports_reach_observers_witness:
  "\<exists>dev w dev' w'. InterruptIn erdp_io 3 0x4018 3 (sample_mouse_dev, sample_world) = Some (kSuccess, dev, w) \<and>
    receive_reports erdp_io 0x4018 sample_reports (dev, w) = Some (dev', w') \<and>
    w_notified w' = [MouseMove 7 5 (- 3), MouseMove 7 1 1]"
proof -
  obtain dev w where
    asked: "InterruptIn erdp_io 3 0x4018 3 (sample_mouse_dev, sample_world) = Some (kSuccess, dev, w)"
      "takes_reports dev 3 0 sample_mouse" "transfer_ring_inv (ep_ring 3) 3 0x200000 ([] @ [next_request sample_mouse]) (dev, w)"
      "w_notified w = []" by (rule sample_mouse_asked)
  from HID_reports_reach_observers [OF asked(2,3) sample_report_events, of erdp_io] obtain dev' w' where
    "receive_reports erdp_io 0x4018 sample_reports (dev, w) = Some (dev', w')"
    "w_notified w' = [MouseMove 7 5 (- 3), MouseMove 7 1 1]"
    unfolding sample_mouse_fields asked(4) by (auto simp: sample_report_def notifications_def)
  with asked(1) show ?thesis by blast
qed

end
