(* ===== verification/Pointer.thy ===== *)
theory Pointer
  imports HidReports Session
begin

text \<open>
  The mouse from the report to the screen: the notifications of \<open>HIDMouseDriver\<close> (\<open>usb/classdriver/mouse.cpp\<close>)
  go to \<open>MouseObserver\<close> (\<open>main/main.cpp\<close>), the observer the kernel sets for every mouse, which moves the
  cursor's layer and draws the screen again. No observer is set for keyboards.
\<close>

fun observed :: "Notification \<Rightarrow> DesktopEvent list" where
  "observed (MouseMove observer dx dy) = [MouseMoved dx dy]"
| "observed (KeyPush observer keycode) = []"

text \<open>What happened after \<open>w\<close> when the state is \<open>w'\<close>, for the desktop.\<close>

definition desktop_events :: "'hw World \<Rightarrow> 'hw World \<Rightarrow> DesktopEvent list" where
  "desktop_events w w' = concat (map observed (drop (length (w_notified w)) (w_notified w')))"

abbreviation report_moves :: "(TRB \<times> buffer) list \<Rightarrow> DesktopEvent list" where
  "report_moves reports \<equiv> map (\<lambda>(ev, buf). MouseMoved (buf ! 1) (buf ! 2)) reports"

lemma observed_mouse_reports:
  "concat (map observed (all_notifications HIDMouse [observer] prev (map (\<lambda>(ev, buf). (f ev, buf)) reports))) = report_moves reports"
  by (induction reports arbitrary: prev) (auto simp: notifications_def)

lemma cursor_after_moves:
  "last (pos # cursor_path pos (report_moves reports)) =
    vec (v_x pos + (\<Sum>(ev, buf)\<leftarrow>reports. sint (buf ! 1))) (v_y pos + (\<Sum>(ev, buf)\<leftarrow>reports. sint (buf ! 2)))"
proof (induction reports arbitrary: pos)
  case (Cons report reports)
  show ?case using Cons.IH [of "vec (v_x pos + sint (snd report ! 1)) (v_y pos + sint (snd report ! 2))"]
    by (cases report) (simp add: Let_def)
qed simp

section \<open>Properties\<close>

text \<open>
  C7. Moving the mouse moves the cursor. On a desktop that shows its picture, with a request for
  a report in the ring of a mouse's endpoint, any sequence of reports that keeps the cursor's
  window on the screen is taken without error and drawn: at the end the cursor has moved by the sum
  of the displacements, the rest of the screen shows the same picture and text as before, nothing
  outside the frame buffer has changed, and the next report has been asked for.
\<close>

theorem mouse_moves_cursor:
  assumes screen: "fb_wf config"
    and driver: "takes_reports dev ep d h" "hid_kind h = HIDMouse" "hid_observers h = [observer]"
    and requested: "transfer_ring_inv (ep_ring ep) l b (hist @ [next_request h]) (dev, w)"
    and reports: "report_events ep l b (length hist) reports"
      "\<forall>pos\<in>set (cursor_path pos (report_moves reports)). on_screen config pos"
    and shown: "desktop_inv font config m picture pos desktop"
  defines "pos' \<equiv> vec (v_x pos + (\<Sum>(ev, buf)\<leftarrow>reports. sint (buf ! 1))) (v_y pos + (\<Sum>(ev, buf)\<leftarrow>reports. sint (buf ! 2)))"
  shows "\<exists>dev' w' desktop'. receive_reports io (hid_addr h) reports (dev, w) = Some (dev', w') \<and>
    desktop_run font log_level 2 (desktop_events w w') desktop = Some desktop' \<and>
    dk_console desktop' = dk_console desktop \<and> fb_only config m (dk_screen desktop') \<and>
    (\<forall>p. fb_inb config p \<longrightarrow> fb_px config (dk_screen desktop') p =
      cursor_over pos' (text_over font picture (dk_console desktop)) p) \<and>
    transfer_ring_inv (ep_ring ep) l b (hist @ replicate (length reports + 1) (next_request h)) (dev', w')"
proof -
  from receive_reports_notify [OF driver(1) requested reports(1), of io] obtain dev' w' where
    1: "receive_reports io (hid_addr h) reports (dev, w) = Some (dev', w')"
      "w_notified w' = w_notified w @ all_notifications (hid_kind h) (hid_observers h) (hid_previous_buf h)
        (map (\<lambda>(ev, buf). (report_size h ev, buf)) reports)"
      "transfer_ring_inv (ep_ring ep) l b (hist @ replicate (length reports + 1) (next_request h)) (dev', w')" by blast
  have events: "desktop_events w w' = report_moves reports"
    using 1(2) observed_mouse_reports by (simp add: desktop_events_def driver(2,3))
  have moves: "\<forall>e\<in>set (report_moves reports). \<exists>dx dy. e = MouseMoved dx dy" by auto
  from moves_keep_picture [OF screen reports(2) moves shown, of log_level] obtain desktop' where
    2: "desktop_run font log_level 2 (report_moves reports) desktop = Some desktop'" "dk_console desktop' = dk_console desktop"
      "desktop_inv font config m picture (last (pos # cursor_path pos (report_moves reports))) desktop'" by blast
  then show ?thesis
    using 1(1,3) unfolding cursor_after_moves pos'_def [symmetric]
    by (intro exI [of _ dev'] exI [of _ w'] exI [of _ desktop']) (simp add: events desktop_inv_def)
qed

theorem mouse_moves_cursor_witness:
  "\<exists>dev w windows lm cs' m' dev' w' desktop'.
    InterruptIn erdp_io 3 0x4018 3 (sample_mouse_dev, sample_world) = Some (kSuccess, dev, w) \<and>
    SetupDesktop (replicate 4096 255) \<lparr>fb_frame_buffer = 0x80000000, fb_pixels_per_scan_line = 800,
       fb_horizontal_resolution = 800, fb_vertical_resolution = 600, fb_pixel_format = kPixelBGRResv8BitPerColor\<rparr>
       (FrameBufferWriter \<lparr>fb_frame_buffer = 0x80000000, fb_pixels_per_scan_line = 800,
         fb_horizontal_resolution = 800, fb_vertical_resolution = 600, fb_pixel_format = kPixelBGRResv8BitPerColor\<rparr>)
       (Console_new WHITE BLUE, \<lambda>_. 0) = Some (windows, lm, 2, cs', m') \<and>
    receive_reports erdp_io 0x4018 sample_reports (dev, w) = Some (dev', w') \<and>
    desktop_run (replicate 4096 255) kWarn 2 (desktop_events w w')
      \<lparr>dk_windows = windows, dk_manager = lm, dk_console = cs', dk_screen = m'\<rparr> = Some desktop' \<and>
    fb_px \<lparr>fb_frame_buffer = 0x80000000, fb_pixels_per_scan_line = 800, fb_horizontal_resolution = 800,
       fb_vertical_resolution = 600, fb_pixel_format = kPixelBGRResv8BitPerColor\<rparr> (dk_screen desktop') (206, 198) = BLACK"
proof -
  let ?c = "\<lparr>fb_frame_buffer = 0x80000000, fb_pixels_per_scan_line = 800, fb_horizontal_resolution = 800,
    fb_vertical_resolution = 600, fb_pixel_format = kPixelBGRResv8BitPerColor\<rparr>"
  let ?cs = "Console_new WHITE BLUE" and ?moves = "report_moves sample_reports"
  have wf: "fb_wf ?c" by (simp add: fb_wf_def)
  have size: "640 \<le> sint (fb_horizontal_resolution ?c)" "400 \<le> sint (fb_vertical_resolution ?c)" by simp_all
  have font: "font_wf (replicate 4096 255)" by (simp add: font_wf_def)
  have cs: "cs_inv ?cs" "cs_writer ?cs \<noteq> Some bgwriter_ptr"
    using Console_new_inv [of WHITE BLUE] by (simp_all add: bgwriter_ptr_def Console_new_def)
  from SetupDesktop_inv [OF wf size font cs, of "\<lambda>_. 0"] obtain windows lm cs' m' base where
    shown: "SetupDesktop (replicate 4096 255) ?c (FrameBufferWriter ?c) (?cs, \<lambda>_. 0) = Some (windows, lm, 2, cs', m')"
      "desktop_inv (replicate 4096 255) ?c (\<lambda>_. 0) base (vec 200 200)
        \<lparr>dk_windows = windows, dk_manager = lm, dk_console = cs', dk_screen = m'\<rparr>" by blast
  obtain dev w where
    asked: "InterruptIn erdp_io 3 0x4018 3 (sample_mouse_dev, sample_world) = Some (kSuccess, dev, w)"
      "takes_reports dev 3 0 sample_mouse" "transfer_ring_inv (ep_ring 3) 3 0x200000 ([] @ [next_request sample_mouse]) (dev, w)"
    by (rule sample_mouse_asked)
  have displacements: "sint (5 :: u8) = 5" "sint (- 3 :: u8) = - 3" "sint (1 :: u8) = 1" by code_simp+
  have "cursor_path (vec 200 200) ?moves = [vec 205 197, vec 206 198]"
    by (simp add: sample_report_def displacements)
  then have on: "\<forall>pos\<in>set (cursor_path (vec 200 200) ?moves). on_screen ?c pos"
    by (simp add: on_screen_def kMouseCursorWidth_def kMouseCursorHeight_def)
  from mouse_moves_cursor [OF wf asked(2) _ _ asked(3) sample_report_events on shown(2), of 7 erdp_io kWarn]
  obtain dev' w' desktop' where
    1: "receive_reports erdp_io 0x4018 sample_reports (dev, w) = Some (dev', w')"
      "desktop_run (replicate 4096 255) kWarn 2 (desktop_events w w')
        \<lparr>dk_windows = windows, dk_manager = lm, dk_console = cs', dk_screen = m'\<rparr> = Some desktop'" and
    px: "\<forall>p. fb_inb ?c p \<longrightarrow> fb_px ?c (dk_screen desktop') p =
      cursor_over (vec (200 + (sint (5 :: u8) + (sint (1 :: u8)))) (200 + (sint (- 3 :: u8) + sint (1 :: u8))))
        (text_over (replicate 4096 255) base cs') p"
    unfolding sample_mouse_fields by (auto simp: sample_report_def)
  have at: "cursor_at (vec 206 198) (206, 198) = Some BLACK" by code_simp
  have "fb_px ?c (dk_screen desktop') (206, 198) = BLACK"
    using px [rule_format, of "(206, 198)"] by (simp add: fb_inb_def cursor_over_def at displacements)
  with 1 asked(1) shown(1) show ?thesis by blast
qed

end
