(* ===== verification/Elf.thy ===== *)
theory Elf
  imports Prelude
begin

text \<open>
  The kernel image (\<open>BootLoaderPkg/elf.hpp\<close>, the same text as \<open>kernel/elf/elf.hpp\<close>) and the routines of
  the boot loader (\<open>BootLoaderPkg/Main.c\<close>) that compute the address range of its segments and copy
  them. Headers are read from byte memory at the C layout's offsets. \<open>CopyMem\<close> and \<open>SetMem\<close> are
  EDK II library functions, a parameter of the model; what their documentation promises is the
  predicate \<open>base_memory_lib\<close>.
\<close>

section \<open>Layout\<close>

definition load16 :: "mem \<Rightarrow> u64 \<Rightarrow> u16" where
  "load16 m a = ucast (m a) OR push_bit 8 (ucast (m (a + 1)))"

record Elf64_Ehdr =
  e_ident :: "u8 list"
  e_type :: u16
  e_machine :: u16
  e_version :: u32
  e_entry :: u64
  e_phoff :: u64
  e_shoff :: u64
  e_flags :: u32
  e_ehsize :: u16
  e_phentsize :: u16
  e_phnum :: u16
  e_shentsize :: u16
  e_shnum :: u16
  e_shstrndx :: u16

record Elf64_Phdr =
  p_type :: u32
  p_flags :: u32
  p_offset :: u64
  p_vaddr :: u64
  p_paddr :: u64
  p_filesz :: u64
  p_memsz :: u64
  p_align :: u64

definition load_ehdr :: "mem \<Rightarrow> u64 \<Rightarrow> Elf64_Ehdr" where
  "load_ehdr m a =
     \<lparr>e_ident = map (\<lambda>i. m (a + of_nat i)) [0..<16], e_type = load16 m (a + 16), e_machine = load16 m (a + 18),
      e_version = load32 m (a + 20), e_entry = load64 m (a + 24), e_phoff = load64 m (a + 32), e_shoff = load64 m (a + 40),
      e_flags = load32 m (a + 48), e_ehsize = load16 m (a + 52), e_phentsize = load16 m (a + 54), e_phnum = load16 m (a + 56),
      e_shentsize = load16 m (a + 58), e_shnum = load16 m (a + 60), e_shstrndx = load16 m (a + 62)\<rparr>"

definition load_phdr :: "mem \<Rightarrow> u64 \<Rightarrow> Elf64_Phdr" where
  "load_phdr m a =
     \<lparr>p_type = load32 m a, p_flags = load32 m (a + 4), p_offset = load64 m (a + 8), p_vaddr = load64 m (a + 16),
      p_paddr = load64 m (a + 24), p_filesz = load64 m (a + 32), p_memsz = load64 m (a + 40), p_align = load64 m (a + 48)\<rparr>"

definition PT_NULL :: u32 where "PT_NULL = 0"
definition PT_LOAD :: u32 where "PT_LOAD = 1"
definition PT_DYNAMIC :: u32 where "PT_DYNAMIC = 2"
definition PT_INTERP :: u32 where "PT_INTERP = 3"
definition PT_NOTE :: u32 where "PT_NOTE = 4"
definition PT_SHLIB :: u32 where "PT_SHLIB = 5"
definition PT_PHDR :: u32 where "PT_PHDR = 6"
definition PT_TLS :: u32 where "PT_TLS = 7"

text \<open>Dynamic entries, whose union has one 64-bit value, and relocations; no code here uses them.\<close>

record Elf64_Dyn =
  d_tag :: u64
  d_un :: u64

definition DT_NULL :: u64 where "DT_NULL = 0"
definition DT_RELA :: u64 where "DT_RELA = 7"
definition DT_RELASZ :: u64 where "DT_RELASZ = 8"
definition DT_RELAENT :: u64 where "DT_RELAENT = 9"

record Elf64_Rela =
  r_offset :: u64
  r_info :: u64
  r_addend :: u64

definition ELF64_R_SYM :: "u64 \<Rightarrow> u64" where "ELF64_R_SYM i = drop_bit 32 i"
definition ELF64_R_TYPE :: "u64 \<Rightarrow> u64" where "ELF64_R_TYPE i = i AND 0xffffffff"
definition ELF64_R_INFO :: "u64 \<Rightarrow> u64 \<Rightarrow> u64" where "ELF64_R_INFO s t = push_bit 32 s + (t AND 0xffffffff)"
definition R_X86_64_RELATIVE :: u64 where "R_X86_64_RELATIVE = 8"

section \<open>The segments\<close>

text \<open>The entry \<open>phdr_table[i]\<close>, with the table at a fixed address.\<close>

definition phdr_table :: "mem \<Rightarrow> u64 \<Rightarrow> u64" where
  "phdr_table m ehdr = ehdr + e_phoff (load_ehdr m ehdr)"

definition phdr_at :: "mem \<Rightarrow> u64 \<Rightarrow> nat \<Rightarrow> Elf64_Phdr" where
  "phdr_at m table i = load_phdr m (table + 56 * of_nat i)"

definition phdrs :: "mem \<Rightarrow> u64 \<Rightarrow> Elf64_Phdr list" where
  "phdrs m ehdr = map (phdr_at m (phdr_table m ehdr)) [0..<unat (e_phnum (load_ehdr m ehdr))]"

definition CalcLoadAddressRange :: "mem \<Rightarrow> u64 \<Rightarrow> u64 \<times> u64" where
  "CalcLoadAddressRange m ehdr =
     foldl (\<lambda>(first_addr, last_addr) phdr.
         if p_type phdr \<noteq> PT_LOAD then (first_addr, last_addr)
         else (min first_addr (p_vaddr phdr), max last_addr (p_vaddr phdr + p_memsz phdr)))
       (-1, 0) (phdrs m ehdr)"

text \<open>The number of pages that \<open>UefiMain\<close> allocates for the range.\<close>

definition num_pages :: "u64 \<Rightarrow> u64 \<Rightarrow> u64" where
  "num_pages first_addr last_addr = (last_addr - first_addr + 0xfff) div 0x1000"

record BaseMemoryLib =
  lib_CopyMem :: "u64 \<Rightarrow> u64 \<Rightarrow> u64 \<Rightarrow> mem \<Rightarrow> mem"
  lib_SetMem :: "u64 \<Rightarrow> u64 \<Rightarrow> u8 \<Rightarrow> mem \<Rightarrow> mem"

definition copy_segment :: "BaseMemoryLib \<Rightarrow> u64 \<Rightarrow> Elf64_Phdr \<Rightarrow> mem \<Rightarrow> mem" where
  "copy_segment lib ehdr phdr m =
     (if p_type phdr \<noteq> PT_LOAD then m
      else
        let segm_in_file = ehdr + p_offset phdr;
            m = lib_CopyMem lib (p_vaddr phdr) segm_in_file (p_filesz phdr) m;
            remain_bytes = p_memsz phdr - p_filesz phdr
        in if 0 < remain_bytes then lib_SetMem lib (p_vaddr phdr + p_filesz phdr) remain_bytes 0 m else m)"

lemma unat_u16_less: "unat (w :: u16) < 65536"
  using unsigned_less [of w] by simp

lemma phdr_index_less: "i < unat (e_phnum h) \<Longrightarrow> i < 65536"
  using unat_u16_less [of "e_phnum h"] by linarith

text \<open>The loop reads the headers from memory in every round, also what the copies made of them.\<close>

function copy_segments :: "BaseMemoryLib \<Rightarrow> u64 \<Rightarrow> u64 \<Rightarrow> nat \<Rightarrow> mem \<Rightarrow> mem" where
  "copy_segments lib ehdr table i m =
     (if i < unat (e_phnum (load_ehdr m ehdr))
      then copy_segments lib ehdr table (Suc i) (copy_segment lib ehdr (phdr_at m table i) m)
      else m)"
  by pat_completeness auto

termination
  by (relation "measure (\<lambda>(lib, ehdr, table, i, m). 65536 - i)") (auto dest!: phdr_index_less)

declare copy_segments.simps [simp del]

definition CopyLoadSegments :: "BaseMemoryLib \<Rightarrow> u64 \<Rightarrow> mem \<Rightarrow> mem" where
  "CopyLoadSegments lib ehdr m = copy_segments lib ehdr (phdr_table m ehdr) 0 m"

text \<open>The address \<open>UefiMain\<close> jumps to.\<close>

definition entry_addr :: "mem \<Rightarrow> u64 \<Rightarrow> u64" where
  "entry_addr m kernel_first_addr = load64 m (kernel_first_addr + 24)"


section \<open>The address range\<close>

definition load_segments :: "mem \<Rightarrow> u64 \<Rightarrow> Elf64_Phdr list" where
  "load_segments m ehdr = filter (\<lambda>p. p_type p = PT_LOAD) (phdrs m ehdr)"

definition seg_end :: "Elf64_Phdr \<Rightarrow> u64" where
  "seg_end p = p_vaddr p + p_memsz p"

lemma address_range_fold:
  "foldl (\<lambda>(first_addr, last_addr) phdr.
       if p_type phdr \<noteq> PT_LOAD then (first_addr, last_addr)
       else (min first_addr (p_vaddr phdr), max last_addr (p_vaddr phdr + p_memsz phdr))) (f, l) ps =
     (let qs = filter (\<lambda>p. p_type p = PT_LOAD) ps
      in (Min (insert f (p_vaddr ` set qs)), Max (insert l (seg_end ` set qs))))"
proof (induction ps arbitrary: f l)
  case Nil
  then show ?case by simp
next
  case (Cons p ps)
  show ?case
  proof (cases "p_type p = PT_LOAD")
    case True
    have *: "Min (insert f (insert a A)) = Min (insert (min f a) A)" "Max (insert l (insert a A)) = Max (insert (max l a) A)"
      if "finite A" for a :: u64 and A
      using that by (cases "A = {}", simp_all add: min.assoc max.assoc)+
    show ?thesis using True by (simp add: Cons.IH Let_def * seg_end_def del: Min_insert Max_insert)
  next
    case False
    then show ?thesis by (simp add: Cons.IH Let_def)
  qed
qed

lemma CalcLoadAddressRange_Min_Max:
  "CalcLoadAddressRange m ehdr = (Min (insert (-1) (p_vaddr ` set (load_segments m ehdr))),
     Max (insert 0 (seg_end ` set (load_segments m ehdr))))"
  unfolding CalcLoadAddressRange_def address_range_fold load_segments_def Let_def by simp


text \<open>
  If no segment reaches into the last page of the address space, the pages \<open>UefiMain\<close> asks for
  contain every segment, the first address is that of a segment, and fewer pages would not do.
\<close>

lemma pages_cover:
  assumes "CalcLoadAddressRange m ehdr = (first_addr, last_addr)" and "load_segments m ehdr \<noteq> []"
    and "\<forall>p \<in> set (load_segments m ehdr). unat (p_vaddr p) + unat (p_memsz p) \<le> 2 ^ 64 - 4096"
  shows "(\<forall>p \<in> set (load_segments m ehdr). first_addr \<le> p_vaddr p \<and>
      unat (p_vaddr p) + unat (p_memsz p) \<le> unat first_addr + 4096 * unat (num_pages first_addr last_addr)) \<and>
    first_addr \<in> p_vaddr ` set (load_segments m ehdr) \<and>
    (\<exists>p \<in> set (load_segments m ehdr).
      4096 * unat (num_pages first_addr last_addr) < unat (p_vaddr p) + unat (p_memsz p) - unat first_addr + 4096)"
proof -
  let ?segs = "set (load_segments m ehdr)"
  have ends: "unat (seg_end p) = unat (p_vaddr p) + unat (p_memsz p)" if "p \<in> ?segs" for p
    unfolding seg_end_def using assms(3) that by (subst unat_add_lem [THEN iffD1]) auto
  have first: "first_addr = Min (insert (-1) (p_vaddr ` ?segs))" and last: "last_addr = Max (insert 0 (seg_end ` ?segs))"
    using assms(1) CalcLoadAddressRange_Min_Max [of m ehdr] by simp_all
  have le: "first_addr \<le> p_vaddr p" "seg_end p \<le> last_addr" if "p \<in> ?segs" for p
    using that unfolding first last by (auto intro!: Min_le Max_ge)
  have "first_addr = Min (p_vaddr ` ?segs)" "last_addr = Max (seg_end ` ?segs)"
    using assms(2) unfolding first last by (simp_all add: min_absorb2 max_absorb2)
  then have mem: "first_addr \<in> p_vaddr ` ?segs" "last_addr \<in> seg_end ` ?segs"
    using assms(2) Min_in [of "p_vaddr ` ?segs"] Max_in [of "seg_end ` ?segs"] by simp_all
  then obtain q where q: "q \<in> ?segs" "last_addr = seg_end q" by auto
  have ord: "unat first_addr \<le> unat last_addr" "unat last_addr \<le> 2 ^ 64 - 4096"
    using le(1) [OF q(1)] ends [OF q(1)] assms(3) q by (auto simp: word_le_nat_alt)
  have "unat (last_addr - first_addr + 0xfff) = unat last_addr - unat first_addr + 0xfff"
    using ord by (subst unat_add_lem [THEN iffD1]) (simp_all add: unat_sub word_le_nat_alt)
  then have pages: "unat (num_pages first_addr last_addr) = (unat last_addr - unat first_addr + 0xfff) div 4096"
    by (simp add: num_pages_def unat_div)
  have "unat (p_vaddr p) + unat (p_memsz p) \<le> unat first_addr + 4096 * unat (num_pages first_addr last_addr)" if "p \<in> ?segs" for p
    using le(2) [OF that] ends [OF that] ord unfolding pages word_le_nat_alt by linarith
  moreover have "4096 * unat (num_pages first_addr last_addr) < unat (p_vaddr q) + unat (p_memsz q) - unat first_addr + 4096"
    using times_div_less_eq_dividend [of 4096 "unat last_addr - unat first_addr + 0xfff"] ends [OF q(1)] q(2)
    unfolding pages by simp
  ultimately show ?thesis using le(1) mem(1) q(1) by blast
qed

section \<open>What the copies leave in memory\<close>

definition base_memory_lib :: "BaseMemoryLib \<Rightarrow> bool" where
  "base_memory_lib lib \<longleftrightarrow>
     (\<forall>dst src n m. lib_CopyMem lib dst src n m = (\<lambda>a. if a - dst < n then m (src + (a - dst)) else m a)) \<and>
     (\<forall>dst n v m. lib_SetMem lib dst n v m = (\<lambda>a. if a - dst < n then v else m a))"

text \<open>An image of \<open>n\<close> bytes: headers and contents lie inside it, the segments outside and apart.\<close>

definition in_segment :: "Elf64_Phdr \<Rightarrow> u64 \<Rightarrow> bool" where
  "in_segment p a \<longleftrightarrow> a - p_vaddr p < p_memsz p"

definition well_formed_image :: "mem \<Rightarrow> u64 \<Rightarrow> u64 \<Rightarrow> bool" where
  "well_formed_image m ehdr n \<longleftrightarrow>
     64 \<le> unat n \<and> unat (e_phoff (load_ehdr m ehdr)) + 56 * unat (e_phnum (load_ehdr m ehdr)) \<le> unat n \<and>
     (\<forall>p \<in> set (load_segments m ehdr). p_filesz p \<le> p_memsz p \<and> unat (p_offset p) + unat (p_filesz p) \<le> unat n \<and>
        (\<forall>a. in_segment p a \<longrightarrow> \<not> a - ehdr < n)) \<and>
     sorted_wrt (\<lambda>p q. \<forall>a. \<not> (in_segment p a \<and> in_segment q a)) (load_segments m ehdr)"

text \<open>The byte that a segment has at an address in it, and the memory with some segments in place.\<close>

definition segment_byte :: "mem \<Rightarrow> u64 \<Rightarrow> Elf64_Phdr \<Rightarrow> u64 \<Rightarrow> u8" where
  "segment_byte m ehdr p a =
     (let t = a - p_vaddr p in if t < p_filesz p then m (ehdr + p_offset p + t) else 0)"

definition with_segments :: "mem \<Rightarrow> u64 \<Rightarrow> Elf64_Phdr list \<Rightarrow> mem" where
  "with_segments m ehdr ps a = (case List.find (\<lambda>p. in_segment p a) ps of None \<Rightarrow> m a | Some p \<Rightarrow> segment_byte m ehdr p a)"

lemma word_shifted_less:
  fixes t f s :: "'a::len word"
  assumes "f \<le> s"
  shows "t - f < s - f \<longleftrightarrow> f \<le> t \<and> t < s"
  using assms
  by (auto simp: word_less_def word_le_def uint_sub_if')
    (use uint_lt2p [of s] uint_ge_0 [of t] in linarith)

lemma copy_segment_memory:
  assumes "base_memory_lib lib" and "p_type p = PT_LOAD" and "p_filesz p \<le> p_memsz p"
  shows "copy_segment lib ehdr p m a = (if in_segment p a then segment_byte m ehdr p a else m a)"
proof -
  let ?t = "a - p_vaddr p"
  have cut: "a - (p_vaddr p + p_filesz p) < p_memsz p - p_filesz p \<longleftrightarrow> p_filesz p \<le> ?t \<and> ?t < p_memsz p"
    using word_shifted_less [OF assms(3), of ?t] by (simp add: diff_diff_eq)
  have pos: "0 < p_memsz p - p_filesz p \<longleftrightarrow> p_filesz p < p_memsz p"
    using word_shifted_less [OF assms(3), of "p_filesz p"] by simp
  have in_file: "?t < p_filesz p \<Longrightarrow> ?t < p_memsz p" using assms(3) by (rule less_le_trans [rotated])
  show ?thesis
    using assms(1,2) cut pos in_file
    by (auto simp: copy_segment_def base_memory_lib_def in_segment_def segment_byte_def Let_def add.assoc)
qed

text \<open>Bytes inside the image survive a copy, and with them everything read from the image.\<close>

definition same_image :: "u64 \<Rightarrow> u64 \<Rightarrow> mem \<Rightarrow> mem \<Rightarrow> bool" where
  "same_image ehdr n m m' \<longleftrightarrow> (\<forall>d<unat n. m' (ehdr + of_nat d) = m (ehdr + of_nat d))"

lemma load_same:
  assumes "same_image ehdr n m m'"
  shows "k + 2 \<le> unat n \<Longrightarrow> load16 m' (ehdr + of_nat k) = load16 m (ehdr + of_nat k)"
    and "k + 4 \<le> unat n \<Longrightarrow> load32 m' (ehdr + of_nat k) = load32 m (ehdr + of_nat k)"
    and "k + 8 \<le> unat n \<Longrightarrow> load64 m' (ehdr + of_nat k) = load64 m (ehdr + of_nat k)"
proof -
  have b: "m' (ehdr + of_nat k + of_nat j) = m (ehdr + of_nat k + of_nat j)" if "k + j < unat n" for j
    using assms that by (auto simp: same_image_def add.assoc simp flip: of_nat_add)
  show "k + 2 \<le> unat n \<Longrightarrow> load16 m' (ehdr + of_nat k) = load16 m (ehdr + of_nat k)"
    using b [of 0] b [of 1] by (simp add: load16_def)
  show "k + 4 \<le> unat n \<Longrightarrow> load32 m' (ehdr + of_nat k) = load32 m (ehdr + of_nat k)"
    using b [of 0] b [of 1] b [of 2] b [of 3] by (simp add: load32_def)
  show "k + 8 \<le> unat n \<Longrightarrow> load64 m' (ehdr + of_nat k) = load64 m (ehdr + of_nat k)"
    using b [of 0] b [of 1] b [of 2] b [of 3] b [of 4] b [of 5] b [of 6] b [of 7]
    by (simp add: load64_def load32_def add.assoc)
qed

lemma load_ehdr_same:
  assumes "same_image ehdr n m m'" and "64 \<le> unat n"
  shows "load_ehdr m' ehdr = load_ehdr m ehdr"
proof -
  have "m' (ehdr + of_nat i) = m (ehdr + of_nat i)" if "i < 16" for i
    using assms that by (simp add: same_image_def)
  then show ?thesis
    using load_same(1) [OF assms(1), of 16] load_same(1) [OF assms(1), of 18] load_same(2) [OF assms(1), of 20]
      load_same(3) [OF assms(1), of 24] load_same(3) [OF assms(1), of 32] load_same(3) [OF assms(1), of 40]
      load_same(2) [OF assms(1), of 48] load_same(1) [OF assms(1), of 52] load_same(1) [OF assms(1), of 54]
      load_same(1) [OF assms(1), of 56] load_same(1) [OF assms(1), of 58] load_same(1) [OF assms(1), of 60]
      load_same(1) [OF assms(1), of 62] assms(2)
    by (simp add: load_ehdr_def)
qed

lemma load_phdr_same:
  assumes "same_image ehdr n m m'" and "k + 56 \<le> unat n"
  shows "load_phdr m' (ehdr + of_nat k) = load_phdr m (ehdr + of_nat k)"
  using load_same(2) [OF assms(1), of k] load_same(2) [OF assms(1), of "k + 4"] load_same(3) [OF assms(1), of "k + 8"]
    load_same(3) [OF assms(1), of "k + 16"] load_same(3) [OF assms(1), of "k + 24"] load_same(3) [OF assms(1), of "k + 32"]
    load_same(3) [OF assms(1), of "k + 40"] load_same(3) [OF assms(1), of "k + 48"] assms(2)
  by (simp add: load_phdr_def add.assoc)


lemma find_app: "List.find P (xs @ ys) = (case List.find P xs of None \<Rightarrow> List.find P ys | Some x \<Rightarrow> Some x)"
  by (induction xs) auto

lemma find_unique: "sorted_wrt (\<lambda>p q. \<not> (P p \<and> P q)) xs \<Longrightarrow> p \<in> set xs \<Longrightarrow> P p \<Longrightarrow> List.find P xs = Some p"
  by (induction xs) auto

lemma with_segments_same:
  assumes "well_formed_image m ehdr n" and "set qs \<subseteq> set (load_segments m ehdr)"
  shows "same_image ehdr n m (with_segments m ehdr qs)"
  unfolding same_image_def
proof (intro allI impI)
  fix d assume d: "d < unat n"
  then have "d < 2 ^ 64" using unsigned_less [of n, where ?'a = nat] by simp
  then have "unat (of_nat d :: u64) = d" by (simp add: unsigned_of_nat take_bit_nat_eq_self)
  then have "ehdr + of_nat d - ehdr < n" using d by (simp add: word_less_nat_alt)
  with assms have "\<forall>p\<in>set qs. \<not> in_segment p (ehdr + of_nat d)"
    unfolding well_formed_image_def by blast
  then have "List.find (\<lambda>p. in_segment p (ehdr + of_nat d)) qs = None" by (simp add: find_None_iff)
  then show "with_segments m ehdr qs (ehdr + of_nat d) = m (ehdr + of_nat d)" by (simp add: with_segments_def)
qed

lemma segment_byte_same:
  assumes "same_image ehdr n m m'" and "unat (p_offset p) + unat (p_filesz p) \<le> unat n"
  shows "segment_byte m' ehdr p a = segment_byte m ehdr p a"
proof (cases "a - p_vaddr p < p_filesz p")
  case True
  let ?d = "unat (p_offset p) + unat (a - p_vaddr p)"
  have "?d < unat n" using True assms(2) by (simp add: word_less_nat_alt)
  moreover have "ehdr + of_nat ?d = ehdr + p_offset p + (a - p_vaddr p)" by (simp add: add.assoc)
  ultimately have "m' (ehdr + p_offset p + (a - p_vaddr p)) = m (ehdr + p_offset p + (a - p_vaddr p))"
    using assms(1) unfolding same_image_def by metis
  then show ?thesis by (simp add: segment_byte_def Let_def)
qed (simp add: segment_byte_def Let_def)

lemma copy_segment_with:
  assumes "base_memory_lib lib" and "well_formed_image m ehdr n" and "load_segments m ehdr = qs @ p # rs"
  shows "copy_segment lib ehdr p (with_segments m ehdr qs) = with_segments m ehdr (qs @ [p])"
proof
  fix a
  have p: "p \<in> set (load_segments m ehdr)" using assms(3) by simp
  then have "p_type p = PT_LOAD" by (simp add: load_segments_def)
  moreover have q: "p_filesz p \<le> p_memsz p" "unat (p_offset p) + unat (p_filesz p) \<le> unat n"
    using assms(2) p by (simp_all add: well_formed_image_def)
  ultimately have "copy_segment lib ehdr p (with_segments m ehdr qs) a =
      (if in_segment p a then segment_byte (with_segments m ehdr qs) ehdr p a else with_segments m ehdr qs a)"
    by (intro copy_segment_memory assms(1))
  also have "segment_byte (with_segments m ehdr qs) ehdr p a = segment_byte m ehdr p a"
    by (rule segment_byte_same [OF with_segments_same [OF assms(2)] q(2)]) (auto simp: assms(3))
  also have "(if in_segment p a then segment_byte m ehdr p a else with_segments m ehdr qs a) =
      with_segments m ehdr (qs @ [p]) a"
  proof (cases "List.find (\<lambda>p. in_segment p a) qs")
    case None
    then show ?thesis by (simp add: with_segments_def find_app)
  next
    case (Some q)
    then have "q \<in> set qs" "in_segment q a" by (auto simp: find_Some_iff)
    then have "\<not> in_segment p a" using assms(2,3) by (auto simp: well_formed_image_def sorted_wrt_append)
    with Some show ?thesis by (simp add: with_segments_def find_app)
  qed
  finally show "copy_segment lib ehdr p (with_segments m ehdr qs) a = with_segments m ehdr (qs @ [p]) a" .
qed

lemma copy_segments_with:
  assumes "base_memory_lib lib" and "well_formed_image m ehdr n" and "i \<le> length (phdrs m ehdr)"
  shows "copy_segments lib ehdr (phdr_table m ehdr) i
      (with_segments m ehdr (filter (\<lambda>p. p_type p = PT_LOAD) (take i (phdrs m ehdr)))) =
    with_segments m ehdr (load_segments m ehdr)"
  using assms(3)
proof (induction "length (phdrs m ehdr) - i" arbitrary: i)
  case 0
  let ?m = "with_segments m ehdr (load_segments m ehdr)"
  have "load_ehdr ?m ehdr = load_ehdr m ehdr"
    by (rule load_ehdr_same [OF with_segments_same [OF assms(2)]]) (use assms(2) in \<open>auto simp: well_formed_image_def\<close>)
  with 0 show ?case by (subst copy_segments.simps) (simp add: phdrs_def load_segments_def)
next
  case (Suc k)
  let ?load = "\<lambda>p. p_type p = PT_LOAD" and ?ps = "phdrs m ehdr"
  let ?qs = "filter ?load (take i ?ps)"
  let ?m = "with_segments m ehdr ?qs"
  have i: "i < length ?ps" using Suc.hyps(2) by linarith
  then have n: "i < unat (e_phnum (load_ehdr m ehdr))" by (simp add: phdrs_def)
  have same: "same_image ehdr n m ?m"
    by (rule with_segments_same [OF assms(2)]) (auto simp: load_segments_def dest: in_set_takeD)
  have wf: "64 \<le> unat n" "unat (e_phoff (load_ehdr m ehdr)) + 56 * unat (e_phnum (load_ehdr m ehdr)) \<le> unat n"
    using assms(2) by (simp_all add: well_formed_image_def)
  have "load_phdr ?m (ehdr + of_nat (unat (e_phoff (load_ehdr m ehdr)) + 56 * i)) =
      load_phdr m (ehdr + of_nat (unat (e_phoff (load_ehdr m ehdr)) + 56 * i))"
    by (rule load_phdr_same [OF same]) (use n wf(2) in linarith)
  then have p: "phdr_at ?m (phdr_table m ehdr) i = ?ps ! i"
    using n by (simp add: phdr_at_def phdr_table_def phdrs_def add.assoc)
  have split: "?ps = take i ?ps @ ?ps ! i # drop (Suc i) ?ps" using id_take_nth_drop [OF i] .
  have take: "take (Suc i) ?ps = take i ?ps @ [?ps ! i]" using i by (rule take_Suc_conv_app_nth)
  have step: "copy_segment lib ehdr (?ps ! i) ?m = with_segments m ehdr (filter ?load (take (Suc i) ?ps))"
  proof (cases "?load (?ps ! i)")
    case True
    have "load_segments m ehdr = ?qs @ ?ps ! i # filter ?load (drop (Suc i) ?ps)"
      unfolding load_segments_def by (subst split) (simp add: True)
    from copy_segment_with [OF assms(1,2) this] True show ?thesis by (simp add: take)
  next
    case False
    then show ?thesis by (simp add: take copy_segment_def)
  qed
  have "copy_segments lib ehdr (phdr_table m ehdr) (Suc i) (with_segments m ehdr (filter ?load (take (Suc i) ?ps))) =
      with_segments m ehdr (load_segments m ehdr)"
    by (rule Suc.hyps(1)) (use Suc.hyps(2) i in linarith)+
  then show ?case
    by (subst copy_segments.simps) (simp add: load_ehdr_same [OF same wf(1)] n p step)
qed

lemma CopyLoadSegments_with:
  assumes "base_memory_lib lib" and "well_formed_image m ehdr n"
  shows "CopyLoadSegments lib ehdr m = with_segments m ehdr (load_segments m ehdr)"
proof -
  have "with_segments m ehdr [] = m" by (auto simp: with_segments_def)
  with copy_segments_with [OF assms, of 0] show ?thesis by (simp add: CopyLoadSegments_def)
qed


lemma segment_placed:
  assumes "base_memory_lib lib" and "well_formed_image m ehdr n"
    and p: "p \<in> set (load_segments m ehdr)" "t < p_memsz p"
  shows "CopyLoadSegments lib ehdr m (p_vaddr p + t) = (if t < p_filesz p then m (ehdr + p_offset p + t) else 0)"
proof -
  have "in_segment p (p_vaddr p + t)" using p(2) by (simp add: in_segment_def)
  moreover have "sorted_wrt (\<lambda>q r. \<not> (in_segment q (p_vaddr p + t) \<and> in_segment r (p_vaddr p + t))) (load_segments m ehdr)"
    using assms(2) sorted_wrt_mono_rel unfolding well_formed_image_def by (metis (mono_tags, lifting))
  ultimately have "List.find (\<lambda>q. in_segment q (p_vaddr p + t)) (load_segments m ehdr) = Some p"
    by (intro find_unique p(1))
  then show ?thesis by (simp add: CopyLoadSegments_with [OF assms(1,2)] with_segments_def segment_byte_def)
qed

lemma outside_segments_kept:
  assumes "base_memory_lib lib" and "well_formed_image m ehdr n"
    and "\<forall>p \<in> set (load_segments m ehdr). \<not> a - p_vaddr p < p_memsz p"
  shows "CopyLoadSegments lib ehdr m a = m a"
proof -
  have "List.find (\<lambda>p. in_segment p a) (load_segments m ehdr) = None"
    using assms(3) by (simp add: find_None_iff in_segment_def)
  then show ?thesis by (simp add: CopyLoadSegments_with [OF assms(1,2)] with_segments_def)
qed

text \<open>The file header, in a segment that begins at offset 0, and the entry point in it.\<close>

lemma header_placed:
  assumes "base_memory_lib lib" and "well_formed_image m ehdr n"
    and p: "p \<in> set (load_segments m ehdr)" "p_offset p = 0" "32 \<le> p_filesz p" and "t < 32"
  shows "CopyLoadSegments lib ehdr m (p_vaddr p + t) = m (ehdr + t)" and "in_segment p (p_vaddr p + t)"
proof -
  have t: "t < p_filesz p" using assms(6) p(3) by (rule less_le_trans)
  also have "p_filesz p \<le> p_memsz p" using assms(2) p(1) by (simp add: well_formed_image_def)
  finally show "CopyLoadSegments lib ehdr m (p_vaddr p + t) = m (ehdr + t)" and "in_segment p (p_vaddr p + t)"
    using segment_placed [OF assms(1,2) p(1), of t] t p(2) by (simp_all add: in_segment_def)
qed

lemma entry_addr_header:
  assumes "\<And>t. t < 32 \<Longrightarrow> m' (v + t) = m (ehdr + t)"
  shows "entry_addr m' v = e_entry (load_ehdr m ehdr)"
  using assms [of 24] assms [of 25] assms [of 26] assms [of 27] assms [of 28] assms [of 29] assms [of 30] assms [of 31]
  by (simp add: entry_addr_def load_ehdr_def load64_def load32_def add.assoc)

text \<open>What an image says of its segments is in its bytes.\<close>

lemma phdrs_same:
  assumes same: "same_image ehdr n m m'" and "64 \<le> unat n"
    and "unat (e_phoff (load_ehdr m ehdr)) + 56 * unat (e_phnum (load_ehdr m ehdr)) \<le> unat n"
  shows "phdrs m' ehdr = phdrs m ehdr"
proof -
  have "phdr_at m' (phdr_table m ehdr) i = phdr_at m (phdr_table m ehdr) i" if "i < unat (e_phnum (load_ehdr m ehdr))" for i
    using load_phdr_same [OF same, of "unat (e_phoff (load_ehdr m ehdr)) + 56 * i"] that assms(3)
    by (simp add: phdr_at_def phdr_table_def add.assoc)
  then show ?thesis using load_ehdr_same [OF same assms(2)] by (simp add: phdrs_def phdr_table_def)
qed

lemma image_same:
  assumes "same_image ehdr n m m'" and "well_formed_image m ehdr n"
  shows "load_ehdr m' ehdr = load_ehdr m ehdr" and "phdrs m' ehdr = phdrs m ehdr"
    and "load_segments m' ehdr = load_segments m ehdr" and "well_formed_image m' ehdr n"
  using load_ehdr_same [OF assms(1)] phdrs_same [OF assms(1)] assms(2)
  by (simp_all add: well_formed_image_def load_segments_def)


section \<open>An image of one segment\<close>

definition sample_lib :: BaseMemoryLib where
  "sample_lib = \<lparr>lib_CopyMem = (\<lambda>dst src n m a. if a - dst < n then m (src + (a - dst)) else m a),
     lib_SetMem = (\<lambda>dst n v m a. if a - dst < n then v else m a)\<rparr>"

lemma sample_lib_ok: "base_memory_lib sample_lib"
  by (simp add: base_memory_lib_def sample_lib_def)

definition sample_image :: mem where
  "sample_image = (\<lambda>_. 0)(0x1018 := 0x78, 0x101a := 0x10, 0x1020 := 0x40, 0x1038 := 1, 0x1040 := 1, 0x1052 := 0x10,
     0x1060 := 0x80, 0x1069 := 1)"

lemma sample_header:
  "e_phoff (load_ehdr sample_image 0x1000) = 0x40" "e_phnum (load_ehdr sample_image 0x1000) = 1"
  "e_entry (load_ehdr sample_image 0x1000) = 0x100078"
  by (simp_all add: load_ehdr_def load64_def load32_def load16_def sample_image_def)

lemma sample_segments:
  "load_segments sample_image 0x1000 = [\<lparr>p_type = 1, p_flags = 0, p_offset = 0, p_vaddr = 0x100000, p_paddr = 0,
     p_filesz = 0x80, p_memsz = 0x100, p_align = 0\<rparr>]"
  by (simp add: load_segments_def phdrs_def phdr_at_def phdr_table_def sample_header load_phdr_def PT_LOAD_def)
    (simp add: load64_def load32_def sample_image_def)

lemma sample_well_formed: "well_formed_image sample_image 0x1000 0x80"
proof -
  have "\<not> a - 0x1000 < 0x80" if "a - 0x100000 < 0x100" for a :: u64
  proof -
    have "a - 0x1000 = (a - 0x100000) + 0xff000" by simp
    moreover have "unat ((a - 0x100000) + 0xff000) = unat (a - 0x100000) + 0xff000"
      using that by (subst unat_add_lem [THEN iffD1]) (auto simp: word_less_nat_alt)
    ultimately show ?thesis by (simp add: word_less_nat_alt)
  qed
  then show ?thesis by (auto simp: well_formed_image_def sample_segments sample_header in_segment_def)
qed

section \<open>Properties\<close>

text \<open>
  C11. The boot loader loads the kernel: for an image whose headers and contents lie inside it and
  whose segments lie outside and do not overlap, every segment is in memory at its address with its
  bytes from the file followed by zeros, and no other byte of memory has changed. If a segment that
  begins at offset 0 of the file is the first in memory, as the comment in \<open>UefiMain\<close> supposes, then
  the address the loader jumps to is the entry point of the image.
\<close>

theorem CopyLoadSegments_loads_image:
  assumes "base_memory_lib lib" and "well_formed_image m ehdr n"
  shows "(\<forall>p \<in> set (load_segments m ehdr). \<forall>t < p_memsz p.
      CopyLoadSegments lib ehdr m (p_vaddr p + t) = (if t < p_filesz p then m (ehdr + p_offset p + t) else 0)) \<and>
    (\<forall>a. (\<forall>p \<in> set (load_segments m ehdr). \<not> a - p_vaddr p < p_memsz p) \<longrightarrow> CopyLoadSegments lib ehdr m a = m a) \<and>
    (\<forall>p \<in> set (load_segments m ehdr). p_offset p = 0 \<longrightarrow> 32 \<le> p_filesz p \<longrightarrow>
      entry_addr (CopyLoadSegments lib ehdr m) (p_vaddr p) = e_entry (load_ehdr m ehdr))"
  using segment_placed [OF assms] outside_segments_kept [OF assms] header_placed(1) [OF assms] entry_addr_header
  by blast

theorem CopyLoadSegments_loads_image_witness:
  "entry_addr (CopyLoadSegments sample_lib 0x1000 sample_image) 0x100000 = 0x100078 \<and>
    CopyLoadSegments sample_lib 0x1000 sample_image 0x100090 = 0"
proof -
  let ?p = "hd (load_segments sample_image 0x1000)" and ?m = "CopyLoadSegments sample_lib 0x1000 sample_image"
  have p: "?p \<in> set (load_segments sample_image 0x1000)" by (simp add: sample_segments)
  from CopyLoadSegments_loads_image [OF sample_lib_ok sample_well_formed]
  have "\<forall>t<p_memsz ?p. ?m (p_vaddr ?p + t) = (if t < p_filesz ?p then sample_image (0x1000 + p_offset ?p + t) else 0)"
    "p_offset ?p = 0 \<longrightarrow> 32 \<le> p_filesz ?p \<longrightarrow> entry_addr ?m (p_vaddr ?p) = e_entry (load_ehdr sample_image 0x1000)"
    using p by blast+
  from this(1) [THEN spec, of "0x90"] this(2) show ?thesis by (simp add: sample_segments sample_header)
qed

end
