(* ===== verification/BootLoader.thy ===== *)
theory BootLoader
  imports Elf MemoryMap Graphics
begin

text \<open>
  The boot loader (\<open>BootLoaderPkg/Main.c\<close>): the memory map, the frame buffer, the kernel file, the end
  of the boot services and the jump to the kernel. The firmware's services are a parameter, the
  record \<open>Uefi\<close> of functions over the state \<open>'fw\<close> of the firmware and the memory; a handle or a
  protocol interface is an address. What \<open>Print\<close> shows is left out.
\<close>

section \<open>Firmware services\<close>

type_synonym EFI_STATUS = u64

datatype Guid = gEfiLoadedImageProtocolGuid | gEfiSimpleFileSystemProtocolGuid | gEfiGraphicsOutputProtocolGuid
  | gEfiFileInfoGuid

datatype EFI_GRAPHICS_PIXEL_FORMAT = PixelRedGreenBlueReserved8BitPerColor | PixelBlueGreenRedReserved8BitPerColor
  | PixelBitMask | PixelBltOnly | PixelFormatMax

datatype EFI_FILE_MODE = EFI_FILE_MODE_READ | EFI_FILE_MODE_WRITE | EFI_FILE_MODE_CREATE

record GopMode =
  gop_FrameBufferBase :: u64
  gop_PixelsPerScanLine :: u32
  gop_HorizontalResolution :: u32
  gop_VerticalResolution :: u32
  gop_PixelFormat :: EFI_GRAPHICS_PIXEL_FORMAT

type_synonym 'fw machine = "'fw \<times> mem"

text \<open>
  The services, with the status codes, macros and library routines of EDK II the code uses. The
  results of \<open>GetMemoryMap\<close> beside the status are size, key, descriptor size and version.
\<close>

record 'fw Uefi =
  EFI_ERROR :: "EFI_STATUS \<Rightarrow> bool"
  EFI_SUCCESS :: EFI_STATUS
  EFI_BUFFER_TOO_SMALL :: EFI_STATUS
  gBS_OpenProtocol :: "u64 \<Rightarrow> Guid \<Rightarrow> u64 \<Rightarrow> 'fw machine \<Rightarrow> (EFI_STATUS \<times> u64) \<times> 'fw machine"
  gBS_LocateHandleBuffer :: "Guid \<Rightarrow> 'fw machine \<Rightarrow> (EFI_STATUS \<times> u64 list) \<times> 'fw machine"
  gBS_GetMemoryMap :: "u64 \<Rightarrow> u64 \<Rightarrow> 'fw machine \<Rightarrow> (EFI_STATUS \<times> u64 \<times> u64 \<times> u64 \<times> u32) \<times> 'fw machine"
  gBS_ExitBootServices :: "u64 \<Rightarrow> u64 \<Rightarrow> 'fw machine \<Rightarrow> EFI_STATUS \<times> 'fw machine"
  gBS_AllocatePool :: "u64 \<Rightarrow> 'fw machine \<Rightarrow> (EFI_STATUS \<times> u64) \<times> 'fw machine"
  gBS_AllocatePages :: "u64 \<Rightarrow> u64 \<Rightarrow> 'fw machine \<Rightarrow> (EFI_STATUS \<times> u64) \<times> 'fw machine"
  gBS_FreePool :: "u64 \<Rightarrow> 'fw machine \<Rightarrow> EFI_STATUS \<times> 'fw machine"
  lib_FreePool :: "u64 list \<Rightarrow> 'fw machine \<Rightarrow> 'fw machine"
  loaded_image_DeviceHandle :: "u64 \<Rightarrow> 'fw machine \<Rightarrow> u64"
  fs_OpenVolume :: "u64 \<Rightarrow> 'fw machine \<Rightarrow> (EFI_STATUS \<times> u64) \<times> 'fw machine"
  file_Open :: "u64 \<Rightarrow> string \<Rightarrow> EFI_FILE_MODE list \<Rightarrow> 'fw machine \<Rightarrow> (EFI_STATUS \<times> u64) \<times> 'fw machine"
  file_Close :: "u64 \<Rightarrow> 'fw machine \<Rightarrow> EFI_STATUS \<times> 'fw machine"
  file_Write :: "u64 \<Rightarrow> string \<Rightarrow> 'fw machine \<Rightarrow> EFI_STATUS \<times> 'fw machine"
  file_GetInfo :: "u64 \<Rightarrow> Guid \<Rightarrow> u64 \<Rightarrow> u64 \<Rightarrow> 'fw machine \<Rightarrow> EFI_STATUS \<times> 'fw machine"
  file_Read :: "u64 \<Rightarrow> u64 \<Rightarrow> u64 \<Rightarrow> 'fw machine \<Rightarrow> EFI_STATUS \<times> 'fw machine"
  gop_Mode :: "u64 \<Rightarrow> 'fw machine \<Rightarrow> GopMode"
  lib_AsciiSPrint :: "nat \<Rightarrow> u32 \<Rightarrow> string \<Rightarrow> u64 \<Rightarrow> u64 \<Rightarrow> u64 \<Rightarrow> string"
  sizeof_EFI_FILE_INFO :: u64
  file_info_FileSize :: "mem \<Rightarrow> u64 \<Rightarrow> u64"
  uefi_lib :: BaseMemoryLib

section \<open>Protocols and files\<close>

definition OpenRootDir :: "'fw Uefi \<Rightarrow> u64 \<Rightarrow> 'fw machine \<Rightarrow> (EFI_STATUS \<times> u64) \<times> 'fw machine" where
  "OpenRootDir efi image_handle s =
     (let ((status, loaded_image), s) = gBS_OpenProtocol efi image_handle gEfiLoadedImageProtocolGuid image_handle s in
      if EFI_ERROR efi status then ((status, 0), s)
      else
        let ((status, fs), s) = gBS_OpenProtocol efi (loaded_image_DeviceHandle efi loaded_image s)
              gEfiSimpleFileSystemProtocolGuid image_handle s in
        if EFI_ERROR efi status then ((status, 0), s) else fs_OpenVolume efi fs s)"

text \<open>The type is the number the descriptor holds.\<close>

definition GetMemoryTypeUnicode :: "u32 \<Rightarrow> string" where
  "GetMemoryTypeUnicode ty =
     (let names = [''EfiReservedMemoryType'', ''EfiLoaderCode'', ''EfiLoaderData'', ''EfiBootServicesCode'',
        ''EfiBootServicesData'', ''EfiRuntimeServicesCode'', ''EfiRuntimeServicesData'', ''EfiConventionalMemory'',
        ''EfiUnusableMemory'', ''EfiACPIReclaimMemory'', ''EfiACPIMemoryNVS'', ''EfiMemoryMappedIO'',
        ''EfiMemoryMappedIOPortSpace'', ''EfiPalCode'', ''EfiPersistentMemory'', ''EfiMaxMemoryType'']
      in if unat ty < length names then names ! unat ty else ''InvalidMemoryType'')"

definition GetMemorymap :: "'fw Uefi \<Rightarrow> MemoryMap \<Rightarrow> 'fw machine \<Rightarrow> (EFI_STATUS \<times> MemoryMap) \<times> 'fw machine" where
  "GetMemorymap efi map' s =
     (if mmap_buffer map' = 0 then ((EFI_BUFFER_TOO_SMALL efi, map'), s)
      else
        let map' = map'\<lparr>mmap_map_size := mmap_buffer_size map'\<rparr>;
            ((status, map_size, key, descriptor_size, version), s) =
              gBS_GetMemoryMap efi (mmap_map_size map') (mmap_buffer map') s
        in ((status, map'\<lparr>mmap_map_size := map_size, mmap_map_key := key, mmap_descriptor_size := descriptor_size,
              mmap_descriptor_version := version\<rparr>), s))"

definition memmap_header :: string where
  "memmap_header = ''Index, Type, Type(name), PhysicalStart, NumberOfPages, Attribute'' @ [CHR 0x0A]"

text \<open>The line of a descriptor: \<open>PhysicalStart\<close>, \<open>NumberOfPages\<close> and the low bits of \<open>Attribute\<close>.\<close>

definition memmap_line :: "'fw Uefi \<Rightarrow> nat \<Rightarrow> MemoryDescriptor \<Rightarrow> string" where
  "memmap_line efi i desc = lib_AsciiSPrint efi i (md_type desc) (GetMemoryTypeUnicode (md_type desc))
     (md_physical_start desc) (md_number_of_pages desc) (md_attribute desc AND 0xfffff)"

partial_function (option) save_descriptors ::
  "'fw Uefi \<Rightarrow> u64 \<Rightarrow> u64 \<Rightarrow> u64 \<Rightarrow> u64 \<Rightarrow> nat \<Rightarrow> 'fw machine \<Rightarrow> (EFI_STATUS \<times> 'fw machine) option" where
  "save_descriptors efi dest descriptor_size buffer_end iter i s =
     (if iter < buffer_end then
        let (status, s) = file_Write efi dest (memmap_line efi i (load_descriptor (snd s) iter)) s in
        if EFI_ERROR efi status then Some (status, s)
        else save_descriptors efi dest descriptor_size buffer_end (iter + descriptor_size) (i + 1) s
      else Some (EFI_SUCCESS efi, s))"

definition SaveMemoryMap :: "'fw Uefi \<Rightarrow> MemoryMap \<Rightarrow> u64 \<Rightarrow> 'fw machine \<Rightarrow> (EFI_STATUS \<times> 'fw machine) option" where
  "SaveMemoryMap efi map' dest s =
     (let (status, s) = file_Write efi dest memmap_header s in
      if EFI_ERROR efi status then Some (status, s)
      else save_descriptors efi dest (mmap_descriptor_size map') (mmap_buffer map' + mmap_map_size map') (mmap_buffer map') 0 s)"

section \<open>The end of the boot services\<close>

definition ExitBootServicesWithRetry ::
  "'fw Uefi \<Rightarrow> u64 \<Rightarrow> MemoryMap \<Rightarrow> 'fw machine \<Rightarrow> (EFI_STATUS \<times> MemoryMap) \<times> 'fw machine" where
  "ExitBootServicesWithRetry efi image_handle memmap s =
     (let (status, s) = gBS_ExitBootServices efi image_handle (mmap_map_key memmap) s in
      if \<not> EFI_ERROR efi status then ((status, memmap), s)
      else
        let ((status, memmap), s) = GetMemorymap efi memmap s in
        if EFI_ERROR efi status then ((status, memmap), s)
        else
          let (status, s) = gBS_ExitBootServices efi image_handle (mmap_map_key memmap) s
          in ((status, memmap), s))"

section \<open>The frame buffer\<close>

definition OpenGOP :: "'fw Uefi \<Rightarrow> u64 \<Rightarrow> 'fw machine \<Rightarrow> ((EFI_STATUS \<times> u64) \<times> 'fw machine) option" where
  "OpenGOP efi image_handle s =
     (let ((status, gop_handles), s) = gBS_LocateHandleBuffer efi gEfiGraphicsOutputProtocolGuid s in
      if EFI_ERROR efi status then Some ((status, 0), s)
      else
        case gop_handles of
          [] \<Rightarrow> None
        | h # hs \<Rightarrow>
            let ((status, gop), s) = gBS_OpenProtocol efi h gEfiGraphicsOutputProtocolGuid image_handle s in
            if EFI_ERROR efi status then Some ((status, gop), s)
            else Some ((EFI_SUCCESS efi, gop), lib_FreePool efi gop_handles s))"

definition GetPixelFormatUnicode :: "EFI_GRAPHICS_PIXEL_FORMAT \<Rightarrow> string" where
  "GetPixelFormatUnicode fmt = (case fmt of
     PixelRedGreenBlueReserved8BitPerColor \<Rightarrow> ''PixelRedGreenBlueReserved8BitPerColor''
   | PixelBlueGreenRedReserved8BitPerColor \<Rightarrow> ''PixelBlueGreenRedReserved8BitPerColor''
   | PixelBitMask \<Rightarrow> ''PixelBitMask''
   | PixelBltOnly \<Rightarrow> ''PixelBltOnly''
   | PixelFormatMax \<Rightarrow> ''PixelFormatMax'')"

text \<open>The configuration for the kernel, if it can draw in the format of the frame buffer.\<close>

definition frame_buffer_config :: "GopMode \<Rightarrow> FrameBufferConfig option" where
  "frame_buffer_config mode =
     (let config = \<lparr>fb_frame_buffer = gop_FrameBufferBase mode, fb_pixels_per_scan_line = gop_PixelsPerScanLine mode,
        fb_horizontal_resolution = gop_HorizontalResolution mode, fb_vertical_resolution = gop_VerticalResolution mode,
        fb_pixel_format = kPixelRGBResv8BitPerColor\<rparr>
      in case gop_PixelFormat mode of
           PixelBlueGreenRedReserved8BitPerColor \<Rightarrow> Some (config\<lparr>fb_pixel_format := kPixelBGRResv8BitPerColor\<rparr>)
         | PixelRedGreenBlueReserved8BitPerColor \<Rightarrow> Some (config\<lparr>fb_pixel_format := kPixelRGBResv8BitPerColor\<rparr>)
         | _ \<Rightarrow> None)"


section \<open>The loader\<close>

text \<open>
  It halts with a message, here shortened, or jumps to an address with the two arguments of the kernel. What follows
  a test is an argument of \<open>HaltIfError\<close>; a step that is undefined or does not return is \<open>None\<close>.
\<close>

datatype Boot = HaltedWith string | Entered u64 FrameBufferConfig MemoryMap

type_synonym 'fw boot = "(Boot \<times> 'fw machine) option"

definition HaltIfError :: "'fw Uefi \<Rightarrow> string \<Rightarrow> EFI_STATUS \<Rightarrow> 'fw machine \<Rightarrow> 'fw boot \<Rightarrow> 'fw boot" where
  "HaltIfError efi message status s next = (if EFI_ERROR efi status then Some (HaltedWith message, s) else next)"

definition root_file :: "string \<Rightarrow> string" where
  "root_file name = CHR 0x5C # name"

text \<open>The file with the memory map, which is left out when it cannot be opened.\<close>

definition DumpMemoryMap :: "'fw Uefi \<Rightarrow> u64 \<Rightarrow> MemoryMap \<Rightarrow> ('fw machine \<Rightarrow> 'fw boot) \<Rightarrow> 'fw machine \<Rightarrow> 'fw boot" where
  "DumpMemoryMap efi root_dir memmap k s =
     (let ((status, memmap_file), s) = file_Open efi root_dir (root_file ''memmap'')
            [EFI_FILE_MODE_CREATE, EFI_FILE_MODE_READ, EFI_FILE_MODE_WRITE] s in
      if EFI_ERROR efi status then k s
      else do {
        (status, s) \<leftarrow> SaveMemoryMap efi memmap memmap_file s;
        HaltIfError efi ''failed to save memory map'' status s
          (let (status, s) = file_Close efi memmap_file s
           in HaltIfError efi ''failed to close memory map'' status s (k s))
      })"

text \<open>From the opening of the kernel file to the segments in place; \<open>k\<close> gets the first address.\<close>

definition LoadKernel :: "'fw Uefi \<Rightarrow> u64 \<Rightarrow> u64 \<Rightarrow> (u64 \<Rightarrow> 'fw machine \<Rightarrow> 'fw boot) \<Rightarrow> 'fw machine \<Rightarrow> 'fw boot" where
  "LoadKernel efi root_dir file_info_buffer k s =
     (let ((status, kernel_file), s) = file_Open efi root_dir (root_file ''kernel.elf'') [EFI_FILE_MODE_READ] s in
      HaltIfError efi ''failed to open file'' status s
        (let file_info_size = sizeof_EFI_FILE_INFO efi + 2 * 12;
             (status, s) = file_GetInfo efi kernel_file gEfiFileInfoGuid file_info_size file_info_buffer s
         in HaltIfError efi ''failed to get file information'' status s
           (let kernel_file_size = file_info_FileSize efi (snd s) file_info_buffer;
                ((status, kernel_temp_buffer), s) = gBS_AllocatePool efi kernel_file_size s
            in HaltIfError efi ''failed to allocate pool'' status s
              (let (status, s) = file_Read efi kernel_file kernel_file_size kernel_temp_buffer s in
               HaltIfError efi ''error'' status s
                 (let (kernel_first_addr, kernel_last_addr) = CalcLoadAddressRange (snd s) kernel_temp_buffer;
                      ((status, kernel_first_addr), s) =
                        gBS_AllocatePages efi (num_pages kernel_first_addr kernel_last_addr) kernel_first_addr s
                  in HaltIfError efi ''failed to allocate pages'' status s
                    (let s = (fst s, CopyLoadSegments (uefi_lib efi) kernel_temp_buffer (snd s));
                         (status, s) = gBS_FreePool efi kernel_temp_buffer s
                     in HaltIfError efi ''failed to free pool'' status s (k kernel_first_addr s)))))))"

text \<open>The end of the boot services and the jump.\<close>

definition EnterKernel :: "'fw Uefi \<Rightarrow> u64 \<Rightarrow> MemoryMap \<Rightarrow> FrameBufferConfig \<Rightarrow> u64 \<Rightarrow> 'fw machine \<Rightarrow> 'fw boot" where
  "EnterKernel efi image_handle memmap config kernel_first_addr s =
     (let ((status, memmap), s) = ExitBootServicesWithRetry efi image_handle memmap s
      in HaltIfError efi ''failed to exit boot services'' status s
           (Some (Entered (entry_addr (snd s) kernel_first_addr) config memmap, s)))"

text \<open>From the frame buffer to the jump.\<close>

definition StartKernel :: "'fw Uefi \<Rightarrow> u64 \<Rightarrow> u64 \<Rightarrow> u64 \<Rightarrow> MemoryMap \<Rightarrow> 'fw machine \<Rightarrow> 'fw boot" where
  "StartKernel efi file_info_buffer image_handle root_dir memmap s = do {
     ((status, gop), s) \<leftarrow> OpenGOP efi image_handle s;
     HaltIfError efi ''failed to open GOP'' status s
       (case frame_buffer_config (gop_Mode efi gop s) of
          None \<Rightarrow> Some (HaltedWith ''Unimplemented pixel format'', s)
        | Some config \<Rightarrow> LoadKernel efi root_dir file_info_buffer (EnterKernel efi image_handle memmap config) s)
   }"

definition UefiMain :: "'fw Uefi \<Rightarrow> u64 \<Rightarrow> u64 \<Rightarrow> u64 \<Rightarrow> 'fw machine \<Rightarrow> 'fw boot" where
  "UefiMain efi memmap_buf file_info_buffer image_handle s =
     (let memmap = \<lparr>mmap_buffer_size = 4096 * 4, mmap_buffer = memmap_buf, mmap_map_size = 0, mmap_map_key = 0,
            mmap_descriptor_size = 0, mmap_descriptor_version = 0\<rparr>;
          ((status, memmap), s) = GetMemorymap efi memmap s
      in HaltIfError efi ''failed to get memory map'' status s
        (let ((status, root_dir), s) = OpenRootDir efi image_handle s in
         HaltIfError efi ''failed to open root directory'' status s
           (DumpMemoryMap efi root_dir memmap (StartKernel efi file_info_buffer image_handle root_dir memmap) s)))"

section \<open>What the kernel is handed\<close>

text \<open>The last thing that happened to the machine is a successful \<open>ExitBootServices\<close> with this key.\<close>

definition accepted :: "'fw Uefi \<Rightarrow> u64 \<Rightarrow> MemoryMap \<Rightarrow> 'fw machine \<Rightarrow> bool" where
  "accepted efi image_handle memmap s \<longleftrightarrow>
     (\<exists>s0 status. gBS_ExitBootServices efi image_handle (mmap_map_key memmap) s0 = (status, s) \<and> \<not> EFI_ERROR efi status)"

lemma HaltIfError_Entered:
  "HaltIfError efi message status s next = Some (Entered e c m, s') \<longleftrightarrow> \<not> EFI_ERROR efi status \<and> next = Some (Entered e c m, s')"
  by (simp add: HaltIfError_def)

lemma ExitBootServicesWithRetry_accepted:
  "ExitBootServicesWithRetry efi h memmap s = ((status, memmap'), s') \<Longrightarrow> \<not> EFI_ERROR efi status \<Longrightarrow> accepted efi h memmap' s'"
  by (cases s) (auto simp: ExitBootServicesWithRetry_def accepted_def Let_def split: if_splits prod.splits)

text \<open>
  The kernel file was opened, its size asked for, a buffer of that size allocated at \<open>temp\<close> and the file
  read to it; then its image was copied, after pages were allocated at \<open>first\<close>, and the buffer freed.
\<close>

definition kernel_read :: "'fw Uefi \<Rightarrow> u64 \<Rightarrow> u64 \<Rightarrow> u64 \<Rightarrow> 'fw machine \<Rightarrow> bool" where
  "kernel_read efi info temp n s \<longleftrightarrow>
     (\<exists>root_dir kernel_file s0 s1 s2 s3 st1 st2 st3 st4.
       (\<forall>st \<in> {st1, st2, st3, st4}. \<not> EFI_ERROR efi st) \<and> n = file_info_FileSize efi (snd s2) info \<and>
       file_Open efi root_dir (root_file ''kernel.elf'') [EFI_FILE_MODE_READ] s0 = ((st1, kernel_file), s1) \<and>
       file_GetInfo efi kernel_file gEfiFileInfoGuid (sizeof_EFI_FILE_INFO efi + 24) info s1 = (st2, s2) \<and>
       gBS_AllocatePool efi n s2 = ((st3, temp), s3) \<and> file_Read efi kernel_file n temp s3 = (st4, s))"

definition kernel_loaded :: "'fw Uefi \<Rightarrow> u64 \<Rightarrow> u64 \<Rightarrow> u64 \<Rightarrow> u64 \<Rightarrow> 'fw machine \<Rightarrow> 'fw machine \<Rightarrow> 'fw machine \<Rightarrow> bool" where
  "kernel_loaded efi info temp n first s0 s1 s2 \<longleftrightarrow> kernel_read efi info temp n s0 \<and>
     (\<exists>status status'. \<not> EFI_ERROR efi status \<and> \<not> EFI_ERROR efi status' \<and>
       gBS_AllocatePages efi (num_pages (fst (CalcLoadAddressRange (snd s0) temp)) (snd (CalcLoadAddressRange (snd s0) temp)))
         (fst (CalcLoadAddressRange (snd s0) temp)) s0 = ((status, first), s1) \<and>
       gBS_FreePool efi temp (fst s1, CopyLoadSegments (uefi_lib efi) temp (snd s1)) = (status', s2))"

lemma LoadKernel_Entered:
  assumes "LoadKernel efi root buf k s = Some (Entered e c m, s')"
  shows "\<exists>temp n first s0 s1 s2. kernel_loaded efi buf temp n first s0 s1 s2 \<and> k first s2 = Some (Entered e c m, s')"
proof -
  obtain st1 kf s1 where 1: "file_Open efi root (root_file ''kernel.elf'') [EFI_FILE_MODE_READ] s = ((st1, kf), s1)"
    by (metis prod.exhaust)
  obtain st2 s2 where 2: "file_GetInfo efi kf gEfiFileInfoGuid (sizeof_EFI_FILE_INFO efi + 24) buf s1 = (st2, s2)"
    by (metis prod.exhaust)
  define n where "n = file_info_FileSize efi (snd s2) buf"
  obtain st3 temp s3 where 3: "gBS_AllocatePool efi n s2 = ((st3, temp), s3)" by (metis prod.exhaust)
  obtain st4 s4 where 4: "file_Read efi kf n temp s3 = (st4, s4)" by (metis prod.exhaust)
  obtain lo hi where range: "CalcLoadAddressRange (snd s4) temp = (lo, hi)" by (metis prod.exhaust)
  obtain st5 first s5 where 5: "gBS_AllocatePages efi (num_pages lo hi) lo s4 = ((st5, first), s5)" by (metis prod.exhaust)
  obtain st6 s6 where 6: "gBS_FreePool efi temp (fst s5, CopyLoadSegments (uefi_lib efi) temp (snd s5)) = (st6, s6)"
    by (metis prod.exhaust)
  have ok: "\<not> EFI_ERROR efi st1" "\<not> EFI_ERROR efi st2" "\<not> EFI_ERROR efi st3" "\<not> EFI_ERROR efi st4"
    "\<not> EFI_ERROR efi st5" "\<not> EFI_ERROR efi st6" and k: "k first s6 = Some (Entered e c m, s')"
    using assms by (simp_all add: LoadKernel_def Let_def HaltIfError_Entered 1 2 3 4 5 6 range flip: n_def)
  have "kernel_read efi buf temp n s4"
    unfolding kernel_read_def
    by (rule exI [of _ root], rule exI [of _ kf], rule exI [of _ s], rule exI [of _ s1], rule exI [of _ s2], rule exI [of _ s3],
      rule exI [of _ st1], rule exI [of _ st2], rule exI [of _ st3], rule exI [of _ st4]) (simp add: 1 2 3 4 ok flip: n_def)
  with 5 6 ok have "kernel_loaded efi buf temp n first s4 s5 s6" unfolding kernel_loaded_def by (auto simp: range)
  with k show ?thesis by blast
qed

lemma DumpMemoryMap_Entered:
  "DumpMemoryMap efi root memmap k s = Some (Entered e c m, s') \<Longrightarrow> \<exists>s1. k s1 = Some (Entered e c m, s')"
  unfolding DumpMemoryMap_def Let_def by (auto simp: HaltIfError_Entered split: prod.splits if_splits bind_splits)

lemma GetMemorymap_buffer:
  "GetMemorymap efi memmap s = ((status, memmap'), s') \<Longrightarrow>
    mmap_buffer memmap' = mmap_buffer memmap \<and> mmap_buffer_size memmap' = mmap_buffer_size memmap"
  by (auto simp: GetMemorymap_def Let_def split: if_splits prod.splits)

lemma EnterKernel_Entered:
  "EnterKernel efi h memmap config first s = Some (Entered e c m, s') \<Longrightarrow>
    c = config \<and> e = entry_addr (snd s') first \<and>
    (\<exists>status. \<not> EFI_ERROR efi status \<and> ExitBootServicesWithRetry efi h memmap s = ((status, m), s'))"
  unfolding EnterKernel_def Let_def by (auto simp: HaltIfError_Entered split: prod.splits)

lemma StartKernel_Entered:
  assumes "StartKernel efi buf h root_dir memmap s = Some (Entered e c m, s')"
  shows "(\<exists>gop s1. frame_buffer_config (gop_Mode efi gop s1) = Some c) \<and>
    (\<exists>temp n first s0 s1 s2. kernel_loaded efi buf temp n first s0 s1 s2 \<and> EnterKernel efi h memmap c first s2 = Some (Entered e c m, s'))"
proof -
  from assms obtain st gop s1 where o: "OpenGOP efi h s = Some ((st, gop), s1)"
    by (cases "OpenGOP efi h s") (auto simp: StartKernel_def)
  with assms have r: "(case frame_buffer_config (gop_Mode efi gop s1) of
      None \<Rightarrow> Some (HaltedWith ''Unimplemented pixel format'', s1)
    | Some config \<Rightarrow> LoadKernel efi root_dir buf (EnterKernel efi h memmap config) s1) = Some (Entered e c m, s')"
    by (simp add: StartKernel_def HaltIfError_Entered)
  then obtain config where gop: "frame_buffer_config (gop_Mode efi gop s1) = Some config"
    by (cases "frame_buffer_config (gop_Mode efi gop s1)") auto
  with r have load: "LoadKernel efi root_dir buf (EnterKernel efi h memmap config) s1 = Some (Entered e c m, s')" by simp
  from LoadKernel_Entered [OF load] obtain temp n first t0 t1 t2 where k: "kernel_loaded efi buf temp n first t0 t1 t2"
    and enter: "EnterKernel efi h memmap config first t2 = Some (Entered e c m, s')" by blast
  from EnterKernel_Entered [OF enter] have "c = config" by simp
  with gop k enter show ?thesis by blast
qed

text \<open>The end of the loader: the kernel is in memory and the boot services are still to end.\<close>

lemma UefiMain_Entered:
  assumes "UefiMain efi memmap_buf file_info_buffer h s = Some (Entered e config memmap, s')"
  shows "(\<exists>gop s1. frame_buffer_config (gop_Mode efi gop s1) = Some config) \<and>
    (\<exists>temp n first s0 s1 s2 memmap0 status. kernel_loaded efi file_info_buffer temp n first s0 s1 s2 \<and> e = entry_addr (snd s') first \<and>
       mmap_buffer memmap0 = memmap_buf \<and> mmap_buffer_size memmap0 = 4096 * 4 \<and> \<not> EFI_ERROR efi status \<and>
       ExitBootServicesWithRetry efi h memmap0 s2 = ((status, memmap), s'))"
proof -
  define m0 where "m0 = \<lparr>mmap_buffer_size = 4096 * 4, mmap_buffer = memmap_buf, mmap_map_size = 0,
      mmap_map_key = 0, mmap_descriptor_size = 0, mmap_descriptor_version = 0\<rparr>"
  obtain st1 memmap1 s1 where get: "GetMemorymap efi m0 s = ((st1, memmap1), s1)"
    by (metis prod.exhaust)
  obtain st2 root_dir s2 where root: "OpenRootDir efi h s1 = ((st2, root_dir), s2)" by (metis prod.exhaust)
  from assms have "DumpMemoryMap efi root_dir memmap1 (StartKernel efi file_info_buffer h root_dir memmap1) s2 =
      Some (Entered e config memmap, s')"
    unfolding UefiMain_def Let_def m0_def [symmetric] by (simp add: get root HaltIfError_Entered)
  from DumpMemoryMap_Entered [OF this] obtain s3
    where "StartKernel efi file_info_buffer h root_dir memmap1 s3 = Some (Entered e config memmap, s')" by blast
  moreover have "mmap_buffer memmap1 = memmap_buf" "mmap_buffer_size memmap1 = 4096 * 4" using GetMemorymap_buffer [OF get] by (simp_all add: m0_def)
  ultimately show ?thesis by (blast dest: StartKernel_Entered EnterKernel_Entered)
qed


section \<open>The kernel stays where it was loaded\<close>

text \<open>
  What the loader needs of the firmware's memory services. Memory that the firmware gave to the loader is
  the loader's: the image it runs from, the pages and the pool buffers it allocated. The firmware does not
  give such memory away again and writes to it only through a buffer the loader passes; of all other
  memory nothing is assumed, so any service may change it.
\<close>

record 'fw Owner =
  own_image :: "u64 set"
  own_pages :: "'fw \<Rightarrow> u64 set"
  own_pool :: "'fw \<Rightarrow> u64 \<Rightarrow> u64 set"

definition in_range :: "u64 \<Rightarrow> u64 \<Rightarrow> u64 \<Rightarrow> bool" where
  "in_range p n a \<longleftrightarrow> a - p < n"

definition in_pages :: "u64 \<Rightarrow> u64 \<Rightarrow> u64 \<Rightarrow> bool" where
  "in_pages first n a \<longleftrightarrow> unat (a - first) < 4096 * unat n"

text \<open>A call leaves pages the loader has its own, with their bytes, unless they lie in \<open>B\<close>.\<close>

definition keeps_pages :: "'fw Owner \<Rightarrow> u64 set \<Rightarrow> 'fw machine \<Rightarrow> 'fw machine \<Rightarrow> bool" where
  "keeps_pages own B s s' \<longleftrightarrow> own_pages own (fst s) \<subseteq> own_pages own (fst s') \<and>
     (\<forall>a \<in> own_pages own (fst s). a \<notin> B \<longrightarrow> snd s' a = snd s a)"

text \<open>
  \<open>AllocatePool\<close> gives a buffer of the size asked for, and \<open>Read\<close> takes none away. \<open>AllocatePages\<close> at an
  address gives the pages there, which belonged to nobody, and leaves the pool buffers as they are.
  Freeing a buffer, reading the memory map and ending the boot services keep the pages, where the second
  writes the buffer it is handed.
\<close>

definition firmware_keeps_allocated :: "'fw Uefi \<Rightarrow> 'fw Owner \<Rightarrow> bool" where
  "firmware_keeps_allocated efi own \<longleftrightarrow>
     (\<forall>n s status p s'. gBS_AllocatePool efi n s = ((status, p), s') \<longrightarrow> \<not> EFI_ERROR efi status \<longrightarrow>
        Collect (in_range p n) \<subseteq> own_pool own (fst s') p) \<and>
     (\<forall>f n buf s p. own_pool own (fst s) p \<subseteq> own_pool own (fst (snd (file_Read efi f n buf s))) p) \<and>
     (\<forall>n addr s status a s'. gBS_AllocatePages efi n addr s = ((status, a), s') \<longrightarrow> \<not> EFI_ERROR efi status \<longrightarrow>
        a = addr \<and> Collect (in_pages addr n) \<subseteq> own_pages own (fst s') \<and>
        (\<forall>x. in_pages addr n x \<longrightarrow> x \<notin> own_image own \<and> x \<notin> own_pages own (fst s) \<and> (\<forall>p. x \<notin> own_pool own (fst s) p)) \<and>
        (\<forall>p. \<forall>x \<in> own_pool own (fst s) p. snd s' x = snd s x)) \<and>
     (\<forall>buf s. keeps_pages own {} s (snd (gBS_FreePool efi buf s))) \<and>
     (\<forall>size buf s. keeps_pages own (Collect (in_range buf size)) s (snd (gBS_GetMemoryMap efi size buf s))) \<and>
     (\<forall>h key s. keeps_pages own {} s (snd (gBS_ExitBootServices efi h key s)))"

text \<open>Pages of the loader keep their bytes over calls that are handed no part of them.\<close>

definition keeps_set :: "'fw Owner \<Rightarrow> u64 set \<Rightarrow> 'fw machine \<Rightarrow> 'fw machine \<Rightarrow> bool" where
  "keeps_set own K s s' \<longleftrightarrow> (K \<subseteq> own_pages own (fst s) \<longrightarrow> K \<subseteq> own_pages own (fst s') \<and> (\<forall>a \<in> K. snd s' a = snd s a))"

lemma keeps_set_refl: "keeps_set own K s s"
  by (simp add: keeps_set_def)

lemma keeps_set_trans: "keeps_set own K s s1 \<Longrightarrow> keeps_set own K s1 s2 \<Longrightarrow> keeps_set own K s s2"
  by (auto simp: keeps_set_def)

lemma keeps_pages_set: "keeps_pages own B s s' \<Longrightarrow> K \<inter> B = {} \<Longrightarrow> keeps_set own K s s'"
  unfolding keeps_pages_def keeps_set_def by blast

lemma firmware_keepsD:
  assumes "firmware_keeps_allocated efi own"
  shows "keeps_pages own {} s (snd (gBS_FreePool efi p s))"
    and "keeps_pages own (Collect (in_range buf n)) s (snd (gBS_GetMemoryMap efi n buf s))"
    and "keeps_pages own {} s (snd (gBS_ExitBootServices efi h key s))"
  using assms unfolding firmware_keeps_allocated_def by blast+

lemma firmware_allocD:
  assumes "firmware_keeps_allocated efi own"
    and "gBS_AllocatePages efi n addr s = ((status, a), s')" and "\<not> EFI_ERROR efi status"
  shows "a = addr" and "Collect (in_pages addr n) \<subseteq> own_pages own (fst s')"
    and "Collect (in_pages addr n) \<inter> own_image own = {}"
    and "x \<in> own_pool own (fst s) p \<Longrightarrow> snd s' x = snd s x"
  using assms unfolding firmware_keeps_allocated_def by blast+

lemma GetMemorymap_keeps:
  assumes "firmware_keeps_allocated efi own" and "K \<inter> Collect (in_range (mmap_buffer memmap) (mmap_buffer_size memmap)) = {}"
  shows "keeps_set own K s (snd (GetMemorymap efi memmap s))"
proof -
  let ?n = "mmap_buffer_size memmap" and ?buf = "mmap_buffer memmap"
  obtain st a b c d s' where "gBS_GetMemoryMap efi ?n ?buf s = ((st, a, b, c, d), s')"
    by (metis prod.exhaust)
  with keeps_pages_set [OF firmware_keepsD(2) [OF assms(1), of ?buf ?n s] assms(2)] show ?thesis
    by (simp add: GetMemorymap_def Let_def keeps_set_refl)
qed

lemma ExitBootServicesWithRetry_keeps:
  assumes "firmware_keeps_allocated efi own" and "K \<inter> Collect (in_range (mmap_buffer memmap) (mmap_buffer_size memmap)) = {}"
  shows "keeps_set own K s (snd (ExitBootServicesWithRetry efi h memmap s))"
proof -
  obtain st1 s1 where 1: "gBS_ExitBootServices efi h (mmap_map_key memmap) s = (st1, s1)" by (metis prod.exhaust)
  obtain st2 memmap2 s2 where 2: "GetMemorymap efi memmap s1 = ((st2, memmap2), s2)" by (metis prod.exhaust)
  obtain st3 s3 where 3: "gBS_ExitBootServices efi h (mmap_map_key memmap2) s2 = (st3, s3)" by (metis prod.exhaust)
  note exit_keeps = keeps_pages_set [OF firmware_keepsD(3) [OF assms(1)], of K, simplified]
  have k1: "keeps_set own K s s1" using exit_keeps 1 by (metis snd_conv)
  have k2: "keeps_set own K s1 s2" using GetMemorymap_keeps [OF assms] 2 by (metis snd_conv)
  have k3: "keeps_set own K s2 s3" using exit_keeps 3 by (metis snd_conv)
  show ?thesis
    using k1 keeps_set_trans [OF k1 k2] keeps_set_trans [OF keeps_set_trans [OF k1 k2] k3]
    by (simp add: ExitBootServicesWithRetry_def Let_def 1 2 3)
qed

text \<open>The buffer the file was read to belongs to the loader.\<close>

lemma kernel_read_owned:
  assumes "firmware_keeps_allocated efi own" and "kernel_read efi info temp n s"
  shows "Collect (in_range temp n) \<subseteq> own_pool own (fst s) temp"
proof -
  from assms(2) obtain kf s2 s3 st3 st4 where alloc: "gBS_AllocatePool efi n s2 = ((st3, temp), s3)" "\<not> EFI_ERROR efi st3"
    and read: "file_Read efi kf n temp s3 = (st4, s)"
    unfolding kernel_read_def by blast
  from assms(1) [unfolded firmware_keeps_allocated_def, THEN conjunct1, rule_format, OF alloc]
  have "Collect (in_range temp n) \<subseteq> own_pool own (fst s3) temp" .
  also have "\<dots> \<subseteq> own_pool own (fst (snd (file_Read efi kf n temp s3))) temp"
    by (rule assms(1) [unfolded firmware_keeps_allocated_def, THEN conjunct2, THEN conjunct1, rule_format])
  finally show ?thesis by (simp add: read)
qed

text \<open>An image that can be loaded: its segments lie below the last page.\<close>

definition loadable :: "mem \<Rightarrow> u64 \<Rightarrow> u64 \<Rightarrow> bool" where
  "loadable m temp n \<longleftrightarrow> well_formed_image m temp n \<and> load_segments m temp \<noteq> [] \<and>
     (\<forall>p \<in> set (load_segments m temp). unat (p_vaddr p) + unat (p_memsz p) \<le> 2 ^ 64 - 4096)"

lemma segments_in_pages:
  assumes "loadable m temp n" and "CalcLoadAddressRange m temp = (first, last')"
    and p: "p \<in> set (load_segments m temp)" "in_segment p a"
  shows "in_pages first (num_pages first last') a"
proof -
  from assms(1) have "load_segments m temp \<noteq> []"
    and below: "\<forall>p \<in> set (load_segments m temp). unat (p_vaddr p) + unat (p_memsz p) \<le> 2 ^ 64 - 4096"
    by (simp_all add: loadable_def)
  from pages_cover [OF assms(2) this] p(1) have c: "first \<le> p_vaddr p"
    "unat (p_vaddr p) + unat (p_memsz p) \<le> unat first + 4096 * unat (num_pages first last')" by auto
  have t: "unat (a - p_vaddr p) < unat (p_memsz p)" using p(2) by (simp add: in_segment_def word_less_nat_alt)
  have "a - first = (a - p_vaddr p) + (p_vaddr p - first)" by simp
  then have "unat (a - first) \<le> unat (a - p_vaddr p) + unat (p_vaddr p - first)" by (metis mod_less_eq_dividend unat_word_ariths(1))
  with t c show ?thesis by (simp add: in_pages_def unat_sub word_le_nat_alt)
qed

text \<open>The pages the kernel is loaded to.\<close>

definition kernel_pages :: "mem \<Rightarrow> u64 \<Rightarrow> u64 set" where
  "kernel_pages m temp = (let (first, last') = CalcLoadAddressRange m temp in Collect (in_pages first (num_pages first last')))"

lemma kernel_loaded_in_place:
  assumes lib: "base_memory_lib (uefi_lib efi)" and fw: "firmware_keeps_allocated efi own"
    and loaded: "kernel_loaded efi info temp n first s0 s1 s2" and image: "loadable (snd s0) temp n"
  shows "first = fst (CalcLoadAddressRange (snd s0) temp)" and "kernel_pages (snd s0) temp \<subseteq> own_pages own (fst s2)"
    and "kernel_pages (snd s0) temp \<inter> own_image own = {}"
    and "p \<in> set (load_segments (snd s0) temp) \<Longrightarrow> t < p_memsz p \<Longrightarrow> p_vaddr p + t \<in> kernel_pages (snd s0) temp \<and>
      snd s2 (p_vaddr p + t) = (if t < p_filesz p then snd s0 (temp + p_offset p + t) else 0)"
proof -
  obtain lo hi where range: "CalcLoadAddressRange (snd s0) temp = (lo, hi)" by (metis prod.exhaust)
  with loaded obtain st1 st2 where alloc: "gBS_AllocatePages efi (num_pages lo hi) lo s0 = ((st1, first), s1)" "\<not> EFI_ERROR efi st1"
    and free: "gBS_FreePool efi temp (fst s1, CopyLoadSegments (uefi_lib efi) temp (snd s1)) = (st2, s2)"
    and read: "kernel_read efi info temp n s0"
    by (auto simp: kernel_loaded_def)
  have pages: "kernel_pages (snd s0) temp = Collect (in_pages lo (num_pages lo hi))" by (simp add: kernel_pages_def range)
  note alloc' = firmware_allocD [OF fw alloc]
  from alloc'(1) range show "first = fst (CalcLoadAddressRange (snd s0) temp)" by simp
  have own: "kernel_pages (snd s0) temp \<subseteq> own_pages own (fst s1)" using alloc'(2) by (simp add: pages)
  show "kernel_pages (snd s0) temp \<inter> own_image own = {}" using alloc'(3) by (simp add: pages)
  have kept: "keeps_set own (kernel_pages (snd s0) temp) (fst s1, CopyLoadSegments (uefi_lib efi) temp (snd s1)) s2"
    using keeps_pages_set [OF firmware_keepsD(1) [OF fw]] free by (metis snd_conv inf_bot_right)
  with own show "kernel_pages (snd s0) temp \<subseteq> own_pages own (fst s2)" by (simp add: keeps_set_def)
  have wf: "well_formed_image (snd s0) temp n" using image by (simp add: loadable_def)
  have "in_range temp n (temp + of_nat d)" if "d < unat n" for d
  proof -
    have "d < 2 ^ 64" using that unsigned_less [of n, where ?'a = nat] by simp
    then show ?thesis using that by (simp add: in_range_def word_less_nat_alt unsigned_of_nat take_bit_nat_eq_self)
  qed
  then have same: "same_image temp n (snd s0) (snd s1)"
    using kernel_read_owned [OF fw read] alloc'(4) unfolding same_image_def by blast
  note same' = image_same [OF same wf]
  assume p: "p \<in> set (load_segments (snd s0) temp)" "t < p_memsz p"
  have "in_segment p (p_vaddr p + t)" using p(2) by (simp add: in_segment_def)
  then have mine: "p_vaddr p + t \<in> kernel_pages (snd s0) temp" using segments_in_pages [OF image range p(1)] by (simp add: pages)
  have "snd s2 (p_vaddr p + t) = CopyLoadSegments (uefi_lib efi) temp (snd s1) (p_vaddr p + t)"
    using kept mine own by (simp add: keeps_set_def)
  also have "\<dots> = segment_byte (snd s1) temp p (p_vaddr p + t)"
    using segment_placed [OF lib same'(4), of p t] p by (simp add: same'(3) segment_byte_def)
  also have "\<dots> = segment_byte (snd s0) temp p (p_vaddr p + t)"
    by (rule segment_byte_same [OF same]) (use wf p(1) in \<open>simp add: well_formed_image_def\<close>)
  finally show "p_vaddr p + t \<in> kernel_pages (snd s0) temp \<and>
      snd s2 (p_vaddr p + t) = (if t < p_filesz p then snd s0 (temp + p_offset p + t) else 0)"
    using mine by (simp add: segment_byte_def)
qed

section \<open>Properties\<close>

text \<open>
  C3. The boot loader hands over to the kernel. Suppose \<open>CopyMem\<close> and \<open>SetMem\<close> do what they are for; the
  firmware keeps what it has allocated (it gives the loader's image, pages and pool buffers to nobody else
  and writes them only where the loader passes a buffer; other memory it may change as it likes); the
  buffer for the memory map is part of the loader's image; and the kernel file, wherever it is read to, is
  an image that can be loaded. When the loader jumps, the last thing it did was a call of ExitBootServices
  with the key of the map it passes on that the firmware accepted, the frame buffer it passes on is the
  firmware's, in a format the kernel draws in, and every segment of the file as it was read is in memory
  with its bytes followed by zeros. Where the first address of the kernel is that of a segment that
  begins with the file header, the address jumped to is the entry point of the file.
\<close>

theorem UefiMain_enters_loaded_kernel:
  assumes "base_memory_lib (uefi_lib efi)" and "firmware_keeps_allocated efi own"
    and "Collect (in_range memmap_buf (4096 * 4)) \<subseteq> own_image own"
    and "\<forall>temp n s. kernel_read efi info_buf temp n s \<longrightarrow> loadable (snd s) temp n"
    and "UefiMain efi memmap_buf info_buf h s = Some (Entered e config memmap, s')"
  shows "accepted efi h memmap s' \<and>
    (\<exists>gop s1. frame_buffer_config (gop_Mode efi gop s1) = Some config) \<and>
    (\<exists>temp n fw m. kernel_read efi info_buf temp n (fw, m) \<and>
       (\<forall>p \<in> set (load_segments m temp).
          (\<forall>t < p_memsz p. snd s' (p_vaddr p + t) = (if t < p_filesz p then m (temp + p_offset p + t) else 0)) \<and>
          (p_vaddr p = fst (CalcLoadAddressRange m temp) \<longrightarrow> p_offset p = 0 \<longrightarrow> 32 \<le> p_filesz p \<longrightarrow>
             e = e_entry (load_ehdr m temp))))"
proof -
  from UefiMain_Entered [OF assms(5)] obtain temp n first s0 s1 s2 memmap0 status
    where gop: "\<exists>gop s1. frame_buffer_config (gop_Mode efi gop s1) = Some config"
      and loaded: "kernel_loaded efi info_buf temp n first s0 s1 s2" and e: "e = entry_addr (snd s') first"
      and buf: "mmap_buffer memmap0 = memmap_buf" "mmap_buffer_size memmap0 = 4096 * 4" and ok: "\<not> EFI_ERROR efi status"
      and exit': "ExitBootServicesWithRetry efi h memmap0 s2 = ((status, memmap), s')" by blast
  let ?K = "kernel_pages (snd s0) temp"
  have read: "kernel_read efi info_buf temp n s0" using loaded by (simp add: kernel_loaded_def)
  with assms(4) have image: "loadable (snd s0) temp n" by blast
  note place = kernel_loaded_in_place [OF assms(1,2) loaded image]
  have "?K \<inter> Collect (in_range (mmap_buffer memmap0) (mmap_buffer_size memmap0)) = {}"
    using place(3) assms(3) unfolding buf by blast
  from ExitBootServicesWithRetry_keeps [OF assms(2) this, of s2 h] have kept: "keeps_set own ?K s2 s'" by (simp add: exit')
  have placed: "snd s' (p_vaddr p + t) = (if t < p_filesz p then snd s0 (temp + p_offset p + t) else 0)"
    if "p \<in> set (load_segments (snd s0) temp)" "t < p_memsz p" for p t
    using place(4) [OF that] kept place(2) by (simp add: keeps_set_def)
  have entry: "e = e_entry (load_ehdr (snd s0) temp)"
    if p: "p \<in> set (load_segments (snd s0) temp)" "p_vaddr p = fst (CalcLoadAddressRange (snd s0) temp)"
      "p_offset p = 0" "32 \<le> p_filesz p" for p
  proof -
    have t: "t < p_filesz p" "t < p_memsz p" if "t < 32" for t
    proof -
      show "t < p_filesz p" using that p(4) by (rule less_le_trans)
      also have "p_filesz p \<le> p_memsz p" using image p(1) by (simp add: loadable_def well_formed_image_def)
      finally show "t < p_memsz p" .
    qed
    have "first = p_vaddr p" using place(1) p(2) by simp
    moreover have "snd s' (p_vaddr p + t) = snd s0 (temp + t)" if "t < 32" for t
      using placed [OF p(1) t(2) [OF that]] t(1) [OF that] p(3) by simp
    ultimately show ?thesis unfolding e by (metis entry_addr_header)
  qed
  have "kernel_read efi info_buf temp n (fst s0, snd s0)" using read by simp
  then show ?thesis using ExitBootServicesWithRetry_accepted [OF exit' ok] gop placed entry by (intro conjI; blast)
qed

text \<open>
  A firmware for which this happens: \<open>True\<close> for its page allocated, and the key of the memory map, which an
  allocation changes, so that the first \<open>ExitBootServices\<close> fails. It reads the sample image to its one buffer, and
  when it allocates the page it writes other memory of its own.
\<close>

definition sample_file :: "u64 \<Rightarrow> mem \<Rightarrow> mem" where
  "sample_file buf m a = (if a - buf < 0x80 then sample_image (0x1000 + (a - buf)) else m a)"

definition sample_efi :: "(bool \<times> u64) Uefi" where
  "sample_efi = \<lparr>EFI_ERROR = (\<lambda>st. st \<noteq> 0), EFI_SUCCESS = 0, EFI_BUFFER_TOO_SMALL = 5,
     gBS_OpenProtocol = (\<lambda>_ _ _ s. ((0, 7), s)), gBS_LocateHandleBuffer = (\<lambda>_ s. ((0, [7]), s)),
     gBS_GetMemoryMap = (\<lambda>_ _ s. ((0, 0x30, snd (fst s), 0x30, 1), s)),
     gBS_ExitBootServices = (\<lambda>_ key s. (if key = snd (fst s) then 0 else 1, s)),
     gBS_AllocatePool = (\<lambda>n s. if n \<le> 0x80 then ((0, 0x1000), ((fst (fst s), snd (fst s) + 1), snd s)) else ((1, 0), s)),
     gBS_AllocatePages = (\<lambda>n addr s. if addr = 0x100000 \<and> n = 1 \<and> \<not> fst (fst s)
       then ((0, addr), ((True, snd (fst s) + 1), \<lambda>a. if in_pages 0x100000 1 a \<or> 0xA00000 \<le> a then 0xEE else snd s a)) else ((1, 0), s)),
     gBS_FreePool = (\<lambda>_ s. (0, s)), lib_FreePool = (\<lambda>_ s. s), loaded_image_DeviceHandle = (\<lambda>_ _. 7),
     fs_OpenVolume = (\<lambda>_ s. ((0, 8), s)), file_Open = (\<lambda>_ _ _ s. ((0, 9), s)), file_Close = (\<lambda>_ s. (0, s)),
     file_Write = (\<lambda>_ _ s. (0, s)), file_GetInfo = (\<lambda>_ _ _ _ s. (0, s)),
     file_Read = (\<lambda>_ _ buf s. (0, (fst s, sample_file buf (snd s)))),
     gop_Mode = (\<lambda>_ _. \<lparr>gop_FrameBufferBase = 0x80000000, gop_PixelsPerScanLine = 1024, gop_HorizontalResolution = 1024,
       gop_VerticalResolution = 768, gop_PixelFormat = PixelBlueGreenRedReserved8BitPerColor\<rparr>),
     lib_AsciiSPrint = (\<lambda>_ _ _ _ _ _. []), sizeof_EFI_FILE_INFO = 80, file_info_FileSize = (\<lambda>_ _. 0x80), uefi_lib = sample_lib\<rparr>"

definition sample_owner :: "(bool \<times> u64) Owner" where
  "sample_owner = \<lparr>own_image = Collect (in_range 0x8000 0x4000),
     own_pages = (\<lambda>fw. if fst fw then Collect (in_pages 0x100000 1) else {}),
     own_pool = (\<lambda>_ p. if p = 0x1000 then Collect (in_range 0x1000 0x80) else {})\<rparr>"

lemma sample_apart:
  assumes "in_pages 0x100000 1 x"
  shows "\<not> in_range 0x8000 0x4000 x" and "\<not> in_range 0x1000 0x80 x"
proof -
  define d where "d = x - 0x100000"
  have d: "unat d < 0x1000" using assms by (simp add: in_pages_def d_def)
  have "unat (0xF8000 + d) = 0xF8000 + unat d" "unat (0xFF000 + d) = 0xFF000 + unat d"
    using d by (simp_all add: unat_word_ariths)
  moreover have "x - 0x8000 = 0xF8000 + d" "x - 0x1000 = 0xFF000 + d" by (simp_all add: d_def)
  ultimately show "\<not> in_range 0x8000 0x4000 x" "\<not> in_range 0x1000 0x80 x"
    by (simp_all add: in_range_def word_less_nat_alt)
qed

lemma sample_low: "in_range 0x1000 0x80 x \<Longrightarrow> \<not> 0xA00000 \<le> x"
  unfolding in_range_def by unat_arith

lemma sample_keeps_allocated: "firmware_keeps_allocated sample_efi sample_owner"
  unfolding firmware_keeps_allocated_def
proof (intro conjI allI impI)
  fix n status p and s s' :: "(bool \<times> u64) machine"
  assume "gBS_AllocatePool sample_efi n s = ((status, p), s')" "\<not> EFI_ERROR sample_efi status"
  then have "p = 0x1000" "n \<le> 0x80" by (auto simp: sample_efi_def split: if_splits)
  then show "Collect (in_range p n) \<subseteq> own_pool sample_owner (fst s') p"
    by (auto simp: sample_owner_def in_range_def intro: less_le_trans)
next
  fix n addr status a p and s s' :: "(bool \<times> u64) machine"
  assume "gBS_AllocatePages sample_efi n addr s = ((status, a), s')" "\<not> EFI_ERROR sample_efi status"
  then have addr: "addr = 0x100000" "n = 1" "a = addr" "\<not> fst (fst s)" "fst (fst s')"
    and s': "snd s' = (\<lambda>a. if in_pages 0x100000 1 a \<or> 0xA00000 \<le> a then 0xEE else snd s a)"
    by (auto simp: sample_efi_def split: if_splits)
  show "a = addr" by (rule addr)
  show "Collect (in_pages addr n) \<subseteq> own_pages sample_owner (fst s')" using addr by (simp add: sample_owner_def)
  show "x \<notin> own_image sample_owner" "x \<notin> own_pages sample_owner (fst s)" "x \<notin> own_pool sample_owner (fst s) q"
    if "in_pages addr n x" for x q
    using that addr sample_apart [of x] by (simp_all add: sample_owner_def)
  show "\<forall>x \<in> own_pool sample_owner (fst s) p. snd s' x = snd s x"
    using sample_apart(2) sample_low by (auto simp: s' sample_owner_def)
qed (simp_all add: sample_efi_def sample_owner_def keeps_pages_def)

lemma sample_file_same: "same_image 0x1000 0x80 sample_image (sample_file 0x1000 m)"
  by (auto simp: same_image_def sample_file_def word_less_nat_alt unsigned_of_nat take_bit_nat_eq_self)

lemma sample_read:
  assumes "kernel_read sample_efi info temp n s"
  shows "temp = 0x1000" and "n = 0x80" and "same_image 0x1000 0x80 sample_image (snd s)"
  using assms sample_file_same by (auto simp: kernel_read_def sample_efi_def)

lemma sample_range:
  assumes "same_image 0x1000 0x80 sample_image m"
  shows "CalcLoadAddressRange m 0x1000 = (0x100000, 0x100100)"
  by (simp add: CalcLoadAddressRange_Min_Max image_same(3) [OF assms sample_well_formed] sample_segments seg_end_def)

lemma sample_loadable:
  assumes "kernel_read sample_efi info temp n s"
  shows "loadable (snd s) temp n"
  using image_same [OF sample_read(3) [OF assms] sample_well_formed]
  by (simp add: loadable_def sample_read(1,2) [OF assms] sample_segments)

lemma sample_boots:
  "\<exists>e config memmap s'. UefiMain sample_efi 0x8000 0x9000 1 ((False, 0), \<lambda>_. 0) = Some (Entered e config memmap, s')"
proof -
  have range: "CalcLoadAddressRange (sample_file 0x1000 m) 0x1000 = (0x100000, 0x100100)" for m
    by (rule sample_range [OF sample_file_same])
  have dump: "DumpMemoryMap sample_efi r \<lparr>mmap_buffer_size = 0x4000, mmap_buffer = 0x8000, mmap_map_size = 0x30,
      mmap_map_key = 0, mmap_descriptor_size = 0x30, mmap_descriptor_version = 1\<rparr> k s = k s" for r k s
    by (simp add: DumpMemoryMap_def SaveMemoryMap_def sample_efi_def HaltIfError_def Let_def save_descriptors.simps)
  have map': "GetMemorymap sample_efi \<lparr>mmap_buffer_size = 4096 * 4, mmap_buffer = 0x8000, mmap_map_size = 0,
      mmap_map_key = 0, mmap_descriptor_size = 0, mmap_descriptor_version = 0\<rparr> ((False, 0), \<lambda>_. 0) =
    ((0, \<lparr>mmap_buffer_size = 0x4000, mmap_buffer = 0x8000, mmap_map_size = 0x30,
      mmap_map_key = 0, mmap_descriptor_size = 0x30, mmap_descriptor_version = 1\<rparr>), ((False, 0), \<lambda>_. 0))"
    by (simp add: GetMemorymap_def sample_efi_def Let_def)
  have ok: "EFI_ERROR sample_efi st \<longleftrightarrow> st \<noteq> 0" for st by (simp add: sample_efi_def)
  have root: "OpenRootDir sample_efi h s = ((0, 8), s)" for h s by (simp add: OpenRootDir_def sample_efi_def Let_def)
  have gop: "OpenGOP sample_efi h s = Some ((0, 7), s)" for h s by (simp add: OpenGOP_def sample_efi_def Let_def)
  obtain config where config: "frame_buffer_config (gop_Mode sample_efi 7 s) = Some config" for s
    by (simp add: frame_buffer_config_def sample_efi_def Let_def)
  have load: "\<exists>m. LoadKernel sample_efi r b k ((False, 0), m0) = k 0x100000 ((True, 2), m)" for r b k m0
    unfolding LoadKernel_def Let_def
    by (rule exI) (simp add: HaltIfError_def ok, simp add: sample_efi_def range num_pages_def)
  have enter: "\<exists>e memmap s'. EnterKernel sample_efi 1 \<lparr>mmap_buffer_size = 0x4000, mmap_buffer = 0x8000, mmap_map_size = 0x30,
      mmap_map_key = 0, mmap_descriptor_size = 0x30, mmap_descriptor_version = 1\<rparr> config 0x100000 ((True, 2), m) =
        Some (Entered e config memmap, s')" for m
  proof -
    have again: "GetMemorymap sample_efi \<lparr>mmap_buffer_size = 0x4000, mmap_buffer = 0x8000, mmap_map_size = 0x30,
        mmap_map_key = 0, mmap_descriptor_size = 0x30, mmap_descriptor_version = 1\<rparr> ((True, 2), m) =
      ((0, \<lparr>mmap_buffer_size = 0x4000, mmap_buffer = 0x8000, mmap_map_size = 0x30,
        mmap_map_key = 2, mmap_descriptor_size = 0x30, mmap_descriptor_version = 1\<rparr>), ((True, 2), m))"
      by (simp add: GetMemorymap_def sample_efi_def Let_def)
    have exit': "gBS_ExitBootServices sample_efi h key s = (if key = snd (fst s) then 0 else 1, s)" for h key s
      by (simp add: sample_efi_def)
    show ?thesis
      by (intro exI [of _ "entry_addr m 0x100000"] exI)
        (simp add: EnterKernel_def ExitBootServicesWithRetry_def HaltIfError_def ok exit' again Let_def)
  qed
  show ?thesis
    using load [of 8 "0x9000"] enter
    by (simp add: UefiMain_def StartKernel_def Let_def map' [simplified] root dump gop config HaltIfError_def ok) (metis (no_types))
qed

theorem UefiMain_enters_loaded_kernel_witness:
  "\<exists>config memmap s'. UefiMain sample_efi 0x8000 0x9000 1 ((False, 0), \<lambda>_. 0) = Some (Entered 0x100078 config memmap, s') \<and>
     accepted sample_efi 1 memmap s' \<and> snd s' 0x100090 = 0"
proof -
  from sample_boots obtain e config memmap s'
    where run: "UefiMain sample_efi 0x8000 0x9000 1 ((False, 0), \<lambda>_. 0) = Some (Entered e config memmap, s')" by blast
  have lib: "base_memory_lib (uefi_lib sample_efi)" using sample_lib_ok by (simp add: sample_efi_def)
  have image: "Collect (in_range 0x8000 (4096 * 4)) \<subseteq> own_image sample_owner" by (simp add: sample_owner_def)
  from UefiMain_enters_loaded_kernel [OF lib sample_keeps_allocated image _ run] sample_loadable obtain temp n fw m
    where ok: "accepted sample_efi 1 memmap s'" and read: "kernel_read sample_efi 0x9000 temp n (fw, m)"
      and segs: "\<forall>p \<in> set (load_segments m temp).
          (\<forall>t < p_memsz p. snd s' (p_vaddr p + t) = (if t < p_filesz p then m (temp + p_offset p + t) else 0)) \<and>
          (p_vaddr p = fst (CalcLoadAddressRange m temp) \<longrightarrow> p_offset p = 0 \<longrightarrow> 32 \<le> p_filesz p \<longrightarrow>
             e = e_entry (load_ehdr m temp))"
    by blast
  have same: "same_image 0x1000 0x80 sample_image m" using sample_read(3) [OF read] by simp
  let ?p = "hd (load_segments sample_image 0x1000)"
  have "?p \<in> set (load_segments m temp)"
    using image_same(3) [OF same sample_well_formed] by (simp add: sample_read(1) [OF read] sample_segments)
  with segs have "\<forall>t < p_memsz ?p. snd s' (p_vaddr ?p + t) = (if t < p_filesz ?p then m (temp + p_offset ?p + t) else 0)"
    "p_vaddr ?p = fst (CalcLoadAddressRange m temp) \<longrightarrow> p_offset ?p = 0 \<longrightarrow> 32 \<le> p_filesz ?p \<longrightarrow> e = e_entry (load_ehdr m temp)"
    by blast+
  from this(1) [THEN spec, of "0x90"] this(2) have "e = 0x100078" "snd s' 0x100090 = 0"
    using image_same(1) [OF same sample_well_formed] sample_range [OF same]
    by (simp_all add: sample_read(1) [OF read] sample_segments sample_header)
  with run ok show ?thesis by blast
qed

end
