(* ===== verification/Spec2Isabelle.thy ===== *)
theory Spec2Isabelle
  imports Startup Pointer BootLoader
begin

text \<open>
  Verification of tommyOS: the UEFI boot loader \<open>BootLoaderPkg\<close> and the x86-64 \<open>kernel\<close> it starts.

  \<^bold>\<open>The program.\<close> The loader (\<open>Main.c\<close>) reads the memory map, finds the frame buffer, loads the
  segments of \<open>kernel.elf\<close>, ends the boot services and jumps to the kernel with the frame buffer's
  configuration and the memory map. \<open>KernelMainNewStack\<close> (\<open>main/main.cpp\<close>) then makes a console on the
  frame buffer, loads segments and an identity page table, fills the frame allocator from the
  memory map and gives the C library its heap, scans the PCI bus, installs the interrupt handler,
  starts the xHCI host controller, makes a desktop of windows and layers, and enters a loop that
  takes messages from a queue the interrupt handler fills. Each message stands for events of
  the controller: port changes, finished commands and finished transfers, which configure the
  attached devices and in the end move the mouse cursor or type on the console.

  \<^bold>\<open>Theories, from the bottom up.\<close>
  \<^item> \<open>Prelude\<close>: machine words, C bit-fields, undefined behaviour as \<open>None\<close>, counted loops, byte
    memory; the collections of rewrite rules and case splits the components share.
  \<^item> \<open>KernelError\<close> (\<open>error.hpp\<close>) and \<open>KernelQueue\<close> (\<open>queue/queue.hpp\<close>): error values; the bounded
    FIFO. Locale \<open>bounded_queue\<close> states what its client relies on, and \<open>ArrayQueue\<close> provides it.
  \<^item> \<open>MemoryManager\<close> (\<open>memory_manager\<close>, \<open>newlib_support.c\<close>, \<open>libcxx_support.cpp\<close>): the bitmap of frames,
    first-fit allocation and freeing, the heap and \<open>sbrk\<close>. \<open>MemoryMap\<close> (\<open>memory_map\<close>, \<open>main.cpp\<close>):
    the UEFI memory map and the frames the allocator offers after boot.
  \<^item> \<open>Descriptors\<close> (\<open>segment\<close>, \<open>interrupt\<close>, \<open>paging\<close>, \<open>x86_descriptor.hpp\<close>): segment descriptors, gates
    and page tables with the processor's reading of them, and the way of an interrupt to its handler.
  \<^item> \<open>Graphics\<close>, \<open>Window\<close>, \<open>Glyphs\<close>, \<open>Layer\<close>, \<open>Console\<close>, \<open>Logger\<close>, \<open>Desktop\<close>, \<open>Session\<close> (the directories of
    these names, \<open>frame_buffer\<close>, \<open>font\<close>, \<open>mouse\<close>, \<open>logger.cpp\<close> and \<open>main.cpp\<close>): writers of pixels, the drawing
    routines and what they paint, windows and the layers that are stacked on the screen, the text
    console, the log, the picture the kernel starts with, and the screen while mouse reports and log
    messages arrive. Locale \<open>pixel_surface\<close> is the interface
    of a \<open>PixelWriter\<close>; its laws hold of the frame buffer (\<open>fb\<close>), of a window (\<open>win\<close>) and of the
    desktop's window among the others (\<open>desk\<close>), so everything that draws is proved once.
  \<^item> \<open>Pci\<close> (\<open>pci\<close>, \<open>main.cpp\<close>): configuration space, the recursive scan, BARs, capabilities, MSI and the
    choice of the host controller.
  \<^item> \<open>UsbMemory\<close> (\<open>usb/memory\<close>, \<open>usb/arraymap.hpp\<close>): the pool for the controller's structures and the
    map of pending requests, locale \<open>request_map\<close>. \<open>Registers\<close>, \<open>Trb\<close>, \<open>Ring\<close> (\<open>register.hpp\<close>,
    \<open>usb/xhci/registers\<close>, \<open>trb\<close>, \<open>context.hpp\<close>, \<open>ring\<close>): the controller's registers as bit-field layouts, the
    transfer request blocks, the contexts, the command, transfer and event rings.
  \<^item> \<open>UsbDescriptors\<close>, \<open>UsbDevice\<close> (\<open>usb/descriptor.hpp\<close>, \<open>setupdata.hpp\<close>, \<open>device\<close>, \<open>xhci/device\<close>,
    \<open>classdriver\<close>): descriptors and the reader that walks them, a device with its initialisation
    phases and transfers, the keyboard and mouse drivers; \<open>HidReports\<close>: those drivers as reports come
    in one after the other; \<open>Pointer\<close>: the mouse from its reports to the screen. \<open>DevMgr\<close> and \<open>Xhci\<close> (\<open>xhci/port\<close>, \<open>devmgr\<close>,
    \<open>xhci\<close>): ports, the table of devices, the controller object and its handling of events.
    \<open>XhciProtocol\<close>: the abstract machine over the phases of the ports that this code implements.
  \<^item> \<open>MainLoop\<close> (\<open>main.cpp\<close>): the interrupt handler, the start of the controller and the main loop as
    a step relation whose steps are the single accesses to the queue and the \<open>cli\<close>, \<open>sti\<close> and \<open>hlt\<close>
    between them, with the interrupt flag, the shadow of \<open>sti\<close> and the interrupts in service.
  \<^item> \<open>Startup\<close> (\<open>main.cpp\<close>): the start of the kernel in one memory, from the console on the frame buffer
    to the greeting, and the desktop after it.
  \<^item> \<open>Elf\<close>, \<open>BootLoader\<close> (\<open>BootLoaderPkg\<close>): the kernel image, its loading, and \<open>UefiMain\<close>.

  \<^bold>\<open>How the model corresponds to the code.\<close> A struct or class is a record with the source's members; an
  enumeration is a datatype with a function to its numbers where they matter; a member function is a
  function from the object to the object. Integers have their width, with the wrap-around of the code;
  coordinates of type \<open>int\<close> are integers with the overflow, which is undefined, made explicit. A
  definition returns \<open>None\<close> where the code is undefined or does not return: an access outside an array,
  a null pointer, a loop that goes on for ever. That it returns is therefore part of what is
  proved. Errors of the kernel are the values \<open>Code\<close> and stay values. Pointers to objects are indices
  into stores (layers, windows, devices, writers); memory that hardware shares is a function from
  addresses to bytes, or for rings and contexts to words.

  \<^bold>\<open>What is proved.\<close> The numbered claims are in the theories of their components.
  \<^item> Boot: the segments of the kernel file are in memory, the firmware accepted the end of its services
    with the map that is passed on, and the loader jumps to the file's entry point
    (\<open>BootLoader\<close>, \<open>Elf\<close>); the start of the kernel returns with its messages on the desktop
    (\<open>Startup\<close>); after the memory set-up the allocator offers exactly the available frames
    less the heap (\<open>MemoryMap\<close>); the first 64 GiB are mapped to themselves and an interrupt of the
    controller reaches its handler (\<open>Descriptors\<close>); the search of the buses finds the USB host controller
    wherever it is, if the table of devices does not overflow (\<open>Pci\<close>).
  \<^item> Data structures against their abstract meaning: the queue is a bounded list, the
    allocator is first-fit and \<open>Free\<close> undoes it, rings are FIFOs between driver and controller
    through their wrap and cycle bit, the operations of a port change no bit of its register but their own
    (\<open>DevMgr\<close>), the request map is a finite map, the console is a terminal, layers
    show the topmost opaque pixel, and after any sequence of mouse reports and log messages the screen
    shows what those add up to (\<open>Session\<close>).
  \<^item> Protocols: every event handler of the controller is a sequence of steps of the port machine, at most
    one port is addressed at a time, devices go through their phases in order, a control transfer
    completes the request it was filed under, and the reports of a keyboard or mouse reach its
    observers in order, however many come (\<open>HidReports\<close>), where those of a mouse move the cursor
    (\<open>Pointer\<close>).
  \<^item> The whole: the kernel is never halted with an event in the ring unless an interrupt that will wake
    it is requested, enabled and not held back by the local APIC, whatever interrupts came between the
    \<open>cli\<close>, the test of the queue, \<open>sti\<close> and \<open>hlt\<close>; the queue between handler and main loop cannot overflow
    its buffer; and from every state with an event the kernel is in the loop over the events after at most
    ten steps of its own, counting every access to the queue and every \<open>cli\<close>, \<open>sti\<close> and \<open>hlt\<close>. Both hold
    of runs that begin with a successful \<open>Initialize\<close> of the controller.
  \<^item> Errors: the inputs on which the code leaves its arrays or never returns are theorems of their own
    (a memory map above 128 GiB, a descriptor of length zero, a layer below the screen, a list
    of capabilities that does not end).

  \<^bold>\<open>Loops.\<close> Loops with a fixed count are folds. \<open>ScanBus\<close> and \<open>copy_segments\<close> have measures; the scan of
  buses counts down a depth of 33, which is never used up, since every level adds a device to a
  table of 32 (\<open>ScanBus_depth_returns\<close>). Loops that end only if memory or hardware lets them (allocation, the
  memory map, capability lists, busy waiting for a register, walking descriptors) are partial
  functions whose value is \<open>None\<close> when they do not end.

  \<^bold>\<open>What is assumed of the environment.\<close> The port instructions (\<open>PortIO\<close>), register accesses
  (\<open>Mmio\<close>) and firmware services (\<open>Uefi\<close>) are arguments. Hypotheses on them are named
  definitions: \<open>config_space\<close> (selecting and reading a register changes none), \<open>base_memory_lib\<close> (\<open>CopyMem\<close>
  and \<open>SetMem\<close>), \<open>firmware_keeps_allocated\<close> (the firmware gives memory it has given to the loader to nobody else and
  writes it only through a buffer the loader passes), \<open>port_register\<close> (how a port's PORTSC takes a write and ends
  a reset), \<open>announced\<close> (the
  controller requests an interrupt when it puts an event into an empty ring), \<open>valid_event\<close> (a port
  status event does not name port 0), \<open>report_events\<close> (an event for a report names the request that was
  made for it). Each claim that has such a hypothesis has a witness with a
  concrete environment.

  \<^bold>\<open>Not modelled.\<close> The assembly of \<open>pci/asmfunc.asm\<close>, whose instructions are the arguments just named or
  values a definition returns; exhaustion of the heap where windows, layers and the desktop's console are
  allocated (the memory pool of the USB driver, which can run out, is modelled); what the kernel does after
  \<open>Initialize\<close> of the controller has failed; the text of log messages, which arrives formatted, and what the loader
  prints; the glyphs, which the build makes from a text file (a parameter); the build files, the font
  script and \<open>day01\<close>, a separate program. The middle of \<open>KernelMainNewStack\<close>, from the scan of the buses
  to the loop over the ports, is composed in \<open>Pci\<close> (\<open>ProbePci\<close>) and \<open>MainLoop\<close>, and the rest in \<open>Startup\<close>; the two share the messages of errors only, which are left out of the former.
\<close>

end
